(* ===== verification/Prelude.thy ===== *)
theory Prelude
  imports Main "HOL-Library.Word"
begin

text \<open>
  Shared vocabulary of the development: Rust's fixed-width integers as words, byte
  strings, the error values that stand for \<^verbatim>\<open>Result::Err\<close> and for panics, the
  little-endian view of byte lists, and the generic list lemmas the component theories
  rest on.  \<open>usize\<close> values (lengths, offsets) are natural numbers; where an offset
  computation can exceed the 64-bit range the definitions say so explicitly.
\<close>

unbundle bit_operations_syntax

type_synonym u8 = "8 word"
type_synonym u16 = "16 word"
type_synonym u32 = "32 word"
type_synonym u64 = "64 word"
type_synonym i32 = "32 word"
type_synonym i64 = "64 word"
type_synonym bytes = "u8 list"

text \<open>An \<^verbatim>\<open>f32\<close> is its IEEE-754 bit pattern.\<close>

type_synonym f32 = "32 word"

text \<open>
  \<open>Err msg\<close> is an error returned to the caller (\<^verbatim>\<open>anyhow\<close>, \<^verbatim>\<open>io::Error\<close>,
  \<^verbatim>\<open>String\<close>); \<open>Panic msg\<close> is an unwinding panic (index out of range, failed
  \<^verbatim>\<open>assert!\<close>, arithmetic overflow).
\<close>

datatype rust_error = Err string | Panic string

type_synonym 'a result = "rust_error + 'a"

named_theorems byte_simps \<open>length and value of byte encodings\<close>
named_theorems rust_defs \<open>definitions that component proofs unfold together\<close>

section \<open>Result values\<close>

definition bind_result :: "'a result \<Rightarrow> ('a \<Rightarrow> 'b result) \<Rightarrow> 'b result" where
  "bind_result r k = (case r of Inl e \<Rightarrow> Inl e | Inr x \<Rightarrow> k x)"

lemma bind_result_simps [simp]:
  "bind_result (Inl e) k = Inl e"
  "bind_result (Inr x) k = k x"
  by (simp_all add: bind_result_def)

lemma bind_result_Inr [simp]:
  "bind_result r k = Inr y \<longleftrightarrow> (\<exists>x. r = Inr x \<and> k x = Inr y)"
  by (cases r) auto

lemma isl_bind_result: "isl (bind_result r k) \<longleftrightarrow> isl r \<or> isl (k (projr r))"
  by (cases r) auto

section \<open>Little-endian byte lists\<close>

fun le_bytes :: "nat \<Rightarrow> nat \<Rightarrow> bytes" where
  "le_bytes 0 v = []"
| "le_bytes (Suc n) v = word_of_nat (v mod 256) # le_bytes n (v div 256)"

fun le_val :: "bytes \<Rightarrow> nat" where
  "le_val [] = 0"
| "le_val (b # bs) = unat b + 256 * le_val bs"

definition be_val :: "bytes \<Rightarrow> nat" where
  "be_val bs = le_val (rev bs)"

lemma unat_u8_less [simp]: "unat (b :: u8) < 256"
  using unsigned_less [of b] by simp

lemma unat_of_nat_mod256 [simp]: "unat (word_of_nat (v mod 256) :: u8) = v mod 256"
  by (simp add: unat_of_nat)

lemma length_le_bytes [simp, byte_simps]: "length (le_bytes n v) = n"
  by (induction n arbitrary: v) auto

lemma le_val_le_bytes [byte_simps]: "le_val (le_bytes n v) = v mod 256 ^ n"
proof (induction n arbitrary: v)
  case (Suc n)
  have "v mod (256 * 256 ^ n) = 256 * (v div 256 mod 256 ^ n) + v mod 256"
    by (rule mod_mult2_eq)
  with Suc show ?case by simp
qed simp

lemma le_bytes_le_val [simp, byte_simps]: "le_bytes (length bs) (le_val bs) = bs"
  by (induction bs) auto

lemma le_val_bound: "le_val bs < 256 ^ length bs"
proof (induction bs)
  case (Cons b bs)
  have "unat b + 256 * le_val bs < 256 + 256 * le_val bs" by simp
  also have "\<dots> \<le> 256 * 256 ^ length bs" using Cons by (metis Suc_leI mult_Suc_right mult_le_mono2)
  finally show ?case by simp
qed simp

lemma le_val_append: "le_val (as @ bs) = le_val as + 256 ^ length as * le_val bs"
  by (induction as) (auto simp: algebra_simps)

lemma le_val_replicate_0 [simp]: "le_val (replicate n 0) = 0"
  by (induction n) auto

lemma le_val_pad [simp]: "le_val (bs @ replicate n 0) = le_val bs"
  by (simp add: le_val_append)

lemma le_val_inj: "length as = length bs \<Longrightarrow> le_val as = le_val bs \<Longrightarrow> as = bs"
  by (metis le_bytes_le_val)

lemma be_val_rev [simp]: "be_val (rev bs) = le_val bs"
  by (simp add: be_val_def)

lemma be_val_bound: "be_val bs < 256 ^ length bs"
  using le_val_bound [of "rev bs"] by (simp add: be_val_def)

lemma le_bytes_split:
  "le_bytes (m + n) v = le_bytes m v @ le_bytes n (v div 256 ^ m)"
  by (induction m arbitrary: v) (auto simp: div_mult2_eq)

section \<open>Words as bytes\<close>

definition to_le_bytes :: "'a::len word \<Rightarrow> bytes" where
  "to_le_bytes w = le_bytes (LENGTH('a) div 8) (unat w)"

definition from_le_bytes :: "bytes \<Rightarrow> 'a::len word" where
  "from_le_bytes bs = word_of_nat (le_val bs)"

lemma length_to_le_bytes [simp, byte_simps]:
  "length (to_le_bytes (w :: 'a::len word)) = LENGTH('a) div 8"
  by (simp add: to_le_bytes_def)

lemma from_to_le_bytes [simp, byte_simps]:
  assumes "8 dvd LENGTH('a)"
  shows "from_le_bytes (to_le_bytes (w :: 'a::len word)) = w"
proof -
  obtain k where k: "LENGTH('a) = 8 * k" using assms by (elim dvdE)
  have "(256::nat) ^ k = 2 ^ LENGTH('a)" by (simp add: k power_mult)
  moreover have "unat w < 2 ^ LENGTH('a)" by (rule unsigned_less)
  ultimately have "unat w mod 256 ^ (LENGTH('a) div 8) = unat w" by (simp add: k)
  then show ?thesis by (simp add: from_le_bytes_def to_le_bytes_def le_val_le_bytes)
qed

lemma to_from_le_bytes:
  assumes "LENGTH('a) = 8 * length bs"
  shows "to_le_bytes (from_le_bytes bs :: 'a::len word) = bs"
proof -
  have "(256::nat) ^ length bs = 2 ^ LENGTH('a)" by (simp add: assms power_mult)
  then have "unat (word_of_nat (le_val bs) :: 'a word) = le_val bs"
    using le_val_bound [of bs] by (simp add: unat_of_nat)
  then show ?thesis by (simp add: from_le_bytes_def to_le_bytes_def assms)
qed

section \<open>Slices\<close>

text \<open>\<open>subslice i n bs\<close> is \<^verbatim>\<open>bs[i..i+n]\<close>, used where the range is known to fit.\<close>

definition subslice :: "nat \<Rightarrow> nat \<Rightarrow> 'a list \<Rightarrow> 'a list" where
  "subslice i n bs = take n (drop i bs)"

lemma length_subslice [simp]: "length (subslice i n bs) = min n (length bs - i)"
  by (simp add: subslice_def min.commute)

lemma subslice_append_left: "i + n \<le> length as \<Longrightarrow> subslice i n (as @ bs) = subslice i n as"
  by (simp add: subslice_def)

lemma subslice_append_right:
  "length as \<le> i \<Longrightarrow> subslice i n (as @ bs) = subslice (i - length as) n bs"
  by (simp add: subslice_def)

lemma subslice_all [simp]: "length bs = n \<Longrightarrow> subslice 0 n bs = bs"
  by (simp add: subslice_def)

section \<open>Words\<close>

lemma unat_u16_less [simp]: "unat (w :: u16) < 65536"
  using unsigned_less [of w] by simp

lemma unat_u32_less [simp]: "unat (w :: u32) < 4294967296"
  using unsigned_less [of w] by simp

lemma word_less_bit:
  fixes w :: "'a::len word"
  assumes "w < 2 ^ n" "bit w m"
  shows "m < n"
proof -
  have "take_bit n w = w"
  proof (cases "n < LENGTH('a)")
    case True
    then have "unat (2 ^ n :: 'a word) = 2 ^ n" using unat_of_nat [of "2 ^ n", where 'a = 'a] by simp
    then have "unat w < 2 ^ n" using assms(1) by (simp add: word_less_nat_alt)
    then show ?thesis by (simp add: word_unat_eq_iff unsigned_take_bit_eq take_bit_nat_eq_self)
  qed (simp add: take_bit_word_eq_self)
  then show ?thesis using assms(2) by (metis bit_take_bit_iff)
qed

lemma sum_list_update_nat:
  fixes f :: "'a \<Rightarrow> nat"
  assumes "finite A" "x \<in> A"
  shows "(\<Sum>y\<in>A. f y) = f x + (\<Sum>y\<in>A - {x}. f y)"
  using assms by (rule sum.remove)

end
