(* ===== verification/Rust_Std.thy ===== *)
theory Rust_Std
  imports Prelude
begin

text \<open>
  The part of Rust's standard library the sources use.  A Rust \<^verbatim>\<open>str\<close> is its UTF-8
  byte sequence, held as an Isabelle \<^typ>\<open>string\<close> whose characters are the bytes, so
  \<^verbatim>\<open>len()\<close> is \<^const>\<open>length\<close> and ASCII literals are written directly.  The theory
  defines UTF-8 decoding with replacement (\<^verbatim>\<open>String::from_utf8_lossy\<close>), trimming and
  splitting, decimal parsing and printing, hexadecimal printing, and equality of
  \<^verbatim>\<open>f32\<close> values, and proves the round trips and shape facts the components need.
\<close>

section \<open>Characters and bytes\<close>

definition byte_char :: "u8 \<Rightarrow> char" where
  "byte_char b = char_of (unat b)"

definition char_byte :: "char \<Rightarrow> u8" where
  "char_byte c = word_of_nat (of_char c)"

definition as_bytes :: "string \<Rightarrow> bytes" where
  "as_bytes s = map char_byte s"

definition str_of_bytes :: "bytes \<Rightarrow> string" where
  "str_of_bytes bs = map byte_char bs"

lemma of_char_nat_less [simp]: "(of_char c :: nat) < 256"
  by (rule nat_of_char_less_256)

lemma byte_char_char_byte [simp]: "byte_char (char_byte c) = c"
  by (simp add: byte_char_def char_byte_def unat_of_nat)

lemma char_byte_byte_char [simp]: "char_byte (byte_char b) = b"
  by (simp add: byte_char_def char_byte_def)

lemma as_bytes_simps [simp]:
  "as_bytes [] = []"
  "as_bytes (c # s) = char_byte c # as_bytes s"
  "as_bytes (s @ t) = as_bytes s @ as_bytes t"
  "length (as_bytes s) = length s"
  "as_bytes s = [] \<longleftrightarrow> s = []"
  by (simp_all add: as_bytes_def)

lemma str_of_bytes_as_bytes [simp]: "str_of_bytes (as_bytes s) = s"
  by (simp add: str_of_bytes_def as_bytes_def o_def)

lemma as_bytes_str_of_bytes [simp]: "as_bytes (str_of_bytes bs) = bs"
  by (simp add: str_of_bytes_def as_bytes_def o_def)

lemma as_bytes_inj [simp]: "as_bytes s = as_bytes t \<longleftrightarrow> s = t"
  by (metis str_of_bytes_as_bytes)

definition is_ascii :: "string \<Rightarrow> bool" where
  "is_ascii s \<longleftrightarrow> (\<forall>c \<in> set s. (of_char c :: nat) < 128)"

lemma is_ascii_simps [simp]:
  "is_ascii []"
  "is_ascii (c # s) \<longleftrightarrow> (of_char c :: nat) < 128 \<and> is_ascii s"
  by (auto simp: is_ascii_def)

definition to_ascii_lowercase :: "char \<Rightarrow> char" where
  "to_ascii_lowercase c =
     (let n = (of_char c :: nat) in if 65 \<le> n \<and> n \<le> 90 then char_of (n + 32) else c)"

definition to_ascii_uppercase :: "char \<Rightarrow> char" where
  "to_ascii_uppercase c =
     (let n = (of_char c :: nat) in if 97 \<le> n \<and> n \<le> 122 then char_of (n - 32) else c)"

section \<open>UTF-8 with replacement\<close>

text \<open>
  \<open>utf8_step bs\<close> looks at the front of a non-empty byte list: whether a well-formed
  character starts there, and how many bytes the character, or the longest ill-formed
  prefix that one U+FFFD replaces, takes.
\<close>

definition cont :: "u8 \<Rightarrow> bool" where
  "cont b \<longleftrightarrow> 0x80 \<le> b \<and> b \<le> 0xBF"

definition second_ok :: "u8 \<Rightarrow> u8 \<Rightarrow> bool" where
  "second_ok b0 b1 \<longleftrightarrow>
     (if b0 = 0xE0 then 0xA0 \<le> b1 \<and> b1 \<le> 0xBF
      else if b0 = 0xED then 0x80 \<le> b1 \<and> b1 \<le> 0x9F
      else if b0 = 0xF0 then 0x90 \<le> b1 \<and> b1 \<le> 0xBF
      else if b0 = 0xF4 then 0x80 \<le> b1 \<and> b1 \<le> 0x8F
      else cont b1)"

definition utf8_width :: "u8 \<Rightarrow> nat" where
  "utf8_width b =
     (if b < 0x80 then 1
      else if 0xC2 \<le> b \<and> b \<le> 0xDF then 2
      else if 0xE0 \<le> b \<and> b \<le> 0xEF then 3
      else if 0xF0 \<le> b \<and> b \<le> 0xF4 then 4 else 0)"

fun utf8_step :: "bytes \<Rightarrow> bool \<times> nat" where
  "utf8_step [] = (False, 0)"
| "utf8_step (b0 # bs) =
     (let w = utf8_width b0 in
      if w = 1 then (True, 1)
      else if w = 0 then (False, 1)
      else case bs of [] \<Rightarrow> (False, 1)
      | b1 # bs1 \<Rightarrow>
        if \<not> second_ok b0 b1 then (False, 1)
        else if w = 2 then (True, 2)
        else case bs1 of [] \<Rightarrow> (False, 2)
        | b2 # bs2 \<Rightarrow>
          if \<not> cont b2 then (False, 2)
          else if w = 3 then (True, 3)
          else case bs2 of [] \<Rightarrow> (False, 3)
          | b3 # _ \<Rightarrow> if cont b3 then (True, 4) else (False, 3))"

lemma utf8_step_pos: "bs \<noteq> [] \<Longrightarrow> 0 < snd (utf8_step bs)"
  by (cases bs) (auto simp: Let_def split: list.splits)

definition replacement :: bytes where
  "replacement = [0xEF, 0xBF, 0xBD]"

function utf8_lossy :: "bytes \<Rightarrow> bytes" where
  "utf8_lossy bs =
     (if bs = [] then []
      else (if fst (utf8_step bs) then take (snd (utf8_step bs)) bs else replacement)
           @ utf8_lossy (drop (snd (utf8_step bs)) bs))"
  by pat_completeness auto
termination
  by (relation "measure length") (auto simp: utf8_step_pos)

declare utf8_lossy.simps [simp del]

definition from_utf8_lossy :: "bytes \<Rightarrow> string" where
  "from_utf8_lossy bs = str_of_bytes (utf8_lossy bs)"

text \<open>\<^verbatim>\<open>b as char\<close> collected into a \<^verbatim>\<open>String\<close>: the byte as a Latin-1 code point.\<close>

definition latin1 :: "u8 \<Rightarrow> string" where
  "latin1 b = (if b < 0x80 then [byte_char b]
     else [byte_char (0xC0 OR drop_bit 6 b), byte_char (0x80 OR (b AND 0x3F))])"

lemma utf8_lossy_Nil [simp]: "utf8_lossy [] = []"
  by (simp add: utf8_lossy.simps)

lemma utf8_lossy_ascii [simp]: "b < 0x80 \<Longrightarrow> utf8_lossy (b # bs) = b # utf8_lossy bs"
  by (subst utf8_lossy.simps) (simp add: utf8_width_def Let_def)

lemma char_byte_ascii: "(of_char c :: nat) < 128 \<Longrightarrow> char_byte c < 0x80"
  by (simp add: char_byte_def word_less_nat_alt unat_of_nat)

lemma from_utf8_lossy_ascii [simp]: "is_ascii s \<Longrightarrow> from_utf8_lossy (as_bytes s) = s"
proof -
  assume "is_ascii s"
  then have "utf8_lossy (as_bytes s) = as_bytes s"
    by (induction s) (auto simp: char_byte_ascii)
  then show ?thesis by (simp add: from_utf8_lossy_def)
qed

section \<open>Whitespace\<close>

text \<open>The UTF-8 encodings of the code points with the Unicode property White\_Space.\<close>

definition ws_chars :: "string list" where
  "ws_chars = map (map char_of)
     ([[9], [10], [11], [12], [13], [32], [0xC2, 0x85], [0xC2, 0xA0], [0xE1, 0x9A, 0x80],
       [0xE2, 0x80, 0x80], [0xE2, 0x80, 0x81], [0xE2, 0x80, 0x82], [0xE2, 0x80, 0x83],
       [0xE2, 0x80, 0x84], [0xE2, 0x80, 0x85], [0xE2, 0x80, 0x86], [0xE2, 0x80, 0x87],
       [0xE2, 0x80, 0x88], [0xE2, 0x80, 0x89], [0xE2, 0x80, 0x8A], [0xE2, 0x80, 0xA8],
       [0xE2, 0x80, 0xA9], [0xE2, 0x80, 0xAF], [0xE2, 0x81, 0x9F], [0xE3, 0x80, 0x80]] :: nat list list)"

definition ws_len :: "string list \<Rightarrow> string \<Rightarrow> nat" where
  "ws_len ws s = (case find (\<lambda>w. take (length w) s = w) ws of None \<Rightarrow> 0 | Some w \<Rightarrow> length w)"

lemma ws_len_le: "ws_len ws s \<le> length s"
proof (cases "find (\<lambda>w. take (length w) s = w) ws")
  case (Some w)
  then have "take (length w) s = w" by (auto simp: find_Some_iff)
  then have "length w \<le> length s" by (metis length_take min.cobounded1)
  with Some show ?thesis by (simp add: ws_len_def)
qed (simp add: ws_len_def)

function strip_front :: "string list \<Rightarrow> string \<Rightarrow> string" where
  "strip_front ws s =
     (if ws_len ws s = 0 then s else strip_front ws (drop (ws_len ws s) s))"
  by pat_completeness auto
termination
proof (relation "measure (length \<circ> snd)")
  fix ws s assume "ws_len ws s \<noteq> 0"
  then show "((ws, drop (ws_len ws s) s), ws, s) \<in> measure (length \<circ> snd)"
    using ws_len_le [of ws s] by simp
qed simp

declare strip_front.simps [simp del]

definition trim :: "string \<Rightarrow> string" where
  "trim s = rev (strip_front (map rev ws_chars) (rev (strip_front ws_chars s)))"

definition plain_char :: "char \<Rightarrow> bool" where
  "plain_char c \<longleftrightarrow> 32 < (of_char c :: nat) \<and> (of_char c :: nat) < 128"

lemma hd_ws_chars: "w \<in> set ws_chars \<Longrightarrow> \<exists>c w'. w = c # w' \<and> \<not> plain_char c"
  by (auto simp: ws_chars_def plain_char_def)

lemma hd_rev_ws_chars: "w \<in> set (map rev ws_chars) \<Longrightarrow> \<exists>c w'. w = c # w' \<and> \<not> plain_char c"
  by (auto simp: ws_chars_def plain_char_def)

lemma strip_front_plain:
  assumes "\<And>w. w \<in> set ws \<Longrightarrow> \<exists>c w'. w = c # w' \<and> \<not> plain_char c"
    and "s = [] \<or> plain_char (hd s)"
  shows "strip_front ws s = s"
proof -
  have "find (\<lambda>w. take (length w) s = w) ws = None"
    unfolding find_None_iff
  proof clarify
    fix w assume "w \<in> set ws" and eq: "take (length w) s = w"
    with assms(1) obtain c w' where w: "w = c # w'" "\<not> plain_char c" by blast
    with eq assms(2) show False by (cases s) auto
  qed
  then have "ws_len ws s = 0" by (simp add: ws_len_def)
  then show ?thesis by (simp add: strip_front.simps)
qed

lemma trim_plain:
  assumes "s = [] \<or> plain_char (hd s) \<and> plain_char (last s)"
  shows "trim s = s"
proof -
  have "strip_front ws_chars s = s"
    using assms by (intro strip_front_plain hd_ws_chars) auto
  moreover have "strip_front (map rev ws_chars) (rev s) = rev s"
    using assms by (intro strip_front_plain hd_rev_ws_chars) (auto simp: hd_rev)
  ultimately show ?thesis by (simp add: trim_def)
qed

lemma trim_Nil [simp]: "trim [] = []"
  by (rule trim_plain) simp

text \<open>\<^verbatim>\<open>str::split_whitespace\<close>: the maximal runs of non-whitespace.\<close>

function split_ws :: "string \<Rightarrow> string \<Rightarrow> string list" where
  "split_ws acc [] = (if acc = [] then [] else [rev acc])"
| "split_ws acc (c # s) =
     (if ws_len ws_chars (c # s) = 0 then split_ws (c # acc) s
      else (if acc = [] then [] else [rev acc]) @ split_ws [] (drop (ws_len ws_chars (c # s)) (c # s)))"
  by pat_completeness auto
termination
proof (relation "measure (length \<circ> snd)")
  fix acc :: string and c s
  assume "ws_len ws_chars (c # s) \<noteq> 0"
  then show "(([], drop (ws_len ws_chars (c # s)) (c # s)), acc, c # s) \<in> measure (length \<circ> snd)"
    using ws_len_le [of ws_chars "c # s"] by simp
qed auto

definition split_whitespace :: "string \<Rightarrow> string list" where
  "split_whitespace s = split_ws [] s"

section \<open>Splitting\<close>

fun split_on :: "char \<Rightarrow> string \<Rightarrow> string list" where
  "split_on d [] = [[]]"
| "split_on d (c # s) =
     (if c = d then [] # split_on d s
      else case split_on d s of [] \<Rightarrow> [[c]] | p # ps \<Rightarrow> (c # p) # ps)"

lemma split_on_not_Nil [simp]: "split_on d s \<noteq> []"
  by (induction s) (auto split: list.splits)

lemma split_on_nodelim [simp]: "d \<notin> set s \<Longrightarrow> split_on d s = [s]"
  by (induction s) auto

lemma split_on_append [simp]:
  "d \<notin> set p \<Longrightarrow> split_on d (p @ d # s) = p # split_on d s"
  by (induction p) auto

text \<open>\<^verbatim>\<open>str::lines\<close>: split after each newline, then drop the newline and one
  carriage return before it; a last line without a newline keeps its carriage return.\<close>

definition newline :: char where "newline = CHR 0x0A"
definition carriage :: char where "carriage = CHR 0x0D"

definition drop_cr :: "string \<Rightarrow> string" where
  "drop_cr l = (if l \<noteq> [] \<and> last l = carriage then butlast l else l)"

definition lines :: "string \<Rightarrow> string list" where
  "lines s = (let ps = split_on newline s
     in map drop_cr (butlast ps) @ (if last ps = [] then [] else [last ps]))"

text \<open>\<^verbatim>\<open>str::find(c)\<close> followed by slicing on both sides of the match.\<close>

fun split_first :: "char \<Rightarrow> string \<Rightarrow> (string \<times> string) option" where
  "split_first d [] = None"
| "split_first d (c # s) =
     (if c = d then Some ([], s)
      else map_option (\<lambda>(a, b). (c # a, b)) (split_first d s))"

lemma split_first_Some: "split_first d s = Some (a, b) \<Longrightarrow> s = a @ d # b \<and> d \<notin> set a"
  by (induction s arbitrary: a) (auto split: if_splits)

lemma split_first_append [simp]: "d \<notin> set a \<Longrightarrow> split_first d (a @ d # b) = Some (a, b)"
  by (induction a) auto

section \<open>Decimal numbers\<close>

definition digit_val :: "char \<Rightarrow> nat option" where
  "digit_val c = (let n = (of_char c :: nat) in if 48 \<le> n \<and> n \<le> 57 then Some (n - 48) else None)"

definition digit_char :: "nat \<Rightarrow> char" where
  "digit_char d = char_of (48 + d)"

fun parse_digits :: "nat \<Rightarrow> string \<Rightarrow> nat option" where
  "parse_digits acc [] = Some acc"
| "parse_digits acc (c # s) =
     (case digit_val c of None \<Rightarrow> None | Some d \<Rightarrow> parse_digits (10 * acc + d) s)"

definition parse_nat :: "string \<Rightarrow> nat option" where
  "parse_nat s = (if s = [] then None else parse_digits 0 s)"

text \<open>\<^verbatim>\<open>str::parse::<u32>\<close> and \<^verbatim>\<open>str::parse::<i32>\<close>; \<open>None\<close> is \<^verbatim>\<open>Err\<close>.\<close>

definition parse_u32 :: "string \<Rightarrow> u32 option" where
  "parse_u32 s =
     (case parse_nat (if s \<noteq> [] \<and> hd s = CHR ''+'' then tl s else s) of
        None \<Rightarrow> None
      | Some n \<Rightarrow> if n < 2 ^ 32 then Some (word_of_nat n) else None)"

definition parse_i32 :: "string \<Rightarrow> i32 option" where
  "parse_i32 s =
     (if s \<noteq> [] \<and> hd s = CHR ''-'' then
        (case parse_nat (tl s) of None \<Rightarrow> None
         | Some n \<Rightarrow> if n \<le> 2 ^ 31 then Some (word_of_int (- int n)) else None)
      else
        (case parse_nat (if s \<noteq> [] \<and> hd s = CHR ''+'' then tl s else s) of None \<Rightarrow> None
         | Some n \<Rightarrow> if n < 2 ^ 31 then Some (word_of_nat n) else None))"

fun dec_str :: "nat \<Rightarrow> string" where
  "dec_str n = (if n < 10 then [digit_char n] else dec_str (n div 10) @ [digit_char (n mod 10)])"

declare dec_str.simps [simp del]

lemma digit_val_digit_char [simp]: "d < 10 \<Longrightarrow> digit_val (digit_char d) = Some d"
  by (simp add: digit_val_def digit_char_def)

lemma parse_digits_append:
  "parse_digits acc (s @ t) = (case parse_digits acc s of None \<Rightarrow> None | Some a \<Rightarrow> parse_digits a t)"
  by (induction s arbitrary: acc) (auto split: option.splits)

lemma parse_digits_dec_str [simp]: "parse_digits 0 (dec_str n) = Some n"
proof (induction n rule: dec_str.induct)
  case (1 n)
  show ?case
  proof (cases "n < 10")
    case True
    then show ?thesis by (subst dec_str.simps) simp
  next
    case False
    with 1 have "parse_digits 0 (dec_str (n div 10)) = Some (n div 10)" by simp
    with False show ?thesis by (subst dec_str.simps) (simp add: parse_digits_append)
  qed
qed

lemma dec_str_not_Nil [simp]: "dec_str n \<noteq> []"
  by (subst dec_str.simps) simp

lemma parse_nat_dec_str [simp]: "parse_nat (dec_str n) = Some n"
  by (simp add: parse_nat_def)

lemma set_dec_str: "c \<in> set (dec_str n) \<Longrightarrow> \<exists>d<10. c = digit_char d"
proof (induction n rule: dec_str.induct)
  case (1 n)
  show ?case
  proof (cases "n < 10")
    case True
    with "1.prems" show ?thesis by (subst (asm) dec_str.simps) auto
  next
    case False
    with "1.prems" have "c \<in> set (dec_str (n div 10)) \<or> c = digit_char (n mod 10)"
      by (subst (asm) dec_str.simps) auto
    moreover have "n mod 10 < 10" by simp
    ultimately show ?thesis using "1.IH" [OF False] by blast
  qed
qed

lemma dec_str_hd: "hd (dec_str n) \<noteq> CHR ''+'' \<and> hd (dec_str n) \<noteq> CHR ''-''"
proof -
  have "hd (dec_str n) \<in> set (dec_str n)" by simp
  then obtain d where "d < 10" "hd (dec_str n) = digit_char d" using set_dec_str by blast
  then have "digit_val (hd (dec_str n)) \<noteq> None" by simp
  then show ?thesis by (auto simp: digit_val_def)
qed

lemma parse_u32_dec_str: "parse_u32 (dec_str (unat (w :: u32))) = Some w"
  using dec_str_hd [of "unat w"] by (simp add: parse_u32_def)

section \<open>Hexadecimal numbers\<close>

definition hex_char :: "nat \<Rightarrow> char" where
  "hex_char d = char_of (if d < 10 then 48 + d else 55 + d)"

definition hex_val :: "char \<Rightarrow> nat option" where
  "hex_val c = (let n = (of_char c :: nat) in
     if 48 \<le> n \<and> n \<le> 57 then Some (n - 48)
     else if 65 \<le> n \<and> n \<le> 70 then Some (n - 55)
     else if 97 \<le> n \<and> n \<le> 102 then Some (n - 87) else None)"

text \<open>\<^verbatim>\<open>format!("{:02X}", b)\<close> of a byte.\<close>

definition hex02 :: "u8 \<Rightarrow> string" where
  "hex02 b = [hex_char (unat b div 16), hex_char (unat b mod 16)]"

fun hex_digits_val :: "nat \<Rightarrow> string \<Rightarrow> nat option" where
  "hex_digits_val acc [] = Some acc"
| "hex_digits_val acc (c # s) =
     (case hex_val c of None \<Rightarrow> None | Some d \<Rightarrow> hex_digits_val (16 * acc + d) s)"

text \<open>Upper-case hexadecimal without leading zeros, \<open>''0''\<close> for zero.\<close>

fun hex_str :: "nat \<Rightarrow> string" where
  "hex_str n = (if n < 16 then [hex_char n] else hex_str (n div 16) @ [hex_char (n mod 16)])"

declare hex_str.simps [simp del]

lemma hex_val_hex_char [simp]: "d < 16 \<Longrightarrow> hex_val (hex_char d) = Some d"
  by (auto simp: hex_val_def hex_char_def)

lemma hex_char_0: "hex_char 0 = CHR ''0''"
  by code_simp

lemma hex_digits_val_append:
  "hex_digits_val acc (s @ t) =
     (case hex_digits_val acc s of None \<Rightarrow> None | Some a \<Rightarrow> hex_digits_val a t)"
  by (induction s arbitrary: acc) (auto split: option.splits)

lemma hex_digits_val_hex_str [simp]: "hex_digits_val 0 (hex_str n) = Some n"
proof (induction n rule: hex_str.induct)
  case (1 n)
  show ?case
  proof (cases "n < 16")
    case True
    then show ?thesis by (subst hex_str.simps) simp
  next
    case False
    with 1 have "hex_digits_val 0 (hex_str (n div 16)) = Some (n div 16)" by simp
    with False show ?thesis by (subst hex_str.simps) (simp add: hex_digits_val_append)
  qed
qed

lemma hex_str_not_Nil [simp]: "hex_str n \<noteq> []"
  by (subst hex_str.simps) simp

lemma hex_digits_val_all: "hex_digits_val acc s = Some n \<Longrightarrow> c \<in> set s \<Longrightarrow> hex_val c \<noteq> None"
  by (induction s arbitrary: acc) (auto split: option.splits)

lemma hex_val_plain: "hex_val c \<noteq> None \<Longrightarrow> plain_char c"
  by (auto simp: hex_val_def plain_char_def Let_def split: if_splits)

lemma trim_hex:
  assumes "hex_digits_val acc s = Some n"
  shows "trim s = s"
proof (rule trim_plain, cases "s = []")
  case False
  have "plain_char c" if "c \<in> set s" for c
    using that hex_digits_val_all [OF assms] by (intro hex_val_plain)
  with False show "s = [] \<or> plain_char (hd s) \<and> plain_char (last s)" by simp
qed simp

lemma hex_digits_val_hex02:
  "hex_digits_val acc (concat (map hex02 bs)) = Some (acc * 256 ^ length bs + be_val bs)"
proof (induction bs arbitrary: acc)
  case (Cons b bs)
  have d: "unat b div 16 < 16"
    using unat_u8_less [of b] by (simp add: less_mult_imp_div_less)
  have "hex_digits_val acc (hex02 b @ concat (map hex02 bs))
      = hex_digits_val (16 * (16 * acc + unat b div 16) + unat b mod 16) (concat (map hex02 bs))"
    using d by (simp add: hex02_def)
  also have "16 * (16 * acc + unat b div 16) + unat b mod 16 = 256 * acc + unat b" by simp
  finally show ?case
    using Cons by (simp add: be_val_def le_val_append algebra_simps)
qed (simp add: be_val_def)

section \<open>Equality of f32 values\<close>

definition f32_is_nan :: "f32 \<Rightarrow> bool" where
  "f32_is_nan x \<longleftrightarrow> 0x7F800000 < x AND 0x7FFFFFFF"

definition f32_eq :: "f32 \<Rightarrow> f32 \<Rightarrow> bool" where
  "f32_eq x y \<longleftrightarrow> \<not> f32_is_nan x \<and> \<not> f32_is_nan y \<and>
     (x = y \<or> x AND 0x7FFFFFFF = 0 \<and> y AND 0x7FFFFFFF = 0)"

definition f32_NAN :: f32 where "f32_NAN = 0x7FC00000"

lemma f32_NAN_neq [simp]: "\<not> f32_eq x f32_NAN"
  by (simp add: f32_eq_def f32_is_nan_def f32_NAN_def)

lemma f32_eq_refl: "f32_eq x x \<longleftrightarrow> \<not> f32_is_nan x"
  by (simp add: f32_eq_def)

section \<open>Narrowing an f64\<close>

text \<open>\<^verbatim>\<open>v as f32\<close>: round to nearest, ties to even, on the bit patterns.\<close>

definition round_half_even :: "nat \<Rightarrow> nat \<Rightarrow> nat" where
  "round_half_even n k =
     (let q = n div 2 ^ k; r = n mod 2 ^ k in
      if 2 * r > 2 ^ k \<or> (2 * r = 2 ^ k \<and> odd q) then q + 1 else q)"

fun log2_floor :: "nat \<Rightarrow> nat" where
  "log2_floor n = (if n < 2 then 0 else Suc (log2_floor (n div 2)))"

declare log2_floor.simps [simp del]

definition f64_to_f32 :: "u64 \<Rightarrow> f32" where
  "f64_to_f32 x =
     (let n = unat x; sgn = n div 2 ^ 63; e = n div 2 ^ 52 mod 2 ^ 11; m = n mod 2 ^ 52;
          sbit = sgn * 2 ^ 31 in
      if e = 2047 then word_of_nat (sbit + (if m = 0 then 0x7F800000 else 0x7FC00000))
      else
        let big = (if e = 0 then m else 2 ^ 52 + m);
            ex = int (max e 1) - 1075;
            q = max (int (log2_floor big) + ex - 23) (- 149);
            r = round_half_even big (nat (q - ex));
            bits = nat (q + 149) * 2 ^ 23 + r
        in word_of_nat (sbit + min bits 0x7F800000))"

section \<open>Substrings\<close>

text \<open>\<^verbatim>\<open>&s[a..b]\<close> of a string: both ends on a character, or a panic.\<close>

definition char_boundary :: "string \<Rightarrow> nat \<Rightarrow> bool" where
  "char_boundary s i \<longleftrightarrow> i = 0 \<or> i = length s \<or> i < length s \<and> \<not> cont (char_byte (s ! i))"

definition str_slice :: "nat \<Rightarrow> nat \<Rightarrow> string \<Rightarrow> string result" where
  "str_slice a b s =
     (if a \<le> b \<and> char_boundary s a \<and> char_boundary s b then Inr (take (b - a) (drop a s))
      else Inl (Panic ''byte index is not a char boundary''))"

fun contains :: "string \<Rightarrow> string \<Rightarrow> bool" where
  "contains sub [] \<longleftrightarrow> sub = []"
| "contains sub (c # s) \<longleftrightarrow> take (length sub) (c # s) = sub \<or> contains sub s"

text \<open>\<^verbatim>\<open>str::replace\<close> of one character by a string.\<close>

definition replace_char :: "char \<Rightarrow> string \<Rightarrow> string \<Rightarrow> string" where
  "replace_char c r s = concat (map (\<lambda>x. if x = c then r else [x]) s)"

lemma replace_char_simps [simp]:
  "replace_char c r [] = []"
  "replace_char c r (x # s) = (if x = c then r else [x]) @ replace_char c r s"
  "replace_char c r (s @ t) = replace_char c r s @ replace_char c r t"
  by (simp_all add: replace_char_def)

end
