(* ===== verification/Crates.thy ===== *)
theory Crates
  imports Rust_Std
begin

text \<open>
  The third-party crates the authentication code calls, as a record of functions that the
  component definitions take as an argument: \<^verbatim>\<open>num-bigint\<close> (a \<^verbatim>\<open>BigUint\<close> is the
  natural number it denotes, with \<open>+\<close>, \<open>*\<close>, \<open>div\<close>, \<open>mod\<close> and the order
  of the naturals), \<^verbatim>\<open>sha1\<close>, \<^verbatim>\<open>hmac\<close>, \<^verbatim>\<open>data-encoding\<close>, and the Unicode
  upper-casing tables of the standard library.  The locale \<open>num_bigint\<close> holds the
  documented laws of the conversions, \<open>auth_crates\<close> adds the digest lengths.  Both are
  interpreted on a complete implementation (base-256 and base-16 conversions, square and
  multiply, FIPS 180-4 SHA-1, RFC 2104 HMAC, RFC 4648 base32), which is what the concrete
  instances of the properties use.
\<close>

section \<open>The interface\<close>

record crates =
  from_bytes_be :: "bytes \<Rightarrow> nat"
  to_bytes_be :: "nat \<Rightarrow> bytes"
  parse_bytes_16 :: "bytes \<Rightarrow> nat option"
  fmt_upper_hex :: "nat \<Rightarrow> string"
  fmt_decimal :: "nat \<Rightarrow> string"
  biguint_bits :: "nat \<Rightarrow> nat"
  modpow :: "nat \<Rightarrow> nat \<Rightarrow> nat \<Rightarrow> nat option" \<comment> \<open>\<open>None\<close>: panic on a zero modulus\<close>
  sha1 :: "bytes \<Rightarrow> bytes" \<comment> \<open>digest of the concatenated updates\<close>
  md5 :: "bytes \<Rightarrow> bytes"
  hmac_sha1_mac :: "bytes \<Rightarrow> bytes \<Rightarrow> bytes"
  base32_crate_decode :: "bytes \<Rightarrow> bytes option"
  unicode_uppercase :: "string \<Rightarrow> string"

locale num_bigint =
  fixes C :: crates
  assumes from_be: "from_bytes_be C bs = be_val bs"
    and to_be_val: "be_val (to_bytes_be C n) = n"
    and to_be_zero: "to_bytes_be C 0 = [0]"
    and to_be_lead: "0 < n \<Longrightarrow> to_bytes_be C n \<noteq> [] \<and> hd (to_bytes_be C n) \<noteq> 0"
    and parse_hex: "s \<noteq> [] \<Longrightarrow> hex_digits_val 0 s = Some n \<Longrightarrow>
          parse_bytes_16 C (as_bytes s) = Some n"
    and fmt_hex: "fmt_upper_hex C n = hex_str n"
    and fmt_dec: "fmt_decimal C n = dec_str n"
    and bits_zero: "biguint_bits C 0 = 0"
    and bits_upper: "n < 2 ^ biguint_bits C n"
    and bits_lower: "0 < n \<Longrightarrow> 2 ^ (biguint_bits C n - 1) \<le> n"
    and modpow_val: "0 < m \<Longrightarrow> modpow C b e m = Some (b ^ e mod m)"

locale auth_crates = num_bigint +
  assumes sha1_len: "length (sha1 C m) = 20"
    and hmac_len: "length (hmac_sha1_mac C k m) = 20"
    and upper_ascii: "is_ascii s \<Longrightarrow> unicode_uppercase C s = map to_ascii_uppercase s"
    and b32_len: "base32_crate_decode C t = Some d \<Longrightarrow> 0x3D \<notin> set t \<Longrightarrow>
          length t mod 8 = 0 \<Longrightarrow> length d = 5 * (length t div 8)"

section \<open>Conversions\<close>

fun le_min :: "nat \<Rightarrow> bytes" where
  "le_min n = (if n < 256 then [word_of_nat n] else word_of_nat (n mod 256) # le_min (n div 256))"

declare le_min.simps [simp del]

lemma le_val_le_min: "le_val (le_min n) = n"
proof (induction n rule: le_min.induct)
  case (1 n)
  show ?case
  proof (cases "n < 256")
    case True
    then show ?thesis by (subst le_min.simps) (simp add: unat_of_nat)
  next
    case False
    with 1 show ?thesis by (subst le_min.simps) simp
  qed
qed

lemma le_min_not_Nil [simp]: "le_min n \<noteq> []"
  by (subst le_min.simps) simp

lemma last_le_min: "0 < n \<Longrightarrow> last (le_min n) \<noteq> 0"
proof (induction n rule: le_min.induct)
  case (1 n)
  show ?case
  proof (cases "n < 256")
    case True
    then have "unat (word_of_nat n :: u8) = n" by (simp add: unat_of_nat)
    with "1.prems" have "(word_of_nat n :: u8) \<noteq> 0" by (metis less_numeral_extra(3) unat_0)
    with True show ?thesis by (subst le_min.simps) simp
  next
    case False
    then have "0 < n div 256" by (simp add: div_greater_zero_iff)
    with 1 False show ?thesis by (subst le_min.simps) simp
  qed
qed

fun nbits :: "nat \<Rightarrow> nat" where
  "nbits n = (if n = 0 then 0 else Suc (nbits (n div 2)))"

declare nbits.simps [simp del]

lemma nbits_upper: "n < 2 ^ nbits n"
proof (induction n rule: nbits.induct)
  case (1 n)
  show ?case
  proof (cases "n = 0")
    case False
    with 1 have "n div 2 < 2 ^ nbits (n div 2)" by simp
    with False show ?thesis by (subst nbits.simps) auto
  qed simp
qed

lemma nbits_lower: "0 < n \<Longrightarrow> 2 ^ (nbits n - 1) \<le> n"
proof (induction n rule: nbits.induct)
  case (1 n)
  then have step: "nbits n = Suc (nbits (n div 2))" by (subst nbits.simps) simp
  show ?case
  proof (cases "n = 1")
    case False
    with "1.prems" have pos: "0 < n div 2" by simp
    with 1 have ih: "2 ^ (nbits (n div 2) - 1) \<le> n div 2" by simp
    have "nbits (n div 2) \<noteq> 0" using pos by (subst nbits.simps) simp
    then have "2 ^ nbits (n div 2) = 2 * (2::nat) ^ (nbits (n div 2) - 1)"
      by (cases "nbits (n div 2)") simp_all
    with ih step show ?thesis by simp
  next
    case True
    then show ?thesis by (simp add: nbits.simps [of "Suc 0"] nbits.simps [of 0])
  qed
qed

fun powmod :: "nat \<Rightarrow> nat \<Rightarrow> nat \<Rightarrow> nat" where
  "powmod b e m =
     (if e = 0 then 1 mod m
      else if even e then powmod (b * b mod m) (e div 2) m
      else b * powmod (b * b mod m) (e div 2) m mod m)"

declare powmod.simps [simp del]

lemma powmod_eq: "powmod b e m = b ^ e mod m"
proof (induction b e m rule: powmod.induct)
  case (1 b e m)
  have sq: "(b * b mod m) ^ k mod m = (b * b) ^ k mod m" for k by (simp add: power_mod)
  show ?case
  proof (cases "e = 0")
    case True
    then show ?thesis by (subst powmod.simps) simp
  next
    case e: False
    show ?thesis
    proof (cases "even e")
      case True
      then obtain k where k: "e = 2 * k" by (elim evenE)
      have "powmod (b * b mod m) (e div 2) m = (b * b) ^ k mod m"
        using 1(1) [OF e True] sq by (simp add: k)
      then show ?thesis using e True
        by (subst powmod.simps) (simp add: k power_mult power2_eq_square)
    next
      case False
      then obtain k where k: "e = 2 * k + 1" by (elim oddE)
      have "powmod (b * b mod m) (e div 2) m = (b * b) ^ k mod m"
        using 1(2) [OF e False] sq by (simp add: k)
      then have "powmod b e m = b * ((b * b) ^ k mod m) mod m"
        using e False by (subst powmod.simps) simp
      then show ?thesis by (simp add: k power_mult power2_eq_square mod_mult_right_eq)
    qed
  qed
qed

section \<open>Digests and base32\<close>

definition be_word :: "bytes \<Rightarrow> u32" where
  "be_word bs = word_of_nat (be_val bs)"

definition be_bytes :: "nat \<Rightarrow> nat \<Rightarrow> bytes" where
  "be_bytes n v = rev (le_bytes n v)"

fun chunks :: "nat \<Rightarrow> nat \<Rightarrow> 'a list \<Rightarrow> 'a list list" where
  "chunks n 0 xs = []"
| "chunks n (Suc k) xs = take n xs # chunks n k (drop n xs)"

definition sha1_pad :: "bytes \<Rightarrow> bytes" where
  "sha1_pad m = m @ [0x80] @ replicate ((119 - length m mod 64) mod 64) 0 @ be_bytes 8 (8 * length m)"

fun sha1_schedule :: "nat \<Rightarrow> u32 list \<Rightarrow> u32 list" where
  "sha1_schedule 0 ws = ws" \<comment> \<open>most recent word first\<close>
| "sha1_schedule (Suc n) ws =
     sha1_schedule n (word_rotl 1 (ws ! 2 XOR ws ! 7 XOR ws ! 13 XOR ws ! 15) # ws)"

definition sha1_f :: "nat \<Rightarrow> u32 \<Rightarrow> u32 \<Rightarrow> u32 \<Rightarrow> u32" where
  "sha1_f t b c d =
     (if t < 20 then (b AND c) OR (NOT b AND d)
      else if 40 \<le> t \<and> t < 60 then (b AND c) OR (b AND d) OR (c AND d)
      else b XOR c XOR d)"

definition sha1_k :: "nat \<Rightarrow> u32" where
  "sha1_k t = (if t < 20 then 0x5A827999 else if t < 40 then 0x6ED9EBA1
     else if t < 60 then 0x8F1BBCDC else 0xCA62C1D6)"

fun sha1_rounds :: "nat \<Rightarrow> u32 list \<Rightarrow> u32 \<times> u32 \<times> u32 \<times> u32 \<times> u32 \<Rightarrow>
    u32 \<times> u32 \<times> u32 \<times> u32 \<times> u32" where
  "sha1_rounds t [] s = s"
| "sha1_rounds t (w # ws) (a, b, c, d, e) =
     sha1_rounds (Suc t) ws
       (word_rotl 5 a + sha1_f t b c d + e + sha1_k t + w, a, word_rotl 30 b, c, d)"

definition sha1_block :: "bytes \<Rightarrow> u32 \<times> u32 \<times> u32 \<times> u32 \<times> u32 \<Rightarrow>
    u32 \<times> u32 \<times> u32 \<times> u32 \<times> u32" where
  "sha1_block blk s =
     (let ws = rev (sha1_schedule 64 (rev (map be_word (chunks 4 16 blk))));
          (h0, h1, h2, h3, h4) = s;
          (a, b, c, d, e) = sha1_rounds 0 ws s
      in (h0 + a, h1 + b, h2 + c, h3 + d, h4 + e))"

definition sha1_ref :: "bytes \<Rightarrow> bytes" where
  "sha1_ref m =
     (let p = sha1_pad m;
          (a, b, c, d, e) = fold sha1_block (chunks 64 (length p div 64) p)
            (0x67452301, 0xEFCDAB89, 0x98BADCFE, 0x10325476, 0xC3D2E1F0)
      in concat (map (\<lambda>w. be_bytes 4 (unat w)) [a, b, c, d, e]))"

lemma length_sha1_ref [simp]: "length (sha1_ref m) = 20"
  by (simp add: sha1_ref_def be_bytes_def Let_def split: prod.splits)

definition hmac_ref :: "bytes \<Rightarrow> bytes \<Rightarrow> bytes" where
  "hmac_ref key m =
     (let k0 = (if length key > 64 then sha1_ref key else key);
          k = k0 @ replicate (64 - length k0) 0
      in sha1_ref (map (\<lambda>b. b XOR 0x5C) k @ sha1_ref (map (\<lambda>b. b XOR 0x36) k @ m)))"

definition b32_sym :: "u8 \<Rightarrow> nat option" where
  "b32_sym b = (let n = unat b in
     if 65 \<le> n \<and> n \<le> 90 then Some (n - 65) else if 50 \<le> n \<and> n \<le> 55 then Some (n - 24) else None)"

fun b32_acc :: "nat \<Rightarrow> bytes \<Rightarrow> nat option" where
  "b32_acc acc [] = Some acc"
| "b32_acc acc (b # bs) = (case b32_sym b of None \<Rightarrow> None | Some v \<Rightarrow> b32_acc (32 * acc + v) bs)"

definition b32_ref :: "bytes \<Rightarrow> bytes option" where
  "b32_ref s =
     (let body = rev (dropWhile (\<lambda>b. b = 0x3D) (rev s)); n = length body in
      if length s mod 8 \<noteq> 0 \<or> length s - n > 6 \<or> n mod 8 \<in> {1, 3, 6} then None
      else case b32_acc 0 body of None \<Rightarrow> None
      | Some v \<Rightarrow> if v mod 2 ^ (5 * n mod 8) \<noteq> 0 then None
                  else Some (be_bytes (5 * n div 8) (v div 2 ^ (5 * n mod 8))))"

definition std_crates :: crates where
  "std_crates =
     \<lparr>from_bytes_be = be_val,
      to_bytes_be = (\<lambda>n. rev (le_min n)),
      parse_bytes_16 = (\<lambda>bs. if bs = [] then None else hex_digits_val 0 (str_of_bytes bs)),
      fmt_upper_hex = hex_str,
      fmt_decimal = dec_str,
      biguint_bits = nbits,
      modpow = (\<lambda>b e m. if m = 0 then None else Some (powmod b e m)),
      sha1 = sha1_ref,
      md5 = (\<lambda>m. take 16 (sha1_ref m)),
      hmac_sha1_mac = hmac_ref,
      base32_crate_decode = b32_ref,
      unicode_uppercase = map to_ascii_uppercase\<rparr>"

lemma dropWhile_rev_all:
  "x \<notin> set s \<Longrightarrow> rev (dropWhile (\<lambda>b. b = x) (rev s)) = s"
  by (cases s rule: rev_cases) auto

lemma b32_ref_len:
  assumes "b32_ref s = Some d" "0x3D \<notin> set s" "length s mod 8 = 0"
  shows "length d = 5 * (length s div 8)"
proof -
  obtain k where k: "length s = 8 * k" using assms(3) by auto
  show ?thesis using assms(1) k dropWhile_rev_all [OF assms(2)]
    by (auto simp: b32_ref_def be_bytes_def Let_def split: option.splits if_splits)
qed

interpretation std: num_bigint std_crates
  by unfold_locales
    (auto simp: std_crates_def be_val_def le_val_le_min hd_rev last_le_min le_min.simps [of 0]
      nbits.simps [of 0] nbits_upper nbits_lower [unfolded One_nat_def] powmod_eq)

interpretation std: auth_crates std_crates
  by unfold_locales (auto simp: std_crates_def hmac_ref_def Let_def b32_ref_len)

end
