(* ===== verification/Big_Number.thy ===== *)
theory Big_Number
  imports Crates
begin

text \<open>
  \<^verbatim>\<open>crates/shared/src/auth/big_number.rs\<close>.  The wrapper struct has the single field
  \<^verbatim>\<open>bn: BigUint\<close>, so a \<^verbatim>\<open>BigNumber\<close> is the natural number that field denotes and a
  method with \<^verbatim>\<open>&mut self\<close> returns the new value.  Conversions go through the crate
  interface \<^typ>\<open>crates\<close>.  The lemmas, proved under the laws of \<open>num_bigint\<close>, show
  that the little-endian and hexadecimal forms are inverse to each other on the wire.
\<close>

type_synonym big_number = nat

section \<open>Construction and conversion\<close>

definition bn_new :: big_number where
  "bn_new = 0"

definition bn_from_u32 :: "u32 \<Rightarrow> big_number" where
  "bn_from_u32 val = unat val"

definition bn_from_u64 :: "u64 \<Rightarrow> big_number" where
  "bn_from_u64 val = unat val"

definition set_dword :: "u32 \<Rightarrow> big_number" where
  "set_dword val = unat val"

definition set_qword :: "u64 \<Rightarrow> big_number" where
  "set_qword val = unat val"

definition set_binary :: "crates \<Rightarrow> bytes \<Rightarrow> big_number" where
  "set_binary C bs = from_bytes_be C (rev bs)"

text \<open>Returns the number of characters processed and the new value.\<close>

definition set_hex_str :: "crates \<Rightarrow> string \<Rightarrow> big_number \<Rightarrow> nat \<times> big_number" where
  "set_hex_str C hex self =
     (let hex = trim hex in
      if hex = [] then (0, self)
      else case parse_bytes_16 C (as_bytes hex) of
             Some val \<Rightarrow> (length hex, val)
           | None \<Rightarrow> (0, self))"

text \<open>\<open>rng\<close> is the thread-local generator: \<open>rng n\<close> the draw of \<^verbatim>\<open>gen_biguint(n)\<close>.\<close>

definition set_rand :: "(nat \<Rightarrow> nat) \<Rightarrow> nat \<Rightarrow> big_number" where
  "set_rand rng num_bits = rng num_bits"

definition bn_is_zero :: "big_number \<Rightarrow> bool" where
  "bn_is_zero n \<longleftrightarrow> n = 0"

definition mod_exp :: "crates \<Rightarrow> big_number \<Rightarrow> big_number \<Rightarrow> big_number \<Rightarrow> big_number result" where
  "mod_exp C self e modulus =
     (case modpow C self e modulus of
        None \<Rightarrow> Inl (Panic ''attempt to calculate with zero modulus!'')
      | Some r \<Rightarrow> Inr r)"

definition bn_exp :: "big_number \<Rightarrow> big_number \<Rightarrow> big_number" where
  "bn_exp self e = self ^ e"

definition get_num_bytes :: "crates \<Rightarrow> big_number \<Rightarrow> nat" where
  "get_num_bytes C n = (biguint_bits C n + 7) div 8"

definition as_dword :: "big_number \<Rightarrow> u32" where
  "as_dword n = (if n < 2 ^ 32 then word_of_nat n else 0)"

definition as_byte_array :: "crates \<Rightarrow> nat \<Rightarrow> big_number \<Rightarrow> bytes" where
  "as_byte_array C min_size n =
     (let be = to_bytes_be C n;
          len = (if min_size > length be then min_size else length be);
          padding_offset = len - length be;
          res = replicate padding_offset 0 @ be
      in rev res)"

definition as_byte_array_be :: "crates \<Rightarrow> nat \<Rightarrow> big_number \<Rightarrow> bytes" where
  "as_byte_array_be C min_size n =
     (let be = to_bytes_be C n;
          len = (if min_size > length be then min_size else length be);
          padding_offset = len - length be
      in replicate padding_offset 0 @ be)"

definition as_hex_str :: "crates \<Rightarrow> big_number \<Rightarrow> string" where
  "as_hex_str C n = (if n = 0 then ''0'' else fmt_upper_hex C n)"

definition as_dec_str :: "crates \<Rightarrow> big_number \<Rightarrow> string" where
  "as_dec_str C n = fmt_decimal C n"

section \<open>Operators\<close>

definition bn_add :: "big_number \<Rightarrow> big_number \<Rightarrow> big_number" where
  "bn_add a b = a + b"

definition bn_sub :: "big_number \<Rightarrow> big_number \<Rightarrow> big_number" where
  "bn_sub a b = (if a \<ge> b then a - b else 0)"

definition bn_mul :: "big_number \<Rightarrow> big_number \<Rightarrow> big_number" where
  "bn_mul a b = a * b"

definition bn_mul_u32 :: "big_number \<Rightarrow> u32 \<Rightarrow> big_number" where
  "bn_mul_u32 a b = a * unat b"

definition bn_div :: "big_number \<Rightarrow> big_number \<Rightarrow> big_number result" where
  "bn_div a b = (if b = 0 then Inl (Panic ''attempt to divide by zero'') else Inr (a div b))"

definition bn_rem :: "big_number \<Rightarrow> big_number \<Rightarrow> big_number result" where
  "bn_rem a b = (if b = 0 then Inl (Panic ''attempt to divide by zero'') else Inr (a mod b))"

definition bn_add_assign :: "big_number \<Rightarrow> big_number \<Rightarrow> big_number" where
  "bn_add_assign a b = a + b"

lemmas bn_op_defs [rust_defs] = bn_new_def bn_from_u32_def bn_is_zero_def bn_add_def bn_mul_def
  bn_mul_u32_def set_rand_def

section \<open>Minimal big-endian forms\<close>

lemma le_val_lower:
  assumes "bs \<noteq> []" "last bs \<noteq> 0"
  shows "256 ^ (length bs - 1) \<le> le_val bs"
proof -
  obtain as b where bs: "bs = as @ [b]" using assms(1) by (cases bs rule: rev_cases) auto
  then have "1 \<le> unat b" using assms(2) by (simp add: unat_gt_0 Suc_leI)
  then have "256 ^ length as * 1 \<le> 256 ^ length as * unat b" by (rule mult_le_mono2)
  also have "\<dots> \<le> le_val bs" by (simp add: bs le_val_append)
  finally show ?thesis by (simp add: bs)
qed

lemma min_length_unique:
  assumes "as \<noteq> []" "last as \<noteq> 0" "le_val as = le_val bs"
  shows "length as \<le> length bs"
proof (rule ccontr)
  assume "\<not> length as \<le> length bs"
  then have "length bs \<le> length as - 1" by simp
  then have "(256::nat) ^ length bs \<le> 256 ^ (length as - 1)" by (rule power_increasing) simp
  also have "\<dots> \<le> le_val bs" using le_val_lower [OF assms(1,2)] assms(3) by simp
  also have "\<dots> < 256 ^ length bs" by (rule le_val_bound)
  finally show False by simp
qed

context num_bigint
begin

definition le_form :: "nat \<Rightarrow> bytes" where
  "le_form n = rev (to_bytes_be C n)"

lemma le_val_le_form [simp]: "le_val (le_form n) = n"
  using to_be_val [of n] by (simp add: be_val_def le_form_def)

lemma le_form_not_Nil [simp]: "le_form n \<noteq> []"
  using to_be_zero to_be_lead [of n] by (cases "n = 0") (auto simp: le_form_def)

lemma le_form_last: "0 < n \<Longrightarrow> last (le_form n) \<noteq> 0"
  using to_be_lead [of n] by (auto simp: le_form_def last_rev)

lemma as_byte_array_le_form:
  "as_byte_array C k n = le_form n @ replicate (k - length (le_form n)) 0"
  by (auto simp: as_byte_array_def le_form_def Let_def)

lemma set_binary_le [simp]: "set_binary C bs = le_val bs"
  by (simp add: set_binary_def from_be)

lemma le_val_as_byte_array [simp]: "le_val (as_byte_array C k n) = n"
  by (simp add: as_byte_array_le_form)

lemma length_le_form:
  assumes "n < 256 ^ k" "0 < k"
  shows "length (le_form n) \<le> k"
proof (cases "n = 0")
  case True
  then show ?thesis using to_be_zero assms(2) by (simp add: le_form_def)
next
  case False
  have "le_val (le_form n) = le_val (le_bytes k n)"
    using assms(1) by (simp add: le_val_le_bytes)
  then have "length (le_form n) \<le> length (le_bytes k n)"
    using False by (intro min_length_unique le_form_last) auto
  then show ?thesis by simp
qed

lemma length_as_byte_array [byte_simps]:
  "n < 256 ^ k \<Longrightarrow> 0 < k \<Longrightarrow> length (as_byte_array C k n) = k"
  using length_le_form [of n k] by (simp add: as_byte_array_le_form)

lemma length_as_byte_array_ge: "k \<le> length (as_byte_array C k n)"
  by (simp add: as_byte_array_le_form)

lemma as_byte_array_le_bytes:
  "n < 256 ^ k \<Longrightarrow> 0 < k \<Longrightarrow> as_byte_array C k n = le_bytes k n"
  by (rule le_val_inj) (auto simp: length_as_byte_array le_val_le_bytes)

lemma as_byte_array_inj: "as_byte_array C k m = as_byte_array C k n \<longleftrightarrow> m = n"
  by (metis le_val_as_byte_array)

lemma as_byte_array_set_binary:
  assumes "bs \<noteq> []"
  shows "as_byte_array C (length bs) (set_binary C bs) = bs"
  using assms le_val_bound [of bs] by (simp add: as_byte_array_le_bytes)

lemma set_binary_as_byte_array: "set_binary C (as_byte_array C k n) = n"
  by simp

lemma get_num_bytes_le: "get_num_bytes C n \<le> k \<longleftrightarrow> n < 256 ^ k"
proof -
  have pow: "(256::nat) ^ k = 2 ^ (8 * k)" by (simp add: power_mult)
  have "n < 2 ^ (8 * k) \<longleftrightarrow> biguint_bits C n \<le> 8 * k"
  proof
    assume lt: "n < 2 ^ (8 * k)"
    show "biguint_bits C n \<le> 8 * k"
    proof (rule ccontr)
      assume "\<not> biguint_bits C n \<le> 8 * k"
      moreover from this have "0 < n" using bits_zero by (cases "n = 0") auto
      moreover from calculation have "(2::nat) ^ (8 * k) \<le> 2 ^ (biguint_bits C n - 1)"
        by (intro power_increasing) auto
      ultimately show False using bits_lower [of n] lt by linarith
    qed
  next
    assume "biguint_bits C n \<le> 8 * k"
    then have "(2::nat) ^ biguint_bits C n \<le> 2 ^ (8 * k)" by (rule power_increasing) simp
    then show "n < 2 ^ (8 * k)" using bits_upper [of n] by linarith
  qed
  moreover have "(b + 7) div 8 \<le> k \<longleftrightarrow> b \<le> 8 * k" for b :: nat by linarith
  ultimately show ?thesis by (simp add: get_num_bytes_def pow)
qed

lemma get_num_bytes_zero: "get_num_bytes C n = 0 \<longleftrightarrow> n = 0"
  using get_num_bytes_le [of n 0] by simp

lemma as_hex_str_eq: "as_hex_str C n = hex_str n"
  by (simp add: as_hex_str_def fmt_hex hex_str.simps [of 0] hex_char_0)

lemma set_hex_str_digits:
  assumes "s \<noteq> []" "hex_digits_val 0 s = Some n"
  shows "set_hex_str C s old = (length s, n)"
  using assms parse_hex [OF assms] by (simp add: set_hex_str_def trim_hex)

lemma set_hex_str_as_hex_str: "set_hex_str C (as_hex_str C n) old = (length (hex_str n), n)"
  by (simp add: as_hex_str_eq set_hex_str_digits)

lemma mod_exp_val: "0 < m \<Longrightarrow> mod_exp C b e m = Inr (b ^ e mod m)"
  by (simp add: mod_exp_def modpow_val)

end

end
