(* ===== verification/Crypto_Hash.thy ===== *)
theory Crypto_Hash
  imports Big_Number
begin

text \<open>
  \<^verbatim>\<open>crates/shared/src/auth/crypto_hash.rs\<close> and \<^verbatim>\<open>hmac_sha1.rs\<close>.  A streaming hasher
  of the crates is the message absorbed so far; \<^verbatim>\<open>finalize\<close> stores the digest of that
  message and leaves the hasher as it was, as the code does by cloning it.
\<close>

record sha1_hash =
  sh_hasher :: bytes
  sh_digest :: bytes

definition sha1_DIGEST_LENGTH :: nat where
  "sha1_DIGEST_LENGTH = 20"

definition sha1_new :: sha1_hash where
  "sha1_new = \<lparr>sh_hasher = [], sh_digest = replicate 20 0\<rparr>"

definition sha1_initialize :: "sha1_hash \<Rightarrow> sha1_hash" where
  "sha1_initialize h = h\<lparr>sh_hasher := []\<rparr>"

definition sha1_update_data_bytes :: "bytes \<Rightarrow> sha1_hash \<Rightarrow> sha1_hash" where
  "sha1_update_data_bytes d h = h\<lparr>sh_hasher := sh_hasher h @ d\<rparr>"

definition sha1_update_data :: "string \<Rightarrow> sha1_hash \<Rightarrow> sha1_hash" where
  "sha1_update_data s h = h\<lparr>sh_hasher := sh_hasher h @ as_bytes s\<rparr>"

fun sha1_update_big_numbers :: "crates \<Rightarrow> big_number list \<Rightarrow> sha1_hash \<Rightarrow> sha1_hash" where
  "sha1_update_big_numbers C [] h = h"
| "sha1_update_big_numbers C (n # ns) h =
     sha1_update_big_numbers C ns (sha1_update_data_bytes (as_byte_array C 0 n) h)"

definition sha1_finalize :: "crates \<Rightarrow> sha1_hash \<Rightarrow> sha1_hash" where
  "sha1_finalize C h = h\<lparr>sh_digest := sha1 C (sh_hasher h)\<rparr>"

definition sha1_get_digest :: "sha1_hash \<Rightarrow> bytes" where
  "sha1_get_digest h = sh_digest h"

record md5_hash =
  md_hasher :: bytes
  md_digest :: bytes

definition md5_new :: md5_hash where
  "md5_new = \<lparr>md_hasher = [], md_digest = replicate 16 0\<rparr>"

definition md5_initialize :: "md5_hash \<Rightarrow> md5_hash" where
  "md5_initialize h = h\<lparr>md_hasher := []\<rparr>"

definition md5_update_data_bytes :: "bytes \<Rightarrow> md5_hash \<Rightarrow> md5_hash" where
  "md5_update_data_bytes d h = h\<lparr>md_hasher := md_hasher h @ d\<rparr>"

definition md5_update_data :: "string \<Rightarrow> md5_hash \<Rightarrow> md5_hash" where
  "md5_update_data s h = h\<lparr>md_hasher := md_hasher h @ as_bytes s\<rparr>"

definition md5_finalize :: "crates \<Rightarrow> md5_hash \<Rightarrow> md5_hash" where
  "md5_finalize C h = h\<lparr>md_digest := md5 C (md_hasher h)\<rparr>"

definition md5_get_digest :: "md5_hash \<Rightarrow> bytes" where
  "md5_get_digest h = md_digest h"

section \<open>HMAC-SHA1\<close>

record hmac_sha1_state =
  hm_key :: bytes
  hm_msg :: bytes
  hm_digest :: bytes

definition hmac_new :: "bytes \<Rightarrow> hmac_sha1_state" where
  "hmac_new key = \<lparr>hm_key = key, hm_msg = [], hm_digest = replicate 20 0\<rparr>"

definition hmac_update_data :: "bytes \<Rightarrow> hmac_sha1_state \<Rightarrow> hmac_sha1_state" where
  "hmac_update_data d h = h\<lparr>hm_msg := hm_msg h @ d\<rparr>"

definition hmac_update_big_number :: "crates \<Rightarrow> big_number \<Rightarrow> hmac_sha1_state \<Rightarrow> hmac_sha1_state" where
  "hmac_update_big_number C n h = hmac_update_data (as_byte_array C 0 n) h"

definition hmac_update_string :: "string \<Rightarrow> hmac_sha1_state \<Rightarrow> hmac_sha1_state" where
  "hmac_update_string s h = hmac_update_data (as_bytes s) h"

definition hmac_finalize :: "crates \<Rightarrow> hmac_sha1_state \<Rightarrow> hmac_sha1_state" where
  "hmac_finalize C h = h\<lparr>hm_digest := hmac_sha1_mac C (hm_key h) (hm_msg h)\<rparr>"

definition hmac_compute_hash :: "crates \<Rightarrow> big_number \<Rightarrow> hmac_sha1_state \<Rightarrow> bytes \<times> hmac_sha1_state" where
  "hmac_compute_hash C n h =
     (let h = hmac_finalize C (hmac_update_big_number C n h) in (hm_digest h, h))"

definition hmac_sha1 :: "crates \<Rightarrow> bytes \<Rightarrow> bytes \<Rightarrow> bytes" where
  "hmac_sha1 C key d = hmac_sha1_mac C key d"

section \<open>What the hashers compute\<close>

lemma sha1_simps [simp]:
  "sh_hasher sha1_new = []"
  "sh_hasher (sha1_initialize h) = []"
  "sh_hasher (sha1_update_data_bytes d h) = sh_hasher h @ d"
  "sh_hasher (sha1_update_data s h) = sh_hasher h @ as_bytes s"
  "sh_hasher (sha1_finalize C h) = sh_hasher h"
  "sha1_get_digest (sha1_finalize C h) = sha1 C (sh_hasher h)"
  by (simp_all add: sha1_new_def sha1_initialize_def sha1_update_data_bytes_def
      sha1_update_data_def sha1_finalize_def sha1_get_digest_def)

lemma sh_hasher_update_big_numbers [simp]:
  "sh_hasher (sha1_update_big_numbers C ns h) = sh_hasher h @ concat (map (as_byte_array C 0) ns)"
  by (induction ns arbitrary: h) auto

lemma hmac_compute_hash_one_shot:
  "fst (hmac_compute_hash C n (hmac_new key)) = hmac_sha1 C key (as_byte_array C 0 n)"
  by (simp add: hmac_compute_hash_def hmac_finalize_def hmac_update_big_number_def
      hmac_update_data_def hmac_new_def hmac_sha1_def Let_def)

end
