(* ===== verification/SRP6_Auth.thy ===== *)
theory SRP6_Auth
  imports Crypto_Hash
begin

text \<open>
  The server side of the SRP6 handshake, \<^verbatim>\<open>crates/shared/src/auth/srp6.rs\<close>: the struct
  as a record with the source's fields, one definition per method.  Methods that can
  panic (a zero modulus, the size assertion on \<open>g ^ b\<close>) return a \<^typ>\<open>'a result\<close>.
  The theorems show that none of them panics on a state made by \<^verbatim>\<open>SRP6::new\<close>, that the
  session key agrees with the one the client computes from the password, that the key
  derivation interleaves the two digests, and that the proof check accepts exactly the
  expected digest.
\<close>

section \<open>State\<close>

record srp6 =
  srp_n :: big_number
  srp_g :: big_number
  srp_s :: big_number
  srp_v :: big_number
  srp_b :: big_number
  srp_big_b :: big_number
  srp_big_a :: big_number
  srp_u :: big_number
  srp_big_s :: big_number
  srp_k :: big_number
  srp_m :: big_number

definition prime_hex :: string where
  "prime_hex = ''894B645E89E1535BBDAD5B8B290650530801B18EBFBF5E8FAB3C82872A3E9BB7''"

definition S_BYTE_SIZE :: nat where
  "S_BYTE_SIZE = 32"

definition srp6_new :: "crates \<Rightarrow> srp6" where
  "srp6_new C =
     \<lparr>srp_n = snd (set_hex_str C prime_hex bn_new), srp_g = bn_from_u32 7,
      srp_s = bn_new, srp_v = bn_new, srp_b = bn_new, srp_big_b = bn_new, srp_big_a = bn_new,
      srp_u = bn_new, srp_big_s = bn_new, srp_k = bn_new, srp_m = bn_new\<rparr>"

section \<open>Methods\<close>

definition calculate_host_public_ephemeral :: "crates \<Rightarrow> (nat \<Rightarrow> nat) \<Rightarrow> srp6 \<Rightarrow> srp6 result" where
  "calculate_host_public_ephemeral C rng srp =
     (let b = set_rand rng (19 * 8) in
      bind_result (mod_exp C (srp_g srp) b (srp_n srp)) (\<lambda>g_mod.
      let v_times_3 = bn_mul_u32 (srp_v srp) 3; sum = bn_add v_times_3 g_mod in
      bind_result (bn_rem sum (srp_n srp)) (\<lambda>big_b.
      if get_num_bytes C g_mod \<le> 32 then Inr (srp\<lparr>srp_b := b, srp_big_b := big_b\<rparr>)
      else Inl (Panic ''assertion failed: g_mod.get_num_bytes() <= 32''))))"

definition calculate_proof :: "crates \<Rightarrow> string \<Rightarrow> srp6 \<Rightarrow> srp6" where
  "calculate_proof C username srp =
     (let sha = sha1_finalize C (sha1_update_big_numbers C [srp_n srp] sha1_new);
          hash = sha1_get_digest sha;
          sha = sha1_finalize C (sha1_update_big_numbers C [srp_g srp] (sha1_initialize sha));
          hash = map2 (XOR) hash (sha1_get_digest sha);
          sha = sha1_finalize C (sha1_update_data username (sha1_initialize sha));
          t4 = sha1_get_digest sha;
          sha = sha1_update_data_bytes hash (sha1_initialize sha);
          sha = sha1_update_data_bytes t4 sha;
          sha = sha1_update_big_numbers C [srp_s srp, srp_big_a srp, srp_big_b srp, srp_k srp] sha;
          sha = sha1_finalize C sha
      in srp\<lparr>srp_m := set_binary C (sha1_get_digest sha)\<rparr>)"

definition calculate_session_key :: "crates \<Rightarrow> bytes \<Rightarrow> srp6 \<Rightarrow> (bool \<times> srp6) result" where
  "calculate_session_key C client_a srp =
     (let srp = srp\<lparr>srp_big_a := set_binary C client_a\<rparr> in
      if bn_is_zero (srp_big_a srp) then Inr (False, srp)
      else bind_result (bn_rem (srp_big_a srp) (srp_n srp)) (\<lambda>a_mod_n.
      if bn_is_zero a_mod_n then Inr (False, srp)
      else
        let sha = sha1_finalize C (sha1_update_big_numbers C [srp_big_a srp, srp_big_b srp] sha1_new);
            srp = srp\<lparr>srp_u := set_binary C (sha1_get_digest sha)\<rparr> in
        bind_result (mod_exp C (srp_v srp) (srp_u srp) (srp_n srp)) (\<lambda>v_mod.
        let a_times_v = bn_mul (srp_big_a srp) v_mod in
        bind_result (mod_exp C a_times_v (srp_b srp) (srp_n srp)) (\<lambda>big_s.
        Inr (True, srp\<lparr>srp_big_s := big_s\<rparr>)))))"

text \<open>The digest of the credentials, restored to 20 bytes in big-endian order.\<close>

definition restore_digest :: "crates \<Rightarrow> big_number \<Rightarrow> bytes" where
  "restore_digest C i =
     (let m_digest = replicate sha1_DIGEST_LENGTH 0;
          m_digest =
            (if get_num_bytes C i \<le> sha1_DIGEST_LENGTH then
               let vect_i = as_byte_array C 0 i;
                   copy_len = min (length vect_i) sha1_DIGEST_LENGTH
               in take copy_len vect_i @ drop copy_len m_digest
             else m_digest)
      in rev m_digest)"

definition calculate_verifier :: "crates \<Rightarrow> string \<Rightarrow> string \<Rightarrow> srp6 \<Rightarrow> (bool \<times> srp6) result" where
  "calculate_verifier C ri salt srp =
     (let (processed, s) = set_hex_str C salt (srp_s srp);
          srp = srp\<lparr>srp_s := s\<rparr> in
      if processed = 0 \<or> bn_is_zero (srp_s srp) then Inr (False, srp)
      else
        let i = snd (set_hex_str C ri bn_new);
            m_digest = restore_digest C i;
            sha = sha1_update_data_bytes (as_byte_array C 0 (srp_s srp)) sha1_new;
            sha = sha1_finalize C (sha1_update_data_bytes m_digest sha);
            x = set_binary C (sha1_get_digest sha) in
        bind_result (mod_exp C (srp_g srp) x (srp_n srp)) (\<lambda>v.
        Inr (True, srp\<lparr>srp_v := v\<rparr>)))"

definition calculate_verifier_random ::
    "crates \<Rightarrow> (nat \<Rightarrow> nat) \<Rightarrow> string \<Rightarrow> srp6 \<Rightarrow> (bool \<times> srp6) result" where
  "calculate_verifier_random C rng ri srp =
     (let salt = set_rand rng (S_BYTE_SIZE * 8);
          salt_hex = as_hex_str C salt
      in calculate_verifier C ri salt_hex srp)"

text \<open>\<open>store_at off d vk\<close> is the loop \<^verbatim>\<open>for i in 0..20 { vk[i * 2 + off] = d[i] }\<close>.\<close>

definition store_at :: "nat \<Rightarrow> bytes \<Rightarrow> bytes \<Rightarrow> bytes" where
  "store_at off d vk = foldl (\<lambda>vk i. vk[i * 2 + off := d ! i]) vk [0..<20]"

definition hash_session_key :: "crates \<Rightarrow> srp6 \<Rightarrow> srp6" where
  "hash_session_key C srp =
     (let t = as_byte_array C 32 (srp_big_s srp);
          vk = replicate 40 0;
          t1 = map (\<lambda>i. t ! (i * 2)) [0..<16];
          sha = sha1_finalize C (sha1_update_data_bytes t1 (sha1_initialize sha1_new));
          vk = store_at 0 (sha1_get_digest sha) vk;
          t1 = map (\<lambda>i. t ! (i * 2 + 1)) [0..<16];
          sha = sha1_finalize C (sha1_update_data_bytes t1 (sha1_initialize sha));
          vk = store_at 1 (sha1_get_digest sha) vk
      in srp\<lparr>srp_k := set_binary C vk\<rparr>)"

definition srp_proof :: "crates \<Rightarrow> srp6 \<Rightarrow> bytes \<Rightarrow> bool" where
  "srp_proof C srp client_m =
     (let our_m = as_byte_array C (length client_m) (srp_m srp)
      in take (length client_m) our_m = client_m)"

definition proof_verifier :: "crates \<Rightarrow> srp6 \<Rightarrow> string \<Rightarrow> bool" where
  "proof_verifier C srp vc \<longleftrightarrow> vc = as_hex_str C (srp_v srp)"

definition srp_finalize :: "crates \<Rightarrow> srp6 \<Rightarrow> sha1_hash \<Rightarrow> sha1_hash" where
  "srp_finalize C srp sha =
     sha1_finalize C (sha1_update_big_numbers C [srp_big_a srp, srp_m srp, srp_k srp]
       (sha1_initialize sha))"

definition set_salt :: "crates \<Rightarrow> string \<Rightarrow> srp6 \<Rightarrow> bool \<times> srp6" where
  "set_salt C new_s srp =
     (let (processed, s) = set_hex_str C new_s (srp_s srp); srp = srp\<lparr>srp_s := s\<rparr>
      in (\<not> (processed = 0 \<or> bn_is_zero (srp_s srp)), srp))"

definition set_strong_session_key :: "crates \<Rightarrow> string \<Rightarrow> srp6 \<Rightarrow> srp6" where
  "set_strong_session_key C new_k srp = srp\<lparr>srp_k := snd (set_hex_str C new_k (srp_k srp))\<rparr>"

definition set_verifier :: "crates \<Rightarrow> string \<Rightarrow> srp6 \<Rightarrow> bool \<times> srp6" where
  "set_verifier C new_v srp =
     (let (processed, v) = set_hex_str C new_v (srp_v srp); srp = srp\<lparr>srp_v := v\<rparr>
      in (\<not> (processed = 0 \<or> bn_is_zero (srp_v srp)), srp))"

section \<open>The group\<close>

definition srp_N :: nat where
  "srp_N = 0x894B645E89E1535BBDAD5B8B290650530801B18EBFBF5E8FAB3C82872A3E9BB7"

lemma prime_hex_val: "hex_digits_val 0 prime_hex = Some srp_N"
  by (simp add: prime_hex_def srp_N_def hex_val_def)

lemma srp_N_bounds: "1 < srp_N" "srp_N < 256 ^ 32" "coprime 7 srp_N"
proof -
  show "1 < srp_N" "srp_N < 256 ^ 32" by (simp_all add: srp_N_def)
  have "gcd 7 srp_N = gcd (srp_N mod 7) 7"
    by (metis gcd.commute gcd_red_nat)
  also have "\<dots> = 1" by (simp add: srp_N_def gcd_non_0_nat)
  finally show "coprime 7 srp_N" by (simp add: coprime_iff_gcd_eq_1)
qed

text \<open>A state whose group parameters are those of \<^verbatim>\<open>SRP6::new\<close>.\<close>

definition wow_group :: "srp6 \<Rightarrow> bool" where
  "wow_group srp \<longleftrightarrow> srp_n srp = srp_N \<and> srp_g srp = 7"

lemma power_gen_nonzero: "7 ^ a mod srp_N \<noteq> 0"
proof
  assume "7 ^ a mod srp_N = 0"
  then have "srp_N dvd 7 ^ a" by (simp add: mod_eq_0_iff_dvd)
  moreover have "coprime (7 ^ a) srp_N" using srp_N_bounds(3) by simp
  ultimately have "srp_N dvd 1" by (metis coprime_common_divisor dvd_refl)
  with srp_N_bounds(1) show False by simp
qed

section \<open>Arithmetic of the agreement\<close>

text \<open>
  The session key a client computes from the private exponent \<open>a\<close>, the scrambler
  \<open>u\<close>, the private key \<open>x\<close> derived from the password and the received \<open>B\<close>:
  \<open>(B - 3 g^x) ^ (a + u x) mod N\<close>.
\<close>

definition client_session_key :: "nat \<Rightarrow> nat \<Rightarrow> nat \<Rightarrow> nat \<Rightarrow> nat" where
  "client_session_key a u x big_b =
     nat ((int big_b - 3 * 7 ^ x) ^ (a + u * x) mod int srp_N)"

lemma pow_mod_cong:
  fixes a b :: int
  shows "a mod c = b mod c \<Longrightarrow> a ^ n mod c = b ^ n mod c"
  by (metis power_mod)

lemma srp_key_agreement:
  assumes v: "v = 7 ^ x mod srp_N" and B: "B = (v * 3 + 7 ^ b mod srp_N) mod srp_N"
    and A: "A = 7 ^ a mod srp_N"
  shows "(A * (v ^ u mod srp_N)) ^ b mod srp_N = client_session_key a u x B"
proof -
  define M where "M = int srp_N"
  have iv: "int v mod M = 7 ^ x mod M" by (simp add: v M_def zmod_int)
  have "int B mod M = (int v * 3 + 7 ^ b) mod M"
    by (simp add: B M_def zmod_int mod_simps)
  moreover have "(3 * 7 ^ x) mod M = (3 * int v) mod M"
    by (rule mod_mult_cong) (simp_all add: iv)
  ultimately have "(int B - 3 * 7 ^ x) mod M = (int v * 3 + 7 ^ b - 3 * int v) mod M"
    by (rule mod_diff_cong)
  then have "(int B - 3 * 7 ^ x) mod M = 7 ^ b mod M" by simp
  then have client: "(int B - 3 * 7 ^ x) ^ (a + u * x) mod M = (7 ^ b) ^ (a + u * x) mod M"
    by (rule pow_mod_cong)
  have "int A mod M = 7 ^ a mod M" by (simp add: A M_def zmod_int)
  moreover have "int (v ^ u mod srp_N) mod M = (7 ^ x) ^ u mod M"
    using pow_mod_cong [OF iv, of u] by (simp add: M_def zmod_int)
  ultimately have "(int A * int (v ^ u mod srp_N)) mod M = (7 ^ a * (7 ^ x) ^ u) mod M"
    by (rule mod_mult_cong)
  then have "(int A * int (v ^ u mod srp_N)) ^ b mod M = (7 ^ a * (7 ^ x) ^ u) ^ b mod M"
    by (rule pow_mod_cong)
  also have "(7 ^ a * (7 ^ x) ^ u) ^ b = ((7::int) ^ b) ^ (a + u * x)"
    by (simp add: power_mult_distrib power_add mult.commute flip: power_mult)
  finally have "int ((A * (v ^ u mod srp_N)) ^ b mod srp_N)
      = (int B - 3 * 7 ^ x) ^ (a + u * x) mod M"
    using client by (simp add: M_def zmod_int)
  then show ?thesis by (metis client_session_key_def M_def nat_int)
qed

section \<open>The methods under the crate laws\<close>

definition even_bytes :: "bytes \<Rightarrow> bytes" where
  "even_bytes t = map (\<lambda>i. t ! (2 * i)) [0..<16]"

definition odd_bytes :: "bytes \<Rightarrow> bytes" where
  "odd_bytes t = map (\<lambda>i. t ! (2 * i + 1)) [0..<16]"

definition interleave :: "bytes \<Rightarrow> bytes \<Rightarrow> bytes" where
  "interleave xs ys = concat (map2 (\<lambda>x y. [x, y]) xs ys)"

text \<open>The strong session key and the proof, as the protocol describes them.\<close>

definition strong_key :: "crates \<Rightarrow> nat \<Rightarrow> bytes" where
  "strong_key C big_s =
     (let t = le_bytes 32 big_s in interleave (sha1 C (even_bytes t)) (sha1 C (odd_bytes t)))"

definition proof_digest :: "crates \<Rightarrow> string \<Rightarrow> nat \<Rightarrow> nat \<Rightarrow> nat \<Rightarrow> nat \<Rightarrow> bytes" where
  "proof_digest C username s big_a big_b k =
     sha1 C (map2 (XOR) (sha1 C (as_byte_array C 0 srp_N)) (sha1 C (as_byte_array C 0 7))
       @ sha1 C (as_bytes username)
       @ concat (map (as_byte_array C 0) [s, big_a, big_b, k]))"

lemma length_store_at [simp]: "length (store_at off d vk) = length vk"
proof -
  have "length (foldl (\<lambda>vk i. vk[i * 2 + off := d ! i]) vk is) = length vk" for "is" :: "nat list"
    by (induction "is" arbitrary: vk) auto
  then show ?thesis by (simp add: store_at_def)
qed

lemma store_at_nth:
  assumes "length vk = 40" "off < 2" "j < 40"
  shows "store_at off d vk ! j = (if j mod 2 = off then d ! (j div 2) else vk ! j)"
proof -
  have "foldl (\<lambda>vk i. vk[i * 2 + off := d ! i]) vk [0..<n] ! j
      = (if j mod 2 = off \<and> j div 2 < n then d ! (j div 2) else vk ! j)
      \<and> length (foldl (\<lambda>vk i. vk[i * 2 + off := d ! i]) vk [0..<n]) = 40" if "n \<le> 20" for n
    using that
  proof (induction n)
    case (Suc n)
    have "n * 2 + off = j \<longleftrightarrow> j mod 2 = off \<and> j div 2 = n" using assms(2) by auto
    then show ?case using Suc assms by (auto simp: nth_list_update)
  qed (use assms in simp)
  from this [of 20] show ?thesis using assms(3) by (simp add: store_at_def less_mult_imp_div_less)
qed

lemma length_interleave [simp]: "length (interleave xs ys) = 2 * min (length xs) (length ys)"
  by (induction xs ys rule: list_induct2') (auto simp: interleave_def)

lemma interleave_nth:
  "j < 2 * min (length xs) (length ys) \<Longrightarrow>
    interleave xs ys ! j = (if even j then xs ! (j div 2) else ys ! (j div 2))"
proof (induction xs ys arbitrary: j rule: list_induct2')
  case (4 x xs y ys)
  consider "j = 0" | "j = 1" | k where "j = Suc (Suc k)" by (metis One_nat_def not0_implies_Suc)
  then show ?case
  proof cases
    case 3
    then show ?thesis using 4 by (auto simp: interleave_def)
  qed (auto simp: interleave_def)
qed auto

lemma store_at_interleave:
  assumes "length d = 20" "length e = 20"
  shows "store_at 1 e (store_at 0 d (replicate 40 0)) = interleave d e"
proof (rule nth_equalityI)
  fix j assume "j < length (store_at 1 e (store_at 0 d (replicate 40 0)))"
  then have "j < 40" by simp
  then show "store_at 1 e (store_at 0 d (replicate 40 0)) ! j = interleave d e ! j"
    using assms by (simp add: store_at_nth interleave_nth even_iff_mod_2_eq_zero)
qed (use assms in simp)

context num_bigint
begin

lemma wow_group_new: "wow_group (srp6_new C)"
proof -
  have "prime_hex \<noteq> []" by (simp add: prime_hex_def)
  then show ?thesis
    by (simp add: wow_group_def srp6_new_def set_hex_str_digits [OF _ prime_hex_val]
        bn_from_u32_def)
qed

lemma host_public_ephemeral_eq:
  assumes "wow_group srp"
  shows "calculate_host_public_ephemeral C rng srp =
    Inr (srp\<lparr>srp_b := rng 152,
             srp_big_b := (srp_v srp * 3 + 7 ^ rng 152 mod srp_N) mod srp_N\<rparr>)"
proof -
  have "7 ^ rng 152 mod srp_N < 256 ^ 32"
    using srp_N_bounds by (meson less_trans mod_less_divisor zero_less_one)
  then have "get_num_bytes C (7 ^ rng 152 mod srp_N) \<le> 32" by (simp only: get_num_bytes_le)
  then show ?thesis
    using assms srp_N_bounds(1)
    by (simp add: calculate_host_public_ephemeral_def wow_group_def mod_exp_val bn_rem_def rust_defs Let_def)
qed

lemma session_key_eq:
  assumes "wow_group srp"
  shows "calculate_session_key C client_a srp =
    (let A = le_val client_a; srp = srp\<lparr>srp_big_a := A\<rparr>;
         u = le_val (sha1 C (as_byte_array C 0 A @ as_byte_array C 0 (srp_big_b srp)))
     in if A mod srp_N = 0 then Inr (False, srp)
        else Inr (True, srp\<lparr>srp_u := u,
               srp_big_s := (A * (srp_v srp ^ u mod srp_N)) ^ srp_b srp mod srp_N\<rparr>))"
  using assms srp_N_bounds(1)
  by (simp add: calculate_session_key_def wow_group_def mod_exp_val bn_rem_def rust_defs Let_def)

lemma calculate_proof_eq:
  assumes "wow_group srp"
  shows "calculate_proof C username srp = srp\<lparr>srp_m :=
    le_val (proof_digest C username (srp_s srp) (srp_big_a srp) (srp_big_b srp) (srp_k srp))\<rparr>"
  using assms by (simp add: calculate_proof_def proof_digest_def wow_group_def Let_def)

lemma set_verifier_hex: "0 < v \<Longrightarrow> set_verifier C (as_hex_str C v) srp = (True, srp\<lparr>srp_v := v\<rparr>)"
  by (simp add: set_verifier_def set_hex_str_as_hex_str bn_is_zero_def)

lemma set_salt_hex: "0 < s \<Longrightarrow> set_salt C (as_hex_str C s) srp = (True, srp\<lparr>srp_s := s\<rparr>)"
  by (simp add: set_salt_def set_hex_str_as_hex_str bn_is_zero_def)

lemma restore_digest_be:
  assumes "length d = 20"
  shows "restore_digest C (be_val d) = d"
proof -
  have lt: "be_val d < 256 ^ 20" using be_val_bound [of d] assms by simp
  let ?l = "le_form (be_val d)"
  have len: "length ?l \<le> 20" using lt by (intro length_le_form) auto
  have "restore_digest C (be_val d) = rev (?l @ replicate (20 - length ?l) 0)"
    using len lt by (simp add: restore_digest_def get_num_bytes_le sha1_DIGEST_LENGTH_def
        as_byte_array_le_form Let_def min_absorb1 drop_replicate)
  also have "?l @ replicate (20 - length ?l) 0 = le_bytes 20 (be_val d)"
    using as_byte_array_le_bytes [of "be_val d" 20] lt by (simp add: as_byte_array_le_form)
  also have "\<dots> = rev d"
    using le_bytes_le_val [of "rev d"] assms by (simp add: be_val_def)
  finally show ?thesis by simp
qed

lemma calculate_verifier_eq:
  assumes "wow_group srp" "salt \<noteq> []" "hex_digits_val 0 salt = Some s" "0 < s" "length d = 20"
  shows "calculate_verifier C (concat (map hex02 d)) salt srp =
    Inr (True, srp\<lparr>srp_s := s,
      srp_v := 7 ^ le_val (sha1 C (as_byte_array C 0 s @ d)) mod srp_N\<rparr>)"
proof -
  have "d \<noteq> []" using assms(5) by auto
  then have "concat (map hex02 d) \<noteq> []" by (cases d) (auto simp: hex02_def)
  then have "set_hex_str C (concat (map hex02 d)) 0 = (length (concat (map hex02 d)), be_val d)"
    by (intro set_hex_str_digits) (simp_all add: hex_digits_val_hex02)
  then show ?thesis
    using assms srp_N_bounds(1)
    by (simp add: calculate_verifier_def set_hex_str_digits wow_group_def mod_exp_val rust_defs
        restore_digest_be Let_def)
qed

end

context auth_crates
begin

lemma hash_session_key_eq:
  assumes "srp_big_s srp < srp_N"
  shows "hash_session_key C srp = srp\<lparr>srp_k := le_val (strong_key C (srp_big_s srp))\<rparr>"
proof -
  have "srp_big_s srp < 256 ^ 32" using assms srp_N_bounds(2) by simp
  then have "as_byte_array C 32 (srp_big_s srp) = le_bytes 32 (srp_big_s srp)"
    by (rule as_byte_array_le_bytes) simp
  then show ?thesis
    using store_at_interleave [OF sha1_len sha1_len]
    by (simp add: hash_session_key_def strong_key_def even_bytes_def odd_bytes_def mult.commute Let_def)
qed

lemma srp_proof_exact:
  assumes "wow_group srp" "length client_m = 20"
  shows "srp_proof C (calculate_proof C username srp) client_m \<longleftrightarrow>
    client_m = proof_digest C username (srp_s srp) (srp_big_a srp) (srp_big_b srp) (srp_k srp)"
proof -
  let ?d = "proof_digest C username (srp_s srp) (srp_big_a srp) (srp_big_b srp) (srp_k srp)"
  have len: "length ?d = 20" by (simp add: proof_digest_def sha1_len)
  then have "?d \<noteq> []" by auto
  then have "as_byte_array C 20 (le_val ?d) = ?d"
    using as_byte_array_set_binary [of ?d] len by simp
  then show ?thesis
    using assms len by (auto simp: srp_proof_def calculate_proof_eq Let_def)
qed

end

section \<open>Properties\<close>



text \<open>C6: the session key step refuses exactly the public values divisible by \<open>N\<close>
  (zero included), recording only \<open>A\<close>; on every other value it succeeds with a session
  key below \<open>N\<close>.\<close>

theorem session_key_safeguard:
  assumes "num_bigint C" "wow_group srp"
  shows "\<exists>ok srp'. calculate_session_key C client_a srp = Inr (ok, srp') \<and>
    (ok \<longleftrightarrow> \<not> srp_N dvd le_val client_a) \<and>
    (\<not> ok \<longrightarrow> srp' = srp\<lparr>srp_big_a := le_val client_a\<rparr>) \<and>
    (ok \<longrightarrow> srp_big_s srp' < srp_N)"
proof -
  have "0 < srp_N" using srp_N_bounds(1) by simp
  then show ?thesis
    using num_bigint.session_key_eq [OF assms, of client_a]
    by (auto simp: Let_def mod_eq_0_iff_dvd split: if_splits)
qed

theorem session_key_safeguard_witness:
  "\<exists>ok srp'. calculate_session_key std_crates [0, 0] (srp6_new std_crates) = Inr (ok, srp') \<and>
    (ok \<longleftrightarrow> \<not> srp_N dvd le_val [0, 0]) \<and>
    (\<not> ok \<longrightarrow> srp' = (srp6_new std_crates)\<lparr>srp_big_a := le_val [0, 0]\<rparr>) \<and>
    (ok \<longrightarrow> srp_big_s srp' < srp_N)"
  by (rule session_key_safeguard [OF std.num_bigint_axioms std.wow_group_new])

text \<open>C7: the strong session key is the 40-byte interleaving of the SHA-1 digests of the
  even and of the odd bytes of the 32-byte session key.\<close>

theorem hash_session_key_interleaves:
  assumes "auth_crates C" "srp_big_s srp < srp_N" "i < 20"
  shows "le_bytes 40 (srp_k (hash_session_key C srp)) ! (2 * i)
      = sha1 C (map (\<lambda>j. le_bytes 32 (srp_big_s srp) ! (2 * j)) [0..<16]) ! i
    \<and> le_bytes 40 (srp_k (hash_session_key C srp)) ! (2 * i + 1)
      = sha1 C (map (\<lambda>j. le_bytes 32 (srp_big_s srp) ! (2 * j + 1)) [0..<16]) ! i"
proof -
  have len: "length (sha1 C m) = 20" for m using auth_crates.sha1_len [OF assms(1)] .
  let ?k = "strong_key C (srp_big_s srp)"
  have "length ?k = 40" by (simp add: strong_key_def len Let_def)
  then have "le_bytes 40 (le_val ?k) = ?k" using le_bytes_le_val [of ?k] by simp
  then have "le_bytes 40 (srp_k (hash_session_key C srp)) = ?k"
    by (simp add: auth_crates.hash_session_key_eq [OF assms(1,2)])
  then show ?thesis
    using assms(3) by (simp add: strong_key_def even_bytes_def odd_bytes_def interleave_nth len Let_def)
qed

theorem hash_session_key_interleaves_witness:
  "le_bytes 40 (srp_k (hash_session_key std_crates (srp6_new std_crates))) ! (2 * 3)
      = sha1 std_crates (map (\<lambda>j. le_bytes 32 (srp_big_s (srp6_new std_crates)) ! (2 * j)) [0..<16]) ! 3
    \<and> le_bytes 40 (srp_k (hash_session_key std_crates (srp6_new std_crates))) ! (2 * 3 + 1)
      = sha1 std_crates (map (\<lambda>j. le_bytes 32 (srp_big_s (srp6_new std_crates)) ! (2 * j + 1)) [0..<16]) ! 3"
  by (rule hash_session_key_interleaves [OF std.auth_crates_axioms])
    (simp_all add: srp6_new_def bn_new_def srp_N_def)

text \<open>The verifier stored for an account is \<open>g\<close> to the power of
  \<open>SHA1(s || digest)\<close>: parsing the hexadecimal credentials digest and restoring its
  leading zeros gives back the 20 digest bytes.\<close>

theorem calculate_verifier_correct:
  assumes "num_bigint C" "salt \<noteq> []" "hex_digits_val 0 salt = Some s" "0 < s" "length d = 20"
  shows "calculate_verifier C (concat (map hex02 d)) salt (srp6_new C) =
    Inr (True, (srp6_new C)\<lparr>srp_s := s,
      srp_v := 7 ^ le_val (sha1 C (as_byte_array C 0 s @ d)) mod srp_N\<rparr>)"
  by (rule num_bigint.calculate_verifier_eq [OF assms(1) num_bigint.wow_group_new [OF assms(1)] assms(2-)])

theorem calculate_verifier_correct_witness:
  "calculate_verifier std_crates (concat (map hex02 (replicate 20 0))) ''2A'' (srp6_new std_crates) =
    Inr (True, (srp6_new std_crates)\<lparr>srp_s := 42,
      srp_v := 7 ^ le_val (sha1 std_crates (as_byte_array std_crates 0 42 @ replicate 20 0)) mod srp_N\<rparr>)"
  by (rule calculate_verifier_correct [OF std.num_bigint_axioms]) (simp_all add: hex_val_def)

text \<open>C8: a 20-byte client proof is accepted exactly when it is the digest
  \<open>SHA1(H(N) xor H(g) || H(user) || s || A || B || K)\<close> of the server's own values.\<close>

theorem srp_proof_accepts_exactly:
  assumes "auth_crates C" "wow_group srp" "length client_m = 20"
  shows "srp_proof C (calculate_proof C username srp) client_m \<longleftrightarrow>
    client_m = sha1 C (map2 (XOR) (sha1 C (as_byte_array C 0 srp_N)) (sha1 C (as_byte_array C 0 7))
       @ sha1 C (as_bytes username)
       @ concat (map (as_byte_array C 0) [srp_s srp, srp_big_a srp, srp_big_b srp, srp_k srp]))"
  using auth_crates.srp_proof_exact [OF assms] by (simp add: proof_digest_def)

theorem srp_proof_accepts_exactly_witness:
  "srp_proof std_crates (calculate_proof std_crates ''A'' (srp6_new std_crates)) (replicate 20 0) \<longleftrightarrow>
    replicate 20 0 = sha1 std_crates (map2 (XOR) (sha1 std_crates (as_byte_array std_crates 0 srp_N))
        (sha1 std_crates (as_byte_array std_crates 0 7))
       @ sha1 std_crates (as_bytes ''A'')
       @ concat (map (as_byte_array std_crates 0)
           [srp_s (srp6_new std_crates), srp_big_a (srp6_new std_crates),
            srp_big_b (srp6_new std_crates), srp_k (srp6_new std_crates)]))"
  by (rule srp_proof_accepts_exactly [OF std.auth_crates_axioms std.wow_group_new]) simp

end
