(* ===== verification/Config.thy ===== *)
theory Config
  imports Rust_Std
begin

text \<open>
  \<^verbatim>\<open>crates/shared/src/config/mod.rs\<close>: the INI-style configuration with environment
  overrides.  The file system (\<open>fs\<close>, the text of a file or \<open>None\<close>) and the process
  environment (\<open>env\<close>) are arguments; the table is a map.  Loading can panic: the
  quote-stripping slice \<^verbatim>\<open>value[1..value.len() - 1]\<close> is out of range when the value
  is a lone double quote, and the model returns that panic as an error value.
\<close>

section \<open>State and loading\<close>

record config =
  cfg_values :: "string \<rightharpoonup> string"
  cfg_filename :: string
  cfg_env_prefix :: string

definition config_new :: config where
  "config_new = \<lparr>cfg_values = Map.empty, cfg_filename = [], cfg_env_prefix = []\<rparr>"

definition quote :: char where
  "quote = CHR 0x22"

definition starts_with :: "char \<Rightarrow> string \<Rightarrow> bool" where
  "starts_with c s \<longleftrightarrow> s \<noteq> [] \<and> hd s = c"

definition ends_with :: "char \<Rightarrow> string \<Rightarrow> bool" where
  "ends_with c s \<longleftrightarrow> s \<noteq> [] \<and> last s = c"

definition strip_quotes :: "string \<Rightarrow> string result" where
  "strip_quotes value =
     (if starts_with quote value \<and> ends_with quote value
      then (if length value < 2 then Inl (Panic ''begin <= end (1 <= 0) when slicing'')
            else Inr (butlast (tl value)))
      else Inr value)"

definition load_line :: "string \<Rightarrow> (string \<rightharpoonup> string) \<Rightarrow> (string \<rightharpoonup> string) result" where
  "load_line line values =
     (let trimmed = trim line in
      if trimmed = [] \<or> starts_with CHR ''#'' trimmed \<or> starts_with CHR '';'' trimmed then Inr values
      else if starts_with CHR ''['' trimmed then Inr values
      else case split_first CHR ''='' trimmed of
             None \<Rightarrow> Inr values
           | Some (k, v) \<Rightarrow>
               bind_result (strip_quotes (trim v)) (\<lambda>value. Inr (values(trim k \<mapsto> value))))"

fun load_lines :: "string list \<Rightarrow> (string \<rightharpoonup> string) \<Rightarrow> (string \<rightharpoonup> string) result" where
  "load_lines [] values = Inr values"
| "load_lines (l # ls) values = bind_result (load_line l values) (load_lines ls)"

definition reload :: "(string \<Rightarrow> string option) \<Rightarrow> config \<Rightarrow> (bool \<times> config) result" where
  "reload fs cfg =
     (let cfg = cfg\<lparr>cfg_values := Map.empty\<rparr> in
      case fs (cfg_filename cfg) of
        None \<Rightarrow> Inr (False, cfg)
      | Some content \<Rightarrow>
          bind_result (load_lines (lines content) (cfg_values cfg)) (\<lambda>values.
          Inr (True, cfg\<lparr>cfg_values := values\<rparr>)))"

definition set_source ::
    "(string \<Rightarrow> string option) \<Rightarrow> string \<Rightarrow> string \<Rightarrow> config \<Rightarrow> (bool \<times> config) result" where
  "set_source fs filename env_prefix cfg =
     reload fs (cfg\<lparr>cfg_filename := filename, cfg_env_prefix := env_prefix\<rparr>)"

section \<open>Lookup\<close>

definition get_env_or_config :: "(string \<Rightarrow> string option) \<Rightarrow> config \<Rightarrow> string \<Rightarrow> string option" where
  "get_env_or_config env cfg key =
     (if cfg_env_prefix cfg \<noteq> [] then
        (let env_key = cfg_env_prefix cfg @ map (\<lambda>c. if c = CHR ''.'' then CHR ''_'' else c) key in
         case env env_key of Some val \<Rightarrow> Some val | None \<Rightarrow> cfg_values cfg key)
      else cfg_values cfg key)"

definition is_set :: "(string \<Rightarrow> string option) \<Rightarrow> config \<Rightarrow> string \<Rightarrow> bool" where
  "is_set env cfg key \<longleftrightarrow> get_env_or_config env cfg key \<noteq> None"

definition get_string_default :: "(string \<Rightarrow> string option) \<Rightarrow> config \<Rightarrow> string \<Rightarrow> string \<Rightarrow> string" where
  "get_string_default env cfg key dflt =
     (case get_env_or_config env cfg key of Some v \<Rightarrow> v | None \<Rightarrow> dflt)"

definition get_string :: "(string \<Rightarrow> string option) \<Rightarrow> config \<Rightarrow> string \<Rightarrow> string" where
  "get_string env cfg key = get_string_default env cfg key []"

text \<open>
  \<^verbatim>\<open>to_lowercase\<close> is compared with ASCII literals only, and no character outside ASCII
  lower-cases to one of their letters, so ASCII lower-casing decides the same matches.
\<close>

definition get_bool_default :: "(string \<Rightarrow> string option) \<Rightarrow> config \<Rightarrow> string \<Rightarrow> bool \<Rightarrow> bool" where
  "get_bool_default env cfg key dflt =
     (case get_env_or_config env cfg key of
        Some val \<Rightarrow> (let lower = map to_ascii_lowercase val in
          lower = ''1'' \<or> lower = ''true'' \<or> lower = ''yes'')
      | None \<Rightarrow> dflt)"

definition get_int_default :: "(string \<Rightarrow> string option) \<Rightarrow> config \<Rightarrow> string \<Rightarrow> i32 \<Rightarrow> i32" where
  "get_int_default env cfg key dflt =
     (case get_env_or_config env cfg key of
        Some val \<Rightarrow> (case parse_i32 val of Some n \<Rightarrow> n | None \<Rightarrow> dflt)
      | None \<Rightarrow> dflt)"

text \<open>\<open>parse_f32\<close> is the standard library's decimal-to-float conversion.\<close>

definition get_float_default ::
    "(string \<Rightarrow> f32 option) \<Rightarrow> (string \<Rightarrow> string option) \<Rightarrow> config \<Rightarrow> string \<Rightarrow> f32 \<Rightarrow> f32" where
  "get_float_default parse_f32 env cfg key dflt =
     (case get_env_or_config env cfg key of
        Some val \<Rightarrow> (case parse_f32 val of Some x \<Rightarrow> x | None \<Rightarrow> dflt)
      | None \<Rightarrow> dflt)"

lemmas config_get_defs = get_env_or_config_def get_string_default_def get_bool_default_def
  get_int_default_def

section \<open>Written settings are read back\<close>

text \<open>A text of settings \<^verbatim>\<open>key = "value"\<close>, one per line, as the example file has them.\<close>

fun render :: "(string \<times> string) list \<Rightarrow> string" where
  "render [] = []"
| "render ((k, v) # kvs) = k @ '' = '' @ [quote] @ v @ [quote, newline] @ render kvs"

definition clean_key :: "string \<Rightarrow> bool" where
  "clean_key k \<longleftrightarrow> k \<noteq> [] \<and> list_all plain_char k \<and> CHR ''='' \<notin> set k \<and>
     hd k \<noteq> CHR ''#'' \<and> hd k \<noteq> CHR '';'' \<and> hd k \<noteq> CHR ''[''"

definition clean_value :: "string \<Rightarrow> bool" where
  "clean_value v \<longleftrightarrow> newline \<notin> set v"

lemma plain_quote [simp]: "plain_char quote"
  by (simp add: plain_char_def quote_def)

lemma plain_not_ws: "plain_char c \<Longrightarrow> c \<noteq> newline \<and> c \<noteq> CHR '' ''"
  by (auto simp: plain_char_def newline_def)

lemma ws_len_space: "ws_len ws_chars (CHR '' '' # s) = 1"
  by (simp add: ws_len_def ws_chars_def char_of_def bit_Suc_0_iff)

lemma ws_len_rev_space: "ws_len (map rev ws_chars) (CHR '' '' # s) = 1"
  by (simp add: ws_len_def ws_chars_def char_of_def bit_Suc_0_iff)

lemma trim_space_front: "trim (CHR '' '' # s) = trim s"
  by (simp add: trim_def strip_front.simps [of ws_chars "CHR '' '' # s"] ws_len_space)

lemma trim_space_back:
  assumes "s \<noteq> []" "plain_char (hd s)" "plain_char (last s)"
  shows "trim (s @ [CHR '' '']) = s"
proof -
  have "strip_front ws_chars (s @ [CHR '' '']) = s @ [CHR '' '']"
    using assms by (intro strip_front_plain hd_ws_chars) auto
  moreover have "strip_front (map rev ws_chars) (CHR '' '' # rev s) = strip_front (map rev ws_chars) (rev s)"
    by (simp add: strip_front.simps [of "map rev ws_chars" "CHR '' '' # rev s"] ws_len_rev_space)
  moreover have "strip_front (map rev ws_chars) (rev s) = rev s"
    using assms by (intro strip_front_plain hd_rev_ws_chars) (auto simp: hd_rev)
  ultimately show ?thesis by (simp add: trim_def)
qed

definition setting_line :: "string \<Rightarrow> string \<Rightarrow> string" where
  "setting_line k v = k @ CHR '' '' # CHR ''='' # CHR '' '' # quote # v @ [quote]"

lemma load_line_setting:
  assumes "clean_key k"
  shows "load_line (setting_line k v) m = Inr (m(k \<mapsto> v))"
proof -
  have k: "k \<noteq> []" "plain_char (hd k)" "plain_char (last k)" "CHR ''='' \<notin> set k"
    using assms by (auto simp: clean_key_def list_all_iff)
  have tl: "trim (setting_line k v) = setting_line k v"
    using k by (intro trim_plain) (auto simp: setting_line_def)
  have hd: "hd (setting_line k v) = hd k" "setting_line k v \<noteq> []"
    using k by (auto simp: setting_line_def)
  have "split_first CHR ''='' ((k @ [CHR '' '']) @ CHR ''='' # (CHR '' '' # quote # v @ [quote]))
      = Some (k @ [CHR '' ''], CHR '' '' # quote # v @ [quote])"
    using k by (intro split_first_append) auto
  then have sp: "split_first CHR ''='' (setting_line k v)
      = Some (k @ [CHR '' ''], CHR '' '' # quote # v @ [quote])"
    by (simp add: setting_line_def)
  have "trim (CHR '' '' # quote # v @ [quote]) = quote # v @ [quote]"
    by (simp add: trim_space_front trim_plain)
  moreover have "trim (k @ [CHR '' '']) = k" using k(1-3) by (rule trim_space_back)
  ultimately show ?thesis
    using assms sp
    by (simp add: load_line_def tl starts_with_def ends_with_def hd strip_quotes_def clean_key_def
        butlast_append Let_def)
qed

lemma split_render:
  assumes "\<forall>(k, v) \<in> set kvs. clean_key k \<and> clean_value v"
  shows "split_on newline (render kvs) = map (\<lambda>(k, v). setting_line k v) kvs @ [[]]"
  using assms
proof (induction kvs)
  case (Cons kv kvs)
  obtain k v where kv: "kv = (k, v)" by fastforce
  let ?l = "setting_line k v"
  have "newline \<notin> set ?l"
    using Cons.prems plain_not_ws
    by (auto simp: kv clean_key_def clean_value_def list_all_iff newline_def quote_def setting_line_def)
  then have "split_on newline (?l @ newline # render kvs) = ?l # split_on newline (render kvs)"
    by (rule split_on_append)
  with Cons show ?case by (simp add: kv setting_line_def)
qed simp

lemma load_lines_settings:
  assumes "\<forall>(k, v) \<in> set kvs. clean_key k"
  shows "load_lines (map (\<lambda>(k, v). setting_line k v) kvs) m = Inr (m(map fst kvs [\<mapsto>] map snd kvs))"
  using assms
proof (induction kvs arbitrary: m)
  case (Cons kv kvs)
  then show ?case using load_line_setting [of "fst kv" "snd kv" m] by (cases kv) simp
qed simp

lemma drop_cr_setting: "drop_cr (setting_line k v) = setting_line k v"
  by (simp add: drop_cr_def quote_def carriage_def setting_line_def)

lemma set_source_render:
  assumes "\<forall>(k, v) \<in> set kvs. clean_key k \<and> clean_value v" "fs file = Some (render kvs)"
  shows "\<exists>cfg. set_source fs file prefix config_new = Inr (True, cfg) \<and>
    (\<forall>key. get_env_or_config (\<lambda>_. None) cfg key = map_of (rev kvs) key)"
proof -
  let ?ls = "map (\<lambda>(k, v). setting_line k v) kvs"
  have "map drop_cr ?ls = ?ls"
    by (auto simp: drop_cr_setting)
  then have "lines (render kvs) = ?ls"
    using split_render [OF assms(1)] by (simp add: lines_def Let_def butlast_append)
  moreover have "load_lines ?ls Map.empty = Inr (map_of (rev kvs))"
    using load_lines_settings [of kvs Map.empty] assms(1)
    by (auto simp: map_upds_def zip_map_fst_snd simp flip: map_add_map_of_foldr)
  ultimately show ?thesis
    using assms(2) by (auto simp: set_source_def reload_def config_new_def get_env_or_config_def Let_def)
qed

text \<open>C10: a configuration file of \<^verbatim>\<open>key = "value"\<close> lines loads, and with no override in
  the environment every lookup returns the value of the last line for the key.\<close>

theorem config_settings_roundtrip:
  assumes "\<forall>(k, v) \<in> set kvs. clean_key k \<and> clean_value v" "fs file = Some (render kvs)"
  shows "\<exists>cfg. set_source fs file prefix config_new = Inr (True, cfg) \<and>
    (\<forall>key. get_env_or_config (\<lambda>_. None) cfg key = map_of (rev kvs) key)"
  using assms by (rule set_source_render)

theorem config_settings_roundtrip_witness:
  "\<exists>cfg. set_source (\<lambda>_. Some (render [(''LogLevel'', ''2''), (''LogLevel'', ''3'')])) ''realmd.conf'' ''Realmd_'' config_new
      = Inr (True, cfg) \<and>
    (\<forall>key. get_env_or_config (\<lambda>_. None) cfg key
      = map_of (rev [(''LogLevel'', ''2''), (''LogLevel'', ''3'')]) key)"
  by (rule config_settings_roundtrip)
    (simp_all add: clean_key_def clean_value_def plain_char_def newline_def)

section \<open>When loading panics\<close>

definition lone_quote_line :: "string \<Rightarrow> bool" where
  "lone_quote_line l \<longleftrightarrow>
     (let t = trim l in t \<noteq> [] \<and> hd t \<notin> {CHR ''#'', CHR '';'', CHR ''[''} \<and>
      (case split_first CHR ''='' t of None \<Rightarrow> False | Some (k, v) \<Rightarrow> trim v = [quote]))"

lemma strip_quotes_isl: "isl (strip_quotes v) \<longleftrightarrow> v = [quote]"
proof (cases v)
  case (Cons c w)
  then show ?thesis
    by (cases w) (auto simp: strip_quotes_def starts_with_def ends_with_def)
qed (simp add: strip_quotes_def starts_with_def)

lemma load_line_isl: "isl (load_line l m) \<longleftrightarrow> lone_quote_line l"
  by (auto simp: load_line_def lone_quote_line_def starts_with_def Let_def isl_bind_result
      strip_quotes_isl split: option.splits)

lemma load_lines_isl: "isl (load_lines ls m) \<longleftrightarrow> (\<exists>l \<in> set ls. lone_quote_line l)"
  by (induction ls arbitrary: m) (auto simp: isl_bind_result load_line_isl)

text \<open>C11: loading the configuration fails (the process panics) exactly when some setting
  line has a lone double quote as its value; a missing file is not a failure.\<close>

theorem config_reload_panics_iff:
  "isl (reload fs cfg) \<longleftrightarrow>
    (\<exists>content. fs (cfg_filename cfg) = Some content \<and>
      list_ex lone_quote_line (lines content))"
  by (auto simp: reload_def Let_def list_ex_iff isl_bind_result load_lines_isl split: option.splits)

end
