(* ===== verification/Base32_Token.thy ===== *)
theory Base32_Token
  imports Crypto_Hash
begin

text \<open>
  \<^verbatim>\<open>crates/shared/src/auth/base32.rs\<close> and the authenticator token of
  \<^verbatim>\<open>crates/realmd/src/auth_socket.rs\<close> (\<^verbatim>\<open>generate_token\<close>).  The decoder proper is the
  crate's; the code cleans, pads and maps its input.  The system clock is an argument, in
  whole seconds since the epoch.  The theorems show that separators and the usual typing
  slips do not change a key, and that the token is RFC 4226's dynamic truncation, always
  in range and never read outside the digest.
\<close>

section \<open>Decoding\<close>

definition remove_whitespace :: "string \<Rightarrow> string" where
  "remove_whitespace s = concat (split_whitespace s)"

definition fix_typo :: "char \<Rightarrow> char" where
  "fix_typo c = (if c = CHR ''0'' then CHR ''O'' else if c = CHR ''1'' then CHR ''L''
     else if c = CHR ''8'' then CHR ''B'' else to_ascii_uppercase c)"

definition base32_clean :: "string \<Rightarrow> string" where
  "base32_clean input = map fix_typo (filter (\<lambda>c. c \<noteq> CHR ''-'') (remove_whitespace input))"

definition base32_pad :: "string \<Rightarrow> string" where
  "base32_pad cleaned =
     (if length cleaned mod 8 \<noteq> 0
      then cleaned @ replicate (8 - length cleaned mod 8) CHR ''=''
      else cleaned)"

definition base32_decode :: "crates \<Rightarrow> string \<Rightarrow> bytes result" where
  "base32_decode C input =
     (case base32_crate_decode C (as_bytes (base32_pad (base32_clean input))) of
        Some d \<Rightarrow> Inr d
      | None \<Rightarrow> Inl (Err ''base32 decode error''))"

text \<open>The output slice and the return value (the count, or \<open>- 1\<close>).\<close>

definition base32_decode_into :: "crates \<Rightarrow> string \<Rightarrow> bytes \<Rightarrow> i32 \<times> bytes" where
  "base32_decode_into C input output =
     (case base32_decode C input of
        Inr decoded \<Rightarrow>
          (let copy_len = min (length decoded) (length output)
           in (word_of_nat copy_len, take copy_len decoded @ drop copy_len output))
      | Inl _ \<Rightarrow> (- 1, output))"

section \<open>The token\<close>

text \<open>The loop \<^verbatim>\<open>for i in (0..8).rev() { challenge[i] = (ts & 0xFF) as u8; ts >>= 8; }\<close>.\<close>

fun fill_challenge :: "nat \<Rightarrow> u64 \<Rightarrow> bytes \<Rightarrow> bytes" where
  "fill_challenge 0 ts challenge = challenge"
| "fill_challenge (Suc i) ts challenge =
     fill_challenge i (drop_bit 8 ts) (challenge[i := ucast (ts AND 0xFF)])"

definition truncate_hmac :: "bytes \<Rightarrow> i32" where
  "truncate_hmac h =
     (let offset = unat ((h ! 19) AND 0x0F);
          trunc_hash = push_bit 24 (ucast (h ! offset) :: u32)
            OR push_bit 16 (ucast (h ! (offset + 1)))
            OR push_bit 8 (ucast (h ! (offset + 2)))
            OR ucast (h ! (offset + 3));
          trunc_hash = trunc_hash AND 0x7FFFFFFF
      in trunc_hash mod 1000000)"

definition generate_token :: "crates \<Rightarrow> nat \<Rightarrow> string \<Rightarrow> i32" where
  "generate_token C now b32key =
     (case base32_decode C b32key of
        Inl _ \<Rightarrow> - 1
      | Inr decoded \<Rightarrow>
          (let timestamp = (word_of_nat now :: u64) div 30;
               challenge = fill_challenge 8 timestamp (replicate 8 0)
           in truncate_hmac (hmac_sha1 C decoded challenge)))"

section \<open>Cleaning\<close>

text \<open>A key in groups: plain symbols separated by spaces and hyphens.\<close>

definition separator :: "char \<Rightarrow> bool" where
  "separator c \<longleftrightarrow> c = CHR '' '' \<or> c = CHR ''-''"

lemma ws_len_plain: "plain_char c \<Longrightarrow> ws_len ws_chars (c # s) = 0"
proof -
  assume "plain_char c"
  then have "find (\<lambda>w. take (length w) (c # s) = w) ws_chars = None"
    unfolding find_None_iff using hd_ws_chars by fastforce
  then show ?thesis by (simp add: ws_len_def)
qed

lemma ws_len_sp: "ws_len ws_chars (CHR '' '' # s) = 1"
  by (simp add: ws_len_def ws_chars_def char_of_def bit_Suc_0_iff)

lemma concat_split_ws:
  assumes "\<forall>c \<in> set s. plain_char c \<or> c = CHR '' ''"
  shows "concat (split_ws acc s) = rev acc @ filter (\<lambda>c. c \<noteq> CHR '' '') s"
  using assms
proof (induction acc s rule: split_ws.induct)
  case (2 acc c s)
  show ?case
  proof (cases "plain_char c")
    case True
    then have "ws_len ws_chars (c # s) = 0" by (rule ws_len_plain)
    with 2 True show ?thesis by (auto simp: plain_char_def)
  next
    case False
    with "2.prems" have c: "c = CHR '' ''" by simp
    with 2 show ?thesis by (auto simp: ws_len_sp)
  qed
qed auto

lemma base32_clean_separators:
  assumes "\<forall>c \<in> set s. plain_char c \<or> c = CHR '' ''"
  shows "base32_clean s = map fix_typo (filter (\<lambda>c. \<not> separator c) s)"
  using concat_split_ws [OF assms, of "[]"]
  by (simp add: base32_clean_def remove_whitespace_def split_whitespace_def separator_def conj_commute)

lemma length_base32_pad: "length (base32_pad s) mod 8 = 0"
proof (cases "length s mod 8 = 0")
  case False
  have "length s mod 8 < 8" by simp
  then have "(length s + (8 - length s mod 8)) mod 8 = 0" by presburger
  with False show ?thesis by (simp add: base32_pad_def)
qed (simp add: base32_pad_def)



lemma of_char_to_ascii_uppercase:
  "(of_char (to_ascii_uppercase c) :: nat)
     = (if 97 \<le> (of_char c :: nat) \<and> (of_char c :: nat) \<le> 122 then of_char c - 32 else of_char c)"
  by (auto simp: to_ascii_uppercase_def Let_def)

lemma fix_typo_not_pad:
  assumes "c \<noteq> CHR ''=''"
  shows "char_byte (fix_typo c) \<noteq> 0x3D"
proof
  assume "char_byte (fix_typo c) = 0x3D"
  then have "unat (char_byte (fix_typo c)) = 0x3D" by simp
  then have "(of_char (fix_typo c) :: nat) = 0x3D" by (simp add: char_byte_def unat_of_nat)
  then have "(of_char c :: nat) = 0x3D"
    by (auto simp: fix_typo_def of_char_to_ascii_uppercase split: if_splits)
  then have "c = char_of (0x3D :: nat)" by (metis char_of_char)
  with assms show False by (simp add: char_of_def bit_Suc_0_iff)
qed

text \<open>A decodable key of sixteen symbols has ten bytes, so the key
  \<open>JBSWY3DPEHPK3PXP\<close> of the module's tests cannot decode to the six bytes of
  \<open>Hello!\<close> that they expect.\<close>

theorem base32_sixteen_symbols:
  assumes "auth_crates C" "list_all (\<lambda>c. plain_char c \<and> \<not> separator c \<and> c \<noteq> CHR ''='') s" "length s = 16"
    and "base32_decode C s = Inr d"
  shows "length d = 10"
proof -
  have clean: "base32_clean s = map fix_typo s"
    using assms(2) by (subst base32_clean_separators) (auto simp: list_all_iff filter_id_conv)
  have pad: "base32_pad (map fix_typo s) = map fix_typo s"
    using assms(3) by (simp add: base32_pad_def)
  have "char_byte (fix_typo c) \<noteq> 0x3D" if "c \<in> set s" for c
    using assms(2) that fix_typo_not_pad by (auto simp: list_all_iff)
  then have "0x3D \<notin> set (as_bytes (map fix_typo s))" by (auto simp: as_bytes_def)
  moreover have "base32_crate_decode C (as_bytes (map fix_typo s)) = Some d"
    using assms(4) by (simp add: base32_decode_def clean pad split: option.splits)
  ultimately show ?thesis
    using auth_crates.b32_len [OF assms(1)] assms(3) by fastforce
qed

theorem base32_sixteen_symbols_witness:
  "\<exists>d. base32_decode std_crates ''JBSWY3DPEHPK3PXP'' = Inr d \<and> length d = 10"
proof -
  have "\<not> isl (base32_decode std_crates ''JBSWY3DPEHPK3PXP'')"
    by (simp add: base32_decode_def std_crates_def b32_ref_def base32_clean_separators plain_char_def
        separator_def fix_typo_def to_ascii_uppercase_def base32_pad_def char_byte_def b32_sym_def)
  then obtain d where d: "base32_decode std_crates ''JBSWY3DPEHPK3PXP'' = Inr d"
    by (cases "base32_decode std_crates ''JBSWY3DPEHPK3PXP''") auto
  moreover have "length d = 10"
    by (rule base32_sixteen_symbols [OF std.auth_crates_axioms _ _ d])
      (simp_all add: plain_char_def separator_def)
  ultimately show ?thesis by blast
qed

section \<open>Truncation\<close>

lemma nat_or_push: "n < 2 ^ k \<Longrightarrow> push_bit k m OR n = m * 2 ^ k + (n :: nat)"
proof -
  assume "n < 2 ^ k"
  then have "n = take_bit k n" by (simp add: take_bit_eq_mod)
  then have "bit n i \<Longrightarrow> i < k" for i by (metis bit_take_bit_iff)
  then have "push_bit k m + n = push_bit k m OR n"
    by (intro disjunctive_add) (meson bit_push_bit_iff leD)
  then show ?thesis by (simp add: push_bit_eq_mult)
qed

lemma nat_or_bytes:
  fixes a b c d :: nat
  assumes "b < 256" "c < 256" "d < 256"
  shows "push_bit 24 a OR push_bit 16 b OR push_bit 8 c OR d = a * 2 ^ 24 + b * 2 ^ 16 + c * 2 ^ 8 + d"
proof -
  have "push_bit 8 c OR d = c * 2 ^ 8 + d"
    using assms by (intro nat_or_push) simp
  moreover have "push_bit 16 b OR (c * 2 ^ 8 + d) = b * 2 ^ 16 + (c * 2 ^ 8 + d)"
    using assms by (intro nat_or_push) simp
  moreover have "push_bit 24 a OR (b * 2 ^ 16 + (c * 2 ^ 8 + d)) = a * 2 ^ 24 + (b * 2 ^ 16 + (c * 2 ^ 8 + d))"
    using assms by (intro nat_or_push) simp
  ultimately show ?thesis by simp
qed

lemma unat_or_bytes:
  fixes a b c d :: u8
  shows "unat (push_bit 24 (ucast a :: u32) OR push_bit 16 (ucast b) OR push_bit 8 (ucast c) OR ucast d)
    = unat a * 2 ^ 24 + unat b * 2 ^ 16 + unat c * 2 ^ 8 + unat d"
proof -
  have u: "unat (push_bit k (ucast x :: u32)) = push_bit k (unat x)" if "k \<le> 24" for k and x :: u8
  proof -
    have "unat x * 2 ^ k < 2 ^ 8 * 2 ^ 24"
      using that by (intro mult_less_le_imp_less power_increasing) (simp_all add: unat_u8_less)
    then have "take_bit 32 (push_bit k (unat x)) = push_bit k (unat x)"
      by (simp add: take_bit_eq_mod push_bit_eq_mult)
    moreover have "unat (ucast x :: u32) = unat x"
      using less_trans [OF unat_u8_less [of x], of "2 ^ 32"]
      by (simp add: unsigned_ucast_eq take_bit_eq_mod)
    moreover have "unat (push_bit k (ucast x :: u32)) = take_bit 32 (push_bit k (unat (ucast x :: u32)))"
      by (subst unsigned_push_bit_eq) simp
    ultimately show ?thesis by simp
  qed
  have "unat (ucast d :: u32) = unat d" using u [of 0 d] by simp
  then show ?thesis
    using nat_or_bytes [OF unat_u8_less [of b] unat_u8_less [of c] unat_u8_less [of d], of "unat a"]
    by (simp add: unsigned_or_eq u)
qed

lemma fill_challenge_be:
  "n \<le> length ch \<Longrightarrow>
    fill_challenge n ts ch = rev (le_bytes n (unat ts)) @ drop n ch"
proof (induction n arbitrary: ts ch)
  case (Suc n)
  have "ts AND 0xFF = take_bit 8 ts" by (simp add: take_bit_eq_mask mask_eq_exp_minus_1)
  then have "unat (ts AND 0xFF) = take_bit 8 (unat ts)" by (simp only: unsigned_take_bit_eq)
  then have "unat (ts AND 0xFF) = unat ts mod 256" by (simp add: take_bit_eq_mod)
  then have byte: "(ucast (ts AND 0xFF) :: u8) = word_of_nat (unat ts mod 256)"
    by (metis of_nat_unat)
  have "unat (drop_bit 8 ts) = drop_bit 8 (take_bit 64 (unat ts))"
    using unsigned_drop_bit_eq [of 8 ts] by simp
  moreover have "take_bit 64 (unat ts) = unat ts"
    using unsigned_less [of ts, where 'a=nat] by (simp add: take_bit_eq_mod)
  ultimately have "unat (drop_bit 8 ts) = unat ts div 256" by (simp only: drop_bit_eq_div) simp
  moreover have "drop n (ch[n := v]) = v # drop (Suc n) ch" for v
    using Suc.prems
    by (metis Cons_nth_drop_Suc Suc_le_eq drop_update_cancel length_list_update lessI nth_list_update_eq)
  ultimately show ?case using Suc by (simp add: byte)
qed simp

text \<open>RFC 4226: the 31-bit number in four digest bytes at the offset in the low nibble of
  the last byte, to six digits, over the big-endian count of 30-second steps.\<close>

definition totp :: "crates \<Rightarrow> nat \<Rightarrow> bytes \<Rightarrow> nat" where
  "totp C now key =
     (let h = hmac_sha1_mac C key (rev (le_bytes 8 (now div 30)));
          offset = unat (h ! 19) mod 16
      in be_val (take 4 (drop offset h)) mod 2 ^ 31 mod 10 ^ 6)"

lemma take_4_drop: "i + 3 < length h \<Longrightarrow> take 4 (drop i h) = [h ! i, h ! (i + 1), h ! (i + 2), h ! (i + 3)]"
  by (intro nth_equalityI) (auto simp: less_Suc_eq numeral_eq_Suc)

lemma truncate_hmac_unat:
  assumes "length h = 20"
  shows "unat (truncate_hmac h) = be_val (take 4 (drop (unat (h ! 19) mod 16) h)) mod 2 ^ 31 mod 10 ^ 6"
proof -
  let ?o = "unat (h ! 19) mod 16"
  have "(h ! 19) AND 0x0F = take_bit 4 (h ! 19)" by (simp add: take_bit_eq_mask mask_eq_exp_minus_1)
  then have "unat ((h ! 19) AND 0x0F) = take_bit 4 (unat (h ! 19))" by (simp only: unsigned_take_bit_eq)
  then have off: "unat ((h ! 19) AND 0x0F) = ?o" by (simp add: take_bit_eq_mod)
  have o: "?o + 3 < 20" by (rule le_less_trans [of _ "15 + 3"]) auto
  have quad: "take 4 (drop ?o h) = [h ! ?o, h ! (?o + 1), h ! (?o + 2), h ! (?o + 3)]"
    using o assms by (simp add: take_4_drop)
  define w where "w = push_bit 24 (ucast (h ! ?o) :: u32) OR push_bit 16 (ucast (h ! (?o + 1)))
    OR push_bit 8 (ucast (h ! (?o + 2))) OR ucast (h ! (?o + 3))"
  have w: "unat w = be_val (take 4 (drop ?o h))"
    unfolding w_def unat_or_bytes quad by (simp add: be_val_def)
  have "w AND 0x7FFFFFFF = take_bit 31 w" by (simp add: take_bit_eq_mask mask_eq_exp_minus_1)
  then have "unat (w AND 0x7FFFFFFF) = take_bit 31 (unat w)" by (simp only: unsigned_take_bit_eq)
  then have m: "unat (w AND 0x7FFFFFFF) = unat w mod 2 ^ 31" by (simp add: take_bit_eq_mod)
  have "truncate_hmac h = (w AND 0x7FFFFFFF) mod 1000000"
    by (simp only: truncate_hmac_def Let_def off w_def)
  then have "unat (truncate_hmac h) = unat (w AND 0x7FFFFFFF) mod unat (1000000 :: u32)"
    by (simp only: unat_mod_distrib)
  with m w show ?thesis by simp
qed

text \<open>C13: the token of a decodable key is the RFC 4226 code for the current 30-second step
  (so between 0 and 999999); for an undecodable key it is -1.\<close>

theorem generate_token_totp:
  assumes "auth_crates C" "now < 2 ^ 64"
  shows "generate_token C now b32key =
    (case base32_decode C b32key of Inl _ \<Rightarrow> - 1 | Inr key \<Rightarrow> word_of_nat (totp C now key))"
proof (cases "base32_decode C b32key")
  case (Inr key)
  have "unat ((word_of_nat now :: u64) div 30) = now div 30"
    using assms(2) by (simp add: unat_div_distrib unat_of_nat)
  then have "fill_challenge 8 ((word_of_nat now :: u64) div 30) (replicate 8 0) = rev (le_bytes 8 (now div 30))"
    using fill_challenge_be [of 8 "replicate 8 0"] by simp
  moreover have "unat (truncate_hmac (hmac_sha1_mac C key (rev (le_bytes 8 (now div 30))))) = totp C now key"
    using auth_crates.hmac_len [OF assms(1)] by (simp add: truncate_hmac_unat totp_def Let_def)
  ultimately show ?thesis
    using Inr by (simp add: generate_token_def hmac_sha1_def Let_def) (metis of_nat_unat ucast_id)
qed (simp add: generate_token_def)

theorem generate_token_totp_witness:
  "generate_token std_crates 1700000000 ''JBSWY3DPEHPK3PXP'' =
    (case base32_decode std_crates ''JBSWY3DPEHPK3PXP'' of Inl _ \<Rightarrow> - 1
     | Inr key \<Rightarrow> word_of_nat (totp std_crates 1700000000 key))"
  by (rule generate_token_totp [OF std.auth_crates_axioms]) simp

end
