(* ===== verification/Byte_Buffer.thy ===== *)
theory Byte_Buffer
  imports Rust_Std
begin

text \<open>
  The packet buffer of \<^verbatim>\<open>crates/shared/src/util/byte_buffer.rs\<close>: a growing byte vector
  with a read cursor.  Every method is a function on the record; a read returns its
  \<^verbatim>\<open>Result\<close> together with the buffer, whose cursor moves only on success.  The locale
  \<open>bb_codec\<close> states what a typed write/read pair promises, its lemmas give the round
  trips for one value and for a sequence of values, and it is interpreted on each of the
  typed pairs of the code.
\<close>

section \<open>The buffer and its methods\<close>

record byte_buffer =
  bb_data :: bytes
  bb_read_pos :: nat

definition bb_new :: byte_buffer where
  "bb_new = \<lparr>bb_data = [], bb_read_pos = 0\<rparr>"

definition bb_with_capacity :: "nat \<Rightarrow> byte_buffer" where
  "bb_with_capacity capacity = \<lparr>bb_data = [], bb_read_pos = 0\<rparr>"

definition bb_size :: "byte_buffer \<Rightarrow> nat" where
  "bb_size b = length (bb_data b)"

definition bb_is_empty :: "byte_buffer \<Rightarrow> bool" where
  "bb_is_empty b \<longleftrightarrow> bb_data b = []"

definition bb_contents :: "byte_buffer \<Rightarrow> bytes" where
  "bb_contents b = bb_data b"

definition bb_clear :: "byte_buffer \<Rightarrow> byte_buffer" where
  "bb_clear b = b\<lparr>bb_data := [], bb_read_pos := 0\<rparr>"

definition append_bytes :: "bytes \<Rightarrow> byte_buffer \<Rightarrow> byte_buffer" where
  "append_bytes d b = b\<lparr>bb_data := bb_data b @ d\<rparr>"

definition write_u8 :: "u8 \<Rightarrow> byte_buffer \<Rightarrow> byte_buffer" where
  "write_u8 v b = b\<lparr>bb_data := bb_data b @ [v]\<rparr>"

definition write_u16 :: "u16 \<Rightarrow> byte_buffer \<Rightarrow> byte_buffer" where
  "write_u16 v b = b\<lparr>bb_data := bb_data b @ to_le_bytes v\<rparr>"

definition write_u32 :: "u32 \<Rightarrow> byte_buffer \<Rightarrow> byte_buffer" where
  "write_u32 v b = b\<lparr>bb_data := bb_data b @ to_le_bytes v\<rparr>"

definition write_u64 :: "u64 \<Rightarrow> byte_buffer \<Rightarrow> byte_buffer" where
  "write_u64 v b = b\<lparr>bb_data := bb_data b @ to_le_bytes v\<rparr>"

definition write_f32 :: "f32 \<Rightarrow> byte_buffer \<Rightarrow> byte_buffer" where
  "write_f32 v b = b\<lparr>bb_data := bb_data b @ to_le_bytes v\<rparr>"

definition write_string :: "string \<Rightarrow> byte_buffer \<Rightarrow> byte_buffer" where
  "write_string s b = b\<lparr>bb_data := bb_data b @ as_bytes s @ [0]\<rparr>"

definition past_end :: rust_error where
  "past_end = Err ''ByteBuffer read past end''"

definition read_u8 :: "byte_buffer \<Rightarrow> u8 result \<times> byte_buffer" where
  "read_u8 b =
     (if bb_read_pos b \<ge> length (bb_data b) then (Inl past_end, b)
      else (Inr (bb_data b ! bb_read_pos b), b\<lparr>bb_read_pos := bb_read_pos b + 1\<rparr>))"

definition read_u16 :: "byte_buffer \<Rightarrow> u16 result \<times> byte_buffer" where
  "read_u16 b =
     (if bb_read_pos b + 2 > length (bb_data b) then (Inl past_end, b)
      else (Inr (from_le_bytes (take 2 (drop (bb_read_pos b) (bb_data b)))),
            b\<lparr>bb_read_pos := bb_read_pos b + 2\<rparr>))"

definition read_u32 :: "byte_buffer \<Rightarrow> u32 result \<times> byte_buffer" where
  "read_u32 b =
     (if bb_read_pos b + 4 > length (bb_data b) then (Inl past_end, b)
      else (Inr (from_le_bytes (take 4 (drop (bb_read_pos b) (bb_data b)))),
            b\<lparr>bb_read_pos := bb_read_pos b + 4\<rparr>))"

definition read_u64 :: "byte_buffer \<Rightarrow> u64 result \<times> byte_buffer" where
  "read_u64 b =
     (if bb_read_pos b + 8 > length (bb_data b) then (Inl past_end, b)
      else (Inr (from_le_bytes (take 8 (drop (bb_read_pos b) (bb_data b)))),
            b\<lparr>bb_read_pos := bb_read_pos b + 8\<rparr>))"

definition read_f32 :: "byte_buffer \<Rightarrow> f32 result \<times> byte_buffer" where
  "read_f32 b =
     (if bb_read_pos b + 4 > length (bb_data b) then (Inl past_end, b)
      else (Inr (from_le_bytes (take 4 (drop (bb_read_pos b) (bb_data b)))),
            b\<lparr>bb_read_pos := bb_read_pos b + 4\<rparr>))"

text \<open>The scan loop of \<^verbatim>\<open>read_string\<close>: advance to the next zero byte or the end.\<close>

function scan_nul :: "bytes \<Rightarrow> nat \<Rightarrow> nat" where
  "scan_nul d i = (if i < length d \<and> d ! i \<noteq> 0 then scan_nul d (i + 1) else i)"
  by pat_completeness auto
termination
  by (relation "measure (\<lambda>(d, i). length d - i)") auto

declare scan_nul.simps [simp del]

definition read_string :: "byte_buffer \<Rightarrow> string result \<times> byte_buffer" where
  "read_string b =
     (let start = bb_read_pos b; stop = scan_nul (bb_data b) start in
      if start > length (bb_data b)
      then (Inl (Panic ''range start index out of range for slice''), b)
      else (Inr (from_utf8_lossy (take (stop - start) (drop start (bb_data b)))),
            b\<lparr>bb_read_pos := if stop < length (bb_data b) then stop + 1 else stop\<rparr>))"

definition read_bytes :: "nat \<Rightarrow> byte_buffer \<Rightarrow> bytes result \<times> byte_buffer" where
  "read_bytes count b =
     (if bb_read_pos b + count \<ge> 2 ^ 64 then (Inl (Panic ''attempt to add with overflow''), b)
      else if bb_read_pos b + count > length (bb_data b) then (Inl past_end, b)
      else (Inr (take count (drop (bb_read_pos b) (bb_data b))),
            b\<lparr>bb_read_pos := bb_read_pos b + count\<rparr>))"

definition read_skip :: "nat \<Rightarrow> byte_buffer \<Rightarrow> unit result \<times> byte_buffer" where
  "read_skip count b =
     (if bb_read_pos b + count \<ge> 2 ^ 64 then (Inl (Panic ''attempt to add with overflow''), b)
      else (Inr (), b\<lparr>bb_read_pos := min (bb_read_pos b + count) (length (bb_data b))\<rparr>))"

lemmas bb_write_defs = append_bytes_def write_u8_def write_u16_def write_u32_def write_u64_def
  write_f32_def write_string_def bb_new_def bb_with_capacity_def

lemmas bb_read_defs = read_u8_def read_u16_def read_u32_def read_u64_def read_f32_def
  read_bytes_def read_skip_def

section \<open>Invariant and contents\<close>

definition bb_invar :: "byte_buffer \<Rightarrow> bool" where
  "bb_invar b \<longleftrightarrow> bb_read_pos b \<le> length (bb_data b)"

definition unread :: "byte_buffer \<Rightarrow> bytes" where
  "unread b = drop (bb_read_pos b) (bb_data b)"

lemma bb_data_writes [simp]:
  "bb_data (append_bytes d b) = bb_data b @ d"
  "bb_data (write_u8 v8 b) = bb_data b @ [v8]"
  "bb_data (write_u16 v16 b) = bb_data b @ to_le_bytes v16"
  "bb_data (write_u32 v32 b) = bb_data b @ to_le_bytes v32"
  "bb_data (write_u64 v64 b) = bb_data b @ to_le_bytes v64"
  "bb_data (write_f32 vf b) = bb_data b @ to_le_bytes vf"
  "bb_data (write_string s b) = bb_data b @ as_bytes s @ [0]"
  "bb_data bb_new = []"
  "bb_data (bb_with_capacity n) = []"
  by (simp_all add: bb_write_defs)

lemma scan_nul_ge: "i \<le> scan_nul d i"
  by (induction d i rule: scan_nul.induct) (subst scan_nul.simps, auto)

lemma scan_nul_le: "i \<le> length d \<Longrightarrow> scan_nul d i \<le> length d"
  by (induction d i rule: scan_nul.induct) (subst scan_nul.simps, auto)

lemma scan_nul_append:
  "0 \<notin> set s \<Longrightarrow> scan_nul (p @ s @ 0 # r) (length p) = length p + length s"
proof (induction s arbitrary: p)
  case Nil
  show ?case by (subst scan_nul.simps) simp
next
  case (Cons c s)
  have "scan_nul (p @ (c # s) @ 0 # r) (length p)
      = scan_nul ((p @ [c]) @ s @ 0 # r) (length (p @ [c]))"
    using Cons.prems by (subst scan_nul.simps) simp
  also have "\<dots> = length (p @ [c]) + length s"
    using Cons.prems by (intro Cons.IH) simp
  finally show ?case by simp
qed

lemma bb_invar_write:
  assumes "bb_invar b"
  shows "bb_invar (append_bytes d b)" "bb_invar (write_u8 v8 b)" "bb_invar (write_u16 v16 b)"
    "bb_invar (write_u32 v32 b)" "bb_invar (write_u64 v64 b)" "bb_invar (write_f32 vf b)"
    "bb_invar (write_string s b)" "bb_invar bb_new" "bb_invar (bb_clear b)"
  using assms by (simp_all add: bb_invar_def bb_write_defs bb_clear_def)

lemma bb_invar_read:
  assumes "bb_invar b"
  shows "bb_invar (snd (read_u8 b))" "bb_invar (snd (read_u16 b))" "bb_invar (snd (read_u32 b))"
    "bb_invar (snd (read_u64 b))" "bb_invar (snd (read_f32 b))" "bb_invar (snd (read_bytes n b))"
    "bb_invar (snd (read_skip n b))" "bb_invar (snd (read_string b))"
  using assms scan_nul_le [of "bb_read_pos b" "bb_data b"]
  by (auto simp: bb_invar_def bb_read_defs read_string_def Let_def)

section \<open>What a typed write/read pair promises\<close>

locale bb_codec =
  fixes put :: "'a \<Rightarrow> byte_buffer \<Rightarrow> byte_buffer"
    and get :: "byte_buffer \<Rightarrow> 'a result \<times> byte_buffer"
    and enc :: "'a \<Rightarrow> bytes"
    and ok :: "'a \<Rightarrow> bool"
  assumes put_enc: "put v b = b\<lparr>bb_data := bb_data b @ enc v\<rparr>"
    and get_enc: "bb_invar b \<Longrightarrow> ok v \<Longrightarrow> unread b = enc v @ r \<Longrightarrow>
          get b = (Inr v, b\<lparr>bb_read_pos := bb_read_pos b + length (enc v)\<rparr>)"
begin

fun put_all :: "'a list \<Rightarrow> byte_buffer \<Rightarrow> byte_buffer" where
  "put_all [] b = b"
| "put_all (v # vs) b = put_all vs (put v b)"

fun get_all :: "nat \<Rightarrow> byte_buffer \<Rightarrow> 'a list result \<times> byte_buffer" where
  "get_all 0 b = (Inr [], b)"
| "get_all (Suc n) b =
     (case get b of (Inl e, b') \<Rightarrow> (Inl e, b')
      | (Inr v, b') \<Rightarrow> (case get_all n b' of (Inl e, b'') \<Rightarrow> (Inl e, b'')
         | (Inr vs, b'') \<Rightarrow> (Inr (v # vs), b'')))"

lemma put_all_data: "put_all vs b = b\<lparr>bb_data := bb_data b @ concat (map enc vs)\<rparr>"
  by (induction vs arbitrary: b) (auto simp: put_enc)

lemma put_get:
  assumes "bb_invar b" "unread b = []" "ok v"
  shows "fst (get (put v b)) = Inr v" "unread (snd (get (put v b))) = []"
proof -
  have inv: "bb_invar (put v b)" using assms(1) by (simp add: bb_invar_def put_enc)
  have "unread (put v b) = enc v @ []"
    using assms(1,2) by (simp add: unread_def put_enc bb_invar_def)
  from get_enc [OF inv assms(3) this] show "fst (get (put v b)) = Inr v"
    and "unread (snd (get (put v b))) = []"
    using assms(1,2) by (simp_all add: unread_def put_enc bb_invar_def)
qed

lemma get_all_enc:
  assumes "bb_invar b" "\<forall>v \<in> set vs. ok v" "unread b = concat (map enc vs) @ r"
  shows "fst (get_all (length vs) b) = Inr vs \<and> unread (snd (get_all (length vs) b)) = r"
  using assms
proof (induction vs arbitrary: b)
  case (Cons v vs)
  let ?b' = "b\<lparr>bb_read_pos := bb_read_pos b + length (enc v)\<rparr>"
  have g: "get b = (Inr v, ?b')"
    using Cons.prems by (intro get_enc [where r = "concat (map enc vs) @ r"]) auto
  have u': "unread ?b' = drop (length (enc v)) (unread b)"
    by (simp add: unread_def add.commute)
  have "length (enc v) \<le> length (unread b)" using Cons.prems(3) by simp
  then have "bb_invar ?b'" using Cons.prems(1) by (simp add: bb_invar_def unread_def)
  then have "fst (get_all (length vs) ?b') = Inr vs \<and> unread (snd (get_all (length vs) ?b')) = r"
    using Cons.prems u' by (intro Cons.IH) simp_all
  with g show ?case by (auto split: prod.splits sum.splits)
qed simp

lemma put_all_get_all:
  assumes "\<forall>v \<in> set vs. ok v"
  shows "fst (get_all (length vs) (put_all vs bb_new)) = Inr vs"
  using get_all_enc [of "put_all vs bb_new" vs "[]"] assms
  by (simp add: put_all_data bb_invar_def unread_def bb_new_def)

end

section \<open>The typed pairs of the code\<close>

lemma drop_eq_append_length:
  "drop p d = e @ r \<Longrightarrow> p \<le> length d \<Longrightarrow> p + length e \<le> length d"
  by (metis add_le_cancel_left le_add1 le_add_diff_inverse length_append length_drop)

lemma nth_of_drop: "drop p d = x # r \<Longrightarrow> d ! p = x"
  by (metis hd_drop_conv_nth linorder_not_le list.sel(1) drop_all list.distinct(1))

interpretation c_u8: bb_codec write_u8 read_u8 "\<lambda>v. [v]" "\<lambda>_. True"
proof (unfold_locales, goal_cases)
  case (2 b v r)
  then show ?case
    using drop_eq_append_length [of "bb_read_pos b" "bb_data b" "[v]" r]
      nth_of_drop [of "bb_read_pos b" "bb_data b" v r]
    by (auto simp: read_u8_def unread_def bb_invar_def)
qed (simp add: write_u8_def)

interpretation c_u16: bb_codec write_u16 read_u16 to_le_bytes "\<lambda>_. True"
proof (unfold_locales, goal_cases)
  case (2 b v r)
  then show ?case
    using drop_eq_append_length [of "bb_read_pos b" "bb_data b" "to_le_bytes v" r]
    by (auto simp: read_u16_def unread_def bb_invar_def)
qed (simp add: write_u16_def)

interpretation c_u32: bb_codec write_u32 read_u32 to_le_bytes "\<lambda>_. True"
proof (unfold_locales, goal_cases)
  case (2 b v r)
  then show ?case
    using drop_eq_append_length [of "bb_read_pos b" "bb_data b" "to_le_bytes v" r]
    by (auto simp: read_u32_def unread_def bb_invar_def)
qed (simp add: write_u32_def)

interpretation c_u64: bb_codec write_u64 read_u64 to_le_bytes "\<lambda>_. True"
proof (unfold_locales, goal_cases)
  case (2 b v r)
  then show ?case
    using drop_eq_append_length [of "bb_read_pos b" "bb_data b" "to_le_bytes v" r]
    by (auto simp: read_u64_def unread_def bb_invar_def)
qed (simp add: write_u64_def)

interpretation c_f32: bb_codec write_f32 read_f32 to_le_bytes "\<lambda>_. True"
proof (unfold_locales, goal_cases)
  case (2 b v r)
  then show ?case
    using drop_eq_append_length [of "bb_read_pos b" "bb_data b" "to_le_bytes v" r]
    by (auto simp: read_f32_def unread_def bb_invar_def)
qed (simp add: write_f32_def)

text \<open>A string survives the pair when it has no NUL and is well-formed UTF-8.\<close>

definition wire_string :: "string \<Rightarrow> bool" where
  "wire_string s \<longleftrightarrow> 0 \<notin> set (as_bytes s) \<and> from_utf8_lossy (as_bytes s) = s"

interpretation c_string: bb_codec write_string read_string "\<lambda>s. as_bytes s @ [0]" wire_string
proof (unfold_locales, goal_cases)
  case (2 b v r)
  let ?p = "bb_read_pos b" and ?d = "bb_data b"
  have le: "?p \<le> length ?d" using 2(1) by (simp add: bb_invar_def)
  have dr: "drop ?p ?d = as_bytes v @ 0 # r" using 2(3) by (simp add: unread_def)
  have d: "?d = take ?p ?d @ as_bytes v @ 0 # r"
    by (metis append_take_drop_id dr)
  have "scan_nul ?d ?p = ?p + length v"
    using scan_nul_append [of "as_bytes v" "take ?p ?d" r] 2(2) le
    by (metis as_bytes_simps(4) d length_take min.absorb2 wire_string_def)
  moreover have "?p + length v < length ?d"
    using drop_eq_append_length [of ?p ?d "as_bytes v @ [0]" r] dr le by simp
  ultimately show ?case
    using dr 2(2) le by (simp add: read_string_def wire_string_def Let_def)
qed (simp add: write_string_def)

lemma wire_string_ascii: "is_ascii s \<Longrightarrow> CHR 0x00 \<notin> set s \<Longrightarrow> wire_string s"
proof -
  assume a: "is_ascii s" and z: "CHR 0x00 \<notin> set s"
  have "char_byte c \<noteq> 0" if "c \<in> set s" for c
  proof
    assume "char_byte c = 0"
    then have "c = byte_char 0" by (metis byte_char_char_byte)
    then have "c = CHR 0x00" by (simp add: byte_char_def char_of_def)
    with that z show False by simp
  qed
  then have "0 \<notin> set (as_bytes s)" by (auto simp: as_bytes_def)
  then show ?thesis using a by (simp add: wire_string_def)
qed

end
