(* ===== verification/Auth_Protocol.thy ===== *)
theory Auth_Protocol
  imports Byte_Buffer
begin

text \<open>
  The opcodes and result codes of \<^verbatim>\<open>crates/realmd/src/auth_codes.rs\<close>, the shared
  constants of \<^verbatim>\<open>crates/shared/src/lib.rs\<close> the server uses, and the packet structures
  of \<^verbatim>\<open>crates/realmd/src/protocol.rs\<close>.  The locale \<open>wire_format\<close> states that a
  decoder inverts an encoding whatever follows it; it is interpreted on the four packets
  the server receives, with the layout the client sends as the encoding.
\<close>

section \<open>Codes\<close>

datatype auth_cmd =
    LogonChallenge | LogonProof | ReconnectChallenge | ReconnectProof | RealmList
  | XferInitiate | XferData | XferAccept | XferResume | XferCancel

fun auth_cmd_u8 :: "auth_cmd \<Rightarrow> u8" where
  "auth_cmd_u8 LogonChallenge = 0x00"
| "auth_cmd_u8 LogonProof = 0x01"
| "auth_cmd_u8 ReconnectChallenge = 0x02"
| "auth_cmd_u8 ReconnectProof = 0x03"
| "auth_cmd_u8 RealmList = 0x10"
| "auth_cmd_u8 XferInitiate = 0x30"
| "auth_cmd_u8 XferData = 0x31"
| "auth_cmd_u8 XferAccept = 0x32"
| "auth_cmd_u8 XferResume = 0x33"
| "auth_cmd_u8 XferCancel = 0x34"

definition auth_cmd_from_u8 :: "u8 \<Rightarrow> auth_cmd option" where
  "auth_cmd_from_u8 val =
     (if val = 0x00 then Some LogonChallenge
      else if val = 0x01 then Some LogonProof
      else if val = 0x02 then Some ReconnectChallenge
      else if val = 0x03 then Some ReconnectProof
      else if val = 0x10 then Some RealmList
      else if val = 0x30 then Some XferInitiate
      else if val = 0x31 then Some XferData
      else if val = 0x32 then Some XferAccept
      else if val = 0x33 then Some XferResume
      else if val = 0x34 then Some XferCancel
      else None)"

lemma auth_cmd_from_u8_iff: "auth_cmd_from_u8 b = Some c \<longleftrightarrow> b = auth_cmd_u8 c"
  by (cases c) (auto simp: auth_cmd_from_u8_def)

datatype auth_logon_result =
    Success | FailedUnknown0 | FailedUnknown1 | FailedBanned | FailedUnknownAccount
  | FailedIncorrectPassword | FailedAlreadyOnline | FailedNoTime | FailedDbBusy
  | FailedVersionInvalid | FailedVersionUpdate | FailedInvalidServer | FailedSuspended
  | FailedFailNoaccess | SuccessSurvey | FailedParentcontrol | FailedLockedEnforced
  | FailedTrialEnded | FailedUseBnet

fun logon_result_u8 :: "auth_logon_result \<Rightarrow> u8" where
  "logon_result_u8 Success = 0x00"
| "logon_result_u8 FailedUnknown0 = 0x01"
| "logon_result_u8 FailedUnknown1 = 0x02"
| "logon_result_u8 FailedBanned = 0x03"
| "logon_result_u8 FailedUnknownAccount = 0x04"
| "logon_result_u8 FailedIncorrectPassword = 0x05"
| "logon_result_u8 FailedAlreadyOnline = 0x06"
| "logon_result_u8 FailedNoTime = 0x07"
| "logon_result_u8 FailedDbBusy = 0x08"
| "logon_result_u8 FailedVersionInvalid = 0x09"
| "logon_result_u8 FailedVersionUpdate = 0x0A"
| "logon_result_u8 FailedInvalidServer = 0x0B"
| "logon_result_u8 FailedSuspended = 0x0C"
| "logon_result_u8 FailedFailNoaccess = 0x0D"
| "logon_result_u8 SuccessSurvey = 0x0E"
| "logon_result_u8 FailedParentcontrol = 0x0F"
| "logon_result_u8 FailedLockedEnforced = 0x10"
| "logon_result_u8 FailedTrialEnded = 0x11"
| "logon_result_u8 FailedUseBnet = 0x12"

datatype account_flags = AccountGm | AccountTrial | AccountProPass

fun account_flags_u32 :: "account_flags \<Rightarrow> u32" where
  "account_flags_u32 AccountGm = 0x00000001"
| "account_flags_u32 AccountTrial = 0x00000008"
| "account_flags_u32 AccountProPass = 0x00800000"

datatype security_flags = SecNone | SecPin | SecUnk | SecAuthenticator

fun security_flags_u8 :: "security_flags \<Rightarrow> u8" where
  "security_flags_u8 SecNone = 0x00"
| "security_flags_u8 SecPin = 0x01"
| "security_flags_u8 SecUnk = 0x02"
| "security_flags_u8 SecAuthenticator = 0x04"

definition VERSION_CHALLENGE :: bytes where
  "VERSION_CHALLENGE =
     [0xBA, 0xA3, 0x1E, 0x99, 0xA0, 0x0B, 0x21, 0x57,
      0xFC, 0x37, 0x3F, 0xB3, 0x69, 0xCD, 0xD2, 0xF1]"

definition AUTH_LOGON_MAX_NAME :: nat where
  "AUTH_LOGON_MAX_NAME = 16"

definition SEC_PLAYER :: u8 where "SEC_PLAYER = 0"
definition SEC_ADMINISTRATOR :: u8 where "SEC_ADMINISTRATOR = 3"
definition LOGIN_TYPE_REALMD :: u32 where "LOGIN_TYPE_REALMD = 0"

definition REALM_FLAG_OFFLINE :: u8 where "REALM_FLAG_OFFLINE = 0x02"
definition REALM_FLAG_SPECIFYBUILD :: u8 where "REALM_FLAG_SPECIFYBUILD = 0x04"
definition REALM_FLAG_NEW_PLAYERS :: u8 where "REALM_FLAG_NEW_PLAYERS = 0x20"
definition REALM_FLAG_RECOMMENDED :: u8 where "REALM_FLAG_RECOMMENDED = 0x40"

definition MAX_REALM_ZONES :: nat where
  "MAX_REALM_ZONES = 38"

section \<open>Packets from the client\<close>

record challenge_header =
  hdr_error :: u8
  hdr_size :: u16

definition header_SIZE :: nat where
  "header_SIZE = 3"

definition header_from_bytes :: "bytes \<Rightarrow> challenge_header option" where
  "header_from_bytes d =
     (if length d < header_SIZE then None
      else Some \<lparr>hdr_error = d ! 0, hdr_size = from_le_bytes [d ! 1, d ! 2]\<rparr>)"

record challenge_body =
  cb_gamename :: bytes
  cb_version1 :: u8
  cb_version2 :: u8
  cb_version3 :: u8
  cb_build :: u16
  cb_platform :: bytes
  cb_os :: bytes
  cb_country :: bytes
  cb_timezone_bias :: u32
  cb_ip :: u32
  cb_username_len :: u8
  cb_username :: bytes

definition body_MIN_SIZE :: nat where
  "body_MIN_SIZE = 4 + 1 + 1 + 1 + 2 + 4 + 4 + 4 + 4 + 4 + 1"

definition body_from_bytes :: "bytes \<Rightarrow> challenge_body option" where
  "body_from_bytes d =
     (if length d < body_MIN_SIZE then None
      else
        let username_len = d ! 29; username_end = 30 + unat username_len in
        if length d < username_end then None
        else Some
          \<lparr>cb_gamename = subslice 0 4 d,
           cb_version1 = d ! 4, cb_version2 = d ! 5, cb_version3 = d ! 6,
           cb_build = from_le_bytes [d ! 7, d ! 8],
           cb_platform = subslice 9 4 d,
           cb_os = subslice 13 4 d,
           cb_country = subslice 17 4 d,
           cb_timezone_bias = from_le_bytes [d ! 21, d ! 22, d ! 23, d ! 24],
           cb_ip = from_le_bytes [d ! 25, d ! 26, d ! 27, d ! 28],
           cb_username_len = username_len,
           cb_username = subslice 30 (unat username_len) d\<rparr>)"

text \<open>The bytes as Latin-1 characters, in reverse order.\<close>

definition reversed_chars :: "bytes \<Rightarrow> string" where
  "reversed_chars bs = concat (map latin1 (rev bs))"

definition os_string :: "challenge_body \<Rightarrow> string" where
  "os_string body = reversed_chars (takeWhile (\<lambda>b. b \<noteq> 0) ((cb_os body)[3 := 0]))"

definition platform_string :: "challenge_body \<Rightarrow> string" where
  "platform_string body = reversed_chars (takeWhile (\<lambda>b. b \<noteq> 0) ((cb_platform body)[3 := 0]))"

definition locale_string :: "challenge_body \<Rightarrow> string" where
  "locale_string body = reversed_chars (cb_country body)"

definition username_string :: "challenge_body \<Rightarrow> string" where
  "username_string body = from_utf8_lossy (cb_username body)"

record logon_proof_client =
  lp_a :: bytes
  lp_m1 :: bytes
  lp_crc_hash :: bytes
  lp_number_of_keys :: u8
  lp_security_flags :: u8

definition proof_SIZE_WITHOUT_PIN :: nat where
  "proof_SIZE_WITHOUT_PIN = 32 + 20 + 20 + 1 + 1"

definition proof_PIN_DATA_SIZE :: nat where
  "proof_PIN_DATA_SIZE = 16 + 20"

definition proof_SIZE_WITH_PIN :: nat where
  "proof_SIZE_WITH_PIN = proof_SIZE_WITHOUT_PIN + proof_PIN_DATA_SIZE"

definition logon_proof_from_bytes :: "bytes \<Rightarrow> bool \<Rightarrow> logon_proof_client option" where
  "logon_proof_from_bytes d with_pin =
     (let expected_size = (if with_pin then proof_SIZE_WITH_PIN else proof_SIZE_WITHOUT_PIN) in
      if length d < expected_size then None
      else Some \<lparr>lp_a = subslice 0 32 d, lp_m1 = subslice 32 20 d, lp_crc_hash = subslice 52 20 d,
                 lp_number_of_keys = d ! 72, lp_security_flags = d ! 73\<rparr>)"

record reconnect_proof_client =
  rp_r1 :: bytes
  rp_r2 :: bytes
  rp_r3 :: bytes
  rp_number_of_keys :: u8

definition reconnect_SIZE :: nat where
  "reconnect_SIZE = 16 + 20 + 20 + 1"

definition reconnect_proof_from_bytes :: "bytes \<Rightarrow> reconnect_proof_client option" where
  "reconnect_proof_from_bytes d =
     (if length d < reconnect_SIZE then None
      else Some \<lparr>rp_r1 = subslice 0 16 d, rp_r2 = subslice 16 20 d, rp_r3 = subslice 36 20 d,
                 rp_number_of_keys = d ! 56\<rparr>)"

section \<open>Packets to the client\<close>

record logon_proof_server =
  ps_cmd :: u8
  ps_error :: u8
  ps_m2 :: bytes
  ps_account_flags :: u32
  ps_survey_id :: u32
  ps_unk_flags :: u16

definition proof_server_to_bytes :: "logon_proof_server \<Rightarrow> bytes" where
  "proof_server_to_bytes p =
     bb_contents (write_u16 (ps_unk_flags p) (write_u32 (ps_survey_id p)
       (write_u32 (ps_account_flags p) (append_bytes (ps_m2 p) (write_u8 (ps_error p)
       (write_u8 (ps_cmd p) (bb_with_capacity 32)))))))"

record logon_proof_server_legacy =
  pl_cmd :: u8
  pl_error :: u8
  pl_m2 :: bytes
  pl_login_flags :: u32

definition proof_server_legacy_to_bytes :: "logon_proof_server_legacy \<Rightarrow> bytes" where
  "proof_server_legacy_to_bytes p =
     bb_contents (write_u32 (pl_login_flags p) (append_bytes (pl_m2 p) (write_u8 (pl_error p)
       (write_u8 (pl_cmd p) (bb_with_capacity 26)))))"

lemma length_proof_server_to_bytes:
  "length (ps_m2 p) = 20 \<Longrightarrow> length (proof_server_to_bytes p) = 32"
  by (simp add: proof_server_to_bytes_def bb_contents_def)

lemma length_proof_server_legacy_to_bytes:
  "length (pl_m2 p) = 20 \<Longrightarrow> length (proof_server_legacy_to_bytes p) = 26"
  by (simp add: proof_server_legacy_to_bytes_def bb_contents_def)

section \<open>Decoders invert the wire layout\<close>

locale wire_format =
  fixes enc :: "'a \<Rightarrow> bytes"
    and dec :: "bytes \<Rightarrow> 'a option"
    and ok :: "'a \<Rightarrow> bool"
  assumes dec_enc: "ok x \<Longrightarrow> dec (enc x @ r) = Some x"
begin

lemma dec_enc_exact: "ok x \<Longrightarrow> dec (enc x) = Some x"
  using dec_enc [of x "[]"] by simp

lemma unambiguous: "ok x \<Longrightarrow> ok y \<Longrightarrow> enc x @ r = enc y @ r' \<Longrightarrow> x = y"
  by (metis dec_enc option.inject)

end

definition header_wire :: "challenge_header \<Rightarrow> bytes" where
  "header_wire h = hdr_error h # to_le_bytes (hdr_size h)"

definition body_wire :: "challenge_body \<Rightarrow> bytes" where
  "body_wire b = cb_gamename b @ [cb_version1 b, cb_version2 b, cb_version3 b]
     @ to_le_bytes (cb_build b) @ cb_platform b @ cb_os b @ cb_country b
     @ to_le_bytes (cb_timezone_bias b) @ to_le_bytes (cb_ip b)
     @ cb_username_len b # cb_username b"

definition body_ok :: "challenge_body \<Rightarrow> bool" where
  "body_ok b \<longleftrightarrow> length (cb_gamename b) = 4 \<and> length (cb_platform b) = 4 \<and> length (cb_os b) = 4 \<and>
     length (cb_country b) = 4 \<and> length (cb_username b) = unat (cb_username_len b)"

definition logon_proof_wire :: "logon_proof_client \<Rightarrow> bytes" where
  "logon_proof_wire p = lp_a p @ lp_m1 p @ lp_crc_hash p @ [lp_number_of_keys p, lp_security_flags p]"

definition logon_proof_ok :: "logon_proof_client \<Rightarrow> bool" where
  "logon_proof_ok p \<longleftrightarrow> length (lp_a p) = 32 \<and> length (lp_m1 p) = 20 \<and> length (lp_crc_hash p) = 20"

definition reconnect_proof_wire :: "reconnect_proof_client \<Rightarrow> bytes" where
  "reconnect_proof_wire p = rp_r1 p @ rp_r2 p @ rp_r3 p @ [rp_number_of_keys p]"

definition reconnect_proof_ok :: "reconnect_proof_client \<Rightarrow> bool" where
  "reconnect_proof_ok p \<longleftrightarrow> length (rp_r1 p) = 16 \<and> length (rp_r2 p) = 20 \<and> length (rp_r3 p) = 20"

lemma length_2_nth: "length bs = 2 \<Longrightarrow> bs = [bs ! 0, bs ! 1]"
  by (auto simp: numeral_2_eq_2 length_Suc_conv)

lemma length_4_nth: "length bs = 4 \<Longrightarrow> bs = [bs ! 0, bs ! 1, bs ! 2, bs ! 3]"
  by (auto simp: numeral_eq_Suc length_Suc_conv)

lemma u16_bytes: "[to_le_bytes (w :: u16) ! 0, to_le_bytes w ! 1] = to_le_bytes w"
  by (rule length_2_nth [symmetric]) simp

lemma u32_bytes:
  "[to_le_bytes (w :: u32) ! 0, to_le_bytes w ! 1, to_le_bytes w ! 2, to_le_bytes w ! 3] = to_le_bytes w"
  by (rule length_4_nth [symmetric]) simp

interpretation w_header: wire_format header_wire header_from_bytes "\<lambda>_. True"
proof unfold_locales
  fix x :: challenge_header and r
  show "header_from_bytes (header_wire x @ r) = Some x"
    using u16_bytes [of "hdr_size x"]
    by (simp add: header_from_bytes_def header_wire_def header_SIZE_def nth_append)
qed

interpretation w_body: wire_format body_wire body_from_bytes body_ok
proof unfold_locales
  fix x :: challenge_body and r
  assume "body_ok x"
  then show "body_from_bytes (body_wire x @ r) = Some x"
    using u16_bytes [of "cb_build x"] u32_bytes [of "cb_timezone_bias x"] u32_bytes [of "cb_ip x"]
    by (simp add: body_from_bytes_def body_wire_def body_ok_def body_MIN_SIZE_def nth_append
        subslice_def Let_def)
qed

interpretation w_logon_proof: wire_format logon_proof_wire "\<lambda>d. logon_proof_from_bytes d False" logon_proof_ok
  by unfold_locales
    (simp add: logon_proof_from_bytes_def logon_proof_wire_def logon_proof_ok_def
      proof_SIZE_WITHOUT_PIN_def nth_append subslice_def Let_def)

interpretation w_reconnect_proof: wire_format reconnect_proof_wire reconnect_proof_from_bytes reconnect_proof_ok
  by unfold_locales
    (simp add: reconnect_proof_from_bytes_def reconnect_proof_wire_def reconnect_proof_ok_def
      reconnect_SIZE_def nth_append subslice_def)

end
