(* ===== verification/Database_Layer.thy ===== *)
theory Database_Layer
  imports Rust_Std
begin

text \<open>
  \<^verbatim>\<open>crates/shared/src/database/mod.rs\<close>: the connection handle, the legacy connection
  string, string escaping and the typed access to row fields.  The SQL engine behind the
  pool is an argument: a function from the statement text to a reply.  A row is a list of
  cells, and a cell records what the driver's \<^verbatim>\<open>try_get\<close> yields for each Rust type it
  is asked for (\<open>None\<close>: the decode fails).
\<close>

section \<open>Rows and fields\<close>

record cell =
  as_String :: "string option"
  as_str_ref :: "string option"
  as_Vec_u8 :: "bytes option"
  as_i32 :: "i32 option"
  as_i64 :: "i64 option"
  as_f32 :: "f32 option"
  as_f64 :: "u64 option" \<comment> \<open>IEEE-754 double bit pattern\<close>
  as_bool :: "bool option"

type_synonym row = "cell list"

text \<open>Columns as the driver decodes them from the casts of the queries.\<close>

definition text_cell :: "string \<Rightarrow> cell" where
  "text_cell s = \<lparr>as_String = Some s, as_str_ref = Some s, as_Vec_u8 = None, as_i32 = None,
     as_i64 = None, as_f32 = None, as_f64 = None, as_bool = None\<rparr>"

definition int_cell :: "i32 \<Rightarrow> cell" where
  "int_cell n = \<lparr>as_String = None, as_str_ref = None, as_Vec_u8 = None, as_i32 = Some n,
     as_i64 = Some (scast n), as_f32 = None, as_f64 = None, as_bool = None\<rparr>"

definition float_cell :: "f32 \<Rightarrow> cell" where
  "float_cell x = \<lparr>as_String = None, as_str_ref = None, as_Vec_u8 = None, as_i32 = None,
     as_i64 = None, as_f32 = Some x, as_f64 = None, as_bool = None\<rparr>"

definition try_get :: "(cell \<Rightarrow> 'a option) \<Rightarrow> row \<Rightarrow> nat \<Rightarrow> 'a option" where
  "try_get f r index = (if index < length r then f (r ! index) else None)"

definition get_string_field :: "row \<Rightarrow> nat \<Rightarrow> string" where
  "get_string_field r index =
     (case try_get as_String r index of Some s \<Rightarrow> s
      | None \<Rightarrow> (case try_get as_str_ref r index of Some s \<Rightarrow> s
      | None \<Rightarrow> (case try_get as_Vec_u8 r index of Some bs \<Rightarrow> from_utf8_lossy bs
      | None \<Rightarrow> [])))"

definition get_u8 :: "row \<Rightarrow> nat \<Rightarrow> u8" where
  "get_u8 r index = (case try_get as_i32 r index of Some v \<Rightarrow> ucast v | None \<Rightarrow> 0)"

definition get_u16 :: "row \<Rightarrow> nat \<Rightarrow> u16" where
  "get_u16 r index = (case try_get as_i32 r index of Some v \<Rightarrow> ucast v | None \<Rightarrow> 0)"

definition get_u32 :: "row \<Rightarrow> nat \<Rightarrow> u32" where
  "get_u32 r index =
     (case try_get as_i64 r index of Some v \<Rightarrow> ucast v
      | None \<Rightarrow> (case try_get as_i32 r index of Some v \<Rightarrow> v | None \<Rightarrow> 0))"

definition get_u64 :: "row \<Rightarrow> nat \<Rightarrow> u64" where
  "get_u64 r index = (case try_get as_i64 r index of Some v \<Rightarrow> v | None \<Rightarrow> 0)"

definition get_i32 :: "row \<Rightarrow> nat \<Rightarrow> i32" where
  "get_i32 r index = (case try_get as_i32 r index of Some v \<Rightarrow> v | None \<Rightarrow> 0)"

definition get_i64 :: "row \<Rightarrow> nat \<Rightarrow> i64" where
  "get_i64 r index = (case try_get as_i64 r index of Some v \<Rightarrow> v | None \<Rightarrow> 0)"

definition get_f32 :: "row \<Rightarrow> nat \<Rightarrow> f32" where
  "get_f32 r index =
     (case try_get as_f32 r index of Some v \<Rightarrow> v
      | None \<Rightarrow> (case try_get as_f64 r index of Some v \<Rightarrow> f64_to_f32 v | None \<Rightarrow> 0))"

definition get_f64 :: "row \<Rightarrow> nat \<Rightarrow> u64" where
  "get_f64 r index = (case try_get as_f64 r index of Some v \<Rightarrow> v | None \<Rightarrow> 0)"

definition get_bool :: "row \<Rightarrow> nat \<Rightarrow> bool" where
  "get_bool r index =
     (case try_get as_bool r index of Some v \<Rightarrow> v
      | None \<Rightarrow> (case try_get as_i32 r index of Some v \<Rightarrow> v \<noteq> 0 | None \<Rightarrow> False))"

section \<open>The handle\<close>

datatype db_reply = Reply "row list" u64 | DbError string

record database =
  db_pool :: bool \<comment> \<open>\<^verbatim>\<open>pool.is_some()\<close>\<close>
  db_name :: string

definition database_new :: "string \<Rightarrow> database" where
  "database_new name = \<lparr>db_pool = False, db_name = name\<rparr>"

definition convert_legacy_connection_string :: "string \<Rightarrow> string result" where
  "convert_legacy_connection_string conn =
     (let parts = split_on CHR '';'' conn in
      if length parts < 5
      then Inl (Err ''Invalid connection string format. Expected: host;port;user;password;database'')
      else Inr (''mysql://'' @ parts ! 2 @ '':'' @ parts ! 3 @ ''@'' @ parts ! 0 @ '':'' @ parts ! 1
                @ ''/'' @ parts ! 4))"

text \<open>\<open>connect\<close> is the pool's connection attempt: an error text or success.\<close>

definition db_initialize ::
    "(string \<Rightarrow> string option) \<Rightarrow> string \<Rightarrow> database \<Rightarrow> unit result \<times> database" where
  "db_initialize connect connection_info db =
     (case (if contains ''://'' connection_info then Inr connection_info
            else convert_legacy_connection_string connection_info) of
        Inl e \<Rightarrow> (Inl e, db)
      | Inr url \<Rightarrow> (case connect url of
            Some e \<Rightarrow> (Inl (Err e), db)
          | None \<Rightarrow> (Inr (), db\<lparr>db_pool := True\<rparr>)))"

definition not_initialized :: "database \<Rightarrow> rust_error" where
  "not_initialized db = Err (''Database '' @ db_name db @ '' not initialized'')"

definition db_query :: "(string \<Rightarrow> db_reply) \<Rightarrow> database \<Rightarrow> string \<Rightarrow> row list result" where
  "db_query engine db sql =
     (if \<not> db_pool db then Inl (not_initialized db)
      else case engine sql of Reply rows n \<Rightarrow> Inr rows | DbError e \<Rightarrow> Inl (Err e))"

definition db_query_one :: "(string \<Rightarrow> db_reply) \<Rightarrow> database \<Rightarrow> string \<Rightarrow> row option result" where
  "db_query_one engine db sql =
     (if \<not> db_pool db then Inl (not_initialized db)
      else case engine sql of
             Reply rows n \<Rightarrow> Inr (case rows of [] \<Rightarrow> None | r # _ \<Rightarrow> Some r)
           | DbError e \<Rightarrow> Inl (Err e))"

definition db_execute :: "(string \<Rightarrow> db_reply) \<Rightarrow> database \<Rightarrow> string \<Rightarrow> u64 result" where
  "db_execute engine db sql =
     (if \<not> db_pool db then Inl (not_initialized db)
      else case engine sql of Reply rows n \<Rightarrow> Inr n | DbError e \<Rightarrow> Inl (Err e))"

definition db_direct_execute :: "(string \<Rightarrow> db_reply) \<Rightarrow> database \<Rightarrow> string \<Rightarrow> u64 result" where
  "db_direct_execute engine db sql = db_execute engine db sql"

definition db_ping :: "(string \<Rightarrow> db_reply) \<Rightarrow> database \<Rightarrow> unit result" where
  "db_ping engine db =
     (if \<not> db_pool db then Inl (not_initialized db)
      else case engine ''SELECT 1'' of
             Reply rows n \<Rightarrow> (if rows = [] then Inl (Err ''no rows returned'') else Inr ())
           | DbError e \<Rightarrow> Inl (Err e))"

definition check_required_field :: "(string \<Rightarrow> db_reply) \<Rightarrow> database \<Rightarrow> string \<Rightarrow> string \<Rightarrow> bool result" where
  "check_required_field engine db table required =
     (let sql = ''SHOW COLUMNS FROM `'' @ table @ ''` LIKE '' @ [CHR 0x27] @ required @ [CHR 0x27] in
      case db_query_one engine db sql of
        Inr (Some r) \<Rightarrow> Inr True
      | Inr None \<Rightarrow> Inr False
      | Inl e \<Rightarrow> Inr False)"

definition is_connected :: "database \<Rightarrow> bool" where
  "is_connected db \<longleftrightarrow> db_pool db"

section \<open>Escaping\<close>

definition backslash :: char where "backslash = CHR 0x5C"
definition squote :: char where "squote = CHR 0x27"
definition dquote :: char where "dquote = CHR 0x22"

definition escape_string :: "string \<Rightarrow> string" where
  "escape_string input =
     replace_char CHR 0x1A [backslash, CHR ''Z'']
     (replace_char CHR 0x0D [backslash, CHR ''r'']
     (replace_char CHR 0x0A [backslash, CHR ''n'']
     (replace_char CHR 0x00 [backslash, CHR ''0'']
     (replace_char dquote [backslash, dquote]
     (replace_char squote [backslash, squote]
     (replace_char backslash [backslash, backslash] input))))))"

definition esc1 :: "char \<Rightarrow> string" where
  "esc1 c = (if c = backslash then [backslash, backslash] else if c = squote then [backslash, squote]
     else if c = dquote then [backslash, dquote] else if c = CHR 0x00 then [backslash, CHR ''0'']
     else if c = CHR 0x0A then [backslash, CHR ''n''] else if c = CHR 0x0D then [backslash, CHR ''r'']
     else if c = CHR 0x1A then [backslash, CHR ''Z''] else [c])"

lemmas special_chars = backslash_def squote_def dquote_def

lemma escape_string_single_pass: "escape_string s = concat (map esc1 s)"
  by (induction s) (auto simp: escape_string_def esc1_def special_chars)

text \<open>
  How MySQL reads the body of a single-quoted literal (default SQL mode): a backslash
  escapes the next character, a doubled quote is a quote, a single quote ends the
  literal.  The result is the denoted string and the text after the closing quote.
\<close>

definition unescape_char :: "char \<Rightarrow> char" where
  "unescape_char c = (if c = CHR ''0'' then CHR 0x00 else if c = CHR ''n'' then CHR 0x0A
     else if c = CHR ''r'' then CHR 0x0D else if c = CHR ''Z'' then CHR 0x1A
     else if c = CHR ''b'' then CHR 0x08 else if c = CHR ''t'' then CHR 0x09 else c)"

fun sql_literal :: "string \<Rightarrow> (string \<times> string) option" where
  "sql_literal [] = None"
| "sql_literal (c # s) =
     (if c = backslash then
        (case s of [] \<Rightarrow> None
         | e # s' \<Rightarrow> map_option (\<lambda>(v, r). (unescape_char e # v, r)) (sql_literal s'))
      else if c = squote then
        (case s of e # s' \<Rightarrow> if e = squote then map_option (\<lambda>(v, r). (squote # v, r)) (sql_literal s')
                             else Some ([], s)
         | [] \<Rightarrow> Some ([], []))
      else map_option (\<lambda>(v, r). (c # v, r)) (sql_literal s))"

lemma sql_literal_esc1: "sql_literal (esc1 c @ s) = map_option (\<lambda>(v, r). (c # v, r)) (sql_literal s)"
  by (simp add: esc1_def unescape_char_def special_chars)

lemma sql_literal_escape:
  assumes "rest = [] \<or> hd rest \<noteq> squote"
  shows "sql_literal (escape_string s @ squote # rest) = Some (s, rest)"
proof (induction s)
  case Nil
  show ?case using assms
    by (cases rest) (auto simp: escape_string_single_pass special_chars)
next
  case (Cons c s)
  then show ?case by (simp add: escape_string_single_pass sql_literal_esc1)
qed

text \<open>C9: an escaped string placed in a single-quoted literal is read back as exactly that
  string, whatever it contains, and the literal ends at the intended closing quote.\<close>

theorem escape_string_stays_in_literal:
  assumes "rest = [] \<or> hd rest \<noteq> CHR 0x27"
  shows "sql_literal (escape_string s @ CHR 0x27 # rest) = Some (s, rest)"
  using sql_literal_escape [of rest s] assms by (simp add: squote_def)

theorem escape_string_stays_in_literal_witness:
  "sql_literal (escape_string [CHR 0x27, CHR 0x5C, CHR 0x00] @ CHR 0x27 # '' AND 1'')
     = Some ([CHR 0x27, CHR 0x5C, CHR 0x00], '' AND 1'')"
  by (rule escape_string_stays_in_literal) simp

section \<open>The legacy connection string\<close>

definition no_semi :: "string \<Rightarrow> bool" where
  "no_semi s \<longleftrightarrow> CHR '';'' \<notin> set s"

text \<open>The legacy form \<^verbatim>\<open>host;port;user;password;database\<close> becomes the MySQL URL of
  those five parts; with fewer than four separators it is an error.\<close>

theorem legacy_connection_string:
  assumes "list_all no_semi [h, p, u, w, d]"
  shows "convert_legacy_connection_string (h @ '';'' @ p @ '';'' @ u @ '';'' @ w @ '';'' @ d)
      = Inr (''mysql://'' @ u @ '':'' @ w @ ''@'' @ h @ '':'' @ p @ ''/'' @ d)
    \<and> isl (convert_legacy_connection_string (h @ '';'' @ p @ '';'' @ u @ '';'' @ w))"
  using assms by (simp add: convert_legacy_connection_string_def no_semi_def Let_def)

theorem legacy_connection_string_witness:
  "convert_legacy_connection_string (''127.0.0.1'' @ '';'' @ ''3306'' @ '';'' @ ''mangos'' @ '';'' @ ''mangos'' @ '';'' @ ''tbcrealmd'')
      = Inr (''mysql://'' @ ''mangos'' @ '':'' @ ''mangos'' @ ''@'' @ ''127.0.0.1'' @ '':'' @ ''3306'' @ ''/'' @ ''tbcrealmd'')
    \<and> isl (convert_legacy_connection_string (''127.0.0.1'' @ '';'' @ ''3306'' @ '';'' @ ''mangos'' @ '';'' @ ''mangos''))"
  by (rule legacy_connection_string) (simp add: no_semi_def)

end
