(* ===== verification/Ordered_Map.thy ===== *)
theory Ordered_Map
  imports Prelude
begin

text \<open>
  Rust's \<^verbatim>\<open>BTreeMap\<close> as an association list in key order and \<^verbatim>\<open>BTreeSet\<close> as a sorted list
  without repetitions.  The locale \<open>ordered_map\<close> is the contract the clients rely on; it is
  interpreted on these lists.
\<close>

section \<open>Ordered maps and sets\<close>

fun btm_insert :: "'k::linorder \<Rightarrow> 'v \<Rightarrow> ('k \<times> 'v) list \<Rightarrow> ('k \<times> 'v) list" where
  "btm_insert k v [] = [(k, v)]"
| "btm_insert k v ((k', v') # m) =
     (if k < k' then (k, v) # (k', v') # m
      else if k = k' then (k, v) # m
      else (k', v') # btm_insert k v m)"

definition btm_get :: "('k \<times> 'v) list \<Rightarrow> 'k \<Rightarrow> 'v option" where
  "btm_get m k = map_of m k"

text \<open>\<^verbatim>\<open>BTreeMap::remove\<close>, and \<^verbatim>\<open>entry(k).or_insert(v)\<close>.\<close>

definition btm_remove :: "'k \<Rightarrow> ('k \<times> 'v) list \<Rightarrow> ('k \<times> 'v) list" where
  "btm_remove k m = filter (\<lambda>(k', v). k' \<noteq> k) m"

definition btm_or_insert :: "'k::linorder \<Rightarrow> 'v \<Rightarrow> ('k \<times> 'v) list \<Rightarrow> ('k \<times> 'v) list" where
  "btm_or_insert k v m = (case btm_get m k of None \<Rightarrow> btm_insert k v m | Some _ \<Rightarrow> m)"

definition btm_sorted :: "('k::linorder \<times> 'v) list \<Rightarrow> bool" where
  "btm_sorted m \<longleftrightarrow> sorted_wrt (<) (map fst m)"

definition bts_insert :: "'a::linorder \<Rightarrow> 'a list \<Rightarrow> 'a list" where
  "bts_insert x s = insort_insert x s"

section \<open>The ordered map interface\<close>

text \<open>What the clients rely on of a map: reading after an insertion, and that
  insertions keep the map's own order.\<close>

locale ordered_map =
  fixes ins :: "'k \<Rightarrow> 'v \<Rightarrow> 'm \<Rightarrow> 'm"
    and get :: "'m \<Rightarrow> 'k \<Rightarrow> 'v option"
    and inv :: "'m \<Rightarrow> bool"
  assumes get_ins: "inv m \<Longrightarrow> get (ins k v m) = (get m)(k \<mapsto> v)"
    and inv_ins: "inv m \<Longrightarrow> inv (ins k v m)"
begin

definition ins_all :: "('k \<times> 'v) list \<Rightarrow> 'm \<Rightarrow> 'm" where
  "ins_all kvs m = fold (\<lambda>(k, v). ins k v) kvs m"

lemma inv_ins_all: "inv m \<Longrightarrow> inv (ins_all kvs m)"
  unfolding ins_all_def by (induction kvs arbitrary: m) (auto simp: inv_ins)

lemma get_ins_all: "inv m \<Longrightarrow> get (ins_all kvs m) = get m ++ map_of (rev kvs)"
  unfolding ins_all_def
proof (induction kvs arbitrary: m)
  case (Cons kv kvs)
  then show ?case
    by (cases kv) (auto simp: inv_ins get_ins map_add_def fun_eq_iff split: option.splits)
qed simp

end

lemma btm_sorted_simps [simp]:
  "btm_sorted []"
  "btm_sorted ((k, v) # m) \<longleftrightarrow> (\<forall>x \<in> fst ` set m. k < x) \<and> btm_sorted m"
  by (auto simp: btm_sorted_def)

lemma fst_set_btm_insert: "fst ` set (btm_insert k v m) = insert k (fst ` set m)"
  by (induction k v m rule: btm_insert.induct) auto

lemma btm_sorted_insert: "btm_sorted m \<Longrightarrow> btm_sorted (btm_insert k v m)"
  by (induction k v m rule: btm_insert.induct) (auto simp: fst_set_btm_insert)

lemma btm_get_insert: "btm_sorted m \<Longrightarrow> btm_get (btm_insert k v m) = (btm_get m)(k \<mapsto> v)"
  by (induction k v m rule: btm_insert.induct) (auto simp: btm_get_def fun_eq_iff)

interpretation btm: ordered_map btm_insert btm_get btm_sorted
  by unfold_locales (simp_all add: btm_get_insert btm_sorted_insert)

lemma btm_get_Nil [simp]: "btm_get [] = Map.empty"
  by (simp add: btm_get_def fun_eq_iff)

lemma btm_get_remove: "btm_get (btm_remove k m) = (btm_get m)(k := None)"
  by (induction m) (auto simp: btm_remove_def btm_get_def fun_eq_iff)

lemma btm_get_or_insert:
  "btm_sorted m \<Longrightarrow> btm_get (btm_or_insert k v m) = (if btm_get m k = None then (btm_get m)(k \<mapsto> v) else btm_get m)"
  by (auto simp: btm_or_insert_def btm_get_insert split: option.splits)

lemma btm_sorted_or_insert: "btm_sorted m \<Longrightarrow> btm_sorted (btm_or_insert k v m)"
  by (auto simp: btm_or_insert_def btm_sorted_insert split: option.splits)

lemma btm_sorted_filter: "btm_sorted m \<Longrightarrow> btm_sorted (filter P m)"
  by (induction m) auto

lemma btm_sorted_remove: "btm_sorted m \<Longrightarrow> btm_sorted (btm_remove k m)"
  by (simp add: btm_remove_def btm_sorted_filter)

lemma btm_sorted_distinct: "btm_sorted m \<Longrightarrow> distinct (map fst m)"
  by (simp add: btm_sorted_def strict_sorted_iff)

lemma btm_get_iff: "btm_sorted m \<Longrightarrow> btm_get m k = Some v \<longleftrightarrow> (k, v) \<in> set m"
  by (simp add: btm_get_def btm_sorted_distinct)

end
