(* ===== verification/Realm_List.thy ===== *)
theory Realm_List
  imports Auth_Protocol Database_Layer Ordered_Map "HOL-Library.List_Lexorder" "HOL-Library.Char_ord"
begin

text \<open>
  \<^verbatim>\<open>crates/realmd/src/realm_list.rs\<close>: the supported client builds, the realm category
  table and the realm list with its periodic refresh and staleness detection.  The
  \<^verbatim>\<open>BTreeMap<String, Realm>\<close> is an association list kept in key order, a
  \<^verbatim>\<open>BTreeSet<u32>\<close> a sorted list without repetitions.  Times are whole seconds
  (\<^typ>\<open>int\<close>; the \<^verbatim>\<open>i64\<close> arithmetic on clock values does not overflow before the
  clock itself would); every read of the clock is an argument, and so is the reply to the
  realm query.
\<close>

section \<open>Client builds\<close>

record realm_build_info =
  rbi_build :: u16
  rbi_major_version :: u8
  rbi_minor_version :: u8
  rbi_bugfix_version :: u8
  rbi_hotfix_version :: char
  rbi_windows_hash :: bytes
  rbi_mac_hash :: bytes

definition EXPECTED_BUILDS :: "realm_build_info list" where
  "EXPECTED_BUILDS = [
      \<lparr>rbi_build = 13930, rbi_major_version = 3, rbi_minor_version = 3, rbi_bugfix_version = 5,
       rbi_hotfix_version = CHR ''a'',
       rbi_windows_hash = replicate 20 0,
       rbi_mac_hash = replicate 20 0\<rparr>,
      \<lparr>rbi_build = 12340, rbi_major_version = 3, rbi_minor_version = 3, rbi_bugfix_version = 5,
       rbi_hotfix_version = CHR ''a'',
       rbi_windows_hash = 
         [0xCD, 0xCB, 0xBD, 0x51, 0x88, 0x31, 0x5E, 0x6B, 0x4D, 0x19,
          0x44, 0x9D, 0x49, 0x2D, 0xBC, 0xFA, 0xF1, 0x56, 0xA3, 0x47],
       rbi_mac_hash = 
         [0xB7, 0x06, 0xD1, 0x3F, 0xF2, 0xF4, 0x01, 0x88, 0x39, 0x72,
          0x94, 0x61, 0xE3, 0xF8, 0xA0, 0xE2, 0xB5, 0xFD, 0xC0, 0x34]\<rparr>,
      \<lparr>rbi_build = 11723, rbi_major_version = 3, rbi_minor_version = 3, rbi_bugfix_version = 3,
       rbi_hotfix_version = CHR ''a'',
       rbi_windows_hash = replicate 20 0,
       rbi_mac_hash = replicate 20 0\<rparr>,
      \<lparr>rbi_build = 11403, rbi_major_version = 3, rbi_minor_version = 3, rbi_bugfix_version = 2,
       rbi_hotfix_version = CHR '' '',
       rbi_windows_hash = replicate 20 0,
       rbi_mac_hash = replicate 20 0\<rparr>,
      \<lparr>rbi_build = 11159, rbi_major_version = 3, rbi_minor_version = 3, rbi_bugfix_version = 0,
       rbi_hotfix_version = CHR ''a'',
       rbi_windows_hash = replicate 20 0,
       rbi_mac_hash = replicate 20 0\<rparr>,
      \<lparr>rbi_build = 10505, rbi_major_version = 3, rbi_minor_version = 2, rbi_bugfix_version = 2,
       rbi_hotfix_version = CHR ''a'',
       rbi_windows_hash = replicate 20 0,
       rbi_mac_hash = replicate 20 0\<rparr>,
      \<lparr>rbi_build = 9947, rbi_major_version = 3, rbi_minor_version = 1, rbi_bugfix_version = 3,
       rbi_hotfix_version = CHR '' '',
       rbi_windows_hash = replicate 20 0,
       rbi_mac_hash = replicate 20 0\<rparr>,
      \<lparr>rbi_build = 8606, rbi_major_version = 2, rbi_minor_version = 4, rbi_bugfix_version = 3,
       rbi_hotfix_version = CHR '' '',
       rbi_windows_hash = 
         [0x31, 0x9A, 0xFA, 0xA3, 0xF2, 0x55, 0x96, 0x82, 0xF9, 0xFF,
          0x65, 0x8B, 0xE0, 0x14, 0x56, 0x25, 0x5F, 0x45, 0x6F, 0xB1],
       rbi_mac_hash = 
         [0xD8, 0xB0, 0xEC, 0xFE, 0x53, 0x4B, 0xC1, 0x13, 0x1E, 0x19,
          0xBA, 0xD1, 0xD4, 0xC0, 0xE8, 0x13, 0xEE, 0xE4, 0x99, 0x4F]\<rparr>,
      \<lparr>rbi_build = 6141, rbi_major_version = 1, rbi_minor_version = 12, rbi_bugfix_version = 3,
       rbi_hotfix_version = CHR '' '',
       rbi_windows_hash = 
         [0xEB, 0x88, 0x24, 0x3E, 0x94, 0x26, 0xC9, 0xD6, 0x8C, 0x81,
          0x87, 0xF7, 0xDA, 0xE2, 0x25, 0xEA, 0xF3, 0x88, 0xD8, 0xAF],
       rbi_mac_hash = replicate 20 0\<rparr>,
      \<lparr>rbi_build = 6005, rbi_major_version = 1, rbi_minor_version = 12, rbi_bugfix_version = 2,
       rbi_hotfix_version = CHR '' '',
       rbi_windows_hash = 
         [0x06, 0x97, 0x32, 0x38, 0x76, 0x56, 0x96, 0x41, 0x48, 0x79,
          0x28, 0xFD, 0xC7, 0xC9, 0xE3, 0x3B, 0x44, 0x70, 0xC8, 0x80],
       rbi_mac_hash = replicate 20 0\<rparr>,
      \<lparr>rbi_build = 5875, rbi_major_version = 1, rbi_minor_version = 12, rbi_bugfix_version = 1,
       rbi_hotfix_version = CHR '' '',
       rbi_windows_hash = 
         [0x95, 0xED, 0xB2, 0x7C, 0x78, 0x23, 0xB3, 0x63, 0xCB, 0xDD,
          0xAB, 0x56, 0xA3, 0x92, 0xE7, 0xCB, 0x73, 0xFC, 0xCA, 0x20],
       rbi_mac_hash = 
         [0x8D, 0x17, 0x3C, 0xC3, 0x81, 0x96, 0x1E, 0xEB, 0xAB, 0xF3,
          0x36, 0xF5, 0xE6, 0x67, 0x5B, 0x10, 0x1B, 0xB5, 0x13, 0xE5]\<rparr>]"

definition find_build_info :: "u16 \<Rightarrow> realm_build_info option" where
  "find_build_info build =
     (if build \<ge> rbi_build (EXPECTED_BUILDS ! 0) then Some (EXPECTED_BUILDS ! 0)
      else find (\<lambda>b. rbi_build b = build) (drop 1 EXPECTED_BUILDS))"

definition REALM_CATEGORY_IDS :: "u8 list list" where
  "REALM_CATEGORY_IDS = [
      [0, 1, 1, 1, 1, 1, 1, 1, 1, 1, 1, 1, 1, 1, 1, 1, 1, 1, 1,
       1, 1, 1, 1, 1, 1, 1, 1, 1, 1, 1, 1, 1, 1, 1, 1, 1, 1, 1],
      [0, 1, 1, 5, 1, 1, 1, 1, 1, 2, 3, 5, 1, 1, 1, 1, 1, 1, 1,
       2, 1, 1, 1, 3, 1, 1, 1, 1, 1, 1, 1, 1, 1, 1, 1, 1, 1, 1],
      [0, 1, 2, 3, 4, 5, 6, 7, 8, 9, 10, 11, 12, 13, 14, 15, 16, 17, 18,
       19, 20, 21, 22, 23, 24, 25, 26, 27, 28, 29, 30, 0, 0, 0, 0, 0, 0, 0],
      [0, 1, 2, 3, 4, 5, 6, 7, 8, 9, 10, 11, 12, 13, 14, 15, 16, 17, 18,
       19, 20, 21, 22, 23, 24, 25, 26, 27, 28, 29, 30, 31, 32, 33, 34, 35, 36, 37]]"

definition get_realm_category_id :: "u16 \<Rightarrow> u8 \<Rightarrow> u8 result" where
  "get_realm_category_id build timezone =
     (let zone = (if unat timezone \<ge> MAX_REALM_ZONES then 1 else unat timezone) in
      case find_build_info build of
        Some info \<Rightarrow>
          (if unat (rbi_major_version info) < length REALM_CATEGORY_IDS
              \<and> zone < length (REALM_CATEGORY_IDS ! unat (rbi_major_version info))
           then Inr (REALM_CATEGORY_IDS ! unat (rbi_major_version info) ! zone)
           else Inl (Panic ''index out of bounds''))
      | None \<Rightarrow> Inr (word_of_nat zone))"

section \<open>Realms\<close>

record realm =
  rl_id :: u32
  rl_address :: string
  rl_icon :: u8
  rl_flags :: u8
  rl_timezone :: u8
  rl_allowed_security_level :: u8
  rl_population_level :: f32
  rl_builds :: "u32 list"
  rl_build_info :: realm_build_info
  rl_last_seen_alive :: int
  rl_prev_population :: f32
  rl_prev_realm_flags :: u8

record realm_list =
  rls_realms :: "(string \<times> realm) list"
  rls_update_interval :: u32
  rls_next_update_time :: int
  rls_stale_timeout :: int

definition realm_list_new :: realm_list where
  "realm_list_new =
     \<lparr>rls_realms = [], rls_update_interval = 0, rls_next_update_time = 0, rls_stale_timeout = 0\<rparr>"

definition unknown_build :: "u16 \<Rightarrow> realm_build_info" where
  "unknown_build b =
     \<lparr>rbi_build = b, rbi_major_version = 0, rbi_minor_version = 0, rbi_bugfix_version = 0,
      rbi_hotfix_version = CHR '' '', rbi_windows_hash = replicate 20 0, rbi_mac_hash = replicate 20 0\<rparr>"

definition parse_builds :: "string \<Rightarrow> u32 list" where
  "parse_builds builds_str =
     foldl (\<lambda>s token. case parse_u32 token of Some b \<Rightarrow> bts_insert b s | None \<Rightarrow> s) []
       (split_whitespace builds_str)"

definition realm_build_info_of :: "u32 list \<Rightarrow> realm_build_info" where
  "realm_build_info_of realm_builds =
     (let first_build = (case realm_builds of [] \<Rightarrow> 0 | b # _ \<Rightarrow> b) in
      if first_build > 0 then
        (case find_build_info (ucast first_build) of
           Some b \<Rightarrow> if rbi_build b = ucast first_build then b else unknown_build (ucast first_build)
         | None \<Rightarrow> unknown_build (ucast first_build))
      else unknown_build 0)"

definition valid_realm_flags :: u8 where
  "valid_realm_flags = REALM_FLAG_OFFLINE OR REALM_FLAG_NEW_PLAYERS OR REALM_FLAG_RECOMMENDED
     OR REALM_FLAG_SPECIFYBUILD"

text \<open>One iteration of the row loop; \<open>None\<close> is \<^verbatim>\<open>continue\<close>.\<close>

definition load_realm ::
    "int \<Rightarrow> bool \<Rightarrow> int \<Rightarrow> (string \<times> realm) list \<Rightarrow> row \<Rightarrow> (string \<times> realm) option" where
  "load_realm now init stale_timeout old_realms r =
     (let id = get_u32 r 0; name = get_string_field r 1; address = get_string_field r 2;
          port = get_u32 r 3; icon = get_u8 r 4; flags = get_u8 r 5; timezone = get_u8 r 6;
          allowed_security_level = get_u8 r 7; population = get_f32 r 8;
          builds_str = get_string_field r 9 in
      if id = 0 then None
      else
        let flags = (if flags AND NOT valid_realm_flags \<noteq> 0 then flags AND valid_realm_flags else flags);
            raw_realm_flags = flags;
            security_level = (if allowed_security_level \<le> SEC_ADMINISTRATOR
                              then allowed_security_level else SEC_ADMINISTRATOR);
            realm_builds = parse_builds builds_str;
            build_info = realm_build_info_of realm_builds;
            (prev_pop, prev_flags, prev_alive) =
              (case btm_get old_realms name of
                 Some old \<Rightarrow> (rl_prev_population old, rl_prev_realm_flags old, rl_last_seen_alive old)
               | None \<Rightarrow> (f32_NAN, 0xFF, now));
            data_changed = (\<not> f32_eq population prev_pop \<or> raw_realm_flags \<noteq> prev_flags);
            last_seen_alive = (if data_changed \<or> init then now else prev_alive);
            flags = (if stale_timeout > 0 \<and> raw_realm_flags AND REALM_FLAG_OFFLINE = 0
                        \<and> now - last_seen_alive > stale_timeout
                     then flags OR REALM_FLAG_OFFLINE else flags)
        in Some (name,
          \<lparr>rl_id = id, rl_address = address @ '':'' @ dec_str (unat port), rl_icon = icon,
           rl_flags = flags, rl_timezone = timezone, rl_allowed_security_level = security_level,
           rl_population_level = population, rl_builds = realm_builds, rl_build_info = build_info,
           rl_last_seen_alive = last_seen_alive, rl_prev_population = population,
           rl_prev_realm_flags = raw_realm_flags\<rparr>))"

definition realm_query :: string where
  "realm_query =
     ''SELECT id, name, address, port, CAST(icon AS SIGNED) AS icon, CAST(realmflags AS SIGNED) AS realmflags, CAST(timezone AS SIGNED) AS timezone, CAST(allowedSecurityLevel AS SIGNED) AS allowedSecurityLevel, population, realmbuilds FROM realmlist WHERE (realmflags & 1) = 0 ORDER BY name''"

fun load_rows ::
    "int \<Rightarrow> bool \<Rightarrow> int \<Rightarrow> (string \<times> realm) list \<Rightarrow> row list \<Rightarrow> (string \<times> realm) list \<Rightarrow> (string \<times> realm) list" where
  "load_rows now init stale old [] m = m"
| "load_rows now init stale old (r # rs) m =
     load_rows now init stale old rs
       (case load_realm now init stale old r of None \<Rightarrow> m | Some (name, realm) \<Rightarrow> btm_insert name realm m)"

definition update_realms ::
    "int \<Rightarrow> row list result \<Rightarrow> bool \<Rightarrow> (string \<times> realm) list \<Rightarrow> realm_list \<Rightarrow> realm_list" where
  "update_realms now reply init old_realms rl =
     (case reply of
        Inr rows \<Rightarrow> rl\<lparr>rls_realms := load_rows now init (rls_stale_timeout rl) old_realms rows (rls_realms rl)\<rparr>
      | Inl e \<Rightarrow> rl)"

definition realm_list_initialize :: "int \<Rightarrow> row list result \<Rightarrow> u32 \<Rightarrow> int \<Rightarrow> realm_list \<Rightarrow> realm_list" where
  "realm_list_initialize now reply update_interval stale_timeout rl =
     update_realms now reply True []
       (rl\<lparr>rls_update_interval := update_interval, rls_stale_timeout := stale_timeout\<rparr>)"

definition needs_update :: "int \<Rightarrow> realm_list \<Rightarrow> bool" where
  "needs_update now rl \<longleftrightarrow> rls_update_interval rl \<noteq> 0 \<and> \<not> rls_next_update_time rl > now"

definition update_if_needed :: "int \<Rightarrow> int \<Rightarrow> row list result \<Rightarrow> realm_list \<Rightarrow> realm_list" where
  "update_if_needed now now' reply rl =
     (if rls_update_interval rl = 0 then rl
      else if rls_next_update_time rl > now then rl
      else
        let old_realms = rls_realms rl in
        update_realms now' reply False old_realms
          (rl\<lparr>rls_next_update_time := now + int (unat (rls_update_interval rl)), rls_realms := []\<rparr>))"

definition realm_list_size :: "realm_list \<Rightarrow> nat" where
  "realm_list_size rl = length (rls_realms rl)"


lemma load_rows_ins_all:
  "load_rows now init stale old rs m = btm.ins_all (List.map_filter (load_realm now init stale old) rs) m"
  by (induction now init stale old rs m rule: load_rows.induct)
    (auto simp: btm.ins_all_def List.map_filter_simps split: option.splits)

lemma load_rows_sorted: "btm_sorted m \<Longrightarrow> btm_sorted (load_rows now init stale old rs m)"
  by (simp add: load_rows_ins_all btm.inv_ins_all)

lemma load_rows_get:
  "btm_sorted m \<Longrightarrow> btm_get (load_rows now init stale old rs m) =
     btm_get m ++ map_of (rev (List.map_filter (load_realm now init stale old) rs))"
  by (simp add: load_rows_ins_all btm.get_ins_all)

lemma load_rows_set:
  "set (load_rows now init stale old rs m) \<subseteq>
     set m \<union> {nr. \<exists>r \<in> set rs. load_realm now init stale old r = Some nr}"
proof (induction now init stale old rs m rule: load_rows.induct)
  case (2 now init stale old r rs m)
  have ins: "set (btm_insert k v m) \<subseteq> insert (k, v) (set m)" for k :: string and v :: realm
    by (induction k v m rule: btm_insert.induct) auto
  show ?case
    using 2 ins by (fastforce split: option.splits)
qed simp

section \<open>Well-formed realm lists\<close>

definition wf_realm :: "int \<Rightarrow> realm \<Rightarrow> bool" where
  "wf_realm t r \<longleftrightarrow> rl_id r \<noteq> 0 \<and> rl_flags r AND NOT valid_realm_flags = 0 \<and>
     rl_prev_realm_flags r AND NOT valid_realm_flags = 0 \<and>
     (rl_flags r = rl_prev_realm_flags r \<or> rl_flags r = rl_prev_realm_flags r OR REALM_FLAG_OFFLINE) \<and>
     rl_allowed_security_level r \<le> SEC_ADMINISTRATOR \<and>
     sorted (rl_builds r) \<and> distinct (rl_builds r) \<and> rl_last_seen_alive r \<le> t"

definition wf_realm_list :: "int \<Rightarrow> realm_list \<Rightarrow> bool" where
  "wf_realm_list t rl \<longleftrightarrow> btm_sorted (rls_realms rl) \<and> (\<forall>(name, r) \<in> set (rls_realms rl). wf_realm t r)"

text \<open>The lists a running server goes through: made and initialised once, then polled at
  later times with whatever the database answers.\<close>

inductive realm_run :: "int \<Rightarrow> realm_list \<Rightarrow> bool" where
  start: "realm_run t (realm_list_initialize t reply ui st realm_list_new)"
| poll: "realm_run t rl \<Longrightarrow> t \<le> now \<Longrightarrow> now \<le> now' \<Longrightarrow> realm_run now' (update_if_needed now now' reply rl)"

lemma parse_builds_wf: "sorted (parse_builds s)" "distinct (parse_builds s)"
proof -
  have "sorted m \<and> distinct m \<Longrightarrow>
    (let m' = foldl (\<lambda>s token. case parse_u32 token of Some b \<Rightarrow> bts_insert b s | None \<Rightarrow> s) m ts
     in sorted m' \<and> distinct m')" for m ts
    by (induction ts arbitrary: m)
      (auto simp: bts_insert_def sorted_insort_insert distinct_insort_insert split: option.splits)
  from this [of "[]" "split_whitespace s"]
  show "sorted (parse_builds s)" "distinct (parse_builds s)"
    by (auto simp: parse_builds_def Let_def)
qed

definition raw_flags :: "row \<Rightarrow> u8" where
  "raw_flags r = get_u8 r 5 AND valid_realm_flags"

lemma mask_flags:
  "(if f AND NOT valid_realm_flags \<noteq> 0 then f AND valid_realm_flags else f) = f AND valid_realm_flags"
  (is "?l = ?r")
proof -
  have "f = (f AND valid_realm_flags) OR (f AND NOT valid_realm_flags)"
    by (simp add: bit_eq_iff bit_simps) blast
  then show ?thesis by (metis or.right_neutral)
qed

lemma load_realm_eq:
  "load_realm now init st old r =
     (if get_u32 r 0 = 0 then None
      else
        let prev = btm_get old (get_string_field r 1);
            keep = (\<not> init \<and> (case prev of None \<Rightarrow> False
                      | Some q \<Rightarrow> f32_eq (get_f32 r 8) (rl_prev_population q) \<and> raw_flags r = rl_prev_realm_flags q));
            alive = (if keep then rl_last_seen_alive (the prev) else now)
        in Some (get_string_field r 1,
          \<lparr>rl_id = get_u32 r 0, rl_address = get_string_field r 2 @ '':'' @ dec_str (unat (get_u32 r 3)),
           rl_icon = get_u8 r 4,
           rl_flags = (if st > 0 \<and> raw_flags r AND REALM_FLAG_OFFLINE = 0 \<and> now - alive > st
                       then raw_flags r OR REALM_FLAG_OFFLINE else raw_flags r),
           rl_timezone = get_u8 r 6,
           rl_allowed_security_level = min (get_u8 r 7) SEC_ADMINISTRATOR,
           rl_population_level = get_f32 r 8, rl_builds = parse_builds (get_string_field r 9),
           rl_build_info = realm_build_info_of (parse_builds (get_string_field r 9)),
           rl_last_seen_alive = alive, rl_prev_population = get_f32 r 8,
           rl_prev_realm_flags = raw_flags r\<rparr>))"
proof (cases "btm_get old (get_string_field r 1)")
  case None
  then show ?thesis
    by (simp add: load_realm_def Let_def mask_flags min_def flip: raw_flags_def)
next
  case (Some q)
  then show ?thesis
    by (cases init) (simp_all add: load_realm_def Let_def mask_flags min_def flip: raw_flags_def)
qed

lemma offline_flag_valid: "REALM_FLAG_OFFLINE AND NOT valid_realm_flags = 0"
  by (simp add: REALM_FLAG_OFFLINE_def valid_realm_flags_def REALM_FLAG_NEW_PLAYERS_def
      REALM_FLAG_RECOMMENDED_def REALM_FLAG_SPECIFYBUILD_def)

lemma raw_flags_valid: "raw_flags r AND NOT valid_realm_flags = 0"
  by (simp add: raw_flags_def bit_eq_iff bit_simps)

lemma or_offline_valid:
  "f AND NOT valid_realm_flags = 0 \<Longrightarrow> (f OR REALM_FLAG_OFFLINE) AND NOT valid_realm_flags = 0"
  by (simp add: offline_flag_valid bit.conj_disj_distrib2)

lemma load_realm_fields:
  assumes "load_realm now init st old r = Some (name, realm)"
  shows "rl_id realm \<noteq> 0" "rl_prev_realm_flags realm = raw_flags r"
    "rl_flags realm = raw_flags r \<or> rl_flags realm = raw_flags r OR REALM_FLAG_OFFLINE"
    "rl_allowed_security_level realm \<le> SEC_ADMINISTRATOR"
    "rl_builds realm = parse_builds (get_string_field r 9)"
    "rl_last_seen_alive realm = now \<or>
       (\<exists>q. btm_get old name = Some q \<and> rl_last_seen_alive realm = rl_last_seen_alive q)"
  using assms by (auto simp: load_realm_eq Let_def split: if_splits option.splits)

lemma load_realm_wf:
  assumes "load_realm now init st old r = Some (name, realm)"
    and "\<And>q. btm_get old name = Some q \<Longrightarrow> rl_last_seen_alive q \<le> now"
  shows "wf_realm now realm"
  using load_realm_fields [OF assms(1)] assms(2) raw_flags_valid [of r] or_offline_valid [of "raw_flags r"]
  by (auto simp: wf_realm_def parse_builds_wf)

lemma wf_update_realms:
  assumes "wf_realm_list now (rl\<lparr>rls_realms := old\<rparr>)" "rls_realms rl = []"
  shows "wf_realm_list now (update_realms now reply init old rl)"
proof -
  have old: "rl_last_seen_alive q \<le> now" if "btm_get old name = Some q" for name q
    using assms that by (auto simp: wf_realm_list_def btm_get_def wf_realm_def dest!: map_of_SomeD)
  have wf: "wf_realm now realm"
    if "load_realm now init (rls_stale_timeout rl) old r = Some (name, realm)" for r name realm
    using that old by (rule load_realm_wf)
  show ?thesis
  proof (cases reply)
    case (Inr rows)
    have "set (load_rows now init (rls_stale_timeout rl) old rows []) \<subseteq>
        {nr. \<exists>r \<in> set rows. load_realm now init (rls_stale_timeout rl) old r = Some nr}"
      using load_rows_set [of now init "rls_stale_timeout rl" old rows "[]"] by simp
    with wf have "\<forall>(name, r) \<in> set (load_rows now init (rls_stale_timeout rl) old rows []). wf_realm now r"
      by fastforce
    with Inr assms show ?thesis
      by (simp add: update_realms_def wf_realm_list_def load_rows_sorted)
  qed (use assms in \<open>simp add: update_realms_def wf_realm_list_def\<close>)
qed

lemma wf_realm_mono: "wf_realm t r \<Longrightarrow> t \<le> t' \<Longrightarrow> wf_realm t' r"
  by (auto simp: wf_realm_def)

lemma wf_realm_list_mono: "wf_realm_list t rl \<Longrightarrow> t \<le> t' \<Longrightarrow> wf_realm_list t' rl"
  by (auto simp: wf_realm_list_def intro: wf_realm_mono)

text \<open>C15: on every realm list a running server can reach, whatever the database answered
  at each poll, the realms are in strictly ascending name order, every identifier is
  non-zero, the flags stay within the four flags the client knows and differ from the
  database's at most by the offline flag, the required security level is a valid account
  level, the build list is strictly ascending and the last sign of life is not in the
  future.\<close>

theorem realm_list_wf:
  assumes "realm_run t rl"
  shows "wf_realm_list t rl"
  using assms
proof (induction rule: realm_run.induct)
  case (start t reply ui st)
  show ?case
    unfolding realm_list_initialize_def
    by (rule wf_update_realms) (simp_all add: realm_list_new_def wf_realm_list_def)
next
  case (poll t rl now now' reply)
  then have now': "wf_realm_list now' rl" using wf_realm_list_mono by fastforce
  let ?next = "now + int (unat (rls_update_interval rl))"
  have "wf_realm_list now' (update_realms now' reply False (rls_realms rl)
          (rl\<lparr>rls_next_update_time := ?next, rls_realms := []\<rparr>))"
    using now' by (intro wf_update_realms) (simp_all add: wf_realm_list_def)
  with now' show ?case by (simp add: update_if_needed_def Let_def)
qed

text \<open>C17: a poll that is due replaces the list by the valid rows of the answer, one realm
  per name (the last row of a name wins), in name order; when the query fails the list is
  left empty until the next interval; a poll that is not due changes nothing.\<close>

theorem update_if_needed_contents:
  assumes "btm_sorted (rls_realms rl)"
  shows "let rl' = update_if_needed now now' reply rl;
             due = (rls_update_interval rl \<noteq> 0 \<and> rls_next_update_time rl \<le> now);
             loaded = List.map_filter (load_realm now' False (rls_stale_timeout rl) (rls_realms rl))
         in btm_sorted (rls_realms rl') \<and>
            btm_get (rls_realms rl') =
              (if \<not> due then btm_get (rls_realms rl)
               else case reply of Inl e \<Rightarrow> Map.empty | Inr rows \<Rightarrow> map_of (rev (loaded rows))) \<and>
            rls_next_update_time rl' =
              (if due then now + int (unat (rls_update_interval rl)) else rls_next_update_time rl)"
proof (cases reply)
  case (Inl e)
  with assms show ?thesis
    by (simp add: update_if_needed_def update_realms_def Let_def btm_get_def not_less fun_eq_iff)
next
  case (Inr rows)
  with assms show ?thesis
    by (simp add: update_if_needed_def update_realms_def Let_def not_less load_rows_get load_rows_sorted)
qed


text \<open>A concrete realm row, as the realm query returns it.\<close>

definition sample_row :: row where
  "sample_row = [int_cell 1, text_cell ''Azeroth'', text_cell ''127.0.0.1'', int_cell 8085, int_cell 1,
     int_cell 0, int_cell 1, int_cell 0, float_cell 0x3F800000, text_cell ''8606'']"

definition sample_list :: realm_list where
  "sample_list = realm_list_initialize 100 (Inr [sample_row]) 20 60 realm_list_new"

lemma sample_fields [simp]:
  "get_u32 sample_row 0 = 1" "get_string_field sample_row 1 = ''Azeroth''"
  "get_string_field sample_row (Suc 0) = ''Azeroth''"
  "get_f32 sample_row 8 = 0x3F800000" "get_u8 sample_row 5 = 0"
  by (simp_all add: sample_row_def get_u32_def get_string_field_def get_f32_def get_u8_def try_get_def
      int_cell_def text_cell_def float_cell_def)

theorem realm_list_wf_witness:
  "realm_run 120 (update_if_needed 120 120 (Inr [sample_row]) sample_list) \<and>
   wf_realm_list 120 (update_if_needed 120 120 (Inr [sample_row]) sample_list)"
proof -
  have "realm_run 100 sample_list" unfolding sample_list_def by (rule realm_run.start)
  then have "realm_run 120 (update_if_needed 120 120 (Inr [sample_row]) sample_list)"
    by (rule realm_run.poll) simp_all
  then show ?thesis using realm_list_wf by blast
qed

theorem update_if_needed_contents_witness:
  "btm_sorted (rls_realms realm_list_new) \<and>
   btm_get (rls_realms (update_if_needed 120 120 (Inl (Err ''timeout'')) (realm_list_new\<lparr>rls_update_interval := 20\<rparr>)))
     = Map.empty"
  using update_if_needed_contents [of "realm_list_new\<lparr>rls_update_interval := 20\<rparr>" 120 120 "Inl (Err ''timeout'')"]
  by (simp add: realm_list_new_def Let_def)

section \<open>Staleness\<close>

text \<open>Polls at the given times, all answered by the same rows.\<close>

fun polls :: "int list \<Rightarrow> row list \<Rightarrow> realm_list \<Rightarrow> realm_list" where
  "polls [] rows rl = rl"
| "polls (t # ts) rows rl = polls ts rows (update_if_needed t t (Inr rows) rl)"

text \<open>The realm of row \<open>r\<close> has shown no sign of life since \<open>t0\<close>.\<close>

definition silent_since :: "int \<Rightarrow> int \<Rightarrow> row \<Rightarrow> realm_list \<Rightarrow> bool" where
  "silent_since t0 st r rl \<longleftrightarrow> rls_stale_timeout rl = st \<and>
     (\<exists>q. btm_get (rls_realms rl) (get_string_field r 1) = Some q \<and>
        rl_prev_population q = get_f32 r 8 \<and> rl_prev_realm_flags q = raw_flags r \<and>
        rl_last_seen_alive q = t0)"

lemma map_of_map_filter_last:
  assumes "r \<in> set rows" "f r = Some (k, v)"
    and "\<And>r' v'. r' \<in> set rows \<Longrightarrow> f r' = Some (k, v') \<Longrightarrow> v' = v"
  shows "map_of (rev (List.map_filter f rows)) k = Some v"
proof -
  let ?kvs = "rev (List.map_filter f rows)"
  have "(k, v) \<in> set ?kvs" using assms(1,2) by (force simp: List.map_filter_def)
  then obtain v' where v': "map_of ?kvs k = Some v'" by (metis weak_map_of_SomeI)
  then have "(k, v') \<in> set ?kvs" by (rule map_of_SomeD)
  then have "v' = v" using assms(3) by (auto simp: List.map_filter_def)
  with v' show ?thesis by simp
qed

lemma loaded_realm:
  assumes "r \<in> set rows" "load_realm now init st old r = Some (name, q)"
    and "\<And>r'. r' \<in> set rows \<Longrightarrow> get_string_field r' 1 = name \<Longrightarrow> r' = r"
  shows "btm_get (load_rows now init st old rows []) name = Some q"
proof -
  have "map_of (rev (List.map_filter (load_realm now init st old) rows)) name = Some q"
  proof (rule map_of_map_filter_last [where f = "load_realm now init st old", OF assms(1,2)])
    fix r' v'
    assume r': "r' \<in> set rows" "load_realm now init st old r' = Some (name, v')"
    then have "get_string_field r' 1 = name" by (auto simp: load_realm_eq Let_def split: if_splits)
    with r'(1) assms(3) have "r' = r" by blast
    with r'(2) assms(2) show "v' = q" by simp
  qed
  then show ?thesis by (simp add: load_rows_get)
qed

lemma silent_poll:
  assumes "silent_since t0 st r rl" "r \<in> set rows" "get_u32 r 0 \<noteq> 0" "\<not> f32_is_nan (get_f32 r 8)"
    and uniq: "\<And>r'. r' \<in> set rows \<Longrightarrow> get_string_field r' 1 = get_string_field r 1 \<Longrightarrow> r' = r"
    and due: "needs_update t rl"
  obtains q where
    "btm_get (rls_realms (update_if_needed t t (Inr rows) rl)) (get_string_field r 1) = Some q"
    "rl_prev_population q = get_f32 r 8" "rl_prev_realm_flags q = raw_flags r" "rl_last_seen_alive q = t0"
    "rl_flags q = (if st > 0 \<and> raw_flags r AND REALM_FLAG_OFFLINE = 0 \<and> t - t0 > st
                   then raw_flags r OR REALM_FLAG_OFFLINE else raw_flags r)"
proof -
  let ?name = "get_string_field r 1"
  from assms(1) obtain p where p: "btm_get (rls_realms rl) ?name = Some p"
    "rl_prev_population p = get_f32 r 8" "rl_prev_realm_flags p = raw_flags r" "rl_last_seen_alive p = t0"
    and st: "rls_stale_timeout rl = st" by (auto simp: silent_since_def)
  obtain q where q: "load_realm t False st (rls_realms rl) r = Some (?name, q)"
    "rl_prev_population q = get_f32 r 8" "rl_prev_realm_flags q = raw_flags r" "rl_last_seen_alive q = t0"
    "rl_flags q = (if st > 0 \<and> raw_flags r AND REALM_FLAG_OFFLINE = 0 \<and> t - t0 > st
                   then raw_flags r OR REALM_FLAG_OFFLINE else raw_flags r)"
    using p assms(3,4) by (simp add: load_realm_eq Let_def f32_eq_refl)
  have "btm_get (load_rows t False st (rls_realms rl) rows []) ?name = Some q"
    using assms(2) q(1) uniq by (rule loaded_realm)
  with due st have "btm_get (rls_realms (update_if_needed t t (Inr rows) rl)) ?name = Some q"
    by (simp add: needs_update_def update_if_needed_def update_realms_def Let_def)
  from that [OF this q(2-5)] show thesis .
qed

lemma silent_since_poll:
  assumes "silent_since t0 st r rl" "r \<in> set rows" "get_u32 r 0 \<noteq> 0" "\<not> f32_is_nan (get_f32 r 8)"
    and uniq: "\<And>r'. r' \<in> set rows \<Longrightarrow> get_string_field r' 1 = get_string_field r 1 \<Longrightarrow> r' = r"
  shows "silent_since t0 st r (update_if_needed t t (Inr rows) rl)"
proof (cases "needs_update t rl")
  case True
  have st: "rls_stale_timeout (update_if_needed t t (Inr rows) rl) = st"
    using assms(1) by (simp add: silent_since_def update_if_needed_def update_realms_def Let_def)
  from silent_poll [OF assms True] obtain q where
    "btm_get (rls_realms (update_if_needed t t (Inr rows) rl)) (get_string_field r 1) = Some q"
    "rl_prev_population q = get_f32 r 8" "rl_prev_realm_flags q = raw_flags r" "rl_last_seen_alive q = t0"
    by metis
  with st show ?thesis unfolding silent_since_def by blast
next
  case False
  with assms(1) show ?thesis by (auto simp: needs_update_def update_if_needed_def)
qed

lemma silent_since_polls:
  assumes "silent_since t0 st r rl" "r \<in> set rows" "get_u32 r 0 \<noteq> 0" "\<not> f32_is_nan (get_f32 r 8)"
    and "\<And>r'. r' \<in> set rows \<Longrightarrow> get_string_field r' 1 = get_string_field r 1 \<Longrightarrow> r' = r"
  shows "silent_since t0 st r (polls ts rows rl)"
  using assms(1)
proof (induction ts arbitrary: rl)
  case (Cons t ts)
  from silent_since_poll [OF Cons.prems assms(2-5)] show ?case by (simp add: Cons.IH)
qed simp



section \<open>Client builds and categories\<close>

text \<open>The category lookup never indexes outside its tables, and the identifier it
  yields names one of the client's zones, for every build and every time zone byte.\<close>

theorem get_realm_category_id_total:
  "\<exists>c. get_realm_category_id build timezone = Inr c \<and> unat c < MAX_REALM_ZONES"
proof -
  have row: "zone < 38 \<Longrightarrow> m \<in> {1, 2, 3} \<Longrightarrow>
      zone < length (REALM_CATEGORY_IDS ! m) \<and> unat (REALM_CATEGORY_IDS ! m ! zone) < 38" for zone m
  proof -
    assume "zone < 38" "m \<in> {1, 2, 3 :: nat}"
    moreover have "\<forall>m \<in> {1, 2, 3 :: nat}. length (REALM_CATEGORY_IDS ! m) = 38 \<and>
        list_all (\<lambda>c. unat c < 38) (REALM_CATEGORY_IDS ! m)"
      by (simp add: REALM_CATEGORY_IDS_def)
    ultimately show ?thesis by (fastforce simp: list_all_length)
  qed
  have major: "find_build_info build = Some info \<Longrightarrow> unat (rbi_major_version info) \<in> {1, 2, 3}" for info
  proof -
    have "\<forall>b \<in> set EXPECTED_BUILDS. unat (rbi_major_version b) \<in> {1, 2, 3}"
      by (simp add: EXPECTED_BUILDS_def)
    moreover have "find_build_info build = Some info \<Longrightarrow> info \<in> set EXPECTED_BUILDS"
      by (auto simp: find_build_info_def find_Some_iff EXPECTED_BUILDS_def split: if_splits)
    ultimately show "find_build_info build = Some info \<Longrightarrow> ?thesis" by blast
  qed
  let ?zone = "if unat timezone \<ge> MAX_REALM_ZONES then 1 else unat timezone"
  have zone: "?zone < 38" by (simp add: MAX_REALM_ZONES_def)
  have four: "length REALM_CATEGORY_IDS = 4" by (simp add: REALM_CATEGORY_IDS_def)
  show ?thesis
  proof (cases "find_build_info build")
    case None
    with zone show ?thesis by (simp add: get_realm_category_id_def Let_def MAX_REALM_ZONES_def unat_of_nat)
  next
    case (Some info)
    from row [OF zone major [OF Some]] four major [OF Some] Some show ?thesis
      by (auto simp: get_realm_category_id_def Let_def MAX_REALM_ZONES_def)
  qed
qed

end
