(* ===== verification/Auth_World.thy ===== *)
theory Auth_World
  imports SRP6_Auth Config Base32_Token Realm_List
begin

text \<open>
  What an authentication session sees of the outside, and the vocabulary its handlers are
  written in.  \<open>auth_env\<close> holds what the code does not control: the third-party crates,
  the configuration and environment variables, the peer's address, the answers of the
  database, the random generator, the clock and which writes succeed.  \<open>session\<close> holds
  the local variables of \<^verbatim>\<open>handle_client\<close> together with the observable effects so far
  (bytes still to be received, packets sent, statements issued).  A handler is a function
  from a session to a result and a session; \<open>bindA\<close> is Rust's \<^verbatim>\<open>?\<close> operator and
  \<open>matchA\<close> a \<^verbatim>\<open>match\<close> on a \<^verbatim>\<open>Result\<close>, which lets errors be handled but no panic.
\<close>

section \<open>The environment\<close>

record auth_env =
  e_crates :: crates
  e_config :: config
  e_vars :: "string \<Rightarrow> string option"
  e_ip :: string \<comment> \<open>\<^verbatim>\<open>addr.ip().to_string()\<close>\<close>
  e_handle :: database
  e_db :: "string list \<Rightarrow> string \<Rightarrow> db_reply" \<comment> \<open>earlier statements of the session, this statement\<close>
  e_rand :: "nat \<Rightarrow> nat \<Rightarrow> nat" \<comment> \<open>index of the draw, number of bits\<close>
  e_clock :: "nat \<Rightarrow> nat" \<comment> \<open>seconds since the epoch at the n-th reading\<close>
  e_write_ok :: "nat \<Rightarrow> bool" \<comment> \<open>whether the n-th write succeeds in time\<close>

text \<open>The random generator returns numbers of the requested width.\<close>

definition rand_ok :: "auth_env \<Rightarrow> bool" where
  "rand_ok E \<longleftrightarrow> (\<forall>i n. e_rand E i n < 2 ^ n)"

definition env_int :: "auth_env \<Rightarrow> string \<Rightarrow> i32 \<Rightarrow> i32" where
  "env_int E key dflt = get_int_default (e_vars E) (e_config E) key dflt"

definition env_bool :: "auth_env \<Rightarrow> string \<Rightarrow> bool \<Rightarrow> bool" where
  "env_bool E key dflt = get_bool_default (e_vars E) (e_config E) key dflt"

section \<open>The session\<close>

datatype session_status = StChallenge | StLogonProof | StReconProof | StPatch | StAuthed | StClosed

record session =
  status :: session_status
  srp :: srp6
  reconnect_proof :: big_number
  login :: string
  safe_login :: string
  token :: string
  os :: string
  platform :: string
  locale_str :: string
  safe_locale :: string
  build :: u16
  account_security_level :: u8
  server_security_salt :: big_number
  grid_seed :: u32
  prompt_pin :: bool
  inp :: bytes \<comment> \<open>bytes of the peer that arrive in time and are not read yet\<close>
  out :: "bytes list" \<comment> \<open>packets written, in order\<close>
  writes :: nat \<comment> \<open>writes attempted\<close>
  sql_log :: "string list" \<comment> \<open>statements issued, in order\<close>
  draws :: nat \<comment> \<open>random numbers drawn\<close>
  ticks :: nat \<comment> \<open>clock readings\<close>
  realms :: realm_list \<comment> \<open>the shared realm list\<close>

definition session_new :: "auth_env \<Rightarrow> bytes \<Rightarrow> realm_list \<Rightarrow> session" where
  "session_new E input rl =
     \<lparr>status = StChallenge, srp = srp6_new (e_crates E), reconnect_proof = bn_new, login = [],
      safe_login = [], token = [], os = [], platform = [], locale_str = [], safe_locale = [],
      build = 0, account_security_level = SEC_PLAYER, server_security_salt = bn_new,
      grid_seed = 0, prompt_pin = False, inp = input, out = [], writes = 0, sql_log = [],
      draws = 0, ticks = 0, realms = rl\<rparr>"

section \<open>Actions\<close>

type_synonym 'a act = "session \<Rightarrow> 'a result \<times> session"

definition retA :: "'a \<Rightarrow> 'a act" where
  "retA x s = (Inr x, s)"

definition failA :: "string \<Rightarrow> 'a act" where
  "failA msg s = (Inl (Err msg), s)"

definition bindA :: "'a act \<Rightarrow> ('a \<Rightarrow> 'b act) \<Rightarrow> 'b act" where
  "bindA m k s = (case m s of (Inl e, s') \<Rightarrow> (Inl e, s') | (Inr x, s') \<Rightarrow> k x s')"

definition matchA :: "'a act \<Rightarrow> ('a option \<Rightarrow> 'b act) \<Rightarrow> 'b act" where
  "matchA m k s = (case m s of
      (Inl (Panic p), s') \<Rightarrow> (Inl (Panic p), s')
    | (Inl (Err e), s') \<Rightarrow> k None s'
    | (Inr x, s') \<Rightarrow> k (Some x) s')"

definition readA :: "(session \<Rightarrow> 'a) \<Rightarrow> 'a act" where
  "readA f s = (Inr (f s), s)"

definition getA :: "session act" where
  "getA s = (Inr s, s)"

definition modA :: "(session \<Rightarrow> session) \<Rightarrow> unit act" where
  "modA f s = (Inr (), f s)"

definition liftA :: "'a result \<Rightarrow> 'a act" where
  "liftA r s = (r, s)"

definition some_or :: "string \<Rightarrow> 'a option \<Rightarrow> 'a act" where
  "some_or msg x = (case x of None \<Rightarrow> failA msg | Some v \<Rightarrow> retA v)"

lemmas act_defs = retA_def failA_def bindA_def matchA_def readA_def getA_def modA_def liftA_def some_or_def

section \<open>Effects\<close>

text \<open>When fewer bytes arrive in time the read fails, by end of stream or by timeout, after
  the bytes that did arrive.\<close>

definition read_with_timeout :: "nat \<Rightarrow> bytes act" where
  "read_with_timeout n s =
     (if n \<le> length (inp s) then (Inr (take n (inp s)), s\<lparr>inp := drop n (inp s)\<rparr>)
      else (Inl (Err ''read timeout''), s\<lparr>inp := []\<rparr>))"

definition write_with_timeout :: "auth_env \<Rightarrow> bytes \<Rightarrow> unit act" where
  "write_with_timeout E d s =
     (if e_write_ok E (writes s) then (Inr (), s\<lparr>out := out s @ [d], writes := writes s + 1\<rparr>)
      else (Inl (Err ''write timeout''), s\<lparr>writes := writes s + 1\<rparr>))"

definition query_one :: "auth_env \<Rightarrow> string \<Rightarrow> row option act" where
  "query_one E sql s =
     (db_query_one (e_db E (sql_log s)) (e_handle E) sql,
      if is_connected (e_handle E) then s\<lparr>sql_log := sql_log s @ [sql]\<rparr> else s)"

definition query_all :: "auth_env \<Rightarrow> string \<Rightarrow> row list act" where
  "query_all E sql s =
     (db_query (e_db E (sql_log s)) (e_handle E) sql,
      if is_connected (e_handle E) then s\<lparr>sql_log := sql_log s @ [sql]\<rparr> else s)"

definition execute :: "auth_env \<Rightarrow> string \<Rightarrow> u64 act" where
  "execute E sql s =
     (db_execute (e_db E (sql_log s)) (e_handle E) sql,
      if is_connected (e_handle E) then s\<lparr>sql_log := sql_log s @ [sql]\<rparr> else s)"

text \<open>\<open>randA\<close> hands the generator to the code that draws once from it.\<close>

definition randA :: "auth_env \<Rightarrow> ((nat \<Rightarrow> nat) \<Rightarrow> 'a) \<Rightarrow> 'a act" where
  "randA E f s = (Inr (f (e_rand E (draws s))), s\<lparr>draws := draws s + 1\<rparr>)"

definition clockA :: "auth_env \<Rightarrow> nat act" where
  "clockA E s = (Inr (e_clock E (ticks s)), s\<lparr>ticks := ticks s + 1\<rparr>)"

text \<open>A text between single quotes, as the statements have their values.\<close>

definition quoted :: "string \<Rightarrow> string" where
  "quoted s = squote # s @ [squote]"

definition num_str :: "u32 \<Rightarrow> string" where
  "num_str n = dec_str (unat n)"

end
