(* ===== verification/Auth_Logic.thy ===== *)
theory Auth_Logic
  imports Auth_World "HOL-Library.Sublist"
begin

text \<open>
  Reasoning about handlers.  \<open>wp m Q s\<close> says that running \<open>m\<close> from \<open>s\<close> ends with a result
  and a session in \<open>Q\<close>; its equations compute the condition for every action.  The locale
  \<open>session_frame\<close> states what a relation between an earlier and a later session must
  satisfy to be kept by every handler: it only concerns the effects (input, packets,
  statements, counters) and each primitive effect respects it.
\<close>

section \<open>Weakest preconditions\<close>

definition wp :: "'a act \<Rightarrow> ('a result \<Rightarrow> session \<Rightarrow> bool) \<Rightarrow> session \<Rightarrow> bool" where
  "wp m Q s \<longleftrightarrow> Q (fst (m s)) (snd (m s))"

named_theorems wp_simps \<open>weakest preconditions of the actions\<close>

lemma wp_mono: "wp m Q s \<Longrightarrow> (\<And>r s'. Q r s' \<Longrightarrow> Q' r s') \<Longrightarrow> wp m Q' s"
  by (simp add: wp_def)

lemma wp_retA [wp_simps]: "wp (retA x) Q s \<longleftrightarrow> Q (Inr x) s"
  by (simp add: wp_def retA_def)

lemma wp_failA [wp_simps]: "wp (failA msg) Q s \<longleftrightarrow> Q (Inl (Err msg)) s"
  by (simp add: wp_def failA_def)

lemma wp_bindA [wp_simps]:
  "wp (bindA m k) Q s \<longleftrightarrow>
     wp m (\<lambda>r s'. case r of Inl e \<Rightarrow> Q (Inl e) s' | Inr x \<Rightarrow> wp (k x) Q s') s"
  by (simp add: wp_def bindA_def split: prod.split sum.split)

lemma wp_matchA [wp_simps]:
  "wp (matchA m k) Q s \<longleftrightarrow>
     wp m (\<lambda>r s'. case r of
         Inl (Panic p) \<Rightarrow> Q (Inl (Panic p)) s' | Inl (Err e) \<Rightarrow> wp (k None) Q s'
       | Inr x \<Rightarrow> wp (k (Some x)) Q s') s"
  by (simp add: wp_def matchA_def split: prod.split sum.split rust_error.split)

lemma wp_readA [wp_simps]: "wp (readA f) Q s \<longleftrightarrow> Q (Inr (f s)) s"
  by (simp add: wp_def readA_def)

lemma wp_getA [wp_simps]: "wp getA Q s \<longleftrightarrow> Q (Inr s) s"
  by (simp add: wp_def getA_def)

lemma wp_modA [wp_simps]: "wp (modA f) Q s \<longleftrightarrow> Q (Inr ()) (f s)"
  by (simp add: wp_def modA_def)

lemma wp_liftA [wp_simps]: "wp (liftA r) Q s \<longleftrightarrow> Q r s"
  by (simp add: wp_def liftA_def)

lemma wp_some_or [wp_simps]:
  "wp (some_or msg x) Q s \<longleftrightarrow> (case x of None \<Rightarrow> Q (Inl (Err msg)) s | Some v \<Rightarrow> Q (Inr v) s)"
  by (simp add: some_or_def wp_simps split: option.split)

lemma wp_read_with_timeout [wp_simps]:
  "wp (read_with_timeout n) Q s \<longleftrightarrow>
     (if n \<le> length (inp s) then Q (Inr (take n (inp s))) (s\<lparr>inp := drop n (inp s)\<rparr>)
      else Q (Inl (Err ''read timeout'')) (s\<lparr>inp := []\<rparr>))"
  by (simp add: wp_def read_with_timeout_def)

lemma wp_write_with_timeout [wp_simps]:
  "wp (write_with_timeout E d) Q s \<longleftrightarrow>
     (if e_write_ok E (writes s) then Q (Inr ()) (s\<lparr>out := out s @ [d], writes := writes s + 1\<rparr>)
      else Q (Inl (Err ''write timeout'')) (s\<lparr>writes := writes s + 1\<rparr>))"
  by (simp add: wp_def write_with_timeout_def)

text \<open>The statement log after a statement.\<close>

definition logged :: "auth_env \<Rightarrow> string \<Rightarrow> session \<Rightarrow> session" where
  "logged E sql s = (if is_connected (e_handle E) then s\<lparr>sql_log := sql_log s @ [sql]\<rparr> else s)"

lemma wp_query_one [wp_simps]:
  "wp (query_one E sql) Q s \<longleftrightarrow> Q (db_query_one (e_db E (sql_log s)) (e_handle E) sql) (logged E sql s)"
  by (simp add: wp_def query_one_def logged_def)

lemma wp_query_all [wp_simps]:
  "wp (query_all E sql) Q s \<longleftrightarrow> Q (db_query (e_db E (sql_log s)) (e_handle E) sql) (logged E sql s)"
  by (simp add: wp_def query_all_def logged_def)

lemma wp_execute [wp_simps]:
  "wp (execute E sql) Q s \<longleftrightarrow> Q (db_execute (e_db E (sql_log s)) (e_handle E) sql) (logged E sql s)"
  by (simp add: wp_def execute_def logged_def)

lemma wp_randA [wp_simps]:
  "wp (randA E f) Q s \<longleftrightarrow> Q (Inr (f (e_rand E (draws s)))) (s\<lparr>draws := draws s + 1\<rparr>)"
  by (simp add: wp_def randA_def)

lemma wp_clockA [wp_simps]:
  "wp (clockA E) Q s \<longleftrightarrow> Q (Inr (e_clock E (ticks s))) (s\<lparr>ticks := ticks s + 1\<rparr>)"
  by (simp add: wp_def clockA_def)

lemma wp_if [wp_simps]: "wp (if b then m else m') Q s \<longleftrightarrow> (if b then wp m Q s else wp m' Q s)"
  by simp

lemma logged_simps [simp]:
  "status (logged E q s) = status s" "srp (logged E q s) = srp s"
  "reconnect_proof (logged E q s) = reconnect_proof s" "login (logged E q s) = login s"
  "safe_login (logged E q s) = safe_login s" "token (logged E q s) = token s"
  "os (logged E q s) = os s" "platform (logged E q s) = platform s"
  "safe_locale (logged E q s) = safe_locale s" "build (logged E q s) = build s"
  "account_security_level (logged E q s) = account_security_level s"
  "prompt_pin (logged E q s) = prompt_pin s" "inp (logged E q s) = inp s"
  "out (logged E q s) = out s" "writes (logged E q s) = writes s"
  "draws (logged E q s) = draws s" "ticks (logged E q s) = ticks s" "realms (logged E q s) = realms s"
  by (simp_all add: logged_def)

text \<open>Database answers never carry a panic.\<close>

lemma db_query_one_no_panic [simp]: "db_query_one eng db sql \<noteq> Inl (Panic p)"
  by (simp add: db_query_one_def not_initialized_def split: db_reply.split)

lemma db_execute_no_panic [simp]: "db_execute eng db sql \<noteq> Inl (Panic p)"
  by (simp add: db_execute_def not_initialized_def split: db_reply.split)

section \<open>Frames\<close>

definition effects :: "session \<Rightarrow> bytes \<times> bytes list \<times> nat \<times> string list \<times> nat \<times> nat" where
  "effects s = (inp s, out s, writes s, sql_log s, draws s, ticks s)"

locale session_frame =
  fixes R :: "session \<Rightarrow> session \<Rightarrow> bool"
  assumes locals: "effects s' = effects s \<Longrightarrow> R s s'"
    and trans: "R s t \<Longrightarrow> R t u \<Longrightarrow> R s u"
    and reads: "R s (s\<lparr>inp := drop n (inp s)\<rparr>)"
    and writes_packet: "R s (s\<lparr>out := out s @ [d], writes := w\<rparr>)"
    and attempts: "R s (s\<lparr>writes := w\<rparr>)"
    and logs: "R s (s\<lparr>sql_log := sql_log s @ [q]\<rparr>)"
    and counts: "R s (s\<lparr>draws := n\<rparr>)" "R s (s\<lparr>ticks := n\<rparr>)"
begin

definition keeps :: "'a act \<Rightarrow> bool" where
  "keeps m \<longleftrightarrow> (\<forall>s. R s (snd (m s)))"

named_theorems keeps_rules

lemma keepsI: "(\<And>s. R s (snd (m s))) \<Longrightarrow> keeps m"
  by (simp add: keeps_def)

lemma keepsD: "keeps m \<Longrightarrow> R s (snd (m s))"
  by (simp add: keeps_def)

lemma refl: "R s s"
  by (rule locals) simp

lemma keeps_pure [keeps_rules]:
  "keeps (retA x)" "keeps (failA msg)" "keeps (readA f)" "keeps getA" "keeps (liftA r)" "keeps (some_or msg y)"
  by (auto simp: keeps_def act_defs refl split: option.split)

lemma keeps_modA [keeps_rules]: "(\<And>s. effects (f s) = effects s) \<Longrightarrow> keeps (modA f)"
  by (auto simp: keeps_def modA_def intro: locals)

lemma keeps_bindA [keeps_rules]: "keeps m \<Longrightarrow> (\<And>x. keeps (k x)) \<Longrightarrow> keeps (bindA m k)"
  unfolding keeps_def bindA_def by (auto split: prod.split sum.split intro: trans) (metis snd_conv trans)+

lemma keeps_matchA [keeps_rules]: "keeps m \<Longrightarrow> (\<And>x. keeps (k x)) \<Longrightarrow> keeps (matchA m k)"
  unfolding keeps_def matchA_def
  by (auto split: prod.split sum.split rust_error.split) (metis snd_conv trans)+

lemma reads_all: "R s (s\<lparr>inp := []\<rparr>)"
  using reads [of s "length (inp s)"] by simp

lemma keeps_effects [keeps_rules]:
  "keeps (read_with_timeout n)" "keeps (write_with_timeout E d)" "keeps (query_one E q)"
  "keeps (query_all E q)" "keeps (execute E q)" "keeps (randA E g)" "keeps (clockA E)"
  by (auto simp: keeps_def read_with_timeout_def write_with_timeout_def query_one_def query_all_def
      execute_def randA_def clockA_def intro: reads reads_all writes_packet attempts logs counts refl)

lemma keeps_if [keeps_rules]: "keeps m \<Longrightarrow> keeps m' \<Longrightarrow> keeps (if b then m else m')"
  by simp

lemma keeps_option [keeps_rules]:
  "keeps m \<Longrightarrow> (\<And>x. keeps (k x)) \<Longrightarrow> keeps (case y of None \<Rightarrow> m | Some x \<Rightarrow> k x)"
  by (simp split: option.split)

lemma keeps_prod [keeps_rules]: "(\<And>x y. keeps (k x y)) \<Longrightarrow> keeps (case p of (x, y) \<Rightarrow> k x y)"
  by (simp split: prod.split)

lemma keeps_bool [keeps_rules]:
  "keeps m \<Longrightarrow> keeps m' \<Longrightarrow> keeps (case b of True \<Rightarrow> m | False \<Rightarrow> m')"
  by (simp split: bool.split)

lemma keeps_Let [keeps_rules]: "(\<And>x. keeps (k x)) \<Longrightarrow> keeps (let x = v in k x)"
  by simp

end

text \<open>The bytes not read yet are a suffix of those there were; packets and statements are
  only ever added.\<close>

definition consumed :: "session \<Rightarrow> session \<Rightarrow> bool" where
  "consumed s s' \<longleftrightarrow> suffix (inp s') (inp s)"

definition extended :: "session \<Rightarrow> session \<Rightarrow> bool" where
  "extended s s' \<longleftrightarrow> prefix (out s) (out s') \<and> prefix (sql_log s) (sql_log s')"

interpretation consumed: session_frame consumed
  by unfold_locales (auto simp: consumed_def effects_def suffix_drop)

interpretation extended: session_frame extended
  by unfold_locales (auto simp: extended_def effects_def)

end
