(* ===== verification/Auth_Socket.thy ===== *)
theory Auth_Socket
  imports Auth_Logic
begin

text \<open>
  The handlers of \<^verbatim>\<open>crates/realmd/src/auth_socket.rs\<close>, one definition per function, the
  long ones divided at the source's own comments.  A handler's early \<^verbatim>\<open>return Ok(())\<close>
  inside a part is the value \<open>None\<close> of that part; \<open>Some pkt\<close> hands the packet on.
  Statements are spelled as the source formats them.
\<close>

section \<open>Version check and account creation\<close>

definition verify_version :: "auth_env \<Rightarrow> u16 \<Rightarrow> string \<Rightarrow> bytes \<Rightarrow> bytes \<Rightarrow> bool \<Rightarrow> bool" where
  "verify_version E build_no os_name a version_proof is_reconnect =
     (if \<not> env_bool E ''StrictVersionCheck'' False then True
      else
        let zeros = replicate 20 0;
            check = (\<lambda>version_hash.
              let sha = sha1_finalize (e_crates E) (sha1_update_data_bytes version_hash
                          (sha1_update_data_bytes a sha1_new))
              in sha1_get_digest sha = take (min 20 (length version_proof)) version_proof)
        in if is_reconnect then check zeros
           else case find_build_info build_no of
             None \<Rightarrow> False
           | Some info \<Rightarrow>
               (if os_name = ''Win'' then
                  (if rbi_windows_hash info = zeros then True else check (rbi_windows_hash info))
                else if os_name = ''OSX'' then
                  (if rbi_mac_hash info = zeros then True else check (rbi_mac_hash info))
                else False))"

definition calculate_sha_pass_hash :: "crates \<Rightarrow> string \<Rightarrow> string \<Rightarrow> string" where
  "calculate_sha_pass_hash C username password =
     (let sha = sha1_finalize C (sha1_update_data (unicode_uppercase C password)
            (sha1_update_data '':''
            (sha1_update_data (unicode_uppercase C username) (sha1_initialize sha1_new))))
      in concat (map hex02 (sha1_get_digest sha)))"

definition insert_account_sql :: "string \<Rightarrow> string \<Rightarrow> string \<Rightarrow> u32 \<Rightarrow> string" where
  "insert_account_sql safe v_hex s_hex expansion =
     ''INSERT INTO account(username, v, s, expansion, joindate) VALUES('' @ quoted safe @ '', ''
     @ quoted v_hex @ '', '' @ quoted s_hex @ '', '' @ quoted (num_str expansion) @ '', NOW())''"

definition auto_create_account :: "auth_env \<Rightarrow> string \<Rightarrow> string \<Rightarrow> unit act" where
  "auto_create_account E name safe =
     (let C = e_crates E; ri = calculate_sha_pass_hash C name name in
      bindA (bindA (randA E (\<lambda>rng. calculate_verifier_random C rng ri (srp6_new C))) liftA) (\<lambda>(ok, sp).
      if \<not> ok then failA ''Failed to generate SRP6 verifier''
      else
        let s_hex = as_hex_str C (srp_s sp); v_hex = as_hex_str C (srp_v sp);
            expansion = env_int E ''AutoCreateAccounts.Expansion'' 1
        in bindA (execute E (insert_account_sql safe v_hex s_hex expansion)) (\<lambda>_. retA ())))"

section \<open>Logon challenge\<close>

text \<open>Header and body; the session is closed from here on unless a later step reopens it.\<close>

definition read_logon_challenge :: "challenge_body act" where
  "read_logon_challenge =
     bindA (read_with_timeout header_SIZE) (\<lambda>header_buf.
     bindA (some_or ''Invalid logon challenge header'' (header_from_bytes header_buf)) (\<lambda>header.
     let remaining = unat (hdr_size header) in
     if remaining < body_MIN_SIZE - AUTH_LOGON_MAX_NAME then failA ''Logon challenge body too small''
     else
       bindA (modA (status_update (\<lambda>_. StClosed))) (\<lambda>_.
       bindA (read_with_timeout remaining) (\<lambda>body_buf.
       some_or ''Invalid logon challenge body'' (body_from_bytes body_buf)))))"

definition store_client_info :: "challenge_body \<Rightarrow> session \<Rightarrow> session" where
  "store_client_info body s =
     s\<lparr>login := username_string body,
       build := cb_build body,
       platform := platform_string body,
       locale_str := locale_string body,
       safe_login := escape_string (username_string body),
       safe_locale := escape_string (locale_string body),
       os := escape_string (os_string body)\<rparr>"

definition ip_ban_sql :: "auth_env \<Rightarrow> string" where
  "ip_ban_sql E =
     ''SELECT expires_at FROM ip_banned WHERE (expires_at = banned_at OR expires_at > UNIX_TIMESTAMP()) AND ip = ''
     @ quoted (escape_string (e_ip E))"

definition account_sql :: "string \<Rightarrow> string" where
  "account_sql safe =
     ''SELECT id, CAST(locked AS SIGNED) AS locked, lockedIp, CAST(gmlevel AS SIGNED) AS gmlevel, CAST(v AS CHAR) AS v, CAST(s AS CHAR) AS s, CAST(token AS CHAR) AS token FROM account WHERE username = ''
     @ quoted safe"

definition account_ban_sql :: "u32 \<Rightarrow> string" where
  "account_ban_sql account_id =
     ''SELECT banned_at, expires_at FROM account_banned WHERE account_id = '' @ num_str account_id
     @ '' AND CAST(active AS SIGNED) = 1 AND (expires_at > UNIX_TIMESTAMP() OR expires_at = banned_at)''"

definition challenge_pkt :: byte_buffer where
  "challenge_pkt = write_u8 0 (write_u8 (auth_cmd_u8 LogonChallenge) bb_new)"

text \<open>A one-byte refusal: the packet is sent and the handler returns.\<close>

definition refuse :: "auth_env \<Rightarrow> auth_logon_result \<Rightarrow> byte_buffer option act" where
  "refuse E r =
     bindA (write_with_timeout E (bb_contents (write_u8 (logon_result_u8 r) challenge_pkt))) (\<lambda>_.
     retA None)"

text \<open>\<^verbatim>\<open>!srp.set_verifier(v) || !srp.set_salt(s)\<close>, negated: whether both succeeded.\<close>

definition set_credentials :: "auth_env \<Rightarrow> string \<Rightarrow> string \<Rightarrow> bool act" where
  "set_credentials E database_v database_s s =
     (let (ok_v, sp) = set_verifier (e_crates E) database_v (srp s) in
      if \<not> ok_v then (Inr False, s\<lparr>srp := sp\<rparr>)
      else let (ok_s, sp) = set_salt (e_crates E) database_s sp in (Inr ok_s, s\<lparr>srp := sp\<rparr>))"

text \<open>Fresh server ephemeral, then success code, B, g, N, salt and version challenge.\<close>

definition srp_challenge :: "auth_env \<Rightarrow> string \<Rightarrow> byte_buffer act" where
  "srp_challenge E database_s =
     (let C = e_crates E in
      bindA (readA srp) (\<lambda>sp.
      bindA (bindA (randA E (\<lambda>rng. calculate_host_public_ephemeral C rng sp)) liftA) (\<lambda>sp.
      bindA (modA (srp_update (\<lambda>_. sp))) (\<lambda>_.
      let salt_bn = snd (set_hex_str C database_s bn_new)
      in retA (append_bytes VERSION_CHALLENGE
              (append_bytes (as_byte_array C 0 salt_bn)
              (append_bytes (as_byte_array C 32 (srp_n sp))
              (write_u8 32
              (append_bytes (as_byte_array C 0 (srp_g sp))
              (write_u8 1
              (append_bytes (as_byte_array C 32 (srp_big_b sp))
              (write_u8 (logon_result_u8 Success) challenge_pkt))))))))))))"

definition security_flags_for :: "string \<Rightarrow> u16 \<Rightarrow> u8" where
  "security_flags_for tok build_no =
     (let f = (if tok \<noteq> [] \<and> build_no \<ge> 8606 then security_flags_u8 SecAuthenticator else 0)
      in if tok \<noteq> [] \<and> build_no \<le> 6141 then security_flags_u8 SecPin else f)"

definition append_security :: "auth_env \<Rightarrow> u8 \<Rightarrow> byte_buffer \<Rightarrow> byte_buffer act" where
  "append_security E flags pkt =
     (let C = e_crates E; pkt = write_u8 flags pkt in
      bindA
        (if flags AND security_flags_u8 SecPin \<noteq> 0 then
           bindA (randA E (\<lambda>rng. set_rand rng (16 * 8))) (\<lambda>salt.
           let bs = as_byte_array C 16 salt in
           if length bs < 16 then liftA (Inl (Panic ''range end index 16 out of range''))
           else bindA (modA (\<lambda>s. s\<lparr>grid_seed := 0, server_security_salt := salt, prompt_pin := True\<rparr>)) (\<lambda>_.
                retA (append_bytes (take 16 bs) (write_u32 0 pkt))))
         else retA pkt)
        (\<lambda>pkt.
         let pkt = (if flags AND security_flags_u8 SecUnk \<noteq> 0
                    then write_u64 0 (write_u8 0 (write_u8 0 (write_u8 0 (write_u8 0 pkt)))) else pkt);
             pkt = (if flags AND security_flags_u8 SecAuthenticator \<noteq> 0 then write_u8 1 pkt else pkt)
         in retA pkt))"

definition clamp_security_level :: "u8 \<Rightarrow> u8" where
  "clamp_security_level lvl = (if lvl \<le> SEC_ADMINISTRATOR then lvl else SEC_ADMINISTRATOR)"

definition account_banned_check :: "auth_env \<Rightarrow> u32 \<Rightarrow> byte_buffer option act \<Rightarrow> byte_buffer option act" where
  "account_banned_check E account_id k =
     matchA (query_one E (account_ban_sql account_id)) (\<lambda>r. case r of
       Some (Some ban_row) \<Rightarrow>
         refuse E (if get_u64 ban_row 0 = get_u64 ban_row 1 then FailedBanned else FailedSuspended)
     | _ \<Rightarrow> k)"

text \<open>The challenge for an account that may log in.\<close>

definition issue_challenge :: "auth_env \<Rightarrow> row \<Rightarrow> byte_buffer option act" where
  "issue_challenge E r =
     bindA (srp_challenge E (get_string_field r 5)) (\<lambda>pkt.
     bindA (modA (token_update (\<lambda>_. get_string_field r 6))) (\<lambda>_.
     bindA (readA build) (\<lambda>b.
     bindA (append_security E (security_flags_for (get_string_field r 6) b) pkt) (\<lambda>pkt.
     bindA (modA (\<lambda>s. s\<lparr>account_security_level := clamp_security_level (get_u8 r 3),
                         status := StLogonProof\<rparr>)) (\<lambda>_.
     retA (Some pkt))))))"

definition account_found :: "auth_env \<Rightarrow> row \<Rightarrow> byte_buffer option act" where
  "account_found E r =
     (let account_id = get_u32 r 0; locked = get_u8 r 1 in
      if locked = 1 \<and> get_string_field r 2 \<noteq> e_ip E then refuse E FailedSuspended
      else
        let database_v = get_string_field r 4; database_s = get_string_field r 5 in
        bindA (set_credentials E database_v database_s) (\<lambda>ok.
        if \<not> ok then refuse E FailedFailNoaccess
        else account_banned_check E account_id (issue_challenge E r)))"

text \<open>The same for an account created a moment ago: no lock, ban or second factor.\<close>

definition auto_created_found :: "auth_env \<Rightarrow> row \<Rightarrow> byte_buffer option act" where
  "auto_created_found E r =
     (let database_v = get_string_field r 4; database_s = get_string_field r 5 in
      bindA (set_credentials E database_v database_s) (\<lambda>ok.
      if \<not> ok then refuse E FailedFailNoaccess
      else
        bindA (srp_challenge E database_s) (\<lambda>pkt.
        bindA (modA (\<lambda>s. s\<lparr>account_security_level := clamp_security_level (get_u8 r 3),
                            status := StLogonProof\<rparr>)) (\<lambda>_.
        retA (Some (write_u8 0 pkt))))))"

definition unknown_account :: "byte_buffer option act" where
  "unknown_account = retA (Some (write_u8 (logon_result_u8 FailedUnknownAccount) challenge_pkt))"

definition account_missing :: "auth_env \<Rightarrow> byte_buffer option act" where
  "account_missing E =
     (if env_bool E ''AutoCreateAccounts'' False then
        bindA (readA (\<lambda>s. (login s, safe_login s))) (\<lambda>(name, safe).
        matchA (auto_create_account E name safe) (\<lambda>created. case created of
          None \<Rightarrow> unknown_account
        | Some _ \<Rightarrow>
            bindA (query_one E (account_sql safe)) (\<lambda>r. case r of
              Some r \<Rightarrow> auto_created_found E r
            | None \<Rightarrow> unknown_account)))
      else unknown_account)"

text \<open>Ban check on the address, then the account.\<close>

definition look_up_account :: "auth_env \<Rightarrow> byte_buffer option act" where
  "look_up_account E =
     matchA (query_one E (ip_ban_sql E)) (\<lambda>ban. case ban of
       Some (Some _) \<Rightarrow> refuse E FailedFailNoaccess
     | _ \<Rightarrow>
       bindA (readA safe_login) (\<lambda>safe.
       bindA (query_one E (account_sql safe)) (\<lambda>r. case r of
         Some r \<Rightarrow> account_found E r
       | None \<Rightarrow> account_missing E)))"

definition handle_logon_challenge :: "auth_env \<Rightarrow> unit act" where
  "handle_logon_challenge E =
     bindA read_logon_challenge (\<lambda>body.
     if unat (cb_username_len body) > AUTH_LOGON_MAX_NAME then failA ''Username too long''
     else
       bindA (modA (store_client_info body)) (\<lambda>_.
       bindA (look_up_account E) (\<lambda>pkt. case pkt of
         None \<Rightarrow> retA ()
       | Some pkt \<Rightarrow> write_with_timeout E (bb_contents pkt))))"

end
