(* ===== verification/Auth_Proof.thy ===== *)
theory Auth_Proof
  imports Auth_Socket
begin

text \<open>
  The second half of a logon and the reconnection of
  \<^verbatim>\<open>crates/realmd/src/auth_socket.rs\<close>: \<^verbatim>\<open>handle_logon_proof\<close> with the failure counting,
  the authenticator and \<^verbatim>\<open>verify_and_finalize\<close>, and the two reconnect handlers.
\<close>

section \<open>Replies\<close>

definition send_logon_proof_error :: "auth_env \<Rightarrow> u16 \<Rightarrow> unit act" where
  "send_logon_proof_error E build_no =
     (if build_no > 6005
      then write_with_timeout E [auth_cmd_u8 LogonProof, logon_result_u8 FailedUnknownAccount, 0, 0]
      else write_with_timeout E [auth_cmd_u8 LogonProof, logon_result_u8 FailedUnknownAccount])"

definition legacy_build :: "u16 \<Rightarrow> bool" where
  "legacy_build b \<longleftrightarrow> b = 5875 \<or> b = 6005 \<or> b = 6141"

definition send_proof :: "auth_env \<Rightarrow> u16 \<Rightarrow> sha1_hash \<Rightarrow> unit act" where
  "send_proof E build_no sha =
     (if legacy_build build_no then
        write_with_timeout E (proof_server_legacy_to_bytes
          \<lparr>pl_cmd = auth_cmd_u8 LogonProof, pl_error = 0, pl_m2 = sha1_get_digest sha,
           pl_login_flags = 0\<rparr>)
      else
        write_with_timeout E (proof_server_to_bytes
          \<lparr>ps_cmd = auth_cmd_u8 LogonProof, ps_error = 0, ps_m2 = sha1_get_digest sha,
           ps_account_flags = account_flags_u32 AccountProPass, ps_survey_id = 0,
           ps_unk_flags = 0\<rparr>))"

section \<open>Failed logins\<close>

definition count_failed_sql :: "string \<Rightarrow> string" where
  "count_failed_sql safe =
     ''UPDATE account SET failed_logins = failed_logins + 1 WHERE username = '' @ quoted safe"

definition failed_logins_sql :: "string \<Rightarrow> string" where
  "failed_logins_sql safe =
     ''SELECT id, CAST(failed_logins AS SIGNED) AS failed_logins FROM account WHERE username = '' @ quoted safe"

definition ban_account_sql :: "u32 \<Rightarrow> u32 \<Rightarrow> string" where
  "ban_account_sql acc_id ban_time =
     ''INSERT INTO account_banned(account_id, banned_at, expires_at, banned_by, reason, active) VALUES ('' @ quoted (num_str acc_id)
     @ '', UNIX_TIMESTAMP(), UNIX_TIMESTAMP()+'' @ quoted (num_str ban_time)
     @ '', '' @ quoted ''MaNGOS realmd'' @ '', '' @ quoted ''Failed login autoban'' @ '', 1)''"

definition ban_ip_sql :: "string \<Rightarrow> u32 \<Rightarrow> string" where
  "ban_ip_sql ip ban_time =
     ''INSERT INTO ip_banned VALUES ('' @ quoted ip @ '', UNIX_TIMESTAMP(), UNIX_TIMESTAMP()+''
     @ quoted (num_str ban_time) @ '', '' @ quoted ''MaNGOS realmd'' @ '', '' @ quoted ''Failed login autoban'' @ '')''"

definition handle_failed_login :: "auth_env \<Rightarrow> string \<Rightarrow> unit act" where
  "handle_failed_login E safe =
     (let max_wrong = env_int E ''WrongPass.MaxCount'' 0 in
      if max_wrong = 0 then retA ()
      else
        matchA (execute E (count_failed_sql safe)) (\<lambda>_.
        matchA (query_one E (failed_logins_sql safe)) (\<lambda>r. case r of
          Some (Some r) \<Rightarrow>
            (let failed_logins = get_u32 r 1 in
             if failed_logins \<ge> max_wrong then
               (let ban_time = env_int E ''WrongPass.BanTime'' 600;
                    ban_type = env_bool E ''WrongPass.BanType'' False in
                if ban_type
                then matchA (execute E (ban_account_sql (get_u32 r 0) ban_time)) (\<lambda>_. retA ())
                else matchA (execute E (ban_ip_sql (escape_string (e_ip E)) ban_time)) (\<lambda>_. retA ()))
             else retA ())
        | _ \<Rightarrow> retA ())))"

section \<open>Completing a logon\<close>

definition update_session_sql :: "string \<Rightarrow> string \<Rightarrow> string \<Rightarrow> string \<Rightarrow> string \<Rightarrow> string" where
  "update_session_sql k_hex loc os_name plat safe =
     ''UPDATE account SET sessionkey = '' @ quoted k_hex @ '', locale = '' @ quoted loc
     @ '', failed_logins = 0, os = '' @ quoted os_name @ '', platform = '' @ quoted plat
     @ '' WHERE username = '' @ quoted safe"

definition account_id_sql :: "string \<Rightarrow> string" where
  "account_id_sql safe = ''SELECT id FROM account WHERE username = '' @ quoted safe"

definition log_logon_sql :: "u32 \<Rightarrow> string \<Rightarrow> string" where
  "log_logon_sql account_id ip =
     ''INSERT INTO account_logons(accountId, ip, loginTime, loginSource) VALUES('' @ quoted (num_str account_id)
     @ '', '' @ quoted ip @ '', NOW(), '' @ quoted (num_str LOGIN_TYPE_REALMD) @ '')''"

definition verify_and_finalize :: "auth_env \<Rightarrow> logon_proof_client \<Rightarrow> unit act" where
  "verify_and_finalize E proof_c =
     bindA getA (\<lambda>s.
      let C = e_crates E; b = build s in
      if \<not> verify_version E b (os s) (lp_a proof_c) (lp_crc_hash proof_c) False then
        write_with_timeout E [auth_cmd_u8 LogonProof, logon_result_u8 FailedVersionInvalid]
      else
        matchA (execute E (update_session_sql (as_hex_str C (srp_k (srp s))) (safe_locale s) (os s)
                  (platform s) (safe_login s))) (\<lambda>_.
        bindA (matchA (query_one E (account_id_sql (safe_login s))) (\<lambda>r. case r of
                 Some (Some r) \<Rightarrow>
                   matchA (execute E (log_logon_sql (get_u32 r 0) (escape_string (e_ip E)))) (\<lambda>_. retA ())
               | _ \<Rightarrow> retA ())) (\<lambda>_.
        bindA (send_proof E b (srp_finalize C (srp s) sha1_new)) (\<lambda>_.
        modA (status_update (\<lambda>_. StAuthed))))))"

text \<open>The authenticator step: \<open>True\<close> when the token was accepted or none is needed, \<open>False\<close>
  when a refusal has been sent.\<close>

definition check_authenticator :: "auth_env \<Rightarrow> logon_proof_client \<Rightarrow> bool act" where
  "check_authenticator E proof_c =
     bindA getA (\<lambda>s.
      let b = build s; tok = token s;
          reject = bindA (send_logon_proof_error E b) (\<lambda>_. retA False) in
      if b > 6141 \<and> (lp_security_flags proof_c AND security_flags_u8 SecAuthenticator \<noteq> 0 \<or> tok \<noteq> []) then
        matchA (read_with_timeout 1) (\<lambda>pin_count_buf. case pin_count_buf of
          None \<Rightarrow> reject
        | Some buf \<Rightarrow>
            (let pin_count = buf ! 0 in
             if pin_count > 16 then reject
             else
               matchA (read_with_timeout (unat pin_count)) (\<lambda>keys. case keys of
                 None \<Rightarrow> reject
               | Some keys \<Rightarrow>
                   bindA (clockA E) (\<lambda>now.
                   let client_token = (case parse_i32 (from_utf8_lossy keys) of Some v \<Rightarrow> v | None \<Rightarrow> - 1);
                       server_token = generate_token (e_crates E) now tok
                   in if server_token \<noteq> client_token then reject else retA True))))
      else retA True)"

text \<open>The proof itself: \<open>None\<close> when \<open>A\<close> is refused, else whether \<open>M1\<close> matches.\<close>

definition check_proof :: "auth_env \<Rightarrow> logon_proof_client \<Rightarrow> bool option act" where
  "check_proof E proof_c s =
     (let C = e_crates E in
      case calculate_session_key C (lp_a proof_c) (srp s) of
        Inl e \<Rightarrow> (Inl e, s)
      | Inr (ok, sp) \<Rightarrow>
          (if \<not> ok then (Inr None, s\<lparr>srp := sp\<rparr>)
           else
             let sp = calculate_proof C (login s) (hash_session_key C sp)
             in (Inr (Some (srp_proof C sp (lp_m1 proof_c))), s\<lparr>srp := sp\<rparr>)))"

definition handle_logon_proof :: "auth_env \<Rightarrow> unit act" where
  "handle_logon_proof E =
     bindA getA (\<lambda>s.
      let pin = prompt_pin s; b = build s; safe = safe_login s in
      bindA (read_with_timeout (if pin then proof_SIZE_WITH_PIN else proof_SIZE_WITHOUT_PIN)) (\<lambda>proof_buf.
      bindA (some_or ''Invalid logon proof'' (logon_proof_from_bytes proof_buf pin)) (\<lambda>proof_c.
      bindA (modA (status_update (\<lambda>_. StClosed))) (\<lambda>_.
      if find_build_info b = None then
        write_with_timeout E (bb_contents (write_u8 (logon_result_u8 FailedVersionInvalid) challenge_pkt))
      else
        bindA (check_proof E proof_c) (\<lambda>matches. case matches of
          None \<Rightarrow> retA ()
        | Some False \<Rightarrow>
            bindA (send_logon_proof_error E b) (\<lambda>_. handle_failed_login E safe)
        | Some True \<Rightarrow>
            bindA (check_authenticator E proof_c) (\<lambda>accepted.
            if accepted then verify_and_finalize E proof_c else retA ()))))))"

section \<open>Reconnection\<close>

definition session_key_sql :: "string \<Rightarrow> string" where
  "session_key_sql safe =
     ''SELECT CAST(sessionkey AS CHAR) AS sessionkey FROM account WHERE username = '' @ quoted safe"

definition read_reconnect_challenge :: "challenge_body act" where
  "read_reconnect_challenge =
     bindA (read_with_timeout header_SIZE) (\<lambda>header_buf.
     bindA (some_or ''Invalid reconnect challenge header'' (header_from_bytes header_buf)) (\<lambda>header.
     bindA (modA (status_update (\<lambda>_. StClosed))) (\<lambda>_.
     bindA (read_with_timeout (unat (hdr_size header))) (\<lambda>body_buf.
     some_or ''Invalid reconnect challenge body'' (body_from_bytes body_buf)))))"

definition handle_reconnect_challenge :: "auth_env \<Rightarrow> unit act" where
  "handle_reconnect_challenge E =
     (let C = e_crates E in
      bindA read_reconnect_challenge (\<lambda>body.
      if cb_username_len body > 10 then failA ''Username too long for reconnect''
      else
        bindA (modA (\<lambda>s. s\<lparr>login := username_string body,
                            safe_login := escape_string (username_string body),
                            build := cb_build body\<rparr>)) (\<lambda>_.
        bindA (query_one E (session_key_sql (escape_string (username_string body)))) (\<lambda>r. case r of
          None \<Rightarrow> failA ''No session key''
        | Some r \<Rightarrow>
            bindA (modA (\<lambda>s. s\<lparr>srp := set_strong_session_key C (get_string_field r 0) (srp s),
                                status := StReconProof\<rparr>)) (\<lambda>_.
            bindA (randA E (\<lambda>rng. set_rand rng (16 * 8))) (\<lambda>rnd.
            bindA (modA (reconnect_proof_update (\<lambda>_. rnd))) (\<lambda>_.
            let bs = as_byte_array C 16 rnd in
            if length bs < 16 then liftA (Inl (Panic ''range end index 16 out of range''))
            else
              write_with_timeout E (bb_contents (append_bytes VERSION_CHALLENGE
                (append_bytes (take 16 bs)
                (write_u8 0 (write_u8 (auth_cmd_u8 ReconnectChallenge) bb_new))))))))))))"

definition reconnect_digest :: "auth_env \<Rightarrow> string \<Rightarrow> bytes \<Rightarrow> big_number \<Rightarrow> big_number \<Rightarrow> bytes" where
  "reconnect_digest E name r1 rnd k =
     (let C = e_crates E; t1 = set_binary C r1
      in sha1_get_digest (sha1_finalize C (sha1_update_big_numbers C [t1, rnd, k]
           (sha1_update_data name (sha1_initialize sha1_new)))))"

definition handle_reconnect_proof :: "auth_env \<Rightarrow> unit act" where
  "handle_reconnect_proof E =
     bindA getA (\<lambda>s.
      let C = e_crates E; k = srp_k (srp s); name = login s; rnd = reconnect_proof s;
          b = build s; os_name = os s in
      bindA (read_with_timeout reconnect_SIZE) (\<lambda>proof_buf.
      bindA (some_or ''Invalid reconnect proof'' (reconnect_proof_from_bytes proof_buf)) (\<lambda>proof_c.
      bindA (modA (status_update (\<lambda>_. StClosed))) (\<lambda>_.
      if name = [] \<or> get_num_bytes C rnd = 0 \<or> get_num_bytes C k = 0 then retA ()
      else if reconnect_digest E name (rp_r1 proof_c) rnd k = rp_r2 proof_c then
        (if \<not> verify_version E b os_name (rp_r1 proof_c) (rp_r3 proof_c) True then
           write_with_timeout E (bb_contents (write_u8 (logon_result_u8 FailedVersionInvalid)
             (write_u8 (auth_cmd_u8 ReconnectProof) bb_new)))
         else
           bindA (write_with_timeout E (bb_contents (write_u16 0 (write_u8 (logon_result_u8 Success)
             (write_u8 (auth_cmd_u8 ReconnectProof) bb_new))))) (\<lambda>_.
           modA (status_update (\<lambda>_. StAuthed))))
      else retA ()))))"

end
