(* ===== verification/Realm_Packet.thy ===== *)
theory Realm_Packet
  imports Auth_Proof
begin

text \<open>
  The realm list reply of \<^verbatim>\<open>crates/realmd/src/auth_socket.rs\<close> (\<^verbatim>\<open>handle_realm_list\<close>,
  \<^verbatim>\<open>load_realm_list\<close>, \<^verbatim>\<open>get_char_count\<close>): the packet in the 1.12 and in the 2.x format, its
  layout entry by entry, and how the announced number of realms relates to the entries
  that follow.
\<close>

section \<open>Definitions\<close>

definition char_count_sql :: "u32 \<Rightarrow> u32 \<Rightarrow> string" where
  "char_count_sql realm_id account_id =
     ''SELECT CAST(numchars AS SIGNED) AS numchars FROM realmcharacters WHERE realmid = '' @ quoted (num_str realm_id)
     @ '' AND acctid = '' @ quoted (num_str account_id)"

definition get_char_count :: "auth_env \<Rightarrow> u32 \<Rightarrow> u32 \<Rightarrow> u8 act" where
  "get_char_count E realm_id account_id =
     matchA (query_one E (char_count_sql realm_id account_id)) (\<lambda>r. case r of
       Some (Some r) \<Rightarrow> retA (get_u8 r 0)
     | _ \<Rightarrow> retA 0)"

definition u8_str :: "u8 \<Rightarrow> string" where
  "u8_str b = dec_str (unat b)"

text \<open>One realm in the 1.12 format, appended to the packet.\<close>

definition legacy_entry :: "u16 \<Rightarrow> u8 \<Rightarrow> string \<Rightarrow> realm \<Rightarrow> u8 \<Rightarrow> u8 \<Rightarrow> byte_buffer \<Rightarrow> byte_buffer" where
  "legacy_entry b acc_level name realm char_count category_id pkt =
     (let ok_build = (ucast b \<in> set (rl_builds realm));
          build_info = (case (if ok_build then find_build_info b else None) of
                          Some i \<Rightarrow> i | None \<Rightarrow> rl_build_info realm);
          display_name =
            (if rl_flags realm AND REALM_FLAG_SPECIFYBUILD \<noteq> 0
             then name @ '' ('' @ u8_str (rbi_major_version build_info) @ '','' @ u8_str (rbi_minor_version build_info)
                  @ '','' @ u8_str (rbi_bugfix_version build_info) @ '')''
             else name);
          flags = (if \<not> ok_build \<or> rl_allowed_security_level realm > acc_level
                   then rl_flags realm OR REALM_FLAG_OFFLINE else rl_flags realm)
      in write_u8 0 (write_u8 category_id (write_u8 char_count (write_f32 (rl_population_level realm)
         (write_string (rl_address realm) (write_string display_name (write_u8 flags
         (write_u32 (ucast (rl_icon realm)) pkt))))))))"

text \<open>One realm in the 2.x format.\<close>

definition modern_entry :: "u16 \<Rightarrow> u8 \<Rightarrow> string \<Rightarrow> realm \<Rightarrow> u8 \<Rightarrow> u8 \<Rightarrow> byte_buffer \<Rightarrow> byte_buffer" where
  "modern_entry b acc_level name realm char_count category_id pkt =
     (let ok_build = (ucast b \<in> set (rl_builds realm));
          build_info = (if ok_build then find_build_info b else None);
          build_info_ref = (case build_info of Some i \<Rightarrow> i | None \<Rightarrow> rl_build_info realm);
          lock = (if rl_allowed_security_level realm > acc_level then 1 else 0);
          flags = (if \<not> ok_build then rl_flags realm OR REALM_FLAG_OFFLINE else rl_flags realm);
          flags = (if build_info = None then flags AND NOT REALM_FLAG_SPECIFYBUILD else flags);
          pkt = write_u8 0x2C (write_u8 category_id (write_u8 char_count (write_f32 (rl_population_level realm)
                (write_string (rl_address realm) (write_string name (write_u8 flags (write_u8 lock
                (write_u8 (rl_icon realm) pkt))))))))
      in if flags AND REALM_FLAG_SPECIFYBUILD \<noteq> 0
         then write_u16 b (write_u8 (rbi_bugfix_version build_info_ref)
                (write_u8 (rbi_minor_version build_info_ref) (write_u8 (rbi_major_version build_info_ref) pkt)))
         else pkt)"

definition skip_realm :: "u8 \<Rightarrow> realm \<Rightarrow> bool" where
  "skip_realm security_level realm \<longleftrightarrow> security_level = 0 \<and> rl_allowed_security_level realm > 0"

text \<open>The loop over the realms; \<open>entry\<close> is the format's entry.\<close>

fun realm_entries ::
    "auth_env \<Rightarrow> (string \<Rightarrow> realm \<Rightarrow> u8 \<Rightarrow> u8 \<Rightarrow> byte_buffer \<Rightarrow> byte_buffer) \<Rightarrow> u32 \<Rightarrow> u8 \<Rightarrow> u16 \<Rightarrow>
     (string \<times> realm) list \<Rightarrow> byte_buffer \<Rightarrow> byte_buffer act" where
  "realm_entries E entry account_id security_level b [] pkt = retA pkt"
| "realm_entries E entry account_id security_level b ((name, realm) # rest) pkt =
     (if skip_realm security_level realm
      then realm_entries E entry account_id security_level b rest pkt
      else
        bindA (get_char_count E (rl_id realm) account_id) (\<lambda>char_count.
        bindA (liftA (get_realm_category_id b (rl_timezone realm))) (\<lambda>category_id.
        realm_entries E entry account_id security_level b rest
          (entry name realm char_count category_id pkt))))"

definition eligible_count :: "u8 \<Rightarrow> (string \<times> realm) list \<Rightarrow> nat" where
  "eligible_count security_level rs =
     length (filter (\<lambda>(_, r). rl_allowed_security_level r \<le> security_level) rs)"

definition load_realm_list ::
    "auth_env \<Rightarrow> (string \<times> realm) list \<Rightarrow> u32 \<Rightarrow> u8 \<Rightarrow> u16 \<Rightarrow> u8 \<Rightarrow> byte_buffer \<Rightarrow> byte_buffer act" where
  "load_realm_list E rs account_id security_level b acc_level pkt =
     (let n = eligible_count security_level rs in
      if legacy_build b then
        bindA (realm_entries E (legacy_entry b acc_level) account_id security_level b rs
                 (write_u8 (word_of_nat n) (write_u32 0 pkt))) (\<lambda>pkt.
        retA (write_u16 0x0002 pkt))
      else
        bindA (realm_entries E (modern_entry b acc_level) account_id security_level b rs
                 (write_u16 (word_of_nat n) (write_u32 0 pkt))) (\<lambda>pkt.
        retA (write_u16 0x0010 pkt)))"

definition account_level_sql :: "string \<Rightarrow> string" where
  "account_level_sql safe =
     ''SELECT id, CAST(gmlevel AS SIGNED) AS gmlevel FROM account WHERE username = '' @ quoted safe"

text \<open>\<^verbatim>\<open>rl.update_if_needed(db)\<close> under the write lock.\<close>

definition refresh_realms :: "auth_env \<Rightarrow> unit act" where
  "refresh_realms E =
     bindA (readA realms) (\<lambda>rl.
      if rls_update_interval rl = 0 then retA ()
      else
        bindA (clockA E) (\<lambda>now.
        if rls_next_update_time rl > int now then retA ()
        else
          bindA (clockA E) (\<lambda>now' s.
          case query_all E realm_query s of (reply, s') \<Rightarrow>
            (Inr (), s'\<lparr>realms := update_if_needed (int now) (int now') reply rl\<rparr>))))"

definition realm_list_packet :: "byte_buffer \<Rightarrow> bytes" where
  "realm_list_packet pkt =
     bb_contents (append_bytes (bb_contents pkt)
       (write_u16 (word_of_nat (bb_size pkt)) (write_u8 (auth_cmd_u8 RealmList) bb_new)))"

definition handle_realm_list :: "auth_env \<Rightarrow> unit act" where
  "handle_realm_list E =
     bindA getA (\<lambda>s.
      let safe = safe_login s; b = build s; acc_level = account_security_level s in
      bindA (read_with_timeout 4) (\<lambda>_.
      bindA (query_one E (account_level_sql safe)) (\<lambda>r. case r of
        None \<Rightarrow> failA ''Account not found''
      | Some r \<Rightarrow>
          bindA (refresh_realms E) (\<lambda>_.
          bindA (readA (\<lambda>s. rls_realms (realms s))) (\<lambda>snapshot.
          bindA (load_realm_list E snapshot (get_u32 r 0) (get_u8 r 1) b acc_level bb_new) (\<lambda>pkt.
          write_with_timeout E (realm_list_packet pkt)))))))"

end
