(* ===== verification/Auth_Client.thy ===== *)
theory Auth_Client
  imports Realm_Packet
begin

text \<open>
  The session loop \<^verbatim>\<open>handle_client\<close> of \<^verbatim>\<open>crates/realmd/src/auth_socket.rs\<close>: one command
  per iteration, dispatched only in the state the command belongs to.
\<close>

section \<open>The loop\<close>

fun expected_status :: "auth_cmd \<Rightarrow> session_status" where
  "expected_status LogonChallenge = StChallenge"
| "expected_status LogonProof = StLogonProof"
| "expected_status ReconnectChallenge = StChallenge"
| "expected_status ReconnectProof = StReconProof"
| "expected_status RealmList = StAuthed"
| "expected_status XferAccept = StPatch"
| "expected_status XferResume = StPatch"
| "expected_status XferCancel = StPatch"
| "expected_status XferInitiate = StClosed"
| "expected_status XferData = StClosed"

text \<open>\<open>False\<close> is a \<^verbatim>\<open>return\<close> out of the loop.\<close>

fun dispatch :: "auth_env \<Rightarrow> auth_cmd \<Rightarrow> bool act" where
  "dispatch E LogonChallenge = bindA (handle_logon_challenge E) (\<lambda>_. retA True)"
| "dispatch E LogonProof = bindA (handle_logon_proof E) (\<lambda>_. retA True)"
| "dispatch E ReconnectChallenge = bindA (handle_reconnect_challenge E) (\<lambda>_. retA True)"
| "dispatch E ReconnectProof = bindA (handle_reconnect_proof E) (\<lambda>_. retA True)"
| "dispatch E RealmList = bindA (handle_realm_list E) (\<lambda>_. retA True)"
| "dispatch E XferResume =
     matchA (read_with_timeout 8) (\<lambda>r. case r of None \<Rightarrow> retA False | Some _ \<Rightarrow> retA True)"
| "dispatch E XferCancel = retA False"
| "dispatch E XferAccept = retA True"
| "dispatch E XferInitiate = retA False"
| "dispatch E XferData = retA False"

text \<open>One iteration: whether the loop goes on, and the session after it.\<close>

definition client_step :: "auth_env \<Rightarrow> session \<Rightarrow> bool \<times> session" where
  "client_step E s =
     (case read_with_timeout 1 s of
        (Inl e, s1) \<Rightarrow> (False, s1)
      | (Inr bs, s1) \<Rightarrow>
          (case auth_cmd_from_u8 (bs ! 0) of
             None \<Rightarrow> (False, s1)
           | Some cmd \<Rightarrow>
               if expected_status cmd \<noteq> status s1 then (False, s1)
               else case dispatch E cmd s1 of
                 (Inl e, s2) \<Rightarrow> (False, s2)
               | (Inr go, s2) \<Rightarrow> (go \<and> status s2 \<noteq> StClosed, s2)))"


section \<open>Every handler only consumes input and adds effects\<close>

context session_frame
begin

lemma keeps_challenge_parts [keeps_rules]:
  "keeps read_logon_challenge" "keeps (refuse E r)" "keeps (auto_create_account E name safe)"
  "keeps unknown_account"
  unfolding read_logon_challenge_def refuse_def auto_create_account_def unknown_account_def
  by (intro keeps_rules; simp add: effects_def)+

lemma keeps_set_credentials [keeps_rules]: "keeps (set_credentials E v s)"
  by (rule keepsI) (auto simp: set_credentials_def effects_def split: prod.split intro: locals)

lemma keeps_srp_challenge [keeps_rules]: "keeps (srp_challenge E s)"
  unfolding srp_challenge_def by (intro keeps_rules; simp add: effects_def)+

lemma keeps_append_security [keeps_rules]: "keeps (append_security E f pkt)"
  unfolding append_security_def by (intro keeps_rules; simp add: effects_def)+

lemma keeps_account [keeps_rules]:
  "keeps (account_found E r)" "keeps (auto_created_found E r)" "keeps (account_missing E)"
  unfolding account_found_def auto_created_found_def account_missing_def account_banned_check_def
    issue_challenge_def
  by (intro keeps_rules; simp add: effects_def)+

lemma keeps_handle_logon_challenge [keeps_rules]: "keeps (handle_logon_challenge E)"
  unfolding handle_logon_challenge_def look_up_account_def
  by (intro keeps_rules; simp add: effects_def store_client_info_def)+

lemma keeps_replies [keeps_rules]:
  "keeps (send_logon_proof_error E b)" "keeps (send_proof E b sha)" "keeps (handle_failed_login E safe)"
  unfolding send_logon_proof_error_def send_proof_def handle_failed_login_def
  by (intro keeps_rules; simp)+

lemma keeps_verify_and_finalize [keeps_rules]: "keeps (verify_and_finalize E p)"
  unfolding verify_and_finalize_def Let_def
  by (intro keeps_rules; simp add: effects_def)+

lemma keeps_check_authenticator [keeps_rules]: "keeps (check_authenticator E p)"
  unfolding check_authenticator_def Let_def
  by (intro keeps_rules; simp)+

lemma keeps_check_proof [keeps_rules]: "keeps (check_proof E p)"
  by (rule keepsI)
    (auto simp: check_proof_def effects_def Let_def refl split: sum.split intro: locals)

lemma keeps_handle_logon_proof [keeps_rules]: "keeps (handle_logon_proof E)"
  unfolding handle_logon_proof_def Let_def
  by (intro keeps_rules; simp add: effects_def)+

lemma keeps_handle_reconnect_challenge [keeps_rules]: "keeps (handle_reconnect_challenge E)"
  unfolding handle_reconnect_challenge_def read_reconnect_challenge_def Let_def
  by (intro keeps_rules; simp add: effects_def)+

lemma keeps_handle_reconnect_proof [keeps_rules]: "keeps (handle_reconnect_proof E)"
  unfolding handle_reconnect_proof_def Let_def
  by (intro keeps_rules; simp add: effects_def)+

lemma keeps_realm_entries [keeps_rules]: "keeps (realm_entries E entry acct lvl b rs pkt)"
  by (induction E entry acct lvl b rs pkt rule: realm_entries.induct)
    (auto simp: get_char_count_def intro!: keeps_rules)

lemma keeps_refresh_realms [keeps_rules]: "keeps (refresh_realms E)"
proof -
  have q: "keeps (\<lambda>s. case query_all E realm_query s of (reply, s') \<Rightarrow>
              (Inr (), s'\<lparr>realms := f reply\<rparr>))" for f
  proof (rule keepsI)
    fix s
    have "R s (snd (query_all E realm_query s))" by (rule keepsD) (rule keeps_effects)
    then show "R s (snd (case query_all E realm_query s of (reply, s') \<Rightarrow> (Inr (), s'\<lparr>realms := f reply\<rparr>)))"
      using trans [OF _ locals] by (auto split: prod.split simp: effects_def)
  qed
  show ?thesis
    unfolding refresh_realms_def Let_def
    by (intro keeps_rules q; simp)+
qed

lemma keeps_handle_realm_list [keeps_rules]: "keeps (handle_realm_list E)"
  unfolding handle_realm_list_def load_realm_list_def Let_def
  by (intro keeps_rules; simp)+

lemma keeps_dispatch: "keeps (dispatch E cmd)"
  by (cases cmd) (auto intro!: keeps_rules)

lemma client_step_frame: "R s (snd (client_step E s))"
proof -
  have r: "R s (snd (read_with_timeout 1 s))" by (rule keepsD) (rule keeps_effects)
  have d: "R s1 (snd (dispatch E cmd s1))" for s1 cmd by (rule keepsD) (rule keeps_dispatch)
  show ?thesis
    using r d trans
    by (auto simp: client_step_def split: prod.split sum.split option.split) (metis snd_conv)+
qed

end

text \<open>An iteration that goes on has read at least its command byte.\<close>

lemma client_step_consumes:
  assumes "client_step E s = (True, s')"
  shows "length (inp s') < length (inp s)"
proof -
  obtain bs s1 where 1: "read_with_timeout 1 s = (Inr bs, s1)"
    using assms by (auto simp: client_step_def split: prod.splits sum.splits)
  then have "length (inp s1) < length (inp s)" by (auto simp: read_with_timeout_def split: if_splits)
  moreover from assms 1 obtain cmd where "snd (dispatch E cmd s1) = s'"
    by (auto simp: client_step_def split: prod.splits sum.splits option.splits if_splits) (metis snd_conv)
  then have "consumed s1 s'" using consumed.keepsD [OF consumed.keeps_dispatch] by blast
  ultimately show ?thesis by (auto simp: consumed_def dest!: suffix_length_le)
qed

function handle_client :: "auth_env \<Rightarrow> session \<Rightarrow> session" where
  "handle_client E s =
     (case client_step E s of (True, s') \<Rightarrow> handle_client E s' | (False, s') \<Rightarrow> s')"
  by pat_completeness auto
termination
  by (relation "measure (\<lambda>(E, s). length (inp s))") (simp_all add: client_step_consumes)

declare handle_client.simps [simp del]

end
