(* ===== verification/Auth_Safety.thy ===== *)
theory Auth_Safety
  imports Auth_Client
begin

text \<open>
  Safety of an authentication session.  The locale \<open>auth_session\<close> fixes an environment whose
  crates obey their documented laws; in it every handler gets a specification: which
  states it can leave the session in, what it has checked before it does so, and which
  part of the invariant \<open>session_ok\<close> it keeps.  The properties follow by induction over
  the commands a session accepts.
\<close>

section \<open>The invariant\<close>

text \<open>The server's ephemeral belongs to a non-trivial verifier and salt.\<close>

definition challenge_ready :: "srp6 \<Rightarrow> bool" where
  "challenge_ready sp \<longleftrightarrow> wow_group sp \<and> 0 < srp_v sp \<and> 0 < srp_s sp \<and>
     srp_big_b sp = (srp_v sp * 3 + 7 ^ srp_b sp mod srp_N) mod srp_N"

definition session_ok :: "session \<Rightarrow> bool" where
  "session_ok s \<longleftrightarrow> wow_group (srp s) \<and> safe_login s = escape_string (login s) \<and>
     account_security_level s \<le> SEC_ADMINISTRATOR \<and>
     (status s = StLogonProof \<longrightarrow> challenge_ready (srp s))"

text \<open>The account fields of a session, which the effects do not touch.\<close>

definition same_account :: "session \<Rightarrow> session \<Rightarrow> bool" where
  "same_account s s' \<longleftrightarrow> login s' = login s \<and> safe_login s' = safe_login s \<and> build s' = build s \<and>
     os s' = os s \<and> token s' = token s \<and> platform s' = platform s \<and> safe_locale s' = safe_locale s \<and>
     account_security_level s' = account_security_level s"

lemma same_account_refl [simp]: "same_account s s"
  by (simp add: same_account_def)

section \<open>What a client has to prove\<close>

text \<open>The strong session key of a logon with client value \<open>big_a\<close>.\<close>

definition server_key :: "crates \<Rightarrow> srp6 \<Rightarrow> nat \<Rightarrow> nat" where
  "server_key C sp big_a =
     (let u = le_val (sha1 C (as_byte_array C 0 big_a @ as_byte_array C 0 (srp_big_b sp)))
      in le_val (strong_key C ((big_a * (srp_v sp ^ u mod srp_N)) ^ srp_b sp mod srp_N)))"

text \<open>\<open>A\<close> is usable and \<open>M1\<close> is the digest only a holder of the session key can compute.\<close>

definition password_proved :: "crates \<Rightarrow> session \<Rightarrow> logon_proof_client \<Rightarrow> bool" where
  "password_proved C s p \<longleftrightarrow>
     (let big_a = le_val (lp_a p) in \<not> srp_N dvd big_a \<and>
      lp_m1 p = proof_digest C (login s) (srp_s (srp s)) big_a (srp_big_b (srp s)) (server_key C (srp s) big_a))"

text \<open>The input after the proof packet carries the current authenticator code, or the
  account needs none.\<close>

definition authenticator_proved :: "auth_env \<Rightarrow> session \<Rightarrow> logon_proof_client \<Rightarrow> bytes \<Rightarrow> bool" where
  "authenticator_proved E s p rest \<longleftrightarrow>
     (build s > 6141 \<and> (lp_security_flags p AND security_flags_u8 SecAuthenticator \<noteq> 0 \<or> token s \<noteq> []) \<longrightarrow>
      rest \<noteq> [] \<and> hd rest \<le> 16 \<and> unat (hd rest) \<le> length (tl rest) \<and>
      (case parse_i32 (from_utf8_lossy (take (unat (hd rest)) (tl rest))) of Some v \<Rightarrow> v | None \<Rightarrow> - 1)
        = generate_token (e_crates E) (e_clock E (ticks s)) (token s))"

definition proof_size :: "session \<Rightarrow> nat" where
  "proof_size s = (if prompt_pin s then proof_SIZE_WITH_PIN else proof_SIZE_WITHOUT_PIN)"

definition logon_accepted :: "auth_env \<Rightarrow> session \<Rightarrow> bool" where
  "logon_accepted E s \<longleftrightarrow> proof_size s \<le> length (inp s) \<and> find_build_info (build s) \<noteq> None \<and>
     (case logon_proof_from_bytes (take (proof_size s) (inp s)) (prompt_pin s) of
        None \<Rightarrow> False
      | Some p \<Rightarrow> password_proved (e_crates E) s p \<and>
          authenticator_proved E s p (drop (proof_size s) (inp s)) \<and>
          verify_version E (build s) (os s) (lp_a p) (lp_crc_hash p) False)"

text \<open>The reply carries a digest over the stored session key, which must exist.\<close>

definition reconnect_accepted :: "auth_env \<Rightarrow> session \<Rightarrow> bool" where
  "reconnect_accepted E s \<longleftrightarrow> reconnect_SIZE \<le> length (inp s) \<and> login s \<noteq> [] \<and>
     reconnect_proof s \<noteq> 0 \<and> srp_k (srp s) \<noteq> 0 \<and>
     (case reconnect_proof_from_bytes (take reconnect_SIZE (inp s)) of
        None \<Rightarrow> False
      | Some p \<Rightarrow>
          rp_r2 p = sha1 (e_crates E) (as_bytes (login s) @ as_byte_array (e_crates E) 0 (le_val (rp_r1 p))
            @ as_byte_array (e_crates E) 0 (reconnect_proof s) @ as_byte_array (e_crates E) 0 (srp_k (srp s))) \<and>
          verify_version E (build s) (os s) (rp_r1 p) (rp_r3 p) True)"

text \<open>The challenge packet up to the security flags.\<close>

definition challenge_bytes :: "auth_env \<Rightarrow> string \<Rightarrow> srp6 \<Rightarrow> bytes" where
  "challenge_bytes E database_s sp =
     [auth_cmd_u8 LogonChallenge, 0, logon_result_u8 Success]
     @ as_byte_array (e_crates E) 32 (srp_big_b sp) @ [1] @ as_byte_array (e_crates E) 0 7
     @ [32] @ as_byte_array (e_crates E) 32 srp_N
     @ as_byte_array (e_crates E) 0 (snd (set_hex_str (e_crates E) database_s 0)) @ VERSION_CHALLENGE"

locale auth_session =
  fixes E :: auth_env
  assumes crates: "auth_crates (e_crates E)"

sublocale auth_session \<subseteq> C: auth_crates "e_crates E"
  by (rule crates)

context auth_session
begin

section \<open>Logon challenge\<close>

lemma wp_set_credentials:
  assumes "wow_group (srp s)"
    and "\<And>ok sp. wow_group sp \<Longrightarrow> (ok \<Longrightarrow> 0 < srp_v sp \<and> 0 < srp_s sp) \<Longrightarrow> Q (Inr ok) (s\<lparr>srp := sp\<rparr>)"
  shows "wp (set_credentials E v sl) Q s"
proof (cases "set_hex_str (e_crates E) v (srp_v (srp s))"; cases "set_hex_str (e_crates E) sl (srp_s (srp s))")
  fix n1 v1 n2 s2
  assume h: "set_hex_str (e_crates E) v (srp_v (srp s)) = (n1, v1)"
    "set_hex_str (e_crates E) sl (srp_s (srp s)) = (n2, s2)"
  have "wow_group ((srp s)\<lparr>srp_v := v1\<rparr>)" "wow_group ((srp s)\<lparr>srp_v := v1, srp_s := s2\<rparr>)"
    using assms(1) by (simp_all add: wow_group_def)
  then have "Q (Inr False) (s\<lparr>srp := (srp s)\<lparr>srp_v := v1\<rparr>\<rparr>)"
    and "0 < v1 \<Longrightarrow> Q (Inr (n2 \<noteq> 0 \<and> s2 \<noteq> 0)) (s\<lparr>srp := (srp s)\<lparr>srp_v := v1, srp_s := s2\<rparr>\<rparr>)"
    using assms(2) by simp_all
  with h show ?thesis
    by (auto simp: wp_def set_credentials_def set_verifier_def set_salt_def bn_is_zero_def Let_def)
qed

text \<open>The session after a server ephemeral is drawn.\<close>

definition with_ephemeral :: "session \<Rightarrow> session" where
  "with_ephemeral s = s\<lparr>draws := draws s + 1,
     srp := (srp s)\<lparr>srp_b := e_rand E (draws s) 152,
       srp_big_b := (srp_v (srp s) * 3 + 7 ^ e_rand E (draws s) 152 mod srp_N) mod srp_N\<rparr>\<rparr>"

lemma srp_challenge_run:
  assumes "wow_group (srp s)"
  shows "srp_challenge E ds s =
    (Inr \<lparr>bb_data = challenge_bytes E ds (srp (with_ephemeral s)), bb_read_pos = 0\<rparr>, with_ephemeral s)"
  using assms
  by (simp add: srp_challenge_def act_defs randA_def C.host_public_ephemeral_eq with_ephemeral_def Let_def
      challenge_bytes_def challenge_pkt_def write_u8_def append_bytes_def bb_new_def wow_group_def bn_new_def)

lemma with_ephemeral_ready:
  "wow_group (srp s) \<Longrightarrow> 0 < srp_v (srp s) \<Longrightarrow> 0 < srp_s (srp s) \<Longrightarrow> challenge_ready (srp (with_ephemeral s))"
  by (simp add: with_ephemeral_def challenge_ready_def wow_group_def)

lemma append_security_run:
  "\<exists>pkt' s'. append_security E f pkt s = (Inr pkt', s') \<and> status s' = status s \<and> srp s' = srp s \<and>
     same_account s s' \<and> (f AND security_flags_u8 SecPin = 0 \<longrightarrow> prompt_pin s' = prompt_pin s)"
proof -
  have "\<not> length (as_byte_array (e_crates E) 16 n) < 16" for n
    using C.length_as_byte_array_ge [of 16 n] by simp
  then show ?thesis
    by (simp add: append_security_def act_defs randA_def Let_def same_account_def)
qed

lemma wp_append_security:
  assumes "\<And>pkt' s'. status s' = status s \<Longrightarrow> srp s' = srp s \<Longrightarrow> same_account s s' \<Longrightarrow> Q (Inr pkt') s'"
  shows "wp (append_security E f pkt) Q s"
  using append_security_run [of f pkt s] assms by (auto simp: wp_def)

text \<open>What the account branches leave behind: closed after a refusal, or waiting for the
  proof of a prepared challenge.\<close>

definition challenged :: "session \<Rightarrow> session \<Rightarrow> bool" where
  "challenged s s' \<longleftrightarrow> wow_group (srp s') \<and> login s' = login s \<and> safe_login s' = safe_login s \<and>
     (status s' = StClosed \<and> account_security_level s' = account_security_level s \<or>
      status s' = StLogonProof \<and> challenge_ready (srp s') \<and> account_security_level s' \<le> SEC_ADMINISTRATOR)"

lemma clamp_le: "clamp_security_level l \<le> SEC_ADMINISTRATOR"
  by (simp add: clamp_security_level_def)

lemma wp_refuse:
  assumes "status s = StClosed" "wow_group (srp s)"
  shows "wp (refuse E r) (\<lambda>_. challenged s) s"
  using assms by (simp add: refuse_def wp_simps challenged_def)

lemma issue_challenge_spec:
  assumes "wow_group (srp s)" "0 < srp_v (srp s)" "0 < srp_s (srp s)"
    and "login s = login s0" "safe_login s = safe_login s0"
  shows "wp (issue_challenge E r) (\<lambda>_. challenged s0) s"
proof -
  have ready: "challenge_ready (srp (with_ephemeral s))" using assms by (intro with_ephemeral_ready)
  have run: "wp (srp_challenge E ds) Q s \<longleftrightarrow>
      Q (Inr \<lparr>bb_data = challenge_bytes E ds (srp (with_ephemeral s)), bb_read_pos = 0\<rparr>) (with_ephemeral s)" for ds Q
    by (simp add: wp_def srp_challenge_run assms)
  show ?thesis
    unfolding issue_challenge_def wp_bindA wp_modA wp_readA run sum.case
    using ready assms
    by (intro wp_append_security)
      (auto simp: wp_simps challenged_def clamp_le challenge_ready_def same_account_def with_ephemeral_def)
qed

lemma account_found_spec:
  assumes "status s = StClosed" "wow_group (srp s)"
  shows "wp (account_found E r) (\<lambda>_. challenged s) s"
proof -
  have ref: "wp (refuse E c) (\<lambda>_. challenged s) s'"
    if "status s' = StClosed" "wow_group (srp s')" "same_account s s'" for c s'
    using that by (simp add: refuse_def wp_simps challenged_def same_account_def)
  show ?thesis
    unfolding account_found_def account_banned_check_def Let_def wp_if wp_bindA
    using assms
    by (auto intro!: ref wp_set_credentials issue_challenge_spec simp: wp_simps same_account_def
        split: sum.split option.split rust_error.split)
qed

lemma auto_created_found_spec:
  assumes "status s = StClosed" "wow_group (srp s)"
  shows "wp (auto_created_found E r) (\<lambda>_. challenged s) s"
proof -
  have ref: "wp (refuse E c) (\<lambda>_. challenged s) s'"
    if "status s' = StClosed" "wow_group (srp s')" "same_account s s'" for c s'
    using that by (simp add: refuse_def wp_simps challenged_def same_account_def)
  have run: "wow_group sp \<Longrightarrow> wp (srp_challenge E ds) Q (s\<lparr>srp := sp\<rparr>) \<longleftrightarrow>
      Q (Inr \<lparr>bb_data = challenge_bytes E ds (srp (with_ephemeral (s\<lparr>srp := sp\<rparr>))), bb_read_pos = 0\<rparr>)
        (with_ephemeral (s\<lparr>srp := sp\<rparr>))" for ds Q sp
    by (simp add: wp_def srp_challenge_run)
  show ?thesis
    unfolding auto_created_found_def Let_def wp_if wp_bindA
    using assms
    by (auto intro!: ref wp_set_credentials simp: wp_simps same_account_def run challenged_def clamp_le
        with_ephemeral_def challenge_ready_def wow_group_def)
qed

lemma auto_create_account_spec:
  "wp (auto_create_account E name safe) (\<lambda>_ s'. status s' = status s \<and> srp s' = srp s \<and> same_account s s') s"
  by (auto simp: auto_create_account_def wp_simps Let_def same_account_def split: sum.split)

lemma account_missing_spec:
  assumes "status s = StClosed" "wow_group (srp s)"
  shows "wp (account_missing E) (\<lambda>_. challenged s) s"
proof -
  have unk: "wp unknown_account (\<lambda>_. challenged s) s'"
    if "status s' = StClosed" "wow_group (srp s')" "same_account s s'" for s'
    using that by (simp add: unknown_account_def wp_simps challenged_def same_account_def)
  have found: "wp (auto_created_found E r) (\<lambda>_. challenged s) s'"
    if "status s' = StClosed" "wow_group (srp s')" "same_account s s'" for r s'
    by (rule wp_mono [OF auto_created_found_spec [OF that(1,2)]])
      (use that(3) in \<open>auto simp: challenged_def same_account_def\<close>)
  show ?thesis
    unfolding account_missing_def wp_if wp_bindA wp_readA sum.case prod.case wp_matchA
    using assms
    by (auto intro!: unk wp_mono [OF auto_create_account_spec] found simp: wp_simps challenged_def same_account_def
        split: sum.split option.split rust_error.split)
qed

lemma read_logon_challenge_spec:
  "wp read_logon_challenge (\<lambda>r s'. srp s' = srp s \<and> same_account s s' \<and>
      (\<forall>body. r = Inr body \<longrightarrow> status s' = StClosed)) s"
  by (simp add: read_logon_challenge_def wp_simps Let_def same_account_def split: option.split)

lemma look_up_account_spec:
  assumes s: "status s = StClosed" "wow_group (srp s)"
  shows "wp (look_up_account E) (\<lambda>_. challenged s) s"
proof -
  have eq: "status s' = StClosed \<Longrightarrow> wow_group (srp s') \<Longrightarrow> same_account s s' \<Longrightarrow>
      wp m (\<lambda>_. challenged s') s' \<Longrightarrow> wp m (\<lambda>_. challenged s) s'" for s' and m :: "byte_buffer option act"
    by (erule wp_mono) (auto simp: challenged_def same_account_def)
  show ?thesis
    unfolding look_up_account_def
    using s
    by (auto simp: wp_simps split: sum.split option.split rust_error.split
        intro!: eq [OF _ _ _ wp_refuse] eq [OF _ _ _ account_found_spec] eq [OF _ _ _ account_missing_spec])
      (auto simp: challenged_def same_account_def)
qed

text \<open>The session after a logon challenge: unless the handler failed it is closed, or a
  challenge for the account the client named is pending.\<close>

lemma logon_challenge_spec:
  assumes "session_ok s"
  shows "wp (handle_logon_challenge E) (\<lambda>r s'.
           isl r \<or> session_ok s' \<and> (status s' = StClosed \<or> status s' = StLogonProof)) s"
proof -
  have ended: "session_ok s2 \<and> (status s2 = StClosed \<or> status s2 = StLogonProof)"
    if "challenged s1 s2" "safe_login s1 = escape_string (login s1)" "account_security_level s1 \<le> SEC_ADMINISTRATOR"
    for s1 s2
    using that by (auto simp: challenged_def session_ok_def)
  have sent: "wp (write_with_timeout E d) (\<lambda>r s'.
           isl r \<or> session_ok s' \<and> (status s' = StClosed \<or> status s' = StLogonProof)) s2"
    if "session_ok s2 \<and> (status s2 = StClosed \<or> status s2 = StLogonProof)" for s2 d
    using that by (auto simp: wp_simps session_ok_def)
  show ?thesis
    unfolding handle_logon_challenge_def wp_bindA
  proof (rule wp_mono [OF read_logon_challenge_spec], goal_cases)
    case (1 r s1)
    show ?case
    proof (cases r)
      case (Inr body)
      let ?s1 = "store_client_info body s1"
      have s1: "status ?s1 = StClosed" "wow_group (srp ?s1)" "safe_login ?s1 = escape_string (login ?s1)"
        "account_security_level ?s1 \<le> SEC_ADMINISTRATOR"
        using 1 Inr assms by (auto simp: store_client_info_def session_ok_def same_account_def)
      show ?thesis
        unfolding Inr sum.case wp_if wp_failA wp_modA wp_bindA
        using ended [OF _ s1(3,4)] sent
        by (auto split: sum.split option.split simp: wp_retA intro!: wp_mono [OF look_up_account_spec [OF s1(1,2)]])
    qed simp
  qed
qed

section \<open>Logon proof\<close>

lemma check_proof_run:
  assumes "wow_group (srp s)" "length (lp_m1 p) = 20"
  obtains sp where "wow_group sp" "check_proof E p s =
    (Inr (if srp_N dvd le_val (lp_a p) then None else Some (password_proved (e_crates E) s p)), s\<lparr>srp := sp\<rparr>)"
proof (cases "srp_N dvd le_val (lp_a p)")
  case True
  then show thesis
    using assms that [of "(srp s)\<lparr>srp_big_a := le_val (lp_a p)\<rparr>"]
    by (simp add: check_proof_def C.session_key_eq Let_def mod_eq_0_iff_dvd wow_group_def)
next
  case False
  let ?C = "e_crates E" and ?A = "le_val (lp_a p)"
  let ?u = "le_val (sha1 ?C (as_byte_array ?C 0 ?A @ as_byte_array ?C 0 (srp_big_b (srp s))))"
  let ?sp = "(srp s)\<lparr>srp_big_a := ?A, srp_u := ?u,
      srp_big_s := (?A * (srp_v (srp s) ^ ?u mod srp_N)) ^ srp_b (srp s) mod srp_N\<rparr>"
  let ?sk = "hash_session_key ?C ?sp" and ?sm = "calculate_proof ?C (login s) (hash_session_key ?C ?sp)"
  have key: "calculate_session_key ?C (lp_a p) (srp s) = Inr (True, ?sp)"
    using assms(1) False by (simp add: C.session_key_eq Let_def mod_eq_0_iff_dvd)
  have "srp_big_s ?sp < srp_N" using srp_N_bounds(1) by simp
  then have sk: "?sk = ?sp\<lparr>srp_k := server_key ?C (srp s) ?A\<rparr>"
    by (simp add: C.hash_session_key_eq server_key_def Let_def)
  then have wow: "wow_group ?sk" using assms(1) by (simp add: wow_group_def)
  then have "wow_group ?sm" by (simp add: C.calculate_proof_eq wow_group_def)
  moreover have "srp_proof ?C ?sm (lp_m1 p) \<longleftrightarrow> password_proved ?C s p"
    using C.srp_proof_exact [OF wow assms(2)] False by (simp add: sk password_proved_def Let_def)
  ultimately show thesis
    using that [of ?sm] key False by (simp add: check_proof_def Let_def)
qed

lemma length_m1: "logon_proof_from_bytes d pin = Some p \<Longrightarrow> length (lp_m1 p) = 20"
  by (auto simp: logon_proof_from_bytes_def Let_def subslice_def proof_SIZE_WITH_PIN_def
      proof_SIZE_WITHOUT_PIN_def proof_PIN_DATA_SIZE_def split: if_splits)

lemma handle_failed_login_keeps:
  "wp (handle_failed_login E safe) (\<lambda>_ s'. status s' = status s \<and> srp s' = srp s \<and> same_account s s') s"
  by (auto simp: handle_failed_login_def wp_simps Let_def same_account_def
      split: sum.split rust_error.split option.split)

lemma send_logon_proof_error_keeps:
  "wp (send_logon_proof_error E b) (\<lambda>_ s'. status s' = status s \<and> srp s' = srp s \<and> same_account s s') s"
  by (auto simp: send_logon_proof_error_def wp_simps same_account_def)

lemma check_authenticator_spec:
  "wp (check_authenticator E p) (\<lambda>r s'. status s' = status s \<and> srp s' = srp s \<and> same_account s s' \<and>
      (r = Inr True \<longrightarrow> authenticator_proved E s p (inp s))) s"
proof (cases "build s > 6141 \<and> (lp_security_flags p AND security_flags_u8 SecAuthenticator \<noteq> 0 \<or> token s \<noteq> [])")
  case False
  then have "wp (check_authenticator E p) Q s \<longleftrightarrow> Q (Inr True) s" for Q
    unfolding check_authenticator_def Let_def wp_bindA wp_getA sum.case wp_if by (simp only: if_False wp_retA)
  moreover from False have "authenticator_proved E s p (inp s)" unfolding authenticator_proved_def by blast
  ultimately show ?thesis by simp
next
  case True
  define Q :: "bool result \<Rightarrow> session \<Rightarrow> bool"
    where "Q = (\<lambda>r s'. status s' = status s \<and> srp s' = srp s \<and> same_account s s' \<and>
      (r = Inr True \<longrightarrow> authenticator_proved E s p (inp s)))"
  have reject: "wp (bindA (send_logon_proof_error E (build s)) (\<lambda>_. retA False)) Q s1"
    if "status s1 = status s" "srp s1 = srp s" "same_account s s1" for s1
    using that by (simp add: Q_def send_logon_proof_error_def wp_simps same_account_def)
  have accept: "Q (Inr True) s1"
    if "status s1 = status s" "srp s1 = srp s" "same_account s s1" "authenticator_proved E s p (inp s)" for s1
    using that by (simp add: Q_def)
  have "wp (check_authenticator E p) Q s"
  proof (cases "inp s")
    case Nil
    with True show ?thesis
      unfolding check_authenticator_def Let_def wp_bindA [of getA] wp_getA sum.case wp_if
      by (simp add: wp_matchA wp_read_with_timeout reject same_account_def)
  next
    case (Cons a l)
    have pr: "a \<le> 16 \<Longrightarrow> unat a \<le> length l \<Longrightarrow> generate_token (e_crates E) (e_clock E (ticks s)) (token s) =
        (case parse_i32 (from_utf8_lossy (take (unat a) l)) of None \<Rightarrow> - 1 | Some v \<Rightarrow> v) \<Longrightarrow>
        authenticator_proved E s p (inp s)"
      unfolding authenticator_proved_def Cons by simp
    from Cons True pr show ?thesis
      unfolding check_authenticator_def Let_def wp_bindA [of getA] wp_getA sum.case wp_if
      by (simp add: wp_matchA wp_read_with_timeout wp_bindA [of "clockA E"] wp_clockA wp_retA not_less
          reject accept same_account_def)
  qed
  then show ?thesis by (simp add: Q_def)
qed

lemma verify_and_finalize_spec:
  "wp (verify_and_finalize E p) (\<lambda>r s'. srp s' = srp s \<and> same_account s s' \<and>
      (status s' = status s \<or>
       r = Inr () \<and> status s' = StAuthed \<and> verify_version E (build s) (os s) (lp_a p) (lp_crc_hash p) False)) s"
  by (auto simp: verify_and_finalize_def send_proof_def wp_simps Let_def same_account_def
      split: sum.split rust_error.split option.split)

lemma logon_proof_spec:
  assumes "session_ok s"
  shows "wp (handle_logon_proof E) (\<lambda>r s'.
           isl r \<or> session_ok s' \<and> (status s' = StClosed \<or> status s' = StAuthed \<and> logon_accepted E s)) s"
proof -
  let ?Q = "\<lambda>r s'. isl r \<or> session_ok s' \<and> (status s' = StClosed \<or> status s' = StAuthed \<and> logon_accepted E s)"
  have closed: "wp m ?Q s1"
    if "wp m (\<lambda>_ s'. status s' = status s1 \<and> srp s' = srp s1 \<and> same_account s1 s') s1"
      "status s1 = StClosed" "wow_group (srp s1)" "same_account s s1" for m :: "unit act" and s1
    using assms by (intro wp_mono [OF that(1)]) (use that(2-) in \<open>auto simp: session_ok_def same_account_def\<close>)
  have refuse: "wp (bindA (send_logon_proof_error E b) (\<lambda>_. handle_failed_login E safe)) ?Q s1"
    if "status s1 = StClosed" "wow_group (srp s1)" "same_account s s1" for b safe s1
  proof (rule closed [OF _ that])
    show "wp (bindA (send_logon_proof_error E b) (\<lambda>_. handle_failed_login E safe))
        (\<lambda>_ s'. status s' = status s1 \<and> srp s' = srp s1 \<and> same_account s1 s') s1"
      unfolding wp_bindA
      by (rule wp_mono [OF send_logon_proof_error_keeps], auto split: sum.split)
        (rule wp_mono [OF handle_failed_login_keeps], auto simp: same_account_def)
  qed
  have accept: "wp (bindA (check_authenticator E p) (\<lambda>accepted.
      if accepted then verify_and_finalize E p else retA ())) ?Q s1"
    if s1: "status s1 = StClosed" "wow_group (srp s1)" "same_account s s1"
      and acc: "authenticator_proved E s1 p (inp s1) \<Longrightarrow>
        verify_version E (build s1) (os s1) (lp_a p) (lp_crc_hash p) False \<Longrightarrow> logon_accepted E s" for p s1
    unfolding wp_bindA
  proof (rule wp_mono [OF check_authenticator_spec], goal_cases)
    case (1 r s2)
    then have s2: "status s2 = StClosed" "wow_group (srp s2)" "same_account s s2"
      "build s2 = build s1" "os s2 = os s1"
      using s1 by (auto simp: same_account_def)
    show ?case
    proof (cases r)
      case (Inr accepted)
      show ?thesis
      proof (cases accepted)
        case True
        have "wp (verify_and_finalize E p) ?Q s2"
          by (rule wp_mono [OF verify_and_finalize_spec])
            (use 1 Inr True s2 acc assms in \<open>auto simp: session_ok_def same_account_def\<close>)
        then show ?thesis using Inr True by simp
      qed (use Inr s2 assms in \<open>auto simp: wp_retA session_ok_def same_account_def\<close>)
    qed simp
  qed
  let ?n = "proof_size s" and ?s1 = "s\<lparr>inp := drop (proof_size s) (inp s), status := StClosed\<rparr>"
  have s1: "same_account s ?s1" "wow_group (srp ?s1)" "status ?s1 = StClosed"
    using assms by (auto simp: same_account_def session_ok_def)
  have proved: "wp (bindA (check_proof E p) (\<lambda>matches. case matches of
          None \<Rightarrow> retA ()
        | Some False \<Rightarrow> bindA (send_logon_proof_error E b) (\<lambda>_. handle_failed_login E safe)
        | Some True \<Rightarrow> bindA (check_authenticator E p) (\<lambda>accepted.
            if accepted then verify_and_finalize E p else retA ()))) ?Q ?s1"
    if p: "?n \<le> length (inp s)" "logon_proof_from_bytes (take ?n (inp s)) (prompt_pin s) = Some p"
      and b: "find_build_info (build s) \<noteq> None" for p b safe
  proof -
    obtain sp where sp: "wow_group sp" and run: "check_proof E p ?s1 =
        (Inr (if srp_N dvd le_val (lp_a p) then None else Some (password_proved (e_crates E) ?s1 p)), ?s1\<lparr>srp := sp\<rparr>)"
      using check_proof_run [OF s1(2) length_m1 [OF p(2)]] by blast
    have pw: "password_proved (e_crates E) ?s1 p = password_proved (e_crates E) s p"
      by (simp add: password_proved_def)
    have s2: "status (?s1\<lparr>srp := sp\<rparr>) = StClosed" "wow_group (srp (?s1\<lparr>srp := sp\<rparr>))"
      "same_account s (?s1\<lparr>srp := sp\<rparr>)" using s1 sp by (simp_all add: same_account_def)
    have wpc: "wp (bindA (check_proof E p) k) ?Q ?s1 \<longleftrightarrow>
        wp (k (if srp_N dvd le_val (lp_a p) then None else Some (password_proved (e_crates E) s p))) ?Q
          (?s1\<lparr>srp := sp\<rparr>)" for k :: "_ \<Rightarrow> unit act"
      by (simp add: wp_bindA wp_def [of "check_proof E p"] run pw)
    have acc: "logon_accepted E s" if "password_proved (e_crates E) s p"
      "authenticator_proved E (?s1\<lparr>srp := sp\<rparr>) p (inp (?s1\<lparr>srp := sp\<rparr>))"
      "verify_version E (build (?s1\<lparr>srp := sp\<rparr>)) (os (?s1\<lparr>srp := sp\<rparr>)) (lp_a p) (lp_crc_hash p) False"
      using that p b by (simp add: logon_accepted_def authenticator_proved_def)
    show ?thesis
      unfolding wpc
      using refuse [OF s2] accept [OF s2] acc s2 assms
      by (auto simp: wp_retA session_ok_def same_account_def split: option.split bool.split)
  qed
  show ?thesis
    unfolding handle_logon_proof_def Let_def wp_bindA [of getA] wp_getA sum.case
      wp_bindA [of "read_with_timeout _"] wp_read_with_timeout
      wp_bindA [of "some_or _ _"] wp_some_or wp_bindA [of "modA _"] wp_modA wp_if
    using proved s1 assms
    by (auto simp: proof_size_def wp_write_with_timeout session_ok_def same_account_def split: option.split)
qed

section \<open>Reconnection\<close>

lemma reconnect_challenge_spec:
  assumes "session_ok s"
  shows "wp (handle_reconnect_challenge E) (\<lambda>r s'. isl r \<or> session_ok s' \<and> status s' = StReconProof) s"
  using assms
  by (simp add: handle_reconnect_challenge_def read_reconnect_challenge_def wp_simps Let_def session_ok_def
      set_strong_session_key_def wow_group_def split: option.split sum.split)

lemma reconnect_digest_eq:
  "reconnect_digest E name r1 rnd k = sha1 (e_crates E) (as_bytes name
     @ as_byte_array (e_crates E) 0 (le_val r1) @ as_byte_array (e_crates E) 0 rnd @ as_byte_array (e_crates E) 0 k)"
  by (simp add: reconnect_digest_def Let_def)

lemma reconnect_proof_spec:
  assumes "session_ok s"
  shows "wp (handle_reconnect_proof E) (\<lambda>r s'. isl r \<or> session_ok s' \<and>
           (status s' = StClosed \<or> status s' = StAuthed \<and> reconnect_accepted E s)) s"
  using assms
  by (auto simp: handle_reconnect_proof_def wp_simps Let_def session_ok_def reconnect_accepted_def
      reconnect_digest_eq C.get_num_bytes_zero split: option.split)

section \<open>Realm list\<close>

lemma realm_entries_keeps:
  "wp (realm_entries E entry acct lvl b rs pkt) (\<lambda>_ s'. status s' = status s \<and> srp s' = srp s \<and> same_account s s') s"
proof (induction E entry acct lvl b rs pkt arbitrary: s rule: realm_entries.induct)
  case (2 E entry acct lvl b name realm rest pkt)
  show ?case
    using "2.IH"
    by (auto simp: wp_simps get_char_count_def split: sum.split rust_error.split option.split
        intro!: wp_mono [OF "2.IH"(1)] wp_mono [OF "2.IH"(2)] simp: same_account_def)
qed (simp add: wp_simps)

lemma refresh_realms_keeps:
  "wp (refresh_realms E) (\<lambda>_ s'. status s' = status s \<and> srp s' = srp s \<and> same_account s s') s"
  by (auto simp: refresh_realms_def wp_simps same_account_def)
    (auto simp: wp_def query_all_def split: prod.split)

lemma realm_list_spec:
  assumes "session_ok s"
  shows "wp (handle_realm_list E) (\<lambda>r s'. isl r \<or> session_ok s' \<and> status s' = status s) s"
proof -
  have load: "wp (load_realm_list E rs acct lvl b acc pkt)
      (\<lambda>_ s'. status s' = status s1 \<and> srp s' = srp s1 \<and> same_account s1 s') s1" for rs acct lvl b acc pkt s1
    unfolding load_realm_list_def Let_def wp_if wp_bindA
    by (auto intro!: wp_mono [OF realm_entries_keeps] simp: wp_simps split: sum.split)
  have "wp (handle_realm_list E) (\<lambda>_ s'. status s' = status s \<and> srp s' = srp s \<and> same_account s s') s"
    unfolding handle_realm_list_def Let_def wp_bindA wp_getA sum.case wp_read_with_timeout wp_query_one wp_readA
    by (auto split: sum.split option.split simp: wp_failA wp_bindA wp_readA same_account_def
        intro!: wp_mono [OF refresh_realms_keeps] wp_mono [OF load])
      (auto simp: wp_write_with_timeout same_account_def)
  then show ?thesis
    by (rule wp_mono) (use assms in \<open>auto simp: session_ok_def same_account_def\<close>)
qed

section \<open>One iteration\<close>

lemma dispatch_spec:
  assumes "session_ok s" "expected_status cmd = status s" "status s \<noteq> StPatch" "status s \<noteq> StClosed"
  shows "wp (dispatch E cmd) (\<lambda>r s'. isl r \<or> session_ok s' \<and>
     (status s' = StClosed \<or>
      cmd = LogonChallenge \<and> status s' = StLogonProof \<or>
      cmd = LogonProof \<and> status s' = StAuthed \<and> logon_accepted E s \<or>
      cmd = ReconnectChallenge \<and> status s' = StReconProof \<or>
      cmd = ReconnectProof \<and> status s' = StAuthed \<and> reconnect_accepted E s \<or>
      cmd = RealmList \<and> status s' = StAuthed)) s"
  using assms(2-)
  by (cases cmd)
    (auto simp: wp_bindA wp_retA split: sum.split
      intro!: wp_mono [OF logon_challenge_spec [OF assms(1)]] wp_mono [OF logon_proof_spec [OF assms(1)]]
        wp_mono [OF reconnect_challenge_spec [OF assms(1)]] wp_mono [OF reconnect_proof_spec [OF assms(1)]]
        wp_mono [OF realm_list_spec [OF assms(1)]])

end

text \<open>The command byte of an iteration is the first byte of the input.\<close>

lemma client_step_continues:
  assumes "client_step E s = (True, s')"
  obtains cmd where "inp s \<noteq> []" "auth_cmd_from_u8 (hd (inp s)) = Some cmd" "expected_status cmd = status s"
    "dispatch E cmd (s\<lparr>inp := tl (inp s)\<rparr>) = (Inr True, s')" "status s' \<noteq> StClosed"
  using assms
  by (cases "inp s")
    (auto simp: client_step_def read_with_timeout_def drop_Suc
      split: prod.splits sum.splits option.splits if_splits)

context auth_session
begin

lemma client_step_spec:
  assumes "session_ok s" "client_step E s = (True, s')" "status s \<noteq> StPatch" "status s \<noteq> StClosed"
  obtains cmd where "auth_cmd_from_u8 (hd (inp s)) = Some cmd" "expected_status cmd = status s" "session_ok s'"
    "cmd = LogonChallenge \<and> status s' = StLogonProof \<or>
     cmd = LogonProof \<and> status s' = StAuthed \<and> logon_accepted E (s\<lparr>inp := tl (inp s)\<rparr>) \<or>
     cmd = ReconnectChallenge \<and> status s' = StReconProof \<or>
     cmd = ReconnectProof \<and> status s' = StAuthed \<and> reconnect_accepted E (s\<lparr>inp := tl (inp s)\<rparr>) \<or>
     cmd = RealmList \<and> status s' = StAuthed"
proof -
  from assms(2) obtain cmd where cmd: "inp s \<noteq> []" "auth_cmd_from_u8 (hd (inp s)) = Some cmd"
    "expected_status cmd = status s" "dispatch E cmd (s\<lparr>inp := tl (inp s)\<rparr>) = (Inr True, s')" "status s' \<noteq> StClosed"
    by (rule client_step_continues)
  have "session_ok (s\<lparr>inp := tl (inp s)\<rparr>)" using assms(1) by (simp add: session_ok_def)
  from dispatch_spec [OF this, of cmd] cmd assms(3,4) that [of cmd] show thesis by (auto simp: wp_def)
qed

end

section \<open>Runs\<close>

text \<open>\<open>client_run E s cmds s'\<close>: from \<open>s\<close> the loop accepted the commands \<open>cmds\<close> in this order
  and is now at \<open>s'\<close>, waiting for the next.\<close>

inductive client_run :: "auth_env \<Rightarrow> session \<Rightarrow> auth_cmd list \<Rightarrow> session \<Rightarrow> bool" for E s where
  start: "client_run E s [] s"
| step: "client_run E s cmds s1 \<Longrightarrow> client_step E s1 = (True, s2) \<Longrightarrow>
    auth_cmd_from_u8 (hd (inp s1)) = Some cmd \<Longrightarrow> client_run E s (cmds @ [cmd]) s2"

inductive_cases client_run_snocE: "client_run E s (cmds @ [cmd]) s2"

text \<open>Where a session is, from the commands it accepted.\<close>

definition progress :: "auth_cmd list \<Rightarrow> session_status \<Rightarrow> bool" where
  "progress cmds st \<longleftrightarrow>
     cmds = [] \<and> st = StChallenge \<or>
     cmds = [LogonChallenge] \<and> st = StLogonProof \<or>
     cmds = [ReconnectChallenge] \<and> st = StReconProof \<or>
     (\<exists>n. cmds = [LogonChallenge, LogonProof] @ replicate n RealmList \<or>
          cmds = [ReconnectChallenge, ReconnectProof] @ replicate n RealmList) \<and> st = StAuthed"

lemma progress_not: "progress cmds st \<Longrightarrow> st \<noteq> StPatch \<and> st \<noteq> StClosed"
  by (auto simp: progress_def)

lemma progress_step:
  assumes "progress cmds st" "expected_status cmd = st"
    and "cmd = LogonChallenge \<and> st' = StLogonProof \<or> cmd = LogonProof \<and> st' = StAuthed \<or>
     cmd = ReconnectChallenge \<and> st' = StReconProof \<or> cmd = ReconnectProof \<and> st' = StAuthed \<or>
     cmd = RealmList \<and> st' = StAuthed"
  shows "progress (cmds @ [cmd]) st'"
proof -
  have "replicate n x @ [x] = replicate (Suc n) x" for n and x :: auth_cmd
    by (simp add: replicate_append_same)
  with assms show ?thesis
    unfolding progress_def by (elim disjE conjE exE) (simp_all, (metis replicate_0 replicate_Suc)+)
qed

lemma session_ok_new: "auth_crates (e_crates E) \<Longrightarrow> session_ok (session_new E input rl)"
  using num_bigint.wow_group_new [of "e_crates E"]
  by (auto simp: session_ok_def session_new_def auth_crates_def escape_string_def replace_char_def SEC_PLAYER_def)

context auth_session
begin

lemma run_invariant:
  assumes "client_run E (session_new E input rl) cmds s"
  shows "progress cmds (status s) \<and> session_ok s"
  using assms
proof (induction rule: client_run.induct)
  case start
  then show ?case using session_ok_new [OF crates] by (simp add: progress_def session_new_def)
next
  case (step cmds s1 s2 cmd)
  then have "session_ok s1" "status s1 \<noteq> StPatch" "status s1 \<noteq> StClosed" by (auto dest: progress_not)
  from client_step_spec [OF this(1) step.hyps(2) this(2,3)] obtain c where c:
    "auth_cmd_from_u8 (hd (inp s1)) = Some c" "expected_status c = status s1" "session_ok s2"
    "c = LogonChallenge \<and> status s2 = StLogonProof \<or> c = LogonProof \<and> status s2 = StAuthed \<or>
     c = ReconnectChallenge \<and> status s2 = StReconProof \<or> c = ReconnectProof \<and> status s2 = StAuthed \<or>
     c = RealmList \<and> status s2 = StAuthed" by blast
  moreover from c(1) step.hyps(3) have "c = cmd" by simp
  ultimately show ?case using step.IH progress_step [OF _ c(2,4)] by blast
qed

text \<open>The step by which a session became authenticated.\<close>

definition proved_by :: "session \<Rightarrow> bool" where
  "proved_by s0 \<longleftrightarrow> (\<exists>s1.
     client_run E s0 [LogonChallenge] s1 \<and> challenge_ready (srp s1) \<and> logon_accepted E (s1\<lparr>inp := tl (inp s1)\<rparr>) \<or>
     client_run E s0 [ReconnectChallenge] s1 \<and> reconnect_accepted E (s1\<lparr>inp := tl (inp s1)\<rparr>))"

lemma run_proved:
  assumes "client_run E (session_new E input rl) cmds s" "status s = StAuthed"
  shows "proved_by (session_new E input rl)"
  using assms
proof (induction rule: client_run.induct)
  case start
  then show ?case by (simp add: session_new_def)
next
  case (step cmds s1 s2 cmd)
  from run_invariant [OF step.hyps(1)] have inv: "progress cmds (status s1)" "session_ok s1" by auto
  from client_step_spec [OF inv(2) step.hyps(2)] progress_not [OF inv(1)] step.prems obtain c where c:
    "expected_status c = status s1"
    "c = LogonProof \<and> logon_accepted E (s1\<lparr>inp := tl (inp s1)\<rparr>) \<or>
     c = ReconnectProof \<and> reconnect_accepted E (s1\<lparr>inp := tl (inp s1)\<rparr>) \<or> c = RealmList"
    by auto
  then show ?case
  proof (elim disjE conjE)
    assume "c = LogonProof" and acc: "logon_accepted E (s1\<lparr>inp := tl (inp s1)\<rparr>)"
    then have "status s1 = StLogonProof" using c(1) by simp
    then have "cmds = [LogonChallenge]" "challenge_ready (srp s1)"
      using inv by (auto simp: progress_def session_ok_def)
    with step.hyps(1) acc show ?thesis unfolding proved_by_def by blast
  next
    assume "c = ReconnectProof" and acc: "reconnect_accepted E (s1\<lparr>inp := tl (inp s1)\<rparr>)"
    then have "status s1 = StReconProof" using c(1) by simp
    then have "cmds = [ReconnectChallenge]" using inv by (auto simp: progress_def)
    with step.hyps(1) acc show ?thesis unfolding proved_by_def by blast
  next
    assume "c = RealmList"
    then show ?thesis using c(1) step.IH by simp
  qed
qed

end

section \<open>Properties\<close>

text \<open>C5: a session only ever accepts the commands of one of the two protocol runs, in
  order: a logon challenge, then its proof, then realm list requests; or a reconnect
  challenge, then its proof, then realm list requests.  Its state is determined by how
  far it got (the patch states are never reached), the account name used in statements is
  the escaped login, and a pending challenge is a well-formed SRP6 challenge.\<close>

theorem session_command_order:
  assumes "auth_crates (e_crates E)" "client_run E (session_new E input rl) cmds s"
  shows "progress cmds (status s) \<and> session_ok s"
  using auth_session.run_invariant [OF auth_session.intro [OF assms(1)] assms(2)] .


section \<open>A concrete run\<close>

text \<open>An environment with a fixed digest in place of SHA-1, in which one account has the
  session key 5 stored, and a client that reconnects to it.\<close>

definition flat_crates :: crates where
  "flat_crates = std_crates\<lparr>sha1 := (\<lambda>m. replicate 20 7)\<rparr>"

lemma auth_crates_flat: "auth_crates flat_crates"
proof -
  have "num_bigint flat_crates"
    using std.num_bigint_axioms by (simp add: num_bigint_def flat_crates_def)
  moreover have "auth_crates_axioms flat_crates"
    using std.auth_crates_axioms by (simp add: auth_crates_def auth_crates_axioms_def flat_crates_def)
  ultimately show ?thesis by (rule auth_crates.intro)
qed

definition sample_env :: auth_env where
  "sample_env = \<lparr>e_crates = flat_crates, e_config = config_new, e_vars = Map.empty, e_ip = ''10.0.0.1'',
     e_handle = \<lparr>db_pool = True, db_name = ''login''\<rparr>,
     e_db = (\<lambda>log sql. Reply [[text_cell ''5'']] 1), e_rand = (\<lambda>i n. 3), e_clock = (\<lambda>n. 0),
     e_write_ok = (\<lambda>n. True)\<rparr>"

interpretation sample: auth_session sample_env
  by (rule auth_session.intro) (simp add: sample_env_def auth_crates_flat)

definition proof_input :: bytes where
  "proof_input =
     [3, 1, 1, 1, 1, 1, 1, 1, 1, 1, 1, 1, 1, 1, 1, 1, 1,
      7, 7, 7, 7, 7, 7, 7, 7, 7, 7, 7, 7, 7, 7, 7, 7, 7, 7, 7, 7,
      0, 0, 0, 0, 0, 0, 0, 0, 0, 0, 0, 0, 0, 0, 0, 0, 0, 0, 0, 0, 0]"

definition reconnect_input :: bytes where
  "reconnect_input =
     [2, 0, 31, 0, 0, 0, 0, 0, 0, 0, 0, 0x9E, 0x21, 0, 0, 0, 0, 0, 0, 0, 0, 0, 0, 0, 0, 0, 0, 0, 0, 0, 0, 0, 0,
      1, 0x41] @ proof_input"

definition sample_start :: session where
  "sample_start = session_new sample_env reconnect_input realm_list_new"

lemma sample_env_simps [simp]:
  "e_crates sample_env = flat_crates" "e_rand sample_env i n = 3" "e_write_ok sample_env n"
  "is_connected (e_handle sample_env)"
  "db_query_one (e_db sample_env log) (e_handle sample_env) sql = Inr (Some [text_cell ''5''])"
  "env_bool sample_env key dflt = dflt"
  by (simp_all add: sample_env_def is_connected_def db_query_one_def env_bool_def get_bool_default_def
      get_env_or_config_def config_new_def)

lemma sample_text:
  "from_utf8_lossy [65] = ''A''" "escape_string ''A'' = ''A''" "get_string_field [text_cell ''5''] 0 = ''5''"
  "set_strong_session_key flat_crates ''5'' sp = sp\<lparr>srp_k := 5\<rparr>"
proof -
  show "from_utf8_lossy [65] = ''A''"
    by (simp add: from_utf8_lossy_def str_of_bytes_def byte_char_def char_of_def bit_Suc_0_iff)
  show "escape_string ''A'' = ''A''"
    by (simp add: escape_string_def replace_char_def backslash_def squote_def dquote_def)
  show "get_string_field [text_cell ''5''] 0 = ''5''"
    by (simp add: get_string_field_def try_get_def text_cell_def)
  have "set_hex_str flat_crates ''5'' n = (1, 5)" for n
    using sample.C.set_hex_str_digits [of "''5''" 5 n] by (simp add: hex_val_def)
  then show "set_strong_session_key flat_crates ''5'' sp = sp\<lparr>srp_k := 5\<rparr>"
    by (simp add: set_strong_session_key_def)
qed

lemma sample_length: "length proof_input = 58"
  by (simp add: proof_input_def)

definition sample_mid :: "string \<Rightarrow> bytes \<Rightarrow> session" where
  "sample_mid q p = sample_start\<lparr>inp := proof_input, status := StReconProof, login := ''A'', safe_login := ''A'',
     build := 8606, srp := (srp sample_start)\<lparr>srp_k := 5\<rparr>, sql_log := [q], draws := 1, reconnect_proof := 3,
     out := [p], writes := 1\<rparr>"

lemma sample_step1: "\<exists>q p. client_step sample_env sample_start = (True, sample_mid q p)"
proof -
  have "\<not> length (as_byte_array flat_crates 16 n) < 16" for n
    using sample.C.length_as_byte_array_ge [of 16 n] by simp
  then show ?thesis
    by (simp add: client_step_def read_with_timeout_def sample_start_def sample_mid_def session_new_def
      reconnect_input_def auth_cmd_from_u8_def handle_reconnect_challenge_def read_reconnect_challenge_def act_defs
      header_SIZE_def header_from_bytes_def body_from_bytes_def body_MIN_SIZE_def sample_length from_le_bytes_def
      subslice_def Let_def query_one_def randA_def write_with_timeout_def username_string_def sample_text
      set_rand_def)
qed

lemma sample_step2:
  "\<exists>s. client_step sample_env (sample_mid q p) = (True, s) \<and> status s = StAuthed"
proof -
  have "replicate 20 (7 :: u8) = [7, 7, 7, 7, 7, 7, 7, 7, 7, 7, 7, 7, 7, 7, 7, 7, 7, 7, 7, 7]"
    by (simp add: numeral_eq_Suc)
  then have "reconnect_digest sample_env name r1 rnd k =
      [7, 7, 7, 7, 7, 7, 7, 7, 7, 7, 7, 7, 7, 7, 7, 7, 7, 7, 7, 7]" for name r1 rnd k
    by (simp add: sample.reconnect_digest_eq [simplified] flat_crates_def)
  moreover have "get_num_bytes flat_crates 3 \<noteq> 0" "get_num_bytes flat_crates 5 \<noteq> 0"
    using sample.C.get_num_bytes_zero by simp_all
  ultimately show ?thesis
    by (simp add: client_step_def read_with_timeout_def sample_start_def sample_mid_def session_new_def proof_input_def
      auth_cmd_from_u8_def handle_reconnect_proof_def act_defs reconnect_SIZE_def reconnect_proof_from_bytes_def
      subslice_def Let_def write_with_timeout_def verify_version_def)
qed

lemma sample_run:
  "\<exists>s. client_run sample_env sample_start [ReconnectChallenge, ReconnectProof] s \<and> status s = StAuthed"
proof -
  obtain q p where 1: "client_step sample_env sample_start = (True, sample_mid q p)" using sample_step1 by blast
  obtain s where 2: "client_step sample_env (sample_mid q p) = (True, s)" "status s = StAuthed"
    using sample_step2 by blast
  have "hd (inp sample_start) = 2" "hd (inp (sample_mid q p)) = 3"
    by (simp_all add: sample_start_def session_new_def reconnect_input_def sample_mid_def proof_input_def)
  then have c: "auth_cmd_from_u8 (hd (inp sample_start)) = Some ReconnectChallenge"
    "auth_cmd_from_u8 (hd (inp (sample_mid q p))) = Some ReconnectProof"
    by (simp_all add: auth_cmd_from_u8_def)
  have "client_run sample_env sample_start ([] @ [ReconnectChallenge]) (sample_mid q p)"
    by (rule client_run.step [OF client_run.start 1 c(1)])
  from client_run.step [OF this 2(1) c(2)] 2(2) show ?thesis by auto
qed

theorem session_command_order_witness:
  "\<exists>s. client_run sample_env (session_new sample_env reconnect_input realm_list_new)
         [ReconnectChallenge, ReconnectProof] s \<and>
       progress [ReconnectChallenge, ReconnectProof] (status s) \<and> session_ok s"
  using sample_run session_command_order [OF sample.crates] unfolding sample_start_def by blast


section \<open>The loop ends\<close>

text \<open>C14: whatever the client sends and the database answers, the session loop ends: it
  accepts finitely many commands, at most one per byte received, and then disconnects.\<close>

theorem handle_client_ends:
  "\<exists>cmds s1. client_run E s cmds s1 \<and> client_step E s1 = (False, handle_client E s) \<and>
     length cmds \<le> length (inp s)"
proof -
  have "client_run E s0 cmds0 s \<Longrightarrow> \<exists>cmds s1. client_run E s0 (cmds0 @ cmds) s1 \<and>
      client_step E s1 = (False, handle_client E s) \<and> length cmds \<le> length (inp s)" for s0 cmds0 s
  proof (induction "length (inp s)" arbitrary: s cmds0 rule: less_induct)
    case less
    obtain go s' where step: "client_step E s = (go, s')" by fastforce
    show ?case
    proof (cases go)
      case True
      then have stepT: "client_step E s = (True, s')" using step by simp
      from client_step_continues [OF this] obtain cmd
        where cmd: "auth_cmd_from_u8 (hd (inp s)) = Some cmd" by blast
      have shorter: "length (inp s') < length (inp s)" using client_step_consumes step True by simp
      from less.hyps [OF shorter client_run.step [OF less.prems stepT cmd]]
      obtain cmds s1 where *: "client_run E s0 ((cmds0 @ [cmd]) @ cmds) s1"
        "client_step E s1 = (False, handle_client E s')" "length cmds \<le> length (inp s')" by blast
      moreover have "handle_client E s = handle_client E s'" using step True by (simp add: handle_client.simps)
      ultimately show ?thesis using shorter by (intro exI [of _ "cmd # cmds"] exI [of _ s1]) simp
    next
      case False
      then have "client_step E s = (False, handle_client E s)" using step by (simp add: handle_client.simps)
      with less.prems show ?thesis by (intro exI [of _ "[]"] exI [of _ s]) simp
    qed
  qed
  from this [OF client_run.start] show ?thesis by simp
qed

end
