(* ===== verification/Auth_Logon.thy ===== *)
theory Auth_Logon
  imports Auth_Safety
begin

text \<open>
  Liveness of a logon: a client that knows the password of an account that may log in
  passes both steps, ends up authenticated, and receives the server's own proof; and the
  outcomes of the challenge for addresses and accounts that may not.
\<close>

section \<open>Reading a well-formed challenge\<close>

lemma length_header_wire [simp]: "length (header_wire h) = 3"
  by (simp add: header_wire_def)

lemma length_body_wire: "body_ok b \<Longrightarrow> length (body_wire b) = 30 + unat (cb_username_len b)"
  by (simp add: body_ok_def body_wire_def)

lemma read_logon_challenge_run:
  assumes "inp s = header_wire h @ body_wire b @ rest" "body_ok b" "unat (hdr_size h) = length (body_wire b)"
  shows "read_logon_challenge s = (Inr b, s\<lparr>inp := rest, status := StClosed\<rparr>)"
proof -
  have h: "header_from_bytes (header_wire h) = Some h" by (rule w_header.dec_enc_exact) simp
  have b: "body_from_bytes (body_wire b) = Some b" by (rule w_body.dec_enc_exact) (rule assms(2))
  have len: "\<not> length (body_wire b) < body_MIN_SIZE - AUTH_LOGON_MAX_NAME"
    using length_body_wire [OF assms(2)] by (simp add: body_MIN_SIZE_def AUTH_LOGON_MAX_NAME_def)
  show ?thesis
    using assms(1,3) h b len
    by (simp add: read_logon_challenge_def act_defs read_with_timeout_def header_SIZE_def)
qed

section \<open>An account that may log in\<close>

definition answer_one :: "auth_env \<Rightarrow> string \<Rightarrow> row option \<Rightarrow> bool" where
  "answer_one E sql r \<longleftrightarrow> (\<forall>log. db_query_one (e_db E log) (e_handle E) sql = Inr r)"

text \<open>The database knows the account under \<open>safe\<close>, neither it nor the address is banned,
  and writes succeed.\<close>

definition admits :: "auth_env \<Rightarrow> string \<Rightarrow> row \<Rightarrow> bool" where
  "admits E safe r \<longleftrightarrow> is_connected (e_handle E) \<and> (\<forall>i. e_write_ok E i) \<and>
     answer_one E (ip_ban_sql E) None \<and> answer_one E (account_sql safe) (Some r) \<and>
     answer_one E (account_ban_sql (get_u32 r 0)) None \<and>
     (get_u8 r 1 = 1 \<longrightarrow> get_string_field r 2 = e_ip E)"

text \<open>The server's own proof, in the format of the client's build.\<close>

definition proof_reply :: "auth_env \<Rightarrow> u16 \<Rightarrow> nat \<Rightarrow> bytes \<Rightarrow> nat \<Rightarrow> bytes" where
  "proof_reply E b big_a m1 k =
     (let C = e_crates E;
          m2 = sha1 C (as_byte_array C 0 big_a @ as_byte_array C 0 (le_val m1) @ as_byte_array C 0 k)
      in if legacy_build b
         then [auth_cmd_u8 LogonProof, 0] @ m2 @ to_le_bytes (0 :: u32)
         else [auth_cmd_u8 LogonProof, 0] @ m2 @ to_le_bytes (account_flags_u32 AccountProPass)
                @ to_le_bytes (0 :: u32) @ to_le_bytes (0 :: u16))"

context auth_session
begin

text \<open>The session once the challenge for an account without second factor is sent.\<close>

definition challenge_sent :: "session \<Rightarrow> challenge_body \<Rightarrow> row \<Rightarrow> nat \<Rightarrow> nat \<Rightarrow> bytes \<Rightarrow> session" where
  "challenge_sent s0 b r v salt rest =
     (let s1 = with_ephemeral ((store_client_info b s0)\<lparr>srp := (srp s0)\<lparr>srp_v := v, srp_s := salt\<rparr>\<rparr>)
      in s1\<lparr>inp := rest, status := StLogonProof, token := [],
          account_security_level := clamp_security_level (get_u8 r 3),
          sql_log := sql_log s0 @ [ip_ban_sql E, account_sql (safe_login s1), account_ban_sql (get_u32 r 0)],
          out := out s0 @ [challenge_bytes E (get_string_field r 5) (srp s1) @ [0]],
          writes := writes s0 + 1\<rparr>)"

lemma set_credentials_hex:
  assumes "0 < v" "0 < salt"
  shows "set_credentials E (as_hex_str (e_crates E) v) (as_hex_str (e_crates E) salt) s =
    (Inr True, s\<lparr>srp := (srp s)\<lparr>srp_v := v, srp_s := salt\<rparr>\<rparr>)"
  using assms by (simp add: set_credentials_def C.set_verifier_hex C.set_salt_hex)

lemma issue_challenge_run:
  assumes "wow_group (srp s)" "get_string_field r 6 = []"
  shows "issue_challenge E r s =
    (Inr (Some \<lparr>bb_data = challenge_bytes E (get_string_field r 5) (srp (with_ephemeral s)) @ [0], bb_read_pos = 0\<rparr>),
     (with_ephemeral s)\<lparr>token := [], account_security_level := clamp_security_level (get_u8 r 3),
       status := StLogonProof\<rparr>)"
  using assms
  by (simp add: issue_challenge_def srp_challenge_run act_defs security_flags_for_def append_security_def
      write_u8_def)

lemma query_one_answer:
  assumes "answer_one E sql r" "is_connected (e_handle E)"
  shows "query_one E sql s = (Inr r, s\<lparr>sql_log := sql_log s @ [sql]\<rparr>)"
  using assms by (simp add: query_one_def answer_one_def)

lemma handle_logon_challenge_run:
  assumes "wow_group (srp s)" "inp s = header_wire h @ body_wire b @ rest" "body_ok b"
    and "unat (hdr_size h) = length (body_wire b)" "unat (cb_username_len b) \<le> AUTH_LOGON_MAX_NAME"
    and adm: "admits E (escape_string (username_string b)) r"
    and cred: "get_string_field r 4 = as_hex_str (e_crates E) v" "get_string_field r 5 = as_hex_str (e_crates E) salt"
      "0 < v" "0 < salt"
    and tok: "get_string_field r 6 = []"
  shows "handle_logon_challenge E s = (Inr (), challenge_sent s b r v salt rest)"
proof -
  let ?s0 = "store_client_info b (s\<lparr>inp := rest, status := StClosed\<rparr>)"
  have q: "answer_one E (ip_ban_sql E) None" "answer_one E (account_sql (safe_login ?s0)) (Some r)"
    "answer_one E (account_ban_sql (get_u32 r 0)) None" "is_connected (e_handle E)" "\<forall>i. e_write_ok E i"
    "get_u8 r 1 = 1 \<longrightarrow> get_string_field r 2 = e_ip E"
    using adm by (auto simp: admits_def store_client_info_def)
  have found: "account_found E r s2 = (Inr (Some \<lparr>bb_data = challenge_bytes E (get_string_field r 5)
        (srp (with_ephemeral (s2\<lparr>srp := (srp s2)\<lparr>srp_v := v, srp_s := salt\<rparr>\<rparr>))) @ [0], bb_read_pos = 0\<rparr>),
      (with_ephemeral (s2\<lparr>srp := (srp s2)\<lparr>srp_v := v, srp_s := salt\<rparr>\<rparr>))\<lparr>token := [],
        account_security_level := clamp_security_level (get_u8 r 3), status := StLogonProof,
        sql_log := sql_log s2 @ [account_ban_sql (get_u32 r 0)]\<rparr>)" if "wow_group (srp s2)" for s2
  proof -
    have "wow_group ((srp s2)\<lparr>srp_v := v, srp_s := salt\<rparr>)" using that by (simp add: wow_group_def)
    then show ?thesis
      using q cred tok
      by (simp add: account_found_def account_banned_check_def bindA_def matchA_def set_credentials_hex
          query_one_answer issue_challenge_run)
        (auto simp: with_ephemeral_def)
  qed
  show ?thesis
    using assms(1,5) q
    by (simp add: handle_logon_challenge_def bindA_def modA_def matchA_def readA_def
        read_logon_challenge_run [OF assms(2-4)] look_up_account_def query_one_answer found store_client_info_def
        write_with_timeout_def challenge_sent_def Let_def bb_contents_def with_ephemeral_def)
qed

section \<open>Answering the challenge\<close>

lemma check_proof_accepts:
  assumes "wow_group (srp s)" "length (lp_m1 p) = 20" "password_proved (e_crates E) s p"
  obtains sp where "check_proof E p s = (Inr (Some True), s\<lparr>srp := sp\<rparr>)"
    "srp_big_a sp = le_val (lp_a p)" "srp_m sp = le_val (lp_m1 p)"
    "srp_k sp = server_key (e_crates E) (srp s) (le_val (lp_a p))"
proof -
  let ?C = "e_crates E" and ?A = "le_val (lp_a p)"
  let ?u = "le_val (sha1 ?C (as_byte_array ?C 0 ?A @ as_byte_array ?C 0 (srp_big_b (srp s))))"
  let ?sp = "(srp s)\<lparr>srp_big_a := ?A, srp_u := ?u,
      srp_big_s := (?A * (srp_v (srp s) ^ ?u mod srp_N)) ^ srp_b (srp s) mod srp_N\<rparr>"
  let ?sk = "?sp\<lparr>srp_k := server_key ?C (srp s) ?A\<rparr>"
  have A: "\<not> srp_N dvd ?A" and m1: "lp_m1 p = proof_digest ?C (login s) (srp_s (srp s)) ?A (srp_big_b (srp s))
      (server_key ?C (srp s) ?A)" using assms(3) by (simp_all add: password_proved_def Let_def)
  have key: "calculate_session_key ?C (lp_a p) (srp s) = Inr (True, ?sp)"
    using assms(1) A by (simp add: C.session_key_eq Let_def mod_eq_0_iff_dvd)
  have "srp_big_s ?sp < srp_N" using srp_N_bounds(1) by simp
  then have sk: "hash_session_key ?C ?sp = ?sk"
    by (simp add: C.hash_session_key_eq server_key_def Let_def)
  have wow: "wow_group ?sk" using assms(1) by (simp add: wow_group_def)
  have sm: "calculate_proof ?C (login s) ?sk = ?sk\<lparr>srp_m := le_val (lp_m1 p)\<rparr>"
    using C.calculate_proof_eq [OF wow, of "login s"] m1 by simp
  have ok: "srp_proof ?C (calculate_proof ?C (login s) ?sk) (lp_m1 p)"
    using C.srp_proof_exact [OF wow assms(2)] m1 by simp
  show thesis
  proof (rule that [of "?sk\<lparr>srp_m := le_val (lp_m1 p)\<rparr>"])
    show "check_proof E p s = (Inr (Some True), s\<lparr>srp := ?sk\<lparr>srp_m := le_val (lp_m1 p)\<rparr>\<rparr>)"
      using key ok sm sk by (simp add: check_proof_def Let_def)
  qed simp_all
qed

definition authenticated :: "session \<Rightarrow> nat \<Rightarrow> bytes \<Rightarrow> nat \<Rightarrow> session \<Rightarrow> bool" where
  "authenticated s big_a m1 k s' \<longleftrightarrow> status s' = StAuthed \<and> inp s' = inp s \<and>
     out s' = out s @ [proof_reply E (build s) big_a m1 k] \<and>
     update_session_sql (as_hex_str (e_crates E) k) (safe_locale s) (os s) (platform s) (safe_login s)
       \<in> set (sql_log s')"

lemma finalize_run:
  assumes "verify_version E (build s) (os s) (lp_a p) (lp_crc_hash p) False"
    and "\<forall>i. e_write_ok E i" "is_connected (e_handle E)" "srp_m (srp s) = le_val m1"
  shows "wp (verify_and_finalize E p)
    (\<lambda>r s'. r = Inr () \<and> authenticated s (srp_big_a (srp s)) m1 (srp_k (srp s)) s') s"
  using assms
  by (auto simp: verify_and_finalize_def send_proof_def wp_simps Let_def proof_reply_def srp_finalize_def
      proof_server_to_bytes_def proof_server_legacy_to_bytes_def bb_contents_def logged_def authenticated_def
      split: sum.split rust_error.split option.split)

lemma handle_logon_proof_accepts:
  assumes "wow_group (srp s)" "inp s = logon_proof_wire p @ rest" "logon_proof_ok p" "\<not> prompt_pin s"
    and "find_build_info (build s) \<noteq> None" "password_proved (e_crates E) s p"
    and "token s = []" "lp_security_flags p AND security_flags_u8 SecAuthenticator = 0"
    and "verify_version E (build s) (os s) (lp_a p) (lp_crc_hash p) False"
    and "\<forall>i. e_write_ok E i" "is_connected (e_handle E)"
  shows "wp (handle_logon_proof E) (\<lambda>r s'. r = Inr () \<and> authenticated (s\<lparr>inp := rest\<rparr>) (le_val (lp_a p))
           (lp_m1 p) (server_key (e_crates E) (srp s) (le_val (lp_a p))) s') s"
proof -
  let ?s1 = "s\<lparr>inp := rest, status := StClosed\<rparr>"
  have len: "length (logon_proof_wire p) = proof_SIZE_WITHOUT_PIN"
    using assms(3) by (simp add: logon_proof_wire_def logon_proof_ok_def proof_SIZE_WITHOUT_PIN_def)
  have parse: "logon_proof_from_bytes (logon_proof_wire p) False = Some p"
    using assms(3) by (rule w_logon_proof.dec_enc_exact)
  have "length (lp_m1 p) = 20" "wow_group (srp ?s1)" "password_proved (e_crates E) ?s1 p"
    using assms(1,3,6) by (simp_all add: logon_proof_ok_def password_proved_def)
  from check_proof_accepts [OF this(2,1,3)] obtain sp where sp:
    "check_proof E p ?s1 = (Inr (Some True), ?s1\<lparr>srp := sp\<rparr>)"
    "srp_big_a sp = le_val (lp_a p)" "srp_m sp = le_val (lp_m1 p)"
    "srp_k sp = server_key (e_crates E) (srp s) (le_val (lp_a p))" by auto
  have auth: "check_authenticator E p (?s1\<lparr>srp := sp\<rparr>) = (Inr True, ?s1\<lparr>srp := sp\<rparr>)"
    using assms(7,8) by (simp add: check_authenticator_def act_defs)
  have "verify_version E (build (?s1\<lparr>srp := sp\<rparr>)) (os (?s1\<lparr>srp := sp\<rparr>)) (lp_a p) (lp_crc_hash p) False"
    "srp_m (srp (?s1\<lparr>srp := sp\<rparr>)) = le_val (lp_m1 p)" using assms(9) sp(3) by simp_all
  from finalize_run [OF this(1) assms(10,11) this(2)] sp(2,4)
  have fin: "wp (verify_and_finalize E p) (\<lambda>r s'. r = Inr () \<and> authenticated (s\<lparr>inp := rest\<rparr>) (le_val (lp_a p))
           (lp_m1 p) (server_key (e_crates E) (srp s) (le_val (lp_a p))) s') (?s1\<lparr>srp := sp\<rparr>)"
    by (simp add: authenticated_def)
  obtain info where "find_build_info (build s) = Some info" using assms(5) by blast
  then have "wp (handle_logon_proof E) Q s \<longleftrightarrow> wp (verify_and_finalize E p) Q (?s1\<lparr>srp := sp\<rparr>)" for Q
    using assms(2,4) len parse sp(1) auth
    by (simp add: wp_def handle_logon_proof_def act_defs read_with_timeout_def Let_def split: sum.split prod.split)
  with fin show ?thesis by blast
qed

text \<open>The first step of a new session, for an account that may log in.\<close>

lemma challenge_step:
  assumes "body_ok b" "unat (hdr_size h) = length (body_wire b)" "unat (cb_username_len b) \<le> AUTH_LOGON_MAX_NAME"
    and "admits E (escape_string (username_string b)) r" "get_string_field r 4 = as_hex_str (e_crates E) v"
      "get_string_field r 5 = as_hex_str (e_crates E) salt" "0 < v" "0 < salt" "get_string_field r 6 = []"
  obtains s where
    "client_run E (session_new E (auth_cmd_u8 LogonChallenge # header_wire h @ body_wire b @ rest) rl) [LogonChallenge] s"
    "status s = StLogonProof" "wow_group (srp s)" "\<not> prompt_pin s" "inp s = rest" "token s = []"
    "build s = cb_build b" "login s = username_string b" "safe_login s = escape_string (username_string b)"
    "safe_locale s = escape_string (locale_string b)" "os s = escape_string (os_string b)"
    "platform s = platform_string b" "srp_v (srp s) = v" "srp_s (srp s) = salt" "srp_b (srp s) = e_rand E 0 152"
    "srp_big_b (srp s) = (v * 3 + 7 ^ e_rand E 0 152 mod srp_N) mod srp_N"
    "out s = [challenge_bytes E (get_string_field r 5)
       (srp6_new (e_crates E)\<lparr>srp_big_b := (v * 3 + 7 ^ e_rand E 0 152 mod srp_N) mod srp_N\<rparr>) @ [0]]"
proof -
  let ?s0 = "session_new E (auth_cmd_u8 LogonChallenge # header_wire h @ body_wire b @ rest) rl"
  let ?s1 = "session_new E (header_wire h @ body_wire b @ rest) rl"
  let ?S = "challenge_sent ?s1 b r v salt rest"
  have wow: "wow_group (srp6_new (e_crates E))" by (rule C.wow_group_new)
  have "handle_logon_challenge E ?s1 = (Inr (), ?S)"
    using wow assms by (intro handle_logon_challenge_run) (simp_all add: session_new_def)
  then have step: "client_step E ?s0 = (True, ?S)"
    by (simp add: client_step_def read_with_timeout_def session_new_def auth_cmd_from_u8_def act_defs
        challenge_sent_def Let_def)
  show thesis
  proof (rule that)
    show "client_run E ?s0 [LogonChallenge] ?S"
      using client_run.step [OF client_run.start step, of LogonChallenge]
      by (simp add: session_new_def auth_cmd_from_u8_def)
  qed (use wow in \<open>simp_all add: challenge_sent_def with_ephemeral_def store_client_info_def session_new_def
        wow_group_def challenge_bytes_def Let_def\<close>)
qed

text \<open>The second step, from a session with a pending challenge.\<close>

lemma proof_step:
  assumes "client_run E s0 cmds s" "status s = StLogonProof" "wow_group (srp s)" "\<not> prompt_pin s" "token s = []"
    and "inp s = auth_cmd_u8 LogonProof # logon_proof_wire p @ rest" "logon_proof_ok p"
    and "find_build_info (build s) \<noteq> None" "password_proved (e_crates E) s p"
    and "lp_security_flags p AND security_flags_u8 SecAuthenticator = 0"
    and "verify_version E (build s) (os s) (lp_a p) (lp_crc_hash p) False"
    and "\<forall>i. e_write_ok E i" "is_connected (e_handle E)"
  obtains s' where "client_run E s0 (cmds @ [LogonProof]) s'"
    "authenticated (s\<lparr>inp := rest\<rparr>) (le_val (lp_a p)) (lp_m1 p) (server_key (e_crates E) (srp s) (le_val (lp_a p))) s'"
proof -
  let ?s1 = "s\<lparr>inp := logon_proof_wire p @ rest\<rparr>"
  have "password_proved (e_crates E) ?s1 p" using assms(9) by (simp add: password_proved_def)
  then have "wp (handle_logon_proof E) (\<lambda>r s'. r = Inr () \<and> authenticated (?s1\<lparr>inp := rest\<rparr>) (le_val (lp_a p))
      (lp_m1 p) (server_key (e_crates E) (srp ?s1) (le_val (lp_a p))) s') ?s1"
    using assms(3-) by (intro handle_logon_proof_accepts) simp_all
  then obtain s' where run: "handle_logon_proof E ?s1 = (Inr (), s')"
    and auth: "authenticated (s\<lparr>inp := rest\<rparr>) (le_val (lp_a p)) (lp_m1 p)
      (server_key (e_crates E) (srp s) (le_val (lp_a p))) s'"
    by (cases "handle_logon_proof E ?s1") (auto simp: wp_def)
  have "client_step E s = (True, s')"
    using run auth assms(2,6)
    by (simp add: client_step_def read_with_timeout_def auth_cmd_from_u8_def act_defs authenticated_def)
  from client_run.step [OF assms(1) this, of LogonProof] assms(6) auth that show thesis
    by (simp add: auth_cmd_from_u8_def)
qed

lemma honest_key:
  assumes "srp_v sp = 7 ^ x mod srp_N" "srp_big_b sp = (srp_v sp * 3 + 7 ^ srp_b sp mod srp_N) mod srp_N"
  shows "server_key (e_crates E) sp (7 ^ a mod srp_N) =
    (let C = e_crates E; u = le_val (sha1 C (as_byte_array C 0 (7 ^ a mod srp_N) @ as_byte_array C 0 (srp_big_b sp)))
     in le_val (strong_key C (client_session_key a u x (srp_big_b sp))))"
  using srp_key_agreement [OF assms refl] by (simp add: server_key_def Let_def)

end

section \<open>An honest client is admitted\<close>

text \<open>C3: a client that holds the password key \<open>x\<close> of an account without second factor,
  picks any private exponent \<open>a\<close> and computes its session key and proof from the received
  challenge as the SRP6 protocol prescribes, passes both steps for every choice of the
  server's random exponent: the session is authenticated, exactly the challenge and the
  server's own proof over the same session key are sent, the session key is stored, and
  no byte beyond the two packets is consumed.\<close>

theorem honest_client_logs_in:
  fixes E b r x a p rest rl h
  defines "C \<equiv> e_crates E"
  defines "s0 \<equiv> session_new E (auth_cmd_u8 LogonChallenge # header_wire h @ body_wire b
                    @ auth_cmd_u8 LogonProof # logon_proof_wire p @ rest) rl"
  defines "v \<equiv> 7 ^ x mod srp_N"
  defines "big_a \<equiv> 7 ^ a mod srp_N"
  defines "big_b \<equiv> (v * 3 + 7 ^ e_rand E 0 152 mod srp_N) mod srp_N"
  defines "u \<equiv> le_val (sha1 C (as_byte_array C 0 big_a @ as_byte_array C 0 big_b))"
  defines "k \<equiv> le_val (strong_key C (client_session_key a u x big_b))"
  assumes crates: "auth_crates C"
    and packet: "body_ok b" "unat (hdr_size h) = length (body_wire b)" "unat (cb_username_len b) \<le> AUTH_LOGON_MAX_NAME"
    and account: "admits E (escape_string (username_string b)) r" "get_string_field r 4 = as_hex_str C v"
      "get_string_field r 5 = as_hex_str C salt" "0 < salt" "get_string_field r 6 = []"
    and build: "find_build_info (cb_build b) \<noteq> None" "\<not> env_bool E ''StrictVersionCheck'' False"
    and client: "logon_proof_ok p" "lp_a p = le_bytes 32 big_a"
      "lp_m1 p = proof_digest C (username_string b) salt big_a big_b k"
      "lp_security_flags p AND security_flags_u8 SecAuthenticator = 0"
  shows "\<exists>s. client_run E s0 [LogonChallenge, LogonProof] s \<and> status s = StAuthed \<and> inp s = rest \<and>
     out s = [challenge_bytes E (get_string_field r 5) (srp6_new C\<lparr>srp_big_b := big_b\<rparr>) @ [0],
              proof_reply E (cb_build b) big_a (lp_m1 p) k] \<and>
     update_session_sql (as_hex_str C k) (escape_string (locale_string b)) (escape_string (os_string b))
       (platform_string b) (escape_string (username_string b)) \<in> set (sql_log s)"
proof -
  note session = auth_session.intro [OF crates [unfolded C_def]]
  have v: "0 < v" unfolding v_def using power_gen_nonzero by simp
  have "big_a < srp_N" and A: "\<not> srp_N dvd big_a"
    unfolding big_a_def using power_gen_nonzero srp_N_bounds(1) by (simp_all add: mod_eq_0_iff_dvd dvd_mod_iff)
  then have A32: "le_val (lp_a p) = big_a"
    using srp_N_bounds(2) client(2) by (simp add: le_val_le_bytes)
  obtain s where s: "client_run E s0 [LogonChallenge] s" "status s = StLogonProof" "wow_group (srp s)"
    "\<not> prompt_pin s" "inp s = auth_cmd_u8 LogonProof # logon_proof_wire p @ rest" "token s = []"
    "build s = cb_build b" "login s = username_string b" "safe_login s = escape_string (username_string b)"
    "safe_locale s = escape_string (locale_string b)" "os s = escape_string (os_string b)"
    "platform s = platform_string b" "srp_v (srp s) = v" "srp_s (srp s) = salt" "srp_b (srp s) = e_rand E 0 152"
    "srp_big_b (srp s) = big_b"
    "out s = [challenge_bytes E (get_string_field r 5) (srp6_new C\<lparr>srp_big_b := big_b\<rparr>) @ [0]]"
    using auth_session.challenge_step [OF session packet account(1) account(2,3) [unfolded C_def] v account(4,5)]
    unfolding s0_def C_def big_b_def by metis
  have key: "server_key C (srp s) big_a = k"
    using auth_session.honest_key [OF session, of "srp s" x a] s
    by (simp add: C_def k_def u_def v_def big_a_def big_b_def Let_def)
  have proved: "password_proved C s p"
    using client(3) A A32 key s by (simp add: password_proved_def Let_def)
  have version: "verify_version E (build s) (os s) (lp_a p) (lp_crc_hash p) False"
    using build(2) by (simp add: verify_version_def)
  have "find_build_info (build s) \<noteq> None" using build(1) s by simp
  then obtain s' where "client_run E s0 ([LogonChallenge] @ [LogonProof]) s'"
    "auth_session.authenticated E (s\<lparr>inp := rest\<rparr>) big_a (lp_m1 p) k s'"
    using auth_session.proof_step [OF session s(1-4,6,5) client(1) _ proved [unfolded C_def] client(4) version]
      account(1) A32 key by (auto simp: C_def admits_def)
  then show ?thesis using s by (auto simp: auth_session.authenticated_def [OF session] C_def)
qed

text \<open>A concrete account: verifier \<open>g\<close>, salt 1.\<close>

definition account_row :: row where
  "account_row = [int_cell 1, int_cell 0, text_cell [], int_cell 0, text_cell ''7'', text_cell ''1'', text_cell []]"

definition logon_env :: auth_env where
  "logon_env = sample_env\<lparr>e_db := (\<lambda>log sql. if sql = account_sql ''A'' then Reply [account_row] 1 else Reply [] 0)\<rparr>"

definition logon_body :: challenge_body where
  "logon_body = \<lparr>cb_gamename = [0, 0, 0, 0], cb_version1 = 2, cb_version2 = 4, cb_version3 = 3, cb_build = 8606,
     cb_platform = [0x36, 0x38, 0x78, 0], cb_os = [0x6E, 0x69, 0x57, 0], cb_country = [0x53, 0x55, 0x6E, 0x65],
     cb_timezone_bias = 0, cb_ip = 0, cb_username_len = 1, cb_username = [0x41]\<rparr>"

definition logon_header :: challenge_header where
  "logon_header = \<lparr>hdr_error = 8, hdr_size = 31\<rparr>"

definition logon_proof :: logon_proof_client where
  "logon_proof = \<lparr>lp_a = le_bytes 32 1, lp_m1 = replicate 20 7, lp_crc_hash = replicate 20 0,
     lp_number_of_keys = 0, lp_security_flags = 0\<rparr>"

interpretation logon: auth_session logon_env
  by (rule auth_session.intro) (simp add: logon_env_def auth_crates_flat)

lemma logon_env_admits: "admits logon_env (escape_string (username_string logon_body)) account_row"
proof -
  have "ip_ban_sql logon_env \<noteq> account_sql ''A''" "account_ban_sql n \<noteq> account_sql ''A''" for n
    by (simp_all add: ip_ban_sql_def account_ban_sql_def account_sql_def)
  moreover have "username_string logon_body = ''A''"
    by (simp add: username_string_def logon_body_def sample_text)
  moreover have "get_u8 account_row 1 = 0"
    by (simp add: account_row_def get_u8_def try_get_def int_cell_def)
  ultimately show ?thesis
    by (simp add: admits_def answer_one_def sample_text logon_env_def db_query_one_def is_connected_def sample_env_def)
qed

theorem honest_client_logs_in_witness:
  "\<exists>s. client_run logon_env (session_new logon_env (auth_cmd_u8 LogonChallenge # header_wire logon_header
          @ body_wire logon_body @ auth_cmd_u8 LogonProof # logon_proof_wire logon_proof @ []) realm_list_new)
        [LogonChallenge, LogonProof] s \<and> status s = StAuthed \<and> inp s = []"
proof -
  have C: "e_crates logon_env = flat_crates" by (simp add: logon_env_def)
  have hex: "as_hex_str flat_crates n = hex_str n" for n using sample.C.as_hex_str_eq by simp
  have N: "7 mod srp_N = 7" "1 mod srp_N = 1" by (simp_all add: srp_N_def)
  have row: "get_string_field account_row 4 = ''7''" "get_string_field account_row 5 = ''1''"
    "get_string_field account_row 6 = []"
    by (simp_all add: account_row_def get_string_field_def try_get_def text_cell_def)
  have hex71: "hex_str 7 = ''7''" "hex_str 1 = ''1''" by (simp_all add: hex_str.simps hex_char_def char_of_def bit_Suc_0_iff)
  have digest: "proof_digest flat_crates nm sa ba bb kk = replicate 20 7" for nm sa ba bb kk
    by (simp add: proof_digest_def flat_crates_def)
  have ok: "body_ok logon_body" "unat (hdr_size logon_header) = length (body_wire logon_body)"
    "unat (cb_username_len logon_body) \<le> AUTH_LOGON_MAX_NAME" "logon_proof_ok logon_proof"
    by (simp_all add: body_ok_def logon_body_def logon_header_def body_wire_def AUTH_LOGON_MAX_NAME_def
        logon_proof_ok_def logon_proof_def)
  have b: "find_build_info (cb_build logon_body) \<noteq> None"
    by (simp add: find_build_info_def EXPECTED_BUILDS_def logon_body_def)
  have strict: "\<not> env_bool logon_env ''StrictVersionCheck'' False"
    by (simp add: logon_env_def sample_env_def env_bool_def get_bool_default_def get_env_or_config_def config_new_def)
  show ?thesis
    using honest_client_logs_in [of logon_env logon_body logon_header account_row 1 1 logon_proof 0 "[]" realm_list_new]
      logon.crates ok logon_env_admits row b strict
    by (auto simp: C hex hex71 N digest logon_proof_def simp del: One_nat_def)
qed

end
