(* ===== verification/Auth_Statements.thy ===== *)
theory Auth_Statements
  imports Auth_Safety
begin

text \<open>
  The SQL a session issues.  Statements are templates with text values in single quotes;
  the tokens MySQL reads from a statement whose values went through \<^verbatim>\<open>escape_string\<close> are
  exactly the template's text and those values, whatever the client put into them.  The
  locale \<open>session_invariant\<close> is the rule set for invariants that hold between any two
  actions of a handler; it is interpreted on "every statement issued so far is such an
  instance".  One value, the platform field, is put into its statement unescaped.
\<close>

section \<open>Tokens\<close>

text \<open>What the server's lexer makes of a statement: characters outside literals, and string
  literals by the text they denote; a hash sign outside a literal starts a comment.\<close>

datatype sql_token = Sym char | Lit string

lemma sql_literal_shorter: "sql_literal s = Some (v, r) \<Longrightarrow> length r < length s"
  by (induction s arbitrary: v r rule: sql_literal.induct)
    (fastforce split: if_splits list.splits)+

function sql_tokens :: "string \<Rightarrow> sql_token list option" where
  "sql_tokens [] = Some []"
| "sql_tokens (c # s) =
     (if c = squote then
        (case sql_literal s of None \<Rightarrow> None | Some (v, r) \<Rightarrow> map_option ((#) (Lit v)) (sql_tokens r))
      else if c = CHR ''#'' then sql_tokens (dropWhile (\<lambda>d. d \<noteq> CHR 0x0A) s)
      else map_option ((#) (Sym c)) (sql_tokens s))"
  by pat_completeness auto
termination
  by (relation "measure length") (auto dest: sql_literal_shorter simp: le_imp_less_Suc length_dropWhile_le)

section \<open>Templates\<close>

fun fill :: "string list \<Rightarrow> string list \<Rightarrow> string" where
  "fill (t # ts) (v # vs) = t @ quoted (escape_string v) @ fill ts vs"
| "fill ts [] = concat ts"
| "fill [] vs = []"

fun fill_tokens :: "string list \<Rightarrow> string list \<Rightarrow> sql_token list" where
  "fill_tokens (t # ts) (v # vs) = map Sym t @ Lit v # fill_tokens ts vs"
| "fill_tokens ts [] = map Sym (concat ts)"
| "fill_tokens [] vs = []"

text \<open>No quote and no comment sign in the text, and text between any two values.\<close>

fun separated :: "string list \<Rightarrow> bool" where
  "separated [] \<longleftrightarrow> False"
| "separated [t] \<longleftrightarrow> squote \<notin> set t \<and> CHR ''#'' \<notin> set t"
| "separated (t # u # ts) \<longleftrightarrow> squote \<notin> set t \<and> CHR ''#'' \<notin> set t \<and> (ts = [] \<or> u \<noteq> []) \<and> separated (u # ts)"

lemma sql_tokens_text:
  "squote \<notin> set t \<Longrightarrow> CHR ''#'' \<notin> set t \<Longrightarrow> sql_tokens (t @ s) = map_option ((@) (map Sym t)) (sql_tokens s)"
  by (induction t; cases "sql_tokens s") auto

lemma fill_start:
  assumes "separated (u # ts)" "length ts = length vs" "ts = [] \<or> u \<noteq> []"
  shows "fill (u # ts) vs = [] \<or> hd (fill (u # ts) vs) \<noteq> squote"
  using assms
  by (cases ts; cases vs; cases u) auto

lemma sql_tokens_fill:
  assumes "separated ts" "length ts = Suc (length vs)"
  shows "sql_tokens (fill ts vs) = Some (fill_tokens ts vs)"
  using assms
proof (induction ts arbitrary: vs rule: separated.induct)
  case (2 t)
  then show ?case using sql_tokens_text [of t "[]"] by simp
next
  case (3 t u ts)
  then obtain v vs' where vs: "vs = v # vs'" "length ts = length vs'" by (cases vs) auto
  have "fill (u # ts) vs' = [] \<or> hd (fill (u # ts) vs') \<noteq> squote"
    using 3 vs by (intro fill_start) auto
  then have "sql_literal (escape_string v @ squote # fill (u # ts) vs') = Some (v, fill (u # ts) vs')"
    by (rule sql_literal_escape)
  with 3 vs show ?case
    by (simp add: quoted_def sql_tokens_text option.map_comp o_def)
qed simp

definition templates :: "string list set" where
  "templates =
    {[''SELECT expires_at FROM ip_banned WHERE (expires_at = banned_at OR expires_at > UNIX_TIMESTAMP()) AND ip = '', []],
     [''SELECT id, CAST(locked AS SIGNED) AS locked, lockedIp, CAST(gmlevel AS SIGNED) AS gmlevel, CAST(v AS CHAR) AS v, CAST(s AS CHAR) AS s, CAST(token AS CHAR) AS token FROM account WHERE username = '', []],
     [''INSERT INTO account(username, v, s, expansion, joindate) VALUES('', '', '', '', '', '', '', '', NOW())''],
     [''UPDATE account SET failed_logins = failed_logins + 1 WHERE username = '', []],
     [''SELECT id, CAST(failed_logins AS SIGNED) AS failed_logins FROM account WHERE username = '', []],
     [''INSERT INTO account_banned(account_id, banned_at, expires_at, banned_by, reason, active) VALUES ('', '', UNIX_TIMESTAMP(), UNIX_TIMESTAMP()+'', '', '', '', '', '', 1)''],
     [''INSERT INTO ip_banned VALUES ('', '', UNIX_TIMESTAMP(), UNIX_TIMESTAMP()+'', '', '', '', '', '')''],
     [''UPDATE account SET sessionkey = '', '', locale = '', '', failed_logins = 0, os = '', '', platform = '', '' WHERE username = '', []],
     [''SELECT id FROM account WHERE username = '', []],
     [''INSERT INTO account_logons(accountId, ip, loginTime, loginSource) VALUES('', '', '', '', NOW(), '', '')''],
     [''SELECT CAST(sessionkey AS CHAR) AS sessionkey FROM account WHERE username = '', []],
     [''SELECT id, CAST(gmlevel AS SIGNED) AS gmlevel FROM account WHERE username = '', []],
     [''SELECT CAST(numchars AS SIGNED) AS numchars FROM realmcharacters WHERE realmid = '', '' AND acctid = '', []],
     [realm_query]}
    \<union> {[account_ban_sql n] | n. True}"

definition well_formed :: "string \<Rightarrow> bool" where
  "well_formed q \<longleftrightarrow> (\<exists>ts vs. ts \<in> templates \<and> length ts = Suc (length vs) \<and> q = fill ts vs)"

lemma digits_range:
  assumes "c \<in> set (num_str n)"
  shows "48 \<le> (of_char c :: nat) \<and> (of_char c :: nat) < 58"
proof -
  obtain d where d: "d < 10" "c = digit_char d"
    using set_dec_str assms unfolding num_str_def by blast
  then have "(of_char c :: nat) = 48 + d" by (simp add: digit_char_def)
  with d(1) show ?thesis by simp
qed

lemma no_squote_digits: "squote \<notin> set (num_str n)" "CHR ''#'' \<notin> set (num_str n)"
  using digits_range [of squote n] digits_range [of "CHR ''#''" n] by (auto simp: squote_def)

lemma separated_templates: "ts \<in> templates \<Longrightarrow> separated ts"
  by (auto simp: templates_def squote_def realm_query_def account_ban_sql_def)
    (use no_squote_digits in \<open>auto simp: squote_def\<close>)


section \<open>Every statement of the handlers is an instance\<close>

definition unescaped :: "string \<Rightarrow> bool" where
  "unescaped s \<longleftrightarrow> escape_string s = s"

lemma unescaped_plain: "(\<And>c. c \<in> set s \<Longrightarrow> esc1 c = [c]) \<Longrightarrow> unescaped s"
  unfolding unescaped_def escape_string_single_pass by (induction s) auto

lemma unescaped_num: "escape_string (num_str n) = num_str n"
proof -
  have "esc1 c = [c]" if c: "c \<in> set (num_str n)" for c
  proof -
    have "c \<noteq> x" if "(of_char x :: nat) < 48 \<or> 58 \<le> (of_char x :: nat)" for x
      using that digits_range [OF c] by auto
    then show ?thesis by (simp add: esc1_def special_chars)
  qed
  then show ?thesis using unescaped_plain unfolding unescaped_def by blast
qed

lemma hex_val_unescaped: "hex_val c \<noteq> None \<Longrightarrow> esc1 c = [c]"
proof -
  have "hex_val backslash = None" "hex_val squote = None" "hex_val dquote = None" "hex_val CHR 0x00 = None"
    "hex_val CHR 0x0A = None" "hex_val CHR 0x0D = None" "hex_val CHR 0x1A = None"
    by (simp_all add: hex_val_def special_chars)
  then show "hex_val c \<noteq> None \<Longrightarrow> ?thesis" by (auto simp: esc1_def)
qed

lemma unescaped_hex: "escape_string (hex_str n) = hex_str n"
  using unescaped_plain [of "hex_str n"] hex_digits_val_all [OF hex_digits_val_hex_str] hex_val_unescaped
  unfolding unescaped_def by blast

lemma well_formedI: "ts \<in> templates \<Longrightarrow> length ts = Suc (length vs) \<Longrightarrow> q = fill ts vs \<Longrightarrow> well_formed q"
  unfolding well_formed_def by blast

lemma well_formed_name: "[t, []] \<in> templates \<Longrightarrow> well_formed (t @ quoted (escape_string u))"
  by (rule well_formedI [where vs = "[u]" and ts = "[t, []]"]) simp_all

lemma well_formed_names:
  "well_formed (ip_ban_sql E)" "well_formed (account_sql (escape_string u))"
  "well_formed (count_failed_sql (escape_string u))" "well_formed (failed_logins_sql (escape_string u))"
  "well_formed (account_id_sql (escape_string u))" "well_formed (session_key_sql (escape_string u))"
  "well_formed (account_level_sql (escape_string u))"
  unfolding ip_ban_sql_def account_sql_def count_failed_sql_def failed_logins_sql_def account_id_sql_def
    session_key_sql_def account_level_sql_def
  by (rule well_formed_name; simp add: templates_def)+

lemma well_formed_constant: "well_formed realm_query" "well_formed (account_ban_sql n)"
proof -
  have "[realm_query] \<in> templates" "[account_ban_sql n] \<in> templates" unfolding templates_def by blast+
  then show "well_formed realm_query" "well_formed (account_ban_sql n)"
    using well_formedI [where vs = "[]" and ts = "[realm_query]"]
      well_formedI [where vs = "[]" and ts = "[account_ban_sql n]"] by simp_all
qed

lemma quoted_num: "quoted (num_str n) = quoted (escape_string (num_str n))"
  by (simp add: unescaped_num)

lemma well_formed_numbers:
  "well_formed (ban_account_sql a n)" "well_formed (ban_ip_sql (escape_string ip) n)"
  "well_formed (log_logon_sql a (escape_string ip))" "well_formed (char_count_sql a n)"
proof -
  have msg: "escape_string ''MaNGOS realmd'' = ''MaNGOS realmd''"
    "escape_string ''Failed login autoban'' = ''Failed login autoban''"
    by (simp_all add: escape_string_def special_chars)
  show "well_formed (ban_account_sql a n)"
    by (rule well_formedI [where vs = "[num_str a, num_str n, ''MaNGOS realmd'', ''Failed login autoban'']" and
        ts = "[''INSERT INTO account_banned(account_id, banned_at, expires_at, banned_by, reason, active) VALUES ('', '', UNIX_TIMESTAMP(), UNIX_TIMESTAMP()+'', '', '', '', '', '', 1)'']"])
      (simp_all add: templates_def ban_account_sql_def unescaped_num msg)
  show "well_formed (ban_ip_sql (escape_string ip) n)"
    by (rule well_formedI [where vs = "[ip, num_str n, ''MaNGOS realmd'', ''Failed login autoban'']" and
        ts = "[''INSERT INTO ip_banned VALUES ('', '', UNIX_TIMESTAMP(), UNIX_TIMESTAMP()+'', '', '', '', '', '')'']"])
      (simp_all add: templates_def ban_ip_sql_def unescaped_num msg)
  show "well_formed (log_logon_sql a (escape_string ip))"
    by (rule well_formedI [where vs = "[num_str a, ip, num_str LOGIN_TYPE_REALMD]" and
        ts = "[''INSERT INTO account_logons(accountId, ip, loginTime, loginSource) VALUES('', '', '', '', NOW(), '', '')'']"])
      (simp_all add: templates_def log_logon_sql_def unescaped_num)
  show "well_formed (char_count_sql a n)"
    by (rule well_formedI [where vs = "[num_str a, num_str n]" and
        ts = "[''SELECT CAST(numchars AS SIGNED) AS numchars FROM realmcharacters WHERE realmid = '', '' AND acctid = '', []]"])
      (simp_all add: templates_def char_count_sql_def unescaped_num)
qed

lemma well_formed_insert: "well_formed (insert_account_sql (escape_string u) (hex_str v) (hex_str s) n)"
  by (rule well_formedI [where vs = "[u, hex_str v, hex_str s, num_str n]" and
      ts = "[''INSERT INTO account(username, v, s, expansion, joindate) VALUES('', '', '', '', '', '', '', '', NOW())'']"])
    (simp_all add: templates_def insert_account_sql_def unescaped_num unescaped_hex)

lemma well_formed_update:
  "unescaped p \<Longrightarrow> well_formed (update_session_sql (hex_str k) (escape_string l) (escape_string w) p (escape_string u))"
  by (rule well_formedI [where vs = "[hex_str k, l, w, p, u]" and
      ts = "[''UPDATE account SET sessionkey = '', '', locale = '', '', failed_logins = 0, os = '', '', platform = '', '' WHERE username = '', []]"])
    (simp_all add: templates_def update_session_sql_def unescaped_hex unescaped_def)

section \<open>Invariants between actions\<close>

text \<open>\<open>I\<close> does not speak about input, output and counters, and allows the statements in
  \<open>good\<close> to be issued.\<close>

locale session_invariant =
  fixes I :: "session \<Rightarrow> bool" and good :: "string \<Rightarrow> bool"
  assumes io: "I s \<Longrightarrow> I (s\<lparr>inp := i\<rparr>)" "I s \<Longrightarrow> I (s\<lparr>out := ps, writes := w\<rparr>)"
      "I s \<Longrightarrow> I (s\<lparr>writes := w\<rparr>)" "I s \<Longrightarrow> I (s\<lparr>draws := n\<rparr>)" "I s \<Longrightarrow> I (s\<lparr>ticks := n\<rparr>)"
    and issue: "I s \<Longrightarrow> good q \<Longrightarrow> I (s\<lparr>sql_log := sql_log s @ [q]\<rparr>)"
begin

definition pres :: "'a act \<Rightarrow> bool" where
  "pres m \<longleftrightarrow> (\<forall>s. I s \<longrightarrow> I (snd (m s)))"

named_theorems pres_rules

lemma pres_pure [pres_rules]:
  "pres (retA x)" "pres (failA msg)" "pres (readA f)" "pres getA" "pres (liftA r)" "pres (some_or msg y)"
  by (auto simp: pres_def act_defs split: option.split)

lemma pres_modA [pres_rules]: "(\<And>s. I s \<Longrightarrow> I (f s)) \<Longrightarrow> pres (modA f)"
  by (auto simp: pres_def modA_def)

lemma pres_bindA: "pres m \<Longrightarrow> (\<And>x. pres (k x)) \<Longrightarrow> pres (bindA m k)"
  unfolding pres_def bindA_def by (auto split: prod.split sum.split)

lemma pres_bind_getA: "(\<And>s. I s \<Longrightarrow> pres (k s)) \<Longrightarrow> pres (bindA getA k)"
  by (auto simp: pres_def bindA_def getA_def)

lemma pres_bind_readA: "(\<And>s. I s \<Longrightarrow> pres (k (f s))) \<Longrightarrow> pres (bindA (readA f) k)"
  by (auto simp: pres_def bindA_def readA_def)

lemma pres_matchA [pres_rules]: "pres m \<Longrightarrow> (\<And>x. pres (k x)) \<Longrightarrow> pres (matchA m k)"
  unfolding pres_def matchA_def by (auto split: prod.split sum.split rust_error.split)

lemma pres_io [pres_rules]:
  "pres (read_with_timeout n)" "pres (write_with_timeout E d)" "pres (randA E g)" "pres (clockA E)"
  by (auto simp: pres_def read_with_timeout_def write_with_timeout_def randA_def clockA_def intro: io)

lemma pres_statements [pres_rules]:
  "good q \<Longrightarrow> pres (query_one E q)" "good q \<Longrightarrow> pres (query_all E q)" "good q \<Longrightarrow> pres (execute E q)"
  by (auto simp: pres_def query_one_def query_all_def execute_def intro: issue)

lemma pres_cases [pres_rules]:
  "pres m \<Longrightarrow> pres m' \<Longrightarrow> pres (if b then m else m')"
  "pres m \<Longrightarrow> (\<And>x. pres (g x)) \<Longrightarrow> pres (case y of None \<Rightarrow> m | Some x \<Rightarrow> g x)"
  "(\<And>x y. pres (h x y)) \<Longrightarrow> pres (case p of (x, y) \<Rightarrow> h x y)"
  "pres m \<Longrightarrow> pres m' \<Longrightarrow> pres (case b of True \<Rightarrow> m | False \<Rightarrow> m')"
  by (simp_all split: option.split prod.split bool.split)

end

text \<open>The platform is \<open>p\<close>; unless it needs escaping, every statement is an instance; names
  that statements use are escaped.\<close>

definition stmts_ok :: "string \<Rightarrow> session \<Rightarrow> bool" where
  "stmts_ok p s \<longleftrightarrow> platform s = p \<and> (unescaped p \<longrightarrow> list_all well_formed (sql_log s)) \<and>
     safe_login s \<in> range escape_string \<and> os s \<in> range escape_string \<and> safe_locale s \<in> range escape_string"

definition stmt_good :: "string \<Rightarrow> string \<Rightarrow> bool" where
  "stmt_good p q \<longleftrightarrow> (unescaped p \<longrightarrow> well_formed q)"

interpretation stmts: session_invariant "stmts_ok p" "stmt_good p" for p
  by unfold_locales (auto simp: stmts_ok_def stmt_good_def)

lemmas stmt_pres = stmts.pres_pure stmts.pres_bind_getA stmts.pres_bind_readA stmts.pres_bindA stmts.pres_matchA
  stmts.pres_io stmts.pres_statements stmts.pres_cases stmts.pres_modA

lemma good_names:
  "stmt_good p (ip_ban_sql E)" "u \<in> range escape_string \<Longrightarrow> stmt_good p (account_sql u)"
  "u \<in> range escape_string \<Longrightarrow> stmt_good p (count_failed_sql u)"
  "u \<in> range escape_string \<Longrightarrow> stmt_good p (failed_logins_sql u)"
  "u \<in> range escape_string \<Longrightarrow> stmt_good p (account_id_sql u)"
  "stmt_good p (session_key_sql (escape_string t))" "u \<in> range escape_string \<Longrightarrow> stmt_good p (account_level_sql u)"
  "stmt_good p realm_query" "stmt_good p (account_ban_sql n)" "stmt_good p (ban_account_sql a n)"
  "stmt_good p (ban_ip_sql (escape_string ip) n)" "stmt_good p (log_logon_sql a (escape_string ip))"
  "stmt_good p (char_count_sql a n)"
  by (auto simp: stmt_good_def well_formed_names well_formed_constant well_formed_numbers)

lemma stmts_okD:
  "stmts_ok p s \<Longrightarrow> platform s = p" "stmts_ok p s \<Longrightarrow> safe_login s \<in> range escape_string"
  "stmts_ok p s \<Longrightarrow> os s \<in> range escape_string" "stmts_ok p s \<Longrightarrow> safe_locale s \<in> range escape_string"
  by (simp_all add: stmts_ok_def)

section \<open>The handlers\<close>

lemma pres_locals:
  "stmts_ok p s \<Longrightarrow> stmts_ok p (s\<lparr>status := st\<rparr>)" "stmts_ok p s \<Longrightarrow> stmts_ok p (s\<lparr>srp := sp\<rparr>)"
  "stmts_ok p s \<Longrightarrow> stmts_ok p (s\<lparr>token := tk\<rparr>)" "stmts_ok p s \<Longrightarrow> stmts_ok p (s\<lparr>reconnect_proof := n\<rparr>)"
  "stmts_ok p s \<Longrightarrow> stmts_ok p (s\<lparr>account_security_level := l, status := st\<rparr>)"
  "stmts_ok p s \<Longrightarrow> stmts_ok p (s\<lparr>grid_seed := g, server_security_salt := n, prompt_pin := b\<rparr>)"
  "stmts_ok p s \<Longrightarrow> stmts_ok p (s\<lparr>srp := sp, status := st\<rparr>)" "stmts_ok p s \<Longrightarrow> stmts_ok p (s\<lparr>realms := rl\<rparr>)"
  "stmts_ok p s \<Longrightarrow> stmts_ok p (s\<lparr>account_security_level := l\<rparr>)"
  by (simp_all add: stmts_ok_def)

context auth_session
begin

lemma good_insert:
  "u \<in> range escape_string \<Longrightarrow>
    stmt_good p (insert_account_sql u (as_hex_str (e_crates E) v) (as_hex_str (e_crates E) w) n)"
  by (auto simp: stmt_good_def C.as_hex_str_eq well_formed_insert)

lemma good_update:
  "l \<in> range escape_string \<Longrightarrow> w \<in> range escape_string \<Longrightarrow> u \<in> range escape_string \<Longrightarrow>
    stmt_good p (update_session_sql (as_hex_str (e_crates E) k) l w p u)"
  by (auto simp: stmt_good_def C.as_hex_str_eq well_formed_update)

lemma pres_challenge_parts:
  "stmts.pres p (refuse E r)" "stmts.pres p unknown_account" "stmts.pres p (srp_challenge E ds)"
  "stmts.pres p (append_security E f pkt)" "stmts.pres p read_logon_challenge"
  unfolding refuse_def unknown_account_def srp_challenge_def append_security_def read_logon_challenge_def Let_def
  by (intro stmt_pres; assumption?; simp add: stmts_ok_def)+

lemma pres_set_credentials: "stmts.pres p (set_credentials E v sl)"
  by (auto simp: stmts.pres_def set_credentials_def Let_def pres_locals split: prod.split)

lemma pres_auto_create: "u \<in> range escape_string \<Longrightarrow> stmts.pres p (auto_create_account E name u)"
  unfolding auto_create_account_def Let_def
  by (intro stmt_pres good_insert; assumption)

lemma pres_account_found: "stmts.pres p (account_found E r)"
  unfolding account_found_def account_banned_check_def issue_challenge_def Let_def
  by (intro stmt_pres pres_challenge_parts pres_set_credentials good_names pres_locals; assumption)

lemma pres_auto_created_found: "stmts.pres p (auto_created_found E r)"
  unfolding auto_created_found_def Let_def
  by (intro stmt_pres pres_challenge_parts pres_set_credentials pres_locals; assumption)

lemma pres_account_missing: "stmts.pres p (account_missing E)"
  unfolding account_missing_def
proof (intro stmts.pres_cases(1) stmts.pres_bind_readA pres_challenge_parts, unfold prod.case)
  fix s assume "stmts_ok p s"
  then have u: "safe_login s \<in> range escape_string" by (rule stmts_okD)
  then show "stmts.pres p (matchA (auto_create_account E (login s) (safe_login s)) (\<lambda>created. case created of
          None \<Rightarrow> unknown_account
        | Some _ \<Rightarrow> bindA (query_one E (account_sql (safe_login s))) (\<lambda>r. case r of
              Some r \<Rightarrow> auto_created_found E r | None \<Rightarrow> unknown_account)))"
    by (intro stmt_pres pres_challenge_parts pres_auto_create pres_auto_created_found good_names; assumption)
qed

lemma pres_look_up_account: "stmts.pres p (look_up_account E)"
  unfolding look_up_account_def
  by (intro stmt_pres pres_challenge_parts pres_account_found pres_account_missing good_names;
      (assumption | simp only: stmts_okD)?)

text \<open>A first challenge stores the platform; nothing was issued before it.\<close>

lemma handle_logon_challenge_stmts:
  assumes "stmts_ok p s" "sql_log s = []"
  shows "\<exists>p'. stmts_ok p' (snd (handle_logon_challenge E s))"
proof -
  have rd: "stmts_ok p (snd (read_logon_challenge s))"
    using pres_challenge_parts(5) [of p] assms(1) by (simp add: stmts.pres_def)
  have log: "sql_log (snd (read_logon_challenge s)) = []"
    using wp_mono [of read_logon_challenge "\<lambda>_ s'. sql_log s' = []"] assms(2)
    by (simp add: read_logon_challenge_def act_defs read_with_timeout_def Let_def split: option.split)
  show ?thesis
  proof (cases "read_logon_challenge s")
    case (Pair r s1)
    show ?thesis
    proof (cases r)
      case (Inl e)
      with Pair rd show ?thesis by (auto simp: handle_logon_challenge_def bindA_def)
    next
      case (Inr body)
      let ?p = "platform_string body"
      have s1: "stmts_ok ?p (store_client_info body s1)"
        using log Pair by (auto simp: stmts_ok_def store_client_info_def)
      have "stmts.pres ?p (bindA (look_up_account E) (\<lambda>pkt. case pkt of
          None \<Rightarrow> retA () | Some pkt \<Rightarrow> write_with_timeout E (bb_contents pkt)))"
        by (intro stmt_pres pres_look_up_account)
      with s1 Pair Inr rd show ?thesis
        by (auto simp: handle_logon_challenge_def bindA_def [of read_logon_challenge] bindA_def [of "modA _"]
            modA_def failA_def stmts.pres_def)
    qed
  qed
qed

lemma pres_failed_login: "u \<in> range escape_string \<Longrightarrow> stmts.pres p (handle_failed_login E u)"
  unfolding handle_failed_login_def Let_def
  by (intro stmt_pres good_names; assumption)

lemma pres_replies: "stmts.pres p (send_logon_proof_error E b)" "stmts.pres p (send_proof E b sha)"
  unfolding send_logon_proof_error_def send_proof_def by (intro stmt_pres)+

lemma pres_verify_and_finalize: "stmts.pres p (verify_and_finalize E q)"
  unfolding verify_and_finalize_def Let_def
proof (intro stmts.pres_bind_getA)
  fix s assume s: "stmts_ok p s"
  note names = stmts_okD(2-4) [OF s]
  have "platform s = p" using s by (rule stmts_okD)
  then show "stmts.pres p (if \<not> verify_version E (build s) (os s) (lp_a q) (lp_crc_hash q) False then
        write_with_timeout E [auth_cmd_u8 LogonProof, logon_result_u8 FailedVersionInvalid]
      else
        matchA (execute E (update_session_sql (as_hex_str (e_crates E) (srp_k (srp s))) (safe_locale s) (os s)
                  (platform s) (safe_login s))) (\<lambda>_.
        bindA (matchA (query_one E (account_id_sql (safe_login s))) (\<lambda>r. case r of
                 Some (Some r) \<Rightarrow>
                   matchA (execute E (log_logon_sql (get_u32 r 0) (escape_string (e_ip E)))) (\<lambda>_. retA ())
               | _ \<Rightarrow> retA ())) (\<lambda>_.
        bindA (send_proof E (build s) (srp_finalize (e_crates E) (srp s) sha1_new)) (\<lambda>_.
        modA (status_update (\<lambda>_. StAuthed))))))"
    using good_update [OF names(3,2,1), of p] names
    by (intro stmt_pres pres_replies good_names pres_locals; simp)
qed

lemma pres_handle_logon_proof: "stmts.pres p (handle_logon_proof E)"
proof -
  have chk: "stmts.pres p (check_proof E q)" for q
    by (auto simp: stmts.pres_def check_proof_def Let_def pres_locals split: sum.split)
  have auth: "stmts.pres p (check_authenticator E q)" for q
    unfolding check_authenticator_def Let_def by (intro stmt_pres pres_replies)
  show ?thesis
    unfolding handle_logon_proof_def Let_def
    by (intro stmt_pres chk auth pres_replies pres_verify_and_finalize pres_failed_login pres_locals;
        (assumption | simp only: stmts_okD))
qed

lemma pres_handle_reconnect_challenge: "stmts.pres p (handle_reconnect_challenge E)"
  unfolding handle_reconnect_challenge_def read_reconnect_challenge_def Let_def
  by (intro stmt_pres good_names pres_locals; (assumption | simp add: stmts_ok_def)?)

lemma pres_handle_reconnect_proof: "stmts.pres p (handle_reconnect_proof E)"
  unfolding handle_reconnect_proof_def Let_def
  by (intro stmt_pres pres_locals; assumption)

lemma pres_realm_entries: "stmts.pres p (realm_entries E entry acct lvl b rs pkt)"
  by (induction E entry acct lvl b rs pkt rule: realm_entries.induct)
    (auto simp: get_char_count_def intro!: stmt_pres good_names)

lemma pres_refresh_realms: "stmts.pres p (refresh_realms E)"
proof -
  have "stmts.pres p (\<lambda>s. case query_all E realm_query s of (reply, s') \<Rightarrow> (Inr (), s'\<lparr>realms := f reply\<rparr>))" for f
    using stmts.pres_statements(2) [OF good_names(8), of p E]
    by (auto simp: stmts.pres_def pres_locals split: prod.split)
  then show ?thesis
    unfolding refresh_realms_def by (intro stmt_pres; assumption?)
qed

lemma pres_handle_realm_list: "stmts.pres p (handle_realm_list E)"
  unfolding handle_realm_list_def load_realm_list_def Let_def
  by (intro stmt_pres pres_realm_entries pres_refresh_realms good_names; (assumption | simp only: stmts_okD)?)

lemma dispatch_stmts:
  assumes "stmts_ok p s" "cmd = LogonChallenge \<longrightarrow> sql_log s = []"
  shows "\<exists>p'. stmts_ok p' (snd (dispatch E cmd s))"
proof (cases "cmd = LogonChallenge")
  case True
  then show ?thesis
    using handle_logon_challenge_stmts [OF assms(1)] assms(2)
    by (auto simp: bindA_def retA_def split: prod.splits sum.splits)
next
  case False
  have "stmts.pres p (dispatch E cmd)"
    using False
    by (cases cmd)
      (auto intro!: stmt_pres pres_handle_logon_proof pres_handle_reconnect_challenge pres_handle_reconnect_proof
        pres_handle_realm_list)
  with assms(1) show ?thesis by (auto simp: stmts.pres_def)
qed

lemma run_statements:
  assumes "client_run E (session_new E input rl) cmds s"
  shows "(cmds = [] \<longrightarrow> sql_log s = []) \<and> (\<exists>p. stmts_ok p s)"
  using assms
proof (induction rule: client_run.induct)
  case start
  have "[] \<in> range escape_string" by (rule image_eqI [of _ _ "[]"]) (simp_all add: escape_string_def)
  then show ?case by (simp add: session_new_def stmts_ok_def)
next
  case (step cmds s1 s2 cmd)
  then obtain p where p: "stmts_ok p s1" by blast
  from client_step_continues [OF step.hyps(2)] obtain c where c: "auth_cmd_from_u8 (hd (inp s1)) = Some c"
    "expected_status c = status s1" "dispatch E c (s1\<lparr>inp := tl (inp s1)\<rparr>) = (Inr True, s2)" by blast
  have "c = LogonChallenge \<longrightarrow> cmds = []"
    using run_invariant [OF step.hyps(1)] c(2) by (auto simp: progress_def)
  then have "c = LogonChallenge \<longrightarrow> sql_log (s1\<lparr>inp := tl (inp s1)\<rparr>) = []" using step.IH by simp
  moreover have "stmts_ok p (s1\<lparr>inp := tl (inp s1)\<rparr>)" using p by (simp add: stmts_ok_def)
  ultimately show ?case using dispatch_stmts [of p "s1\<lparr>inp := tl (inp s1)\<rparr>" c] c(3) by simp
qed

end

section \<open>Properties\<close>



text \<open>A statement read up to some point: texts each followed by a value, then the rest.\<close>

lemma sql_tokens_prefix:
  assumes "length ts = length vs" "\<And>t. t \<in> set ts \<Longrightarrow> squote \<notin> set t \<and> CHR ''#'' \<notin> set t"
    and "\<And>t. t \<in> set (tl ts) \<Longrightarrow> t \<noteq> []" "rest \<noteq> []" "hd rest \<noteq> squote"
  shows "sql_tokens (concat (map2 (\<lambda>t v. t @ quoted (escape_string v)) ts vs) @ rest) =
    map_option ((@) (concat (map2 (\<lambda>t v. map Sym t @ [Lit v]) ts vs))) (sql_tokens rest)"
  using assms(1-3)
proof (induction ts vs rule: list_induct2)
  case Nil
  then show ?case by (cases "sql_tokens rest") simp_all
next
  case (Cons t ts v vs)
  let ?r = "concat (map2 (\<lambda>t v. t @ quoted (escape_string v)) ts vs) @ rest"
  have "?r = [] \<or> hd ?r \<noteq> squote"
  proof (cases ts)
    case (Cons t' ts')
    then obtain v' vs' where "vs = v' # vs'" using Cons.hyps by (cases vs) auto
    moreover have "t' \<noteq> []" "squote \<notin> set t'" using Cons.prems Cons by auto
    ultimately show ?thesis using Cons by (cases t') auto
  qed (use assms(4,5) Cons.hyps in simp)
  then have "sql_literal (escape_string v @ squote # ?r) = Some (v, ?r)" by (rule sql_literal_escape)
  moreover have "sql_tokens ?r = map_option ((@) (concat (map2 (\<lambda>t v. map Sym t @ [Lit v]) ts vs))) (sql_tokens rest)"
    using Cons.prems by (intro Cons.IH) (auto, metis empty_iff empty_set list.set_sel(2) tl_Nil)
  ultimately show ?case
    using Cons.prems(1) [of t] by (cases "sql_tokens rest") (simp_all add: sql_tokens_text quoted_def)
qed

lemma escape_no_newline: "CHR 0x0A \<notin> set (escape_string u)"
  unfolding escape_string_single_pass by (induction u) (auto simp: esc1_def special_chars)

lemma sql_tokens_comment:
  assumes "CHR 0x0A \<notin> set s"
  shows "sql_tokens (CHR ''#'' # s) = Some []"
proof -
  have "dropWhile (\<lambda>d. d \<noteq> CHR 0x0A) s = []" using assms by auto
  then have "sql_tokens (dropWhile (\<lambda>d. d \<noteq> CHR 0x0A) s) = Some []" by (simp only: sql_tokens.simps(1))
  then show ?thesis by (simp add: squote_def)
qed

lemma sql_tokens_break:
  "sql_tokens (squote # squote # CHR ''#'' # s) = map_option ((#) (Lit [])) (sql_tokens (CHR ''#'' # s))"
  by (subst sql_tokens.simps(2)) (simp add: squote_def backslash_def del: sql_tokens.simps(2))

text \<open>A value of a quote and a hash sign, put unescaped between its quotes: the literal is
  empty and what follows it is a comment.\<close>

lemma sql_tokens_cut:
  assumes "length ts = length vs" "\<And>t. t \<in> set ts \<Longrightarrow> squote \<notin> set t \<and> CHR ''#'' \<notin> set t"
    and "\<And>t. t \<in> set (tl ts) \<Longrightarrow> t \<noteq> []" "p \<noteq> []" "squote \<notin> set p" "CHR ''#'' \<notin> set p"
    and "CHR 0x0A \<notin> set tail"
  shows "sql_tokens (concat (map2 (\<lambda>t v. t @ quoted (escape_string v)) ts vs) @ p @ squote # squote # CHR ''#'' # tail) =
    Some (concat (map2 (\<lambda>t v. map Sym t @ [Lit v]) ts vs) @ map Sym p @ [Lit []])"
proof -
  have "sql_tokens (p @ squote # squote # CHR ''#'' # tail) = Some (map Sym p @ [Lit []])"
    by (simp only: sql_tokens_text [OF assms(5,6)] sql_tokens_break sql_tokens_comment [OF assms(7)] option.map)
  moreover have "hd (p @ squote # squote # CHR ''#'' # tail) \<noteq> squote"
    using assms(4,5) by (cases p) auto
  ultimately show ?thesis
    using sql_tokens_prefix [OF assms(1-3), of "p @ squote # squote # CHR ''#'' # tail"] assms(4) by simp
qed


end
