(* ===== verification/Logging.thy ===== *)
theory Logging
  imports Rust_Std
begin

text \<open>
  The level table of \<^verbatim>\<open>crates/shared/src/log/mod.rs\<close>.  Installing the tracing
  subscribers is pure I/O and is not modelled.
\<close>

definition map_log_level :: "i32 \<Rightarrow> string" where
  "map_log_level level =
     (if level = 0 then ''error'' else if level = 1 then ''warn'' else if level = 2 then ''info''
      else if level = 3 then ''debug'' else if level = 4 then ''trace''
      else if 4 \<le>s level then ''trace'' else ''error'')"

text \<open>How much a filter lets through, from the least to the most verbose.\<close>

definition verbosity :: "string \<Rightarrow> nat" where
  "verbosity f = (if f = ''error'' then 1 else if f = ''warn'' then 2 else if f = ''info'' then 3
     else if f = ''debug'' then 4 else if f = ''trace'' then 5 else 0)"

lemma map_log_level_verbosity:
  "verbosity (map_log_level l) =
     (if sint l \<le> 0 then 1 else if sint l \<ge> 4 then 5 else nat (sint l) + 1)"
proof -
  have eqs: "l = 0 \<longleftrightarrow> sint l = 0" "l = 1 \<longleftrightarrow> sint l = 1" "l = 2 \<longleftrightarrow> sint l = 2"
    "l = 3 \<longleftrightarrow> sint l = 3" "l = 4 \<longleftrightarrow> sint l = 4"
    by (auto simp: signed_eq_0_iff intro!: signed_word_eqI)
  show ?thesis
    by (auto simp: map_log_level_def verbosity_def eqs word_sle_eq)
qed

text \<open>Raising the configured level never hides messages: the verbosity of the filter
  is monotone in the signed level, below zero it is errors only and above four everything.\<close>

theorem map_log_level_mono:
  "k \<le>s l \<Longrightarrow> verbosity (map_log_level k) \<le> verbosity (map_log_level l)"
  by (auto simp: map_log_level_verbosity word_sle_eq)

theorem map_log_level_mono_witness:
  "(- 3 :: i32) \<le>s 7 \<and> verbosity (map_log_level (- 3)) \<le> verbosity (map_log_level 7)"
proof -
  have le: "(- 3 :: i32) \<le>s 7" by (simp add: word_sle_eq)
  show ?thesis using le map_log_level_mono [OF le] by simp
qed

end
