(* ===== verification/Server.thy ===== *)
theory Server
  imports Auth_Client Logging "HOL-Library.Multiset"
begin

text \<open>
  \<^verbatim>\<open>crates/realmd/src/main.rs\<close>: the connection tracker with its limits, the guards that
  release a slot when a connection ends, and the start-up sequence up to the listener.
  Addresses are an arbitrary type.  Counters are 32-bit words with the release profile's
  wrap-around.
\<close>

section \<open>The connection tracker\<close>

record 'ip connection_tracker =
  ct_per_ip :: "'ip \<rightharpoonup> u32"
  ct_total :: u32
  ct_max_per_ip :: u32
  ct_max_total :: u32

definition tracker_new :: "u32 \<Rightarrow> u32 \<Rightarrow> 'ip connection_tracker" where
  "tracker_new max_per_ip max_total =
     \<lparr>ct_per_ip = Map.empty, ct_total = 0, ct_max_per_ip = max_per_ip, ct_max_total = max_total\<rparr>"

definition try_add :: "'ip \<Rightarrow> 'ip connection_tracker \<Rightarrow> bool \<times> 'ip connection_tracker" where
  "try_add ip t =
     (if ct_max_total t > 0 \<and> ct_total t \<ge> ct_max_total t then (False, t)
      else if ct_max_per_ip t > 0 then
        (let n = (case ct_per_ip t ip of Some c \<Rightarrow> c | None \<Rightarrow> 0);
             t = t\<lparr>ct_per_ip := (ct_per_ip t)(ip \<mapsto> n)\<rparr> in
         if n \<ge> ct_max_per_ip t then (False, t)
         else (True, t\<lparr>ct_per_ip := (ct_per_ip t)(ip \<mapsto> n + 1), ct_total := ct_total t + 1\<rparr>))
      else (True, t\<lparr>ct_total := ct_total t + 1\<rparr>))"

definition tracker_remove :: "'ip \<Rightarrow> 'ip connection_tracker \<Rightarrow> 'ip connection_tracker" where
  "tracker_remove ip t =
     (let t = (case ct_per_ip t ip of
                 None \<Rightarrow> t
               | Some n \<Rightarrow>
                   if n \<le> 1 then t\<lparr>ct_per_ip := (ct_per_ip t)(ip := None)\<rparr>
                   else t\<lparr>ct_per_ip := (ct_per_ip t)(ip \<mapsto> n - 1)\<rparr>)
      in t\<lparr>ct_total := (if ct_total t = 0 then 0 else ct_total t - 1)\<rparr>)"

section \<open>The accept loop\<close>

text \<open>The tracker and the guards alive.  A connection is accepted or rejected, or one that
  was accepted ends, by returning or by a panic, and its guard is dropped.\<close>

inductive accept_step ::
    "'ip connection_tracker \<times> 'ip multiset \<Rightarrow> 'ip connection_tracker \<times> 'ip multiset \<Rightarrow> bool" where
  accepted: "try_add ip t = (True, t') \<Longrightarrow> accept_step (t, gs) (t', add_mset ip gs)"
| rejected: "try_add ip t = (False, t') \<Longrightarrow> accept_step (t, gs) (t', gs)"
| dropped: "ip \<in># gs \<Longrightarrow> accept_step (t, gs) (tracker_remove ip t, gs - {#ip#})"

inductive_cases accept_stepE: "accept_step (t, gs) x"

definition accept_run :: "u32 \<Rightarrow> u32 \<Rightarrow> 'ip connection_tracker \<times> 'ip multiset \<Rightarrow> bool" where
  "accept_run max_per_ip max_total x \<longleftrightarrow> accept_step\<^sup>*\<^sup>* (tracker_new max_per_ip max_total, {#}) x"

text \<open>The counters agree with the guards.\<close>

definition per_ip_count :: "'ip connection_tracker \<Rightarrow> 'ip \<Rightarrow> nat" where
  "per_ip_count t ip = (case ct_per_ip t ip of None \<Rightarrow> 0 | Some c \<Rightarrow> unat c)"

definition tracker_ok :: "'ip connection_tracker \<times> 'ip multiset \<Rightarrow> bool" where
  "tracker_ok x \<longleftrightarrow> (case x of (t, gs) \<Rightarrow>
     unat (ct_total t) = size gs \<and> size gs \<le> unat (ct_max_total t) \<and>
     (if ct_max_per_ip t = 0 then ct_per_ip t = Map.empty
      else \<forall>ip. per_ip_count t ip = count gs ip \<and> count gs ip \<le> unat (ct_max_per_ip t) \<and>
        ct_per_ip t ip \<noteq> Some 0))"

lemma unat_plus_one:
  fixes c m :: u32
  assumes "unat c < unat m"
  shows "unat (c + 1) = unat c + 1"
proof -
  have "unat m < 2 ^ 32" using unsigned_less [of m] by simp
  with assms have "unat c + 1 < 2 ^ 32" by linarith
  then show ?thesis by (simp add: unat_word_ariths)
qed

lemma unat_minus_one_u32: "c \<noteq> 0 \<Longrightarrow> unat (c - 1 :: u32) = unat c - 1"
  by (simp add: unat_minus_one)

lemma per_ip_count_upd:
  "per_ip_count (t\<lparr>ct_per_ip := m, ct_total := n\<rparr>) ip = (case m ip of None \<Rightarrow> 0 | Some c \<Rightarrow> unat c)"
  "per_ip_count (t\<lparr>ct_per_ip := m\<rparr>) ip = (case m ip of None \<Rightarrow> 0 | Some c \<Rightarrow> unat c)"
  "per_ip_count (t\<lparr>ct_total := n\<rparr>) ip = per_ip_count t ip"
  by (simp_all add: per_ip_count_def)

lemma per_ip_count_default: "unat (case ct_per_ip t ip of None \<Rightarrow> 0 | Some c \<Rightarrow> c) = per_ip_count t ip"
  by (simp add: per_ip_count_def split: option.split)

lemma try_add_accepts:
  assumes "tracker_ok (t, gs)" "0 < ct_max_total t"
  shows "fst (try_add ip t) \<longleftrightarrow> size gs < unat (ct_max_total t) \<and>
    (ct_max_per_ip t = 0 \<or> count gs ip < unat (ct_max_per_ip t))"
proof -
  let ?c = "case ct_per_ip t ip of None \<Rightarrow> 0 | Some c \<Rightarrow> c"
  have total: "ct_total t \<ge> ct_max_total t \<longleftrightarrow> \<not> size gs < unat (ct_max_total t)"
    using assms(1) by (auto simp: tracker_ok_def word_le_nat_alt)
  have "ct_max_per_ip t \<noteq> 0 \<Longrightarrow> ?c \<ge> ct_max_per_ip t \<longleftrightarrow> \<not> count gs ip < unat (ct_max_per_ip t)"
    using assms(1) per_ip_count_default [of t ip] by (auto simp: tracker_ok_def word_le_nat_alt)
  with total assms(2) show ?thesis
    by (auto simp: try_add_def Let_def word_neq_0_conv)
qed

lemma try_add_ok:
  assumes ok: "tracker_ok (t, gs)" and add: "try_add ip t = (True, t')" and lim: "0 < ct_max_total t"
  shows "tracker_ok (t', add_mset ip gs)"
proof -
  have room: "size gs < unat (ct_max_total t)" "ct_max_per_ip t = 0 \<or> count gs ip < unat (ct_max_per_ip t)"
    using try_add_accepts [OF ok lim, of ip] add by auto
  have total: "unat (ct_total t + 1) = size gs + 1"
    using ok room(1) unat_plus_one [of "ct_total t" "ct_max_total t"] by (simp add: tracker_ok_def)
  show ?thesis
  proof (cases "ct_max_per_ip t = 0")
    case True
    with add have "t' = t\<lparr>ct_total := ct_total t + 1\<rparr>" by (auto simp: try_add_def split: if_splits)
    with ok True total room(1) show ?thesis by (simp add: tracker_ok_def)
  next
    case False
    let ?c = "case ct_per_ip t ip of None \<Rightarrow> 0 | Some c \<Rightarrow> c"
    have t': "t' = t\<lparr>ct_per_ip := (ct_per_ip t)(ip \<mapsto> ?c + 1), ct_total := ct_total t + 1\<rparr>"
      using add False by (auto simp: try_add_def Let_def word_neq_0_conv split: if_splits)
    have "unat ?c = count gs ip"
      using ok False per_ip_count_default [of t ip] by (auto simp: tracker_ok_def)
    then have c: "unat (?c + 1) = count gs ip + 1"
      using room(2) False unat_plus_one [of ?c "ct_max_per_ip t"] by simp
    then have "?c + 1 \<noteq> 0" by (metis Suc_eq_plus1 nat.distinct(1) unat_0)
    with ok False total c room show ?thesis
      by (auto simp: tracker_ok_def t' per_ip_count_upd per_ip_count_def)
  qed
qed

lemma try_add_rejected:
  assumes "try_add ip t = (False, t')"
  shows "t' = t"
  using assms
  by (auto simp: try_add_def Let_def map_upd_triv split: if_splits option.splits)

lemma tracker_remove_ok:
  assumes ok: "tracker_ok (t, gs)" and live: "ip \<in># gs"
  shows "tracker_ok (tracker_remove ip t, gs - {#ip#})"
proof -
  have "size gs \<noteq> 0" using live by auto
  with ok have nz: "ct_total t \<noteq> 0" by (auto simp: tracker_ok_def)
  then have total: "unat (ct_total t - 1) = size gs - 1"
    using ok unat_minus_one_u32 by (auto simp: tracker_ok_def)
  show ?thesis
  proof (cases "ct_max_per_ip t = 0")
    case True
    with ok have "tracker_remove ip t = t\<lparr>ct_total := ct_total t - 1\<rparr>"
      using nz by (simp add: tracker_remove_def tracker_ok_def)
    with ok True total live show ?thesis by (auto simp: tracker_ok_def size_Diff_singleton)
  next
    case False
    have cnt: "per_ip_count t ip = count gs ip" "0 < count gs ip"
      using ok False live by (simp_all add: tracker_ok_def count_greater_zero_iff)
    then obtain c where c: "ct_per_ip t ip = Some c" "unat c = count gs ip"
      by (cases "ct_per_ip t ip") (simp_all add: per_ip_count_def)
    with cnt(2) have "c \<noteq> 0" by (metis less_irrefl unat_0)
    note c = c this
    then have "unat (c - 1) = count gs ip - 1" using unat_minus_one_u32 by simp
    moreover have "count gs ip - 1 \<le> unat (ct_max_per_ip t)"
      using ok False by (simp add: tracker_ok_def) (metis diff_le_self le_trans)
    moreover have "c \<le> 1 \<longleftrightarrow> unat c \<le> 1" by (simp add: word_le_nat_alt)
    then have "c \<le> 1 \<longleftrightarrow> count gs ip = 1" using c(2) cnt(2) by linarith
    moreover have "\<not> c \<le> 1 \<Longrightarrow> c - 1 \<noteq> 0" by auto
    ultimately show ?thesis
      using ok False total live nz c
      by (auto simp: tracker_ok_def tracker_remove_def per_ip_count_upd per_ip_count_def Let_def size_Diff_singleton
          split: option.splits)
  qed
qed

lemma max_unchanged:
  "try_add ip t = (ok, t') \<Longrightarrow> ct_max_total t' = ct_max_total t \<and> ct_max_per_ip t' = ct_max_per_ip t"
  "ct_max_total (tracker_remove ip t) = ct_max_total t" "ct_max_per_ip (tracker_remove ip t) = ct_max_per_ip t"
  by (auto simp: try_add_def tracker_remove_def Let_def split: if_splits option.splits)

lemma accept_run_ok:
  assumes "accept_run max_per_ip max_total x" "0 < max_total"
  shows "tracker_ok x \<and> ct_max_total (fst x) = max_total \<and> ct_max_per_ip (fst x) = max_per_ip"
  using assms(1) unfolding accept_run_def
proof (induction rule: rtranclp_induct)
  case base
  show ?case by (simp add: tracker_ok_def tracker_new_def per_ip_count_def)
next
  case (step x y)
  obtain t gs where x: "x = (t, gs)" by (cases x)
  with step have inv: "tracker_ok (t, gs)" "ct_max_total t = max_total" "ct_max_per_ip t = max_per_ip" by auto
  from step.hyps(2) [unfolded x] show ?case
  proof (cases rule: accept_step.cases)
    case (accepted ip t')
    then show ?thesis using try_add_ok [OF inv(1)] inv assms(2) max_unchanged(1) [of ip t True t'] by simp
  next
    case (rejected ip t')
    then show ?thesis using try_add_rejected [of ip t t'] inv by simp
  next
    case (dropped ip)
    then show ?thesis using tracker_remove_ok [OF inv(1)] inv by (simp add: max_unchanged)
  qed
qed

text \<open>C18: with a limit on the total number of connections, at any point of the accept loop
  the counters agree with the connections alive, neither limit is exceeded, no entry is
  left behind for an address without a connection, and the next connection from an
  address is accepted exactly when both limits have room: slots are neither leaked nor
  handed out twice.\<close>

theorem connection_limits_exact:
  assumes "accept_run max_per_ip max_total (t, gs)" "0 < max_total"
  shows "unat (ct_total t) = size gs \<and> size gs \<le> unat max_total \<and>
    (max_per_ip = 0 \<or> count gs ip \<le> unat max_per_ip) \<and> dom (ct_per_ip t) \<subseteq> set_mset gs \<and>
    (fst (try_add ip t) \<longleftrightarrow>
       size gs < unat max_total \<and> (max_per_ip = 0 \<or> count gs ip < unat max_per_ip))"
proof (intro conjI)
  have ok: "tracker_ok (t, gs)" "ct_max_total t = max_total" "ct_max_per_ip t = max_per_ip"
    using accept_run_ok [OF assms] by simp_all
  show "unat (ct_total t) = size gs" "size gs \<le> unat max_total"
    "max_per_ip = 0 \<or> count gs ip \<le> unat max_per_ip"
    using ok by (simp_all add: tracker_ok_def split: if_splits)
  show "dom (ct_per_ip t) \<subseteq> set_mset gs"
  proof
    fix i assume "i \<in> dom (ct_per_ip t)"
    then obtain c where c: "ct_per_ip t i = Some c" by blast
    with ok(1) have "unat c = count gs i" "c \<noteq> 0"
      by (auto simp: tracker_ok_def per_ip_count_def split: if_splits) (metis option.case(2))
    then have "0 < count gs i" by (metis gr_zeroI unat_0 word_unat_eq_iff)
    then show "i \<in># gs" by (simp add: count_greater_zero_iff)
  qed
  show "fst (try_add ip t) \<longleftrightarrow> size gs < unat max_total \<and> (max_per_ip = 0 \<or> count gs ip < unat max_per_ip)"
    using try_add_accepts [OF ok(1)] ok assms(2) by simp
qed

theorem connection_limits_exact_witness:
  "accept_run 1 5 (snd (try_add ''a'' (tracker_new 1 5)), {#''a''#}) \<and>
   \<not> fst (try_add ''a'' (snd (try_add ''a'' (tracker_new 1 5)))) \<and>
   fst (try_add ''b'' (snd (try_add ''a'' (tracker_new 1 5))))"
proof -
  have "try_add ''a'' (tracker_new 1 5) = (True, snd (try_add ''a'' (tracker_new 1 5)))"
    by (simp add: try_add_def tracker_new_def)
  then have run: "accept_run 1 5 (snd (try_add ''a'' (tracker_new 1 5)), {#''a''#})"
    unfolding accept_run_def by (intro r_into_rtranclp accept_step.accepted)
  from run connection_limits_exact [OF run, of "''a''"] connection_limits_exact [OF run, of "''b''"]
  show ?thesis by simp
qed

section \<open>Start-up\<close>

record boot =
  bt_config :: config
  bt_console_level :: string
  bt_file_level :: string
  bt_database :: database
  bt_realms :: realm_list
  bt_sql :: "string list"
  bt_timeout :: u64
  bt_tracker :: "string connection_tracker"
  bt_bind_addr :: string
  bt_ping_secs :: u64

definition DEFAULT_REALMSERVER_PORT :: i32 where
  "DEFAULT_REALMSERVER_PORT = 3724"

definition expire_account_bans_sql :: string where
  "expire_account_bans_sql = ''UPDATE account_banned SET active = 0 WHERE expires_at <= UNIX_TIMESTAMP() AND expires_at <> banned_at''"

definition expire_ip_bans_sql :: string where
  "expire_ip_bans_sql = ''DELETE FROM ip_banned WHERE expires_at <= UNIX_TIMESTAMP() AND expires_at <> banned_at''"

text \<open>\<^verbatim>\<open>i32\<close> in decimal, as \<^verbatim>\<open>format!\<close> prints it.\<close>

definition i32_str :: "i32 \<Rightarrow> string" where
  "i32_str n = (if sint n < 0 then CHR ''-'' # dec_str (nat (- sint n)) else dec_str (nat (sint n)))"

text \<open>The sequence from the command line to the bound address: \<open>fs\<close> the configuration
  files, \<open>env\<close> the environment variables, \<open>connect\<close> the pool's connection attempt,
  \<open>engine\<close> the database, \<open>now\<close> the time of the realm query.  \<open>Inl\<close> is the error
  \<^verbatim>\<open>main\<close> returns.\<close>

definition boot_realmd ::
    "(string \<Rightarrow> string option) \<Rightarrow> (string \<Rightarrow> string option) \<Rightarrow> (string \<Rightarrow> string option) \<Rightarrow> (string \<Rightarrow> db_reply) \<Rightarrow>
     int \<Rightarrow> string \<Rightarrow> i32 option \<Rightarrow> boot result" where
  "boot_realmd fs env connect engine now config_arg log_level =
     bind_result (set_source fs config_arg ''Realmd_'' config_new) (\<lambda>(found, cfg).
     if \<not> found then Inl (Err ''Configuration file not found'')
     else
       let console_level = (case log_level of Some l \<Rightarrow> l | None \<Rightarrow> get_int_default env cfg ''LogLevel'' 2);
           file_level = get_int_default env cfg ''LogFileLevel'' console_level;
           db_string = get_string env cfg ''LoginDatabaseInfo'' in
       if db_string = [] then Inl (Err ''Database not specified'')
       else case db_initialize connect db_string (database_new ''Login'') of
         (Inl e, db) \<Rightarrow> Inl (Err ''Database connection failed'')
       | (Inr _, db) \<Rightarrow>
           let rl = realm_list_initialize now (db_query engine db realm_query)
                      (get_int_default env cfg ''RealmsStateUpdateDelay'' 20)
                      (sint (get_int_default env cfg ''RealmStaleTimeout'' 60)) realm_list_new in
           if realm_list_size rl = 0 then Inl (Err ''No realms configured'')
           else Inr
             \<lparr>bt_config = cfg, bt_console_level = map_log_level console_level,
              bt_file_level = map_log_level file_level, bt_database = db, bt_realms = rl,
              bt_sql = [realm_query, expire_account_bans_sql, expire_ip_bans_sql],
              bt_timeout = scast (get_int_default env cfg ''ConnectionTimeout'' 30),
              bt_tracker = tracker_new (get_int_default env cfg ''MaxConnectionsPerIP'' 10)
                             (get_int_default env cfg ''MaxConnections'' 1000),
              bt_bind_addr = get_string_default env cfg ''BindIP'' ''0.0.0.0'' @ '':''
                @ i32_str (get_int_default env cfg ''RealmServerPort'' DEFAULT_REALMSERVER_PORT),
              bt_ping_secs = scast (get_int_default env cfg ''MaxPingTime'' 30) * 60\<rparr>)"

text \<open>C19: the server starts only from a configuration file that was found and names a
  database it could connect to, with at least one valid realm loaded from it; it then
  polls and enforces limits with the configured values, and an \<open>Err\<close> is returned in every
  other case (a panic only from the configuration parser).\<close>

theorem boot_requires_realms:
  assumes "boot_realmd fs env connect engine now config_arg log_level = Inr b"
  shows "\<exists>content cfg. fs config_arg = Some content \<and>
      set_source fs config_arg ''Realmd_'' config_new = Inr (True, cfg) \<and> bt_config b = cfg \<and>
      get_string env cfg ''LoginDatabaseInfo'' \<noteq> [] \<and> is_connected (bt_database b) \<and>
      wf_realm_list now (bt_realms b) \<and> rls_realms (bt_realms b) \<noteq> [] \<and>
      rls_update_interval (bt_realms b) = get_int_default env cfg ''RealmsStateUpdateDelay'' 20 \<and>
      accept_run (get_int_default env cfg ''MaxConnectionsPerIP'' 10)
        (get_int_default env cfg ''MaxConnections'' 1000) (bt_tracker b, {#})"
proof -
  from assms obtain cfg where cfg: "set_source fs config_arg ''Realmd_'' config_new = Inr (True, cfg)"
    by (auto simp: boot_realmd_def split: if_splits)
  then obtain content where content: "fs config_arg = Some content"
    by (auto simp: set_source_def reload_def Let_def split: option.splits)
  let ?rl = "realm_list_initialize now (db_query engine (bt_database b) realm_query)
      (get_int_default env cfg ''RealmsStateUpdateDelay'' 20)
      (sint (get_int_default env cfg ''RealmStaleTimeout'' 60)) realm_list_new"
  have b: "bt_config b = cfg" "get_string env cfg ''LoginDatabaseInfo'' \<noteq> []" "is_connected (bt_database b)"
    "bt_realms b = ?rl" "realm_list_size ?rl \<noteq> 0"
    "bt_tracker b = tracker_new (get_int_default env cfg ''MaxConnectionsPerIP'' 10)
       (get_int_default env cfg ''MaxConnections'' 1000)"
    using assms cfg
    by (auto simp: boot_realmd_def Let_def db_initialize_def is_connected_def
        split: if_splits prod.splits sum.splits option.splits)
  have "wf_realm_list now ?rl"
    unfolding realm_list_initialize_def
    by (rule wf_update_realms) (simp_all add: realm_list_new_def wf_realm_list_def)
  moreover have "rls_update_interval ?rl = get_int_default env cfg ''RealmsStateUpdateDelay'' 20"
    by (simp add: realm_list_initialize_def update_realms_def split: sum.split)
  ultimately show ?thesis
    using content cfg b by (simp add: accept_run_def realm_list_size_def)
qed

definition sample_settings :: "(string \<times> string) list" where
  "sample_settings = [(''LoginDatabaseInfo'', ''mysql://u:p@db:3306/realmd'')]"

theorem boot_requires_realms_witness:
  "\<exists>b. boot_realmd (\<lambda>_. Some (render sample_settings)) (\<lambda>_. None) (\<lambda>_. None)
         (\<lambda>_. Reply [sample_row] 0) 100 ''realmd.conf'' None = Inr b \<and> rls_realms (bt_realms b) \<noteq> []"
proof -
  let ?fs = "\<lambda>_. Some (render sample_settings)" and ?engine = "\<lambda>_. Reply [sample_row] 0"
  obtain cfg where cfg: "set_source ?fs ''realmd.conf'' ''Realmd_'' config_new = Inr (True, cfg)"
    and get: "get_env_or_config (\<lambda>_. None) cfg key = map_of (rev sample_settings) key" for key
    using set_source_render [of sample_settings ?fs "''realmd.conf''" "''Realmd_''"]
    by (auto simp: sample_settings_def clean_key_def clean_value_def plain_char_def newline_def)
  have str: "get_string (\<lambda>_. None) cfg ''LoginDatabaseInfo'' = ''mysql://u:p@db:3306/realmd''"
    by (simp add: get_string_def get_string_default_def get sample_settings_def)
  have "\<exists>b. boot_realmd ?fs (\<lambda>_. None) (\<lambda>_. None) ?engine 100 ''realmd.conf'' None = Inr b"
    using cfg str
    by (simp add: boot_realmd_def db_initialize_def Let_def
        realm_list_size_def realm_list_initialize_def update_realms_def realm_list_new_def db_query_def
        load_realm_eq)
  then show ?thesis using boot_requires_realms by blast
qed

end
