(* ===== verification/Byte_Queue.thy ===== *)
theory Byte_Queue
  imports Byte_Buffer
begin

text \<open>
  The abstract view of the packet buffer: a stream position and the queue of bytes still to
  come.  Every method of the buffer is an operation on that view, and a sequence of
  operations gives the same answers on the buffer and on the queue, whatever the order in
  which writes, reads, skips and resets are mixed.
\<close>

section \<open>Operations and answers\<close>

datatype bb_op =
    Append bytes | WriteU8 u8 | WriteU16 u16 | WriteU32 u32 | WriteU64 u64 | WriteF32 f32 | WriteString string
  | ReadU8 | ReadU16 | ReadU32 | ReadU64 | ReadF32 | ReadString | ReadBytes nat | ReadSkip nat | Clear

datatype bb_answer =
    Ok | U8 "u8 result" | U16 "u16 result" | U32 "u32 result" | U64 "u64 result" | Str "string result"
  | Bytes "bytes result" | Skipped "unit result"

fun bb_apply :: "bb_op \<Rightarrow> byte_buffer \<Rightarrow> bb_answer \<times> byte_buffer" where
  "bb_apply (Append d) b = (Ok, append_bytes d b)"
| "bb_apply (WriteU8 v) b = (Ok, write_u8 v b)"
| "bb_apply (WriteU16 v) b = (Ok, write_u16 v b)"
| "bb_apply (WriteU32 v) b = (Ok, write_u32 v b)"
| "bb_apply (WriteU64 v) b = (Ok, write_u64 v b)"
| "bb_apply (WriteF32 v) b = (Ok, write_f32 v b)"
| "bb_apply (WriteString s) b = (Ok, write_string s b)"
| "bb_apply ReadU8 b = map_prod U8 id (read_u8 b)"
| "bb_apply ReadU16 b = map_prod U16 id (read_u16 b)"
| "bb_apply ReadU32 b = map_prod U32 id (read_u32 b)"
| "bb_apply ReadU64 b = map_prod U64 id (read_u64 b)"
| "bb_apply ReadF32 b = map_prod U32 id (read_f32 b)"
| "bb_apply ReadString b = map_prod Str id (read_string b)"
| "bb_apply (ReadBytes n) b = map_prod Bytes id (read_bytes n b)"
| "bb_apply (ReadSkip n) b = map_prod Skipped id (read_skip n b)"
| "bb_apply Clear b = (Ok, bb_clear b)"

section \<open>The queue\<close>

record byte_queue =
  bq_pos :: nat
  bq_rest :: bytes

definition bq_put :: "bytes \<Rightarrow> byte_queue \<Rightarrow> byte_queue" where
  "bq_put d q = q\<lparr>bq_rest := bq_rest q @ d\<rparr>"

definition bq_drop :: "nat \<Rightarrow> byte_queue \<Rightarrow> byte_queue" where
  "bq_drop n q = \<lparr>bq_pos = bq_pos q + n, bq_rest = drop n (bq_rest q)\<rparr>"

definition bq_take :: "nat \<Rightarrow> byte_queue \<Rightarrow> bytes result \<times> byte_queue" where
  "bq_take n q = (if n \<le> length (bq_rest q) then (Inr (take n (bq_rest q)), bq_drop n q) else (Inl past_end, q))"

definition bq_int :: "nat \<Rightarrow> byte_queue \<Rightarrow> 'a::len word result \<times> byte_queue" where
  "bq_int n q = map_prod (map_sum id from_le_bytes) id (bq_take n q)"

text \<open>A string is what comes before the first zero byte; the zero is taken too.\<close>

definition bq_string :: "byte_queue \<Rightarrow> string result \<times> byte_queue" where
  "bq_string q =
     (let s = takeWhile (\<lambda>c. c \<noteq> 0) (bq_rest q) in
      (Inr (from_utf8_lossy s), bq_drop (min (length s + 1) (length (bq_rest q))) q))"

definition guarded :: "nat \<Rightarrow> byte_queue \<Rightarrow> 'a result \<times> byte_queue \<Rightarrow> 'a result \<times> byte_queue" where
  "guarded n q r = (if bq_pos q + n \<ge> 2 ^ 64 then (Inl (Panic ''attempt to add with overflow''), q) else r)"

fun bq_apply :: "bb_op \<Rightarrow> byte_queue \<Rightarrow> bb_answer \<times> byte_queue" where
  "bq_apply (Append d) q = (Ok, bq_put d q)"
| "bq_apply (WriteU8 v) q = (Ok, bq_put [v] q)"
| "bq_apply (WriteU16 v) q = (Ok, bq_put (to_le_bytes v) q)"
| "bq_apply (WriteU32 v) q = (Ok, bq_put (to_le_bytes v) q)"
| "bq_apply (WriteU64 v) q = (Ok, bq_put (to_le_bytes v) q)"
| "bq_apply (WriteF32 v) q = (Ok, bq_put (to_le_bytes v) q)"
| "bq_apply (WriteString s) q = (Ok, bq_put (as_bytes s @ [0]) q)"
| "bq_apply ReadU8 q = map_prod (U8 \<circ> map_sum id hd) id (bq_take 1 q)"
| "bq_apply ReadU16 q = map_prod U16 id (bq_int 2 q)"
| "bq_apply ReadU32 q = map_prod U32 id (bq_int 4 q)"
| "bq_apply ReadU64 q = map_prod U64 id (bq_int 8 q)"
| "bq_apply ReadF32 q = map_prod U32 id (bq_int 4 q)"
| "bq_apply ReadString q = map_prod Str id (bq_string q)"
| "bq_apply (ReadBytes n) q = map_prod Bytes id (guarded n q (bq_take n q))"
| "bq_apply (ReadSkip n) q = map_prod Skipped id (guarded n q (Inr (), bq_drop (min n (length (bq_rest q))) q))"
| "bq_apply Clear q = (Ok, \<lparr>bq_pos = 0, bq_rest = []\<rparr>)"

section \<open>Simulation\<close>

definition queue_of :: "byte_buffer \<Rightarrow> byte_queue" where
  "queue_of b = \<lparr>bq_pos = bb_read_pos b, bq_rest = unread b\<rparr>"

lemma queue_of_sel [simp]: "bq_pos (queue_of b) = bb_read_pos b" "bq_rest (queue_of b) = unread b"
  by (simp_all add: queue_of_def)

lemma queue_put: "bb_invar b \<Longrightarrow> bq_put d (queue_of b) = queue_of (b\<lparr>bb_data := bb_data b @ d\<rparr>)"
  by (simp add: bq_put_def queue_of_def unread_def bb_invar_def)

lemma queue_drop: "bq_drop n (queue_of b) = queue_of (b\<lparr>bb_read_pos := bb_read_pos b + n\<rparr>)"
  by (simp add: bq_drop_def queue_of_def unread_def add.commute)

lemma scan_nul_takeWhile: "i \<le> length d \<Longrightarrow> scan_nul d i = i + length (takeWhile (\<lambda>c. c \<noteq> 0) (drop i d))"
proof (induction d i rule: scan_nul.induct)
  case (1 d i)
  show ?case
  proof (cases "i < length d")
    case True
    then have "drop i d = d ! i # drop (i + 1) d" by (simp add: Cons_nth_drop_Suc)
    with 1 True show ?thesis by (subst scan_nul.simps) simp
  qed (use 1 in \<open>subst scan_nul.simps; simp\<close>)
qed

lemma bb_apply_invar: "bb_invar b \<Longrightarrow> bb_invar (snd (bb_apply op b))"
  by (cases op) (simp_all add: bb_invar_write bb_invar_read)

lemma queue_string:
  assumes "bb_invar b"
  shows "bq_string (queue_of b) = map_prod id queue_of (read_string b)"
proof -
  let ?s = "takeWhile (\<lambda>c. c \<noteq> 0) (unread b)"
  have stop: "scan_nul (bb_data b) (bb_read_pos b) = bb_read_pos b + length ?s"
    using scan_nul_takeWhile assms by (simp add: bb_invar_def unread_def)
  have len: "length (unread b) = length (bb_data b) - bb_read_pos b" by (simp add: unread_def)
  have "length ?s \<le> length (unread b)" by (rule length_takeWhile_le)
  moreover have "take (length ?s) (unread b) = ?s" by (metis takeWhile_eq_take)
  ultimately show ?thesis
    using assms stop len by (auto simp: bq_string_def read_string_def Let_def bb_invar_def queue_drop unread_def [symmetric])
qed

lemma bq_apply_queue:
  assumes "bb_invar b"
  shows "bq_apply op (queue_of b) = map_prod id queue_of (bb_apply op b)"
proof (cases op)
  case ReadU8
  have "hd (take 1 (unread b)) = bb_data b ! bb_read_pos b" if "bb_read_pos b < length (bb_data b)"
    using that by (simp add: unread_def hd_drop_conv_nth)
  with ReadU8 assms show ?thesis
    by (auto simp: bq_take_def read_u8_def queue_drop bb_invar_def unread_def)
next
  case ReadString
  then show ?thesis using queue_string [OF assms] by (simp add: prod.map_comp)
qed (use assms in \<open>auto simp: queue_put bq_int_def bq_take_def guarded_def bb_write_defs bb_read_defs queue_drop
      bb_invar_def unread_def bb_clear_def min_def queue_of_def bq_put_def bq_drop_def add.commute\<close>)

fun run_ops :: "('op \<Rightarrow> 's \<Rightarrow> 'r \<times> 's) \<Rightarrow> 'op list \<Rightarrow> 's \<Rightarrow> 'r list \<times> 's" where
  "run_ops f [] s = ([], s)"
| "run_ops f (op # ops) s = (let (r, s) = f op s; (rs, s) = run_ops f ops s in (r # rs, s))"

text \<open>C31: the buffer refines a byte queue.  Any sequence of writes, reads, skips and resets that
  starts with a new buffer gives the same answers as on the queue, including the errors of
  reads past the end, and leaves the buffer with the unread bytes the queue holds.\<close>

theorem byte_buffer_refines_queue:
  "run_ops bq_apply ops \<lparr>bq_pos = 0, bq_rest = []\<rparr> = map_prod id queue_of (run_ops bb_apply ops bb_new)"
proof -
  have "bb_invar b \<Longrightarrow> run_ops bq_apply ops (queue_of b) = map_prod id queue_of (run_ops bb_apply ops b)" for b
  proof (induction ops arbitrary: b)
    case (Cons op ops)
    then show ?case
      using Cons.IH [OF bb_apply_invar [OF Cons.prems, of op]]
      by (simp add: bq_apply_queue Let_def split_beta)
  qed simp
  from this [of bb_new] show ?thesis
    by (simp add: bb_invar_def bb_new_def queue_of_def unread_def)
qed

end
