(* ===== verification/Float32.thy ===== *)
theory Float32
  imports Rust_Std
begin

text \<open>
  Rust's \<^verbatim>\<open>f32\<close> arithmetic on IEEE-754 bit patterns, as far as the extractors use it.  A
  finite value is an integer multiple of \<open>2\<^sup>-\<^sup>1\<^sup>4\<^sup>9\<close>, so sums and products are exact integer
  computations followed by one rounding to nearest, ties to even.  Where Rust leaves the
  result open (the payload of a NaN, the sign of the minimum of two zeros) the model
  fixes one admissible choice.  The lemmas give the order of the values, and that
  rounding is monotone and exact on representable values.
\<close>

section \<open>Bit patterns\<close>

definition f32_neg_bit :: "f32 \<Rightarrow> bool" where
  "f32_neg_bit x \<longleftrightarrow> 2 ^ 31 \<le> unat x"

definition f32_abs_bits :: "f32 \<Rightarrow> nat" where
  "f32_abs_bits x = unat x mod 2 ^ 31"

definition f32_pack :: "bool \<Rightarrow> nat \<Rightarrow> f32" where
  "f32_pack s n = word_of_nat ((if s then 2 ^ 31 else 0) + n)"

definition f32_is_inf :: "f32 \<Rightarrow> bool" where
  "f32_is_inf x \<longleftrightarrow> f32_abs_bits x = 0x7F800000"

definition f32_is_finite :: "f32 \<Rightarrow> bool" where
  "f32_is_finite x \<longleftrightarrow> f32_abs_bits x < 0x7F800000"

definition f32_INFINITY :: f32 where "f32_INFINITY = 0x7F800000"
definition f32_NEG_INFINITY :: f32 where "f32_NEG_INFINITY = 0xFF800000"

text \<open>The magnitude in units of \<open>2\<^sup>-\<^sup>1\<^sup>4\<^sup>9\<close>, and the signed value of a finite number.\<close>

definition f32_mag :: "nat \<Rightarrow> nat" where
  "f32_mag n = (let e = n div 2 ^ 23; f = n mod 2 ^ 23 in if e = 0 then f else (2 ^ 23 + f) * 2 ^ (e - 1))"

definition f32_int :: "f32 \<Rightarrow> int" where
  "f32_int x = (if f32_neg_bit x then - int (f32_mag (f32_abs_bits x)) else int (f32_mag (f32_abs_bits x)))"

text \<open>The magnitude \<open>m / 2\<^sup>s\<^sup>h\<close> units, rounded; the exponent field and the rounded fraction
  add up, a carry included, and what is too large is infinity.\<close>

definition f32_encode :: "nat \<Rightarrow> nat \<Rightarrow> nat" where
  "f32_encode m sh =
     (let d = max sh (log2_floor m - 23)
      in min ((d - sh) * 2 ^ 23 + round_half_even m d) 0x7F800000)"

section \<open>Operations\<close>

definition f32_neg :: "f32 \<Rightarrow> f32" where
  "f32_neg x = f32_pack (\<not> f32_neg_bit x) (f32_abs_bits x)"

definition f32_abs :: "f32 \<Rightarrow> f32" where
  "f32_abs x = f32_pack False (f32_abs_bits x)"

definition f32_add :: "f32 \<Rightarrow> f32 \<Rightarrow> f32" where
  "f32_add x y =
     (if f32_is_nan x \<or> f32_is_nan y then f32_NAN
      else if f32_is_inf x then (if f32_is_inf y \<and> x \<noteq> y then f32_NAN else x)
      else if f32_is_inf y then y
      else let k = f32_int x + f32_int y
           in if k = 0 then f32_pack (f32_neg_bit x \<and> f32_neg_bit y) 0
              else f32_pack (k < 0) (f32_encode (nat \<bar>k\<bar>) 0))"

definition f32_sub :: "f32 \<Rightarrow> f32 \<Rightarrow> f32" where
  "f32_sub x y = f32_add x (f32_neg y)"

definition f32_mul :: "f32 \<Rightarrow> f32 \<Rightarrow> f32" where
  "f32_mul x y =
     (let s = (f32_neg_bit x \<noteq> f32_neg_bit y) in
      if f32_is_nan x \<or> f32_is_nan y then f32_NAN
      else if f32_is_inf x \<or> f32_is_inf y
      then (if f32_abs_bits x = 0 \<or> f32_abs_bits y = 0 then f32_NAN else f32_pack s 0x7F800000)
      else f32_pack s (f32_encode (f32_mag (f32_abs_bits x) * f32_mag (f32_abs_bits y)) 149))"

text \<open>A quotient is computed to more bits than a result can have; whether it is exact goes
  into the last of them.\<close>

definition f32_div :: "f32 \<Rightarrow> f32 \<Rightarrow> f32" where
  "f32_div x y =
     (let s = (f32_neg_bit x \<noteq> f32_neg_bit y) in
      if f32_is_nan x \<or> f32_is_nan y then f32_NAN
      else if f32_is_inf x then (if f32_is_inf y then f32_NAN else f32_pack s 0x7F800000)
      else if f32_is_inf y then f32_pack s 0
      else if f32_abs_bits y = 0 then (if f32_abs_bits x = 0 then f32_NAN else f32_pack s 0x7F800000)
      else let n = f32_mag (f32_abs_bits x) * 2 ^ 349; d = f32_mag (f32_abs_bits y)
           in f32_pack s (f32_encode (2 * (n div d) + (if n mod d = 0 then 0 else 1)) 201))"

text \<open>Order: \<open>-0.0\<close> and \<open>0.0\<close> are equal, a NaN is not comparable.\<close>

definition f32_ord :: "f32 \<Rightarrow> int" where
  "f32_ord x = (if f32_neg_bit x then - int (f32_abs_bits x) else int (f32_abs_bits x))"

definition f32_lt :: "f32 \<Rightarrow> f32 \<Rightarrow> bool" where
  "f32_lt x y \<longleftrightarrow> \<not> f32_is_nan x \<and> \<not> f32_is_nan y \<and> f32_ord x < f32_ord y"

definition f32_le :: "f32 \<Rightarrow> f32 \<Rightarrow> bool" where
  "f32_le x y \<longleftrightarrow> \<not> f32_is_nan x \<and> \<not> f32_is_nan y \<and> f32_ord x \<le> f32_ord y"

definition f32_min :: "f32 \<Rightarrow> f32 \<Rightarrow> f32" where
  "f32_min x y = (if f32_is_nan x then y else if f32_is_nan y then x else if f32_ord y < f32_ord x then y else x)"

definition f32_max :: "f32 \<Rightarrow> f32 \<Rightarrow> f32" where
  "f32_max x y = (if f32_is_nan x then y else if f32_is_nan y then x else if f32_ord x < f32_ord y then y else x)"

section \<open>Fields\<close>

lemma f32_abs_bits_less [simp]: "f32_abs_bits x < 2147483648"
  by (simp add: f32_abs_bits_def)

lemma f32_is_nan_bits: "f32_is_nan x \<longleftrightarrow> 0x7F800000 < f32_abs_bits x"
proof -
  have "x AND 0x7FFFFFFF = take_bit 31 x" by (simp add: take_bit_eq_mask mask_eq_exp_minus_1)
  then have "unat (x AND 0x7FFFFFFF) = f32_abs_bits x"
    by (simp add: unat_mod_distrib take_bit_eq_mod f32_abs_bits_def)
  then show ?thesis by (simp add: f32_is_nan_def word_less_nat_alt)
qed

lemma f32_kinds:
  "f32_is_finite x \<Longrightarrow> \<not> f32_is_nan x" "f32_is_finite x \<Longrightarrow> \<not> f32_is_inf x" "f32_is_inf x \<Longrightarrow> \<not> f32_is_nan x"
  "\<not> f32_is_nan x \<Longrightarrow> \<not> f32_is_inf x \<Longrightarrow> f32_is_finite x"
  by (auto simp: f32_is_finite_def f32_is_inf_def f32_is_nan_bits)

lemma unat_f32: "unat (x :: f32) = (if f32_neg_bit x then 2 ^ 31 else 0) + f32_abs_bits x"
proof (cases "f32_neg_bit x")
  case True
  then have "unat x - 2 ^ 31 < 2 ^ 31" using unat_u32_less [of x] by (simp add: f32_neg_bit_def del: unat_u32_less)
  with True have "unat x mod 2 ^ 31 = unat x - 2 ^ 31"
    using mod_less le_mod_geq by (metis f32_neg_bit_def)
  with True show ?thesis by (simp add: f32_neg_bit_def f32_abs_bits_def)
qed (simp add: f32_neg_bit_def f32_abs_bits_def)

lemma f32_pack_fields [simp]:
  assumes "n < 2 ^ 31"
  shows "f32_neg_bit (f32_pack s n) = s" "f32_abs_bits (f32_pack s n) = n"
proof -
  have "(if s then 2 ^ 31 else 0) + n < 2 ^ 32" using assms by auto
  then have "unat (f32_pack s n) = (if s then 2 ^ 31 else 0) + n"
    unfolding f32_pack_def by (subst unat_of_nat) simp
  then show "f32_neg_bit (f32_pack s n) = s" "f32_abs_bits (f32_pack s n) = n"
    using assms by (auto simp: f32_neg_bit_def f32_abs_bits_def)
qed

lemma f32_pack_self [simp]: "f32_pack (f32_neg_bit x) (f32_abs_bits x) = x"
  unfolding f32_pack_def by (subst unat_f32 [of x, symmetric]) simp

lemma f32_constants:
  "f32_abs_bits f32_INFINITY = 0x7F800000" "\<not> f32_neg_bit f32_INFINITY"
  "f32_abs_bits f32_NEG_INFINITY = 0x7F800000" "f32_neg_bit f32_NEG_INFINITY"
  "f32_is_nan f32_NAN"
  by (simp_all add: f32_INFINITY_def f32_NEG_INFINITY_def f32_abs_bits_def f32_neg_bit_def f32_is_nan_def f32_NAN_def)

section \<open>Rounding is monotone and exact\<close>

lemma log2_floor_bounds:
  "0 < n \<Longrightarrow> 2 ^ log2_floor n \<le> n \<and> n < 2 ^ Suc (log2_floor n)"
proof (induction n rule: log2_floor.induct)
  case (1 n)
  show ?case
  proof (cases "n < 2")
    case True
    with 1 show ?thesis by (simp add: log2_floor.simps [of n])
  next
    case False
    let ?l = "log2_floor (n div 2)"
    have "2 ^ ?l \<le> n div 2" "n div 2 < 2 ^ Suc ?l" using 1 False by auto
    then have "2 * 2 ^ ?l \<le> n" "n < 2 * 2 ^ Suc ?l" by linarith+
    then show ?thesis using False by (subst (1 2) log2_floor.simps) simp
  qed
qed

lemma pow2_less: "(2 :: nat) ^ a < 2 ^ b \<longleftrightarrow> a < b"
  by simp

lemma log2_floor_mono:
  assumes "m \<le> n"
  shows "log2_floor m \<le> log2_floor n"
proof (cases "m = 0")
  case False
  then have "(2 :: nat) ^ log2_floor m < 2 ^ Suc (log2_floor n)"
    using log2_floor_bounds [of m] log2_floor_bounds [of n] assms by linarith
  then show ?thesis by (simp only: pow2_less less_Suc_eq_le)
qed (simp add: log2_floor.simps)

lemma round_half_even_mono:
  assumes "m \<le> n"
  shows "round_half_even m k \<le> round_half_even n k"
proof (cases "m div 2 ^ k = n div 2 ^ k")
  case True
  have "m mod 2 ^ k \<le> n mod 2 ^ k"
    using True assms by (metis add_le_cancel_left mult_div_mod_eq)
  with True show ?thesis by (auto simp: round_half_even_def Let_def)
next
  case False
  then have "m div 2 ^ k < n div 2 ^ k" using assms div_le_mono [of m n "2 ^ k"] by linarith
  then show ?thesis by (auto simp: round_half_even_def Let_def)
qed

lemma round_half_even_exact [simp]: "round_half_even (q * 2 ^ k) k = q"
  by (simp add: round_half_even_def)

lemma round_half_even_between:
  assumes "a * 2 ^ k \<le> n" "n \<le> b * 2 ^ k"
  shows "a \<le> round_half_even n k" "round_half_even n k \<le> b"
  using round_half_even_mono [OF assms(1), of k] round_half_even_mono [OF assms(2), of k] by simp_all

text \<open>Before the cut at infinity.\<close>

definition f32_raw :: "nat \<Rightarrow> nat \<Rightarrow> nat" where
  "f32_raw m sh = (let d = max sh (log2_floor m - 23) in (d - sh) * 2 ^ 23 + round_half_even m d)"

lemma f32_encode_raw: "f32_encode m sh = min (f32_raw m sh) 0x7F800000"
  by (simp add: f32_encode_def f32_raw_def Let_def)

lemma carry: "p \<le> 2 ^ 24 \<Longrightarrow> 2 ^ 23 \<le> q \<Longrightarrow> Suc a \<le> b \<Longrightarrow> a * 2 ^ 23 + p \<le> b * 2 ^ 23 + (q :: nat)"
  by simp

lemma f32_raw_mono:
  assumes "m \<le> n"
  shows "f32_raw m sh \<le> f32_raw n sh"
proof -
  let ?d = "\<lambda>x. max sh (log2_floor x - 23)"
  have le: "?d m \<le> ?d n" using log2_floor_mono [OF assms] by linarith
  show ?thesis
  proof (cases "?d m = ?d n")
    case True
    then show ?thesis using round_half_even_mono [OF assms, of "?d n"] by (simp add: f32_raw_def Let_def)
  next
    case False
    then have lt: "?d m < ?d n" using le by linarith
    then have dn: "?d n = log2_floor n - 23" "23 < log2_floor n" by (auto simp: max_def split: if_splits)
    have "m \<le> 2 ^ 24 * 2 ^ ?d m"
    proof (cases "m = 0")
      case False
      then have "m < 2 ^ Suc (log2_floor m)" using log2_floor_bounds by blast
      also have "\<dots> \<le> 2 ^ (24 + ?d m)" by (rule power_increasing) auto
      finally show ?thesis by (simp add: power_add)
    qed simp
    then have "round_half_even m (?d m) \<le> 2 ^ 24" by (intro round_half_even_between(2) [of 0]) auto
    moreover have "2 ^ 23 * 2 ^ ?d n \<le> n"
    proof -
      have "2 ^ 23 * 2 ^ ?d n = (2 :: nat) ^ log2_floor n"
        using dn by (simp only: power_add [symmetric]) simp
      moreover have "0 < n" using dn(2) by (rule contrapos_pp) (simp add: log2_floor.simps)
      ultimately show ?thesis using log2_floor_bounds [of n] by simp
    qed
    then have "2 ^ 23 \<le> round_half_even n (?d n)" by (rule round_half_even_between(1) [where b = n]) simp
    moreover have "Suc (?d m - sh) \<le> ?d n - sh" using lt by linarith
    ultimately show ?thesis unfolding f32_raw_def Let_def by (intro carry)
  qed
qed

lemma f32_mag_exact:
  assumes "n < 2 ^ 31"
  shows "f32_raw (f32_mag n * 2 ^ sh) sh = n"
proof -
  let ?e = "n div 2 ^ 23" and ?f = "n mod 2 ^ 23"
  have n: "n = ?e * 2 ^ 23 + ?f" by (metis div_mult_mod_eq)
  have log: "log2_floor (a * 2 ^ k) = 23 + k" if "2 ^ 23 \<le> a" "a < 2 ^ 24" for a k :: nat
  proof -
    have p: "0 < a * 2 ^ k" using that by simp
    have "(2 :: nat) ^ (23 + k) \<le> a * 2 ^ k" "a * 2 ^ k < 2 ^ (24 + k)"
      using that by (simp_all add: power_add)
    then have "(2 :: nat) ^ (23 + k) < 2 ^ Suc (log2_floor (a * 2 ^ k))" "(2 :: nat) ^ log2_floor (a * 2 ^ k) < 2 ^ (24 + k)"
      using log2_floor_bounds [OF p] by linarith+
    then have "23 + k < Suc (log2_floor (a * 2 ^ k))" "log2_floor (a * 2 ^ k) < 24 + k"
      by (simp_all only: pow2_less)
    then show ?thesis by linarith
  qed
  show ?thesis
  proof (cases "?e = 0")
    case True
    have "log2_floor (?f * 2 ^ sh) - 23 \<le> sh"
    proof (cases "?f = 0")
      case False
      then have "(2 :: nat) ^ log2_floor (?f * 2 ^ sh) \<le> ?f * 2 ^ sh" using log2_floor_bounds by simp
      also have "\<dots> < 2 ^ (23 + sh)" by (simp add: power_add)
      finally show ?thesis by (simp only: pow2_less)
    qed (simp add: log2_floor.simps)
    with True n show ?thesis by (simp add: f32_mag_def f32_raw_def)
  next
    case False
    let ?k = "?e - 1 + sh"
    have m: "f32_mag n * 2 ^ sh = (2 ^ 23 + ?f) * 2 ^ ?k"
      using False by (simp only: f32_mag_def Let_def power_add mult.assoc if_False)
    have "log2_floor ((2 ^ 23 + ?f) * 2 ^ ?k) = 23 + ?k" by (rule log) auto
    then have d: "max sh (log2_floor ((2 ^ 23 + ?f) * 2 ^ ?k) - 23) = ?k" by simp
    have "f32_raw (f32_mag n * 2 ^ sh) sh = (?k - sh) * 2 ^ 23 + (2 ^ 23 + ?f)"
      unfolding m f32_raw_def Let_def d by (simp only: round_half_even_exact)
    also have "\<dots> = ?e * 2 ^ 23 + ?f" using False by (cases ?e) simp_all
    finally show ?thesis using n by simp
  qed
qed

section \<open>Values and order\<close>

lemma f32_mag_le_iff:
  assumes "a < 2 ^ 31" "b < 2 ^ 31"
  shows "f32_mag a \<le> f32_mag b \<longleftrightarrow> a \<le> b"
proof -
  have le: "f32_mag u \<le> f32_mag v \<Longrightarrow> u \<le> v" if "u < 2 ^ 31" "v < 2 ^ 31" for u v
    using f32_raw_mono [of "f32_mag u" "f32_mag v" 0] f32_mag_exact [OF that(1), of 0] f32_mag_exact [OF that(2), of 0]
    by simp
  show ?thesis using le [OF assms] le [OF assms(2,1)] by (metis linorder_le_cases order.antisym order.refl)
qed

lemma f32_mag_0 [simp]: "f32_mag 0 = 0"
  by (simp add: f32_mag_def)

lemma f32_mag_eq_0 [simp]: "f32_mag (f32_abs_bits x) = 0 \<longleftrightarrow> f32_abs_bits x = 0"
  using f32_mag_le_iff [of "f32_abs_bits x" 0] by simp

lemma f32_int_le_iff: "f32_int x \<le> f32_int y \<longleftrightarrow> f32_ord x \<le> f32_ord y"
proof -
  have m: "f32_mag (f32_abs_bits u) \<le> f32_mag (f32_abs_bits v) \<longleftrightarrow> f32_abs_bits u \<le> f32_abs_bits v" for u v
    by (rule f32_mag_le_iff) simp_all
  have z: "- int a \<le> int b" "int a \<le> - int b \<longleftrightarrow> a = 0 \<and> b = 0" for a b by auto
  show ?thesis
    unfolding f32_int_def f32_ord_def
    by (cases "f32_neg_bit x"; cases "f32_neg_bit y") (simp_all add: m z)
qed

text \<open>Rounding a signed number of units.\<close>

definition f32_rnd :: "int \<Rightarrow> nat \<Rightarrow> int" where
  "f32_rnd k sh = sgn k * int (f32_encode (nat \<bar>k\<bar>) sh)"

lemma f32_encode_mono: "m \<le> n \<Longrightarrow> f32_encode m sh \<le> f32_encode n sh"
  using f32_raw_mono by (simp add: f32_encode_raw min.coboundedI1)

lemma f32_encode_le [simp]: "f32_encode m sh \<le> 2139095040"
  by (simp add: f32_encode_raw)

lemma f32_encode_less [simp]: "f32_encode m sh < 2147483648"
  using f32_encode_le [of m sh] by linarith

lemma f32_encode_0 [simp]: "f32_encode 0 sh = 0"
  by (simp add: f32_encode_def round_half_even_def log2_floor.simps)

lemma f32_rnd_mono: "j \<le> k \<Longrightarrow> f32_rnd j sh \<le> f32_rnd k sh"
proof -
  assume le: "j \<le> k"
  consider "0 \<le> j" | "j < 0" "0 \<le> k" | "k < 0" using le by linarith
  then show ?thesis
  proof cases
    case 1
    then have "int (f32_encode (nat \<bar>j\<bar>) sh) \<le> int (f32_encode (nat \<bar>k\<bar>) sh)"
      using le by (simp add: f32_encode_mono)
    with 1 le show ?thesis by (cases "j = 0") (simp_all add: f32_rnd_def sgn_if)
  next
    case 2
    then show ?thesis by (simp add: f32_rnd_def sgn_if)
  next
    case 3
    then have "int (f32_encode (nat \<bar>k\<bar>) sh) \<le> int (f32_encode (nat \<bar>j\<bar>) sh)"
      using le by (simp add: f32_encode_mono)
    with 3 le show ?thesis by (simp add: f32_rnd_def sgn_if)
  qed
qed

lemma sgn_f32_int: "sgn (f32_int x) = (if f32_abs_bits x = 0 then 0 else if f32_neg_bit x then - 1 else 1)"
  by (auto simp: f32_int_def sgn_if)

lemma f32_rnd_exact:
  assumes "f32_is_finite x"
  shows "f32_rnd (f32_int x * 2 ^ sh) sh = f32_ord x"
proof -
  let ?n = "f32_abs_bits x"
  have e: "f32_encode (f32_mag ?n * 2 ^ sh) sh = ?n"
    using assms f32_mag_exact [of ?n sh] by (simp add: f32_encode_raw f32_is_finite_def)
  have "nat \<bar>f32_int x * 2 ^ sh\<bar> = f32_mag ?n * 2 ^ sh"
    by (auto simp: f32_int_def abs_mult nat_mult_distrib nat_power_eq)
  moreover have "sgn (f32_int x * 2 ^ sh) = (if ?n = 0 then 0 else if f32_neg_bit x then - 1 else 1)"
    by (simp add: sgn_mult sgn_f32_int)
  ultimately show ?thesis using e by (auto simp: f32_rnd_def f32_ord_def)
qed

lemma f32_finite_ord: "f32_is_finite x \<longleftrightarrow> \<bar>f32_ord x\<bar> < 0x7F800000"
  by (auto simp: f32_is_finite_def f32_ord_def)

lemma f32_ord_pack: "n < 2 ^ 31 \<Longrightarrow> f32_ord (f32_pack s n) = (if s then - int n else int n)"
  by (simp add: f32_ord_def)

lemma f32_ord_add:
  assumes "f32_is_finite x" "f32_is_finite y"
  shows "f32_ord (f32_add x y) = f32_rnd (f32_int x + f32_int y) 0"
  using f32_kinds(1,2) [OF assms(1)] f32_kinds(1,2) [OF assms(2)]
  by (auto simp: f32_add_def Let_def f32_kinds assms f32_ord_pack f32_rnd_def sgn_if)

lemma f32_ord_mul:
  assumes "f32_is_finite x" "f32_is_finite y"
  shows "f32_ord (f32_mul x y) = f32_rnd (f32_int x * f32_int y) 149"
proof -
  let ?m = "f32_mag (f32_abs_bits x)" and ?n = "f32_mag (f32_abs_bits y)"
  have "nat \<bar>f32_int x * f32_int y\<bar> = ?m * ?n"
    by (auto simp: f32_int_def abs_mult nat_mult_distrib)
  moreover have "sgn (f32_int x * f32_int y) = (if ?m * ?n = 0 then 0 else if f32_neg_bit x = f32_neg_bit y then 1 else - 1)"
    by (simp add: sgn_mult sgn_f32_int)
  ultimately show ?thesis
    using f32_kinds(1,2) [OF assms(1)] f32_kinds(1,2) [OF assms(2)]
    by (auto simp: f32_mul_def Let_def f32_ord_pack f32_rnd_def)
qed

section \<open>The middle of an interval\<close>

definition f32_half :: f32 where "f32_half = 0x3F000000"

lemma f32_half_value: "f32_is_finite f32_half" "f32_int f32_half = 2 ^ 148"
  by (simp_all add: f32_half_def f32_is_finite_def f32_int_def f32_abs_bits_def f32_neg_bit_def f32_mag_def)

lemma f32_double:
  assumes "f32_abs_bits x < 0x7F000000"
  shows "\<exists>z. f32_is_finite z \<and> f32_int z = 2 * f32_int x"
proof -
  let ?n = "f32_abs_bits x"
  let ?m = "if ?n < 2 ^ 23 then 2 * ?n else ?n + 2 ^ 23"
  have less: "?m < 0x7F800000" using assms by auto
  have "f32_mag ?m = 2 * f32_mag ?n"
  proof (cases "?n < 2 ^ 23")
    case True
    show ?thesis
    proof (cases "?n < 2 ^ 22")
      case False
      then have "(2 * ?n) div 2 ^ 23 = 1" "(2 * ?n) mod 2 ^ 23 = 2 * ?n - 2 ^ 23"
        using True by (auto simp: le_mod_geq)
      then show ?thesis using True False by (simp add: f32_mag_def)
    qed (use True in \<open>simp add: f32_mag_def\<close>)
  next
    case False
    then obtain e where e: "?n div 2 ^ 23 = Suc e" by (cases "?n div 2 ^ 23") auto
    have "(?n + 2 ^ 23) div 2 ^ 23 = Suc (Suc e)" "(?n + 2 ^ 23) mod 2 ^ 23 = ?n mod 2 ^ 23" using e by simp_all
    then show ?thesis using False e by (simp add: f32_mag_def)
  qed
  then have "f32_int (f32_pack (f32_neg_bit x) ?m) = 2 * f32_int x"
    using less by (simp add: f32_int_def)
  moreover have "f32_is_finite (f32_pack (f32_neg_bit x) ?m)" using less by (simp add: f32_is_finite_def)
  ultimately show ?thesis by blast
qed

text \<open>\<^verbatim>\<open>0.5 * (lo + hi)\<close> lies between \<^verbatim>\<open>lo\<close> and \<^verbatim>\<open>hi\<close>, as long as the sum cannot overflow.\<close>

lemma f32_middle:
  assumes "f32_abs_bits x < 0x7F000000" "f32_abs_bits y < 0x7F000000" "f32_ord x \<le> f32_ord y"
  defines "m \<equiv> f32_mul f32_half (f32_add x y)"
  shows "f32_is_finite (f32_add x y) \<and> f32_is_finite m \<and> f32_ord x \<le> f32_ord m \<and> f32_ord m \<le> f32_ord y"
proof -
  have fin: "f32_is_finite x" "f32_is_finite y" using assms(1,2) by (simp_all add: f32_is_finite_def)
  have le: "f32_int x \<le> f32_int y" using assms(3) by (simp add: f32_int_le_iff)
  obtain u v where uv: "f32_is_finite u" "f32_int u = 2 * f32_int x" "f32_is_finite v" "f32_int v = 2 * f32_int y"
    using f32_double assms(1,2) by meson
  let ?s = "f32_add x y"
  have s: "f32_ord u \<le> f32_ord ?s" "f32_ord ?s \<le> f32_ord v"
    using f32_rnd_mono [of "f32_int u" "f32_int x + f32_int y" 0] f32_rnd_mono [of "f32_int x + f32_int y" "f32_int v" 0]
      f32_rnd_exact [OF uv(1), of 0] f32_rnd_exact [OF uv(3), of 0] le uv f32_ord_add [OF fin] by simp_all
  then have sf: "f32_is_finite ?s" using uv(1,3) by (auto simp: f32_finite_ord)
  have si: "2 * f32_int x \<le> f32_int ?s" "f32_int ?s \<le> 2 * f32_int y"
    using s uv f32_int_le_iff by metis+
  have "f32_ord m = f32_rnd (2 ^ 148 * f32_int ?s) 149"
    unfolding m_def using f32_ord_mul [OF f32_half_value(1) sf] f32_half_value(2) by simp
  moreover have "f32_int x * 2 ^ 149 \<le> 2 ^ 148 * f32_int ?s" "2 ^ 148 * f32_int ?s \<le> f32_int y * 2 ^ 149"
    using si by simp_all
  ultimately have "f32_ord x \<le> f32_ord m" "f32_ord m \<le> f32_ord y"
    using f32_rnd_mono f32_rnd_exact fin by metis+
  moreover from this have "f32_is_finite m" using fin by (auto simp: f32_finite_ord)
  ultimately show ?thesis using sf by simp
qed

section \<open>Conversions\<close>

text \<open>\<^verbatim>\<open>as u8\<close> and \<^verbatim>\<open>as u16\<close> truncate and saturate, a NaN gives zero; \<^verbatim>\<open>as f32\<close> rounds.\<close>

definition f32_to_nat :: "nat \<Rightarrow> f32 \<Rightarrow> nat" where
  "f32_to_nat limit x =
     (if f32_is_nan x \<or> f32_neg_bit x then 0
      else if f32_is_inf x then limit
      else min limit (f32_mag (f32_abs_bits x) div 2 ^ 149))"

definition f32_of_nat :: "nat \<Rightarrow> f32" where
  "f32_of_nat n = f32_pack False (f32_encode (n * 2 ^ 149) 0)"

definition f32_of_int :: "int \<Rightarrow> f32" where
  "f32_of_int k = (if k < 0 then f32_neg (f32_of_nat (nat (- k))) else f32_of_nat (nat k))"

definition f32_clamp :: "f32 \<Rightarrow> f32 \<Rightarrow> f32 \<Rightarrow> f32" where
  "f32_clamp lo hi x = (let y = (if f32_lt x lo then lo else x) in if f32_lt hi y then hi else y)"

definition f32_EPSILON :: f32 where "f32_EPSILON = 0x34000000"

section \<open>Square roots\<close>

text \<open>The root of the magnitude to more bits than a result can have; whether it is exact goes
  into the last of them.\<close>

fun isqrt :: "nat \<Rightarrow> nat" where
  "isqrt n =
     (if n = 0 then 0
      else let r = 2 * isqrt (n div 4) in if (r + 1) * (r + 1) \<le> n then r + 1 else r)"

declare isqrt.simps [simp del]

lemma isqrt_bounds: "isqrt n * isqrt n \<le> n \<and> n < (isqrt n + 1) * (isqrt n + 1)"
proof (induction n rule: isqrt.induct)
  case (1 n)
  show ?case
  proof (cases "n = 0")
    case False
    define r where "r = isqrt (n div 4)"
    have r: "r * r \<le> n div 4" "n div 4 < (r + 1) * (r + 1)" using 1 False by (simp_all add: r_def)
    have "2 * r * (2 * r) \<le> n" using r(1) by simp
    moreover have "n < (2 * r + 2) * (2 * r + 2)" using r(2) by (simp add: algebra_simps)
    ultimately show ?thesis using False by (subst (1 2 3 4) isqrt.simps) (simp add: Let_def r_def [symmetric])
  qed (simp add: isqrt.simps)
qed

definition f32_sqrt :: "f32 \<Rightarrow> f32" where
  "f32_sqrt x =
     (if f32_is_nan x then f32_NAN
      else if f32_abs_bits x = 0 then x
      else if f32_neg_bit x then f32_NAN
      else if f32_is_inf x then x
      else let m = f32_mag (f32_abs_bits x) * 2 ^ 551; r = isqrt m
           in f32_pack False (f32_encode (2 * r + (if r * r = m then 0 else 1)) 202))"

end
