(* ===== verification/Bih.thy ===== *)
theory Bih
  imports Float32
begin

text \<open>
  The bounding interval hierarchy of \<^verbatim>\<open>crates/extractors/src/vmap_assemble.rs\<close>: boxes, the
  partition of the primitives at a split plane, the loop that looks for a useful split,
  and the recursive construction of the flat node array.  The search loop need not end on
  every input (\<open>None\<close> is "does not return"); slice accesses are checked and a failed one is a
  panic.  \<^verbatim>\<open>i32\<close> positions are integers.
\<close>

section \<open>Vectors and boxes\<close>

record vec3 =
  vx :: f32
  vy :: f32
  vz :: f32

definition vec3_new :: "f32 \<Rightarrow> f32 \<Rightarrow> f32 \<Rightarrow> vec3" where
  "vec3_new x y z = \<lparr>vx = x, vy = y, vz = z\<rparr>"

definition vec3_default :: vec3 where
  "vec3_default = vec3_new 0 0 0"

definition vec3_min :: "vec3 \<Rightarrow> vec3 \<Rightarrow> vec3" where
  "vec3_min a b = vec3_new (f32_min (vx a) (vx b)) (f32_min (vy a) (vy b)) (f32_min (vz a) (vz b))"

definition vec3_max :: "vec3 \<Rightarrow> vec3 \<Rightarrow> vec3" where
  "vec3_max a b = vec3_new (f32_max (vx a) (vx b)) (f32_max (vy a) (vy b)) (f32_max (vz a) (vz b))"

definition vec3_add :: "vec3 \<Rightarrow> vec3 \<Rightarrow> vec3" where
  "vec3_add a b = vec3_new (f32_add (vx a) (vx b)) (f32_add (vy a) (vy b)) (f32_add (vz a) (vz b))"

definition vec3_sub :: "vec3 \<Rightarrow> vec3 \<Rightarrow> vec3" where
  "vec3_sub a b = vec3_new (f32_sub (vx a) (vx b)) (f32_sub (vy a) (vy b)) (f32_sub (vz a) (vz b))"

definition vec3_scale :: "vec3 \<Rightarrow> f32 \<Rightarrow> vec3" where
  "vec3_scale a s = vec3_new (f32_mul (vx a) s) (f32_mul (vy a) s) (f32_mul (vz a) s)"

record aabox =
  bx_min :: vec3
  bx_max :: vec3

definition aabox_default :: aabox where
  "aabox_default = \<lparr>bx_min = vec3_default, bx_max = vec3_default\<rparr>"

definition aabox_from_point :: "vec3 \<Rightarrow> aabox" where
  "aabox_from_point p = \<lparr>bx_min = p, bx_max = p\<rparr>"

definition aabox_merge :: "aabox \<Rightarrow> vec3 \<Rightarrow> aabox" where
  "aabox_merge b p = \<lparr>bx_min = vec3_min (bx_min b) p, bx_max = vec3_max (bx_max b) p\<rparr>"

definition aabox_add :: "aabox \<Rightarrow> vec3 \<Rightarrow> aabox" where
  "aabox_add b v = \<lparr>bx_min = vec3_add (bx_min b) v, bx_max = vec3_add (bx_max b) v\<rparr>"

text \<open>\<^verbatim>\<open>match axis { 0 => v.x, 1 => v.y, _ => v.z }\<close>, read and written.\<close>

definition coord :: "int \<Rightarrow> vec3 \<Rightarrow> f32" where
  "coord axis v = (if axis = 0 then vx v else if axis = 1 then vy v else vz v)"

definition set_coord :: "int \<Rightarrow> f32 \<Rightarrow> vec3 \<Rightarrow> vec3" where
  "set_coord axis c v = (if axis = 0 then v\<lparr>vx := c\<rparr> else if axis = 1 then v\<lparr>vy := c\<rparr> else v\<lparr>vz := c\<rparr>)"

section \<open>Slices\<close>

definition out_of_bounds :: rust_error where
  "out_of_bounds = Panic ''index out of bounds''"

definition slice_get :: "'a list \<Rightarrow> int \<Rightarrow> 'a result" where
  "slice_get xs i = (if 0 \<le> i \<and> nat i < length xs then Inr (xs ! nat i) else Inl out_of_bounds)"

definition slice_swap :: "int \<Rightarrow> int \<Rightarrow> 'a list \<Rightarrow> 'a list result" where
  "slice_swap i j xs =
     (if 0 \<le> i \<and> nat i < length xs \<and> 0 \<le> j \<and> nat j < length xs
      then Inr (xs[nat i := xs ! nat j, nat j := xs ! nat i]) else Inl out_of_bounds)"

section \<open>Partition at a plane\<close>

record partition =
  pt_indices :: "u32 list"
  pt_right :: int
  pt_clip_l :: f32
  pt_clip_r :: f32
  pt_node_l :: f32
  pt_node_r :: f32

text \<open>The updates of one iteration for a primitive that stays and for one that is swapped away.\<close>

definition center :: "int \<Rightarrow> aabox \<Rightarrow> f32" where
  "center axis box = f32_mul (f32_add (coord axis (bx_min box)) (coord axis (bx_max box))) f32_half"

definition part_stay :: "int \<Rightarrow> aabox \<Rightarrow> partition \<Rightarrow> partition" where
  "part_stay axis box p =
     (let minb = coord axis (bx_min box); maxb = coord axis (bx_max box) in
      p\<lparr>pt_clip_l := if f32_lt (pt_clip_l p) maxb then maxb else pt_clip_l p,
        pt_node_l := f32_min (pt_node_l p) minb, pt_node_r := f32_max (pt_node_r p) maxb\<rparr>)"

definition part_move :: "int \<Rightarrow> aabox \<Rightarrow> u32 list \<Rightarrow> partition \<Rightarrow> partition" where
  "part_move axis box ixs p =
     (let minb = coord axis (bx_min box); maxb = coord axis (bx_max box) in
      p\<lparr>pt_indices := ixs, pt_right := pt_right p - 1,
        pt_clip_r := if f32_lt minb (pt_clip_r p) then minb else pt_clip_r p,
        pt_node_l := f32_min (pt_node_l p) minb, pt_node_r := f32_max (pt_node_r p) maxb\<rparr>)"

lemma pt_right_updates [simp]:
  "pt_right (part_stay axis box p) = pt_right p" "pt_right (part_move axis box ixs p) = pt_right p - 1"
  "pt_indices (part_stay axis box p) = pt_indices p" "pt_indices (part_move axis box ixs p) = ixs"
  by (simp_all add: part_stay_def part_move_def Let_def)

text \<open>\<^verbatim>\<open>while i <= right\<close>: a primitive whose centre is not beyond the plane stays, another one
  is swapped to the end.\<close>

function partition_loop :: "aabox list \<Rightarrow> int \<Rightarrow> f32 \<Rightarrow> int \<Rightarrow> partition \<Rightarrow> partition result" where
  "partition_loop pb axis split i p =
     (if i > pt_right p then Inr p
      else
        bind_result (slice_get (pt_indices p) i) (\<lambda>obj.
        bind_result (slice_get pb (uint obj)) (\<lambda>box.
        if f32_le (center axis box) split
        then partition_loop pb axis split (i + 1) (part_stay axis box p)
        else bind_result (slice_swap i (pt_right p) (pt_indices p)) (\<lambda>ixs.
             partition_loop pb axis split i (part_move axis box ixs p)))))"
  by pat_completeness auto
termination
  by (relation "measure (\<lambda>(pb, axis, split, i, p). nat (pt_right p - i + 1))") auto

declare partition_loop.simps [simp del]

section \<open>Search for a split\<close>

type_synonym box2 = "vec3 \<times> vec3"

record split_state =
  ss_indices :: "u32 list"
  ss_grid :: box2
  ss_axis :: int
  ss_split :: f32
  ss_prev_clip :: f32
  ss_was_left :: bool

text \<open>How the loop is left: with a leaf for the whole range, with a node that only shrinks the
  box, or with two parts (and the clip of the last one-sided attempt, if there is one).\<close>

datatype split_outcome =
    MakeLeaf "u32 list"
  | Shrink "u32 list" box2 int f32 f32
  | Divide "u32 list" box2 "(int \<times> f32 \<times> bool) option" int f32 f32 f32 int

definition longest_axis :: "box2 \<Rightarrow> int" where
  "longest_axis g =
     (let d = vec3_sub (snd g) (fst g) in
      if f32_le (vy d) (vx d) \<and> f32_le (vz d) (vx d) then 0 else if f32_le (vz d) (vy d) then 1 else 2)"

definition same_split :: "split_state \<Rightarrow> int \<Rightarrow> f32 \<Rightarrow> bool" where
  "same_split st axis split \<longleftrightarrow> ss_axis st = axis \<and> \<not> f32_is_nan (ss_split st) \<and>
     f32_lt (f32_abs (f32_sub (ss_split st) split)) 0x358637BD"

text \<open>One iteration: the partition, the check for empty space, the check for progress.\<close>

datatype iteration = Continue split_state | Break split_outcome

definition empty_space :: "f32 \<Rightarrow> f32 \<Rightarrow> partition \<Rightarrow> bool" where
  "empty_space lo hi p \<longleftrightarrow> f32_lt lo (pt_node_l p) \<and> f32_lt (pt_node_r p) hi \<and>
     f32_lt (f32_mul 0x3FA66666 (f32_sub (pt_node_r p) (pt_node_l p))) (f32_sub hi lo)"

definition split_decide :: "int \<Rightarrow> int \<Rightarrow> box2 \<Rightarrow> split_state \<Rightarrow> int \<Rightarrow> f32 \<Rightarrow> partition \<Rightarrow> iteration" where
  "split_decide left right_orig node_box st axis split p =
     (let g = ss_grid st; lo = coord axis (fst node_box); hi = coord axis (snd node_box);
          st' = st\<lparr>ss_indices := pt_indices p, ss_axis := axis, ss_split := split\<rparr>;
          keep_left = (fst g, set_coord axis split (snd g));
          keep_right = (set_coord axis split (fst g), snd g)
      in if empty_space lo hi p then Break (Shrink (pt_indices p) g axis (pt_node_l p) (pt_node_r p))
         else if pt_right p = right_orig then
           (if same_split st axis split then Break (MakeLeaf (pt_indices p))
            else if f32_le (pt_clip_l p) split
            then Continue (st'\<lparr>ss_grid := keep_left, ss_prev_clip := pt_clip_l p, ss_was_left := True\<rparr>)
            else Continue (st'\<lparr>ss_grid := keep_left, ss_prev_clip := f32_NAN\<rparr>))
         else if left > pt_right p then
           (if same_split st axis split then Break (MakeLeaf (pt_indices p))
            else if f32_le split (pt_clip_r p)
            then Continue (st'\<lparr>ss_grid := keep_right, ss_prev_clip := pt_clip_r p, ss_was_left := False\<rparr>)
            else Continue (st'\<lparr>ss_grid := keep_right, ss_prev_clip := f32_NAN\<rparr>))
         else
           Break (Divide (pt_indices p) g
             (if ss_axis st \<noteq> - 1 \<and> \<not> f32_is_nan (ss_prev_clip st)
              then Some (ss_axis st, ss_prev_clip st, ss_was_left st) else None)
             axis split (pt_clip_l p) (pt_clip_r p) (pt_right p)))"

definition middle :: "int \<Rightarrow> box2 \<Rightarrow> f32" where
  "middle axis g = f32_mul f32_half (f32_add (coord axis (fst g)) (coord axis (snd g)))"

definition part_start :: "u32 list \<Rightarrow> int \<Rightarrow> partition" where
  "part_start ixs right =
     \<lparr>pt_indices = ixs, pt_right = right, pt_clip_l = f32_NEG_INFINITY, pt_clip_r = f32_INFINITY,
      pt_node_l = f32_INFINITY, pt_node_r = f32_NEG_INFINITY\<rparr>"

definition split_step ::
    "aabox list \<Rightarrow> int \<Rightarrow> int \<Rightarrow> box2 \<Rightarrow> split_state \<Rightarrow> iteration result" where
  "split_step pb left right_orig node_box st =
     (let axis = longest_axis (ss_grid st); split = middle axis (ss_grid st)
      in bind_result (partition_loop pb axis split left (part_start (ss_indices st) right_orig))
           (\<lambda>p. Inr (split_decide left right_orig node_box st axis split p)))"

partial_function (option) split_loop ::
    "aabox list \<Rightarrow> int \<Rightarrow> int \<Rightarrow> box2 \<Rightarrow> split_state \<Rightarrow> split_outcome result option" where
  "split_loop pb left right_orig node_box st =
     (case split_step pb left right_orig node_box st of
        Inl e \<Rightarrow> Some (Inl e)
      | Inr (Continue st') \<Rightarrow> split_loop pb left right_orig node_box st'
      | Inr (Break out) \<Rightarrow> Some (Inr out))"

declare split_loop.simps [code]

section \<open>Nodes\<close>

definition MAX_STACK_SIZE :: nat where "MAX_STACK_SIZE = 64"

definition set_node :: "nat \<Rightarrow> u32 \<Rightarrow> u32 \<Rightarrow> u32 \<Rightarrow> u32 list \<Rightarrow> u32 list result" where
  "set_node i a b c t =
     (if i + 2 < length t then Inr (t[i := a, i + 1 := b, i + 2 := c]) else Inl out_of_bounds)"

definition create_node :: "u32 list \<Rightarrow> nat \<Rightarrow> u32 \<Rightarrow> u32 \<Rightarrow> u32 list result" where
  "create_node t i left right =
     (if i + 1 \<ge> length t then Inl out_of_bounds
      else if right < left \<or> right - left = - 1 then Inl (Panic ''attempt to subtract with overflow'')
      else Inr (t[i := push_bit 30 3 OR left, i + 1 := right - left + 1]))"

definition new_node :: "u32 list" where "new_node = [0, 0, 0]"

definition bind_loop :: "'a result option \<Rightarrow> ('a \<Rightarrow> 'b result option) \<Rightarrow> 'b result option" where
  "bind_loop r k = (case r of None \<Rightarrow> None | Some (Inl e) \<Rightarrow> Some (Inl e) | Some (Inr x) \<Rightarrow> k x)"

text \<open>The one-sided node before a split: everything on one side, the other side out of reach.\<close>

definition one_sided :: "(int \<times> f32 \<times> bool) option \<Rightarrow> u32 list \<Rightarrow> nat \<Rightarrow> (u32 list \<times> nat) result" where
  "one_sided prev tree node_index =
     (case prev of
        None \<Rightarrow> Inr (tree, node_index)
      | Some (axis, clip, was_left) \<Rightarrow>
          (let next_index = length tree; tag = push_bit 30 (word_of_int axis :: u32) in
           map_sum id (\<lambda>t. (t, next_index))
             (if was_left
              then set_node node_index (tag OR word_of_nat next_index) clip f32_INFINITY (tree @ new_node)
              else set_node node_index (tag OR (word_of_nat next_index - 3)) f32_NEG_INFINITY clip (tree @ new_node))))"

function subdivide ::
    "aabox list \<Rightarrow> int \<Rightarrow> int \<Rightarrow> int \<Rightarrow> u32 list \<Rightarrow> u32 list \<Rightarrow> box2 \<Rightarrow> box2 \<Rightarrow> nat \<Rightarrow> nat
      \<Rightarrow> (u32 list \<times> u32 list) result option" where
  "subdivide pb max_prims left right tree ixs grid_box node_box node_index depth =
     (let leaf = (\<lambda>ixs. Some (map_sum id (\<lambda>t. (t, ixs))
                   (create_node tree node_index (word_of_int left) (word_of_int right)))) in
      if right - left + 1 \<le> max_prims \<or> depth \<ge> MAX_STACK_SIZE then leaf ixs
      else
        bind_loop (split_loop pb left right node_box
          \<lparr>ss_indices = ixs, ss_grid = grid_box, ss_axis = - 1, ss_split = f32_NAN,
           ss_prev_clip = f32_NAN, ss_was_left = True\<rparr>) (\<lambda>out. case out of
          MakeLeaf ixs \<Rightarrow> leaf ixs
        | Shrink ixs g axis node_l node_r \<Rightarrow>
            (let next_index = length tree in
             bind_loop (Some (set_node node_index
                (push_bit 30 (word_of_int axis) OR push_bit 29 1 OR word_of_nat next_index) node_l node_r
                (tree @ new_node))) (\<lambda>tree.
             subdivide pb max_prims left right tree ixs g
               (set_coord axis node_l (fst node_box), set_coord axis node_r (snd node_box))
               next_index (depth + 1)))
        | Divide ixs g prev axis split clip_l clip_r mid \<Rightarrow>
            bind_loop (Some (one_sided prev tree node_index)) (\<lambda>(tree, node_index).
            let nl = mid - left + 1; nr = right - (mid + 1) + 1;
                next_index = (if nl > 0 then length tree else length tree - 3);
                tree = tree @ (if nl > 0 then new_node else []) @ (if nr > 0 then new_node else []) in
            bind_loop (Some (set_node node_index (push_bit 30 (word_of_int axis) OR word_of_nat next_index)
              clip_l clip_r tree)) (\<lambda>tree.
            bind_loop
              (if nl > 0
               then subdivide pb max_prims left mid tree ixs (fst g, set_coord axis split (snd g))
                      (fst node_box, set_coord axis clip_l (snd node_box)) next_index (depth + 1)
               else Some (Inr (tree, ixs))) (\<lambda>(tree, ixs).
            if nr > 0
            then subdivide pb max_prims (mid + 1) right tree ixs (set_coord axis split (fst g), snd g)
                   (set_coord axis clip_r (fst node_box), snd node_box) (next_index + 3) (depth + 1)
            else Some (Inr (tree, ixs)))))))"
  by pat_completeness auto
termination
  by (relation "measure (\<lambda>(pb, m, l, r, t, xs, g, n, i, depth). MAX_STACK_SIZE - depth)") auto

declare subdivide.simps [simp del]

section \<open>Building\<close>

record bih =
  bih_bounds :: aabox
  bih_tree :: "u32 list"
  bih_objects :: "u32 list"

definition dummy_leaf :: "u32 list" where
  "dummy_leaf = [push_bit 30 3, 0, 0]"

definition bih_new_empty :: bih where
  "bih_new_empty = \<lparr>bih_bounds = aabox_default, bih_tree = dummy_leaf, bih_objects = []\<rparr>"

definition bih_build :: "aabox list \<Rightarrow> u32 \<Rightarrow> bih result option" where
  "bih_build prim_bounds leaf_size =
     (if prim_bounds = [] then Some (Inr bih_new_empty)
      else
        let num_prims = length prim_bounds;
            bounds = foldl (\<lambda>b q. aabox_merge (aabox_merge b (bx_min q)) (bx_max q)) (hd prim_bounds) (tl prim_bounds);
            indices = map word_of_nat [0..<unat (word_of_nat num_prims :: u32)];
            grid_box = (bx_min bounds, bx_max bounds)
        in bind_loop (subdivide prim_bounds (sint leaf_size) 0 (sint (word_of_nat num_prims :: i32) - 1)
             dummy_leaf indices grid_box grid_box 0 1) (\<lambda>(tree, indices).
           Some (if length indices < unat (word_of_nat num_prims :: u32) then Inl out_of_bounds
             else Inr \<lparr>bih_bounds = bounds, bih_tree = tree,
                       bih_objects = map (\<lambda>i. indices ! i) [0..<unat (word_of_nat num_prims :: u32)]\<rparr>)))"

end
