(* ===== verification/Byte_Order.thy ===== *)
theory Byte_Order
  imports Rust_Std
begin

text \<open>
  Reading and writing of binary files.  A reader is the bytes still to come, a writer the
  bytes so far, and the only failure is reading past the end.  The conversions between
  integers and bytes belong to the \<^verbatim>\<open>byteorder\<close> crate: they are the parameter \<open>B\<close>, and the
  locale \<open>little_endian\<close> states what its documentation promises of them (the value is the
  little-endian number of the bytes, an \<^verbatim>\<open>f32\<close> its IEEE bit pattern).  Writing is
  concatenation, so a writer is modelled by the bytes it appends.  Arithmetic on \<^verbatim>\<open>u32\<close> and
  \<^verbatim>\<open>i32\<close> that leaves the range is a panic, as in a build with overflow checks.
\<close>

section \<open>Checked arithmetic\<close>

definition overflow :: rust_error where
  "overflow = Panic ''attempt to compute with overflow''"

definition add_u32 :: "u32 \<Rightarrow> u32 \<Rightarrow> u32 result" where
  "add_u32 a b = (if unat a + unat b < 2 ^ 32 then Inr (a + b) else Inl overflow)"

definition mul_u32 :: "u32 \<Rightarrow> u32 \<Rightarrow> u32 result" where
  "mul_u32 a b = (if unat a * unat b < 2 ^ 32 then Inr (a * b) else Inl overflow)"

definition mul_i32 :: "i32 \<Rightarrow> i32 \<Rightarrow> i32 result" where
  "mul_i32 a b = (if - (2 ^ 31) \<le> sint a * sint b \<and> sint a * sint b < 2 ^ 31 then Inr (a * b) else Inl overflow)"

text \<open>\<^verbatim>\<open>x.max(0) as usize\<close>\<close>

definition nonneg :: "i32 \<Rightarrow> nat" where
  "nonneg x = nat (sint x)"

lemma checked_u32:
  "add_u32 a b = Inr c \<Longrightarrow> unat c = unat a + unat b"
  "mul_u32 a b = Inr c \<Longrightarrow> unat c = unat a * unat b"
  by (auto simp: add_u32_def mul_u32_def unat_word_ariths split: if_splits)

section \<open>Numbers in file names\<close>

text \<open>\<^verbatim>\<open>{:0w}\<close> of a number.\<close>

definition fmt0 :: "nat \<Rightarrow> u32 \<Rightarrow> string" where
  "fmt0 w n = (let s = dec_str (unat n) in replicate (w - length s) (CHR ''0'') @ s)"

type_synonym files = "(string \<times> bytes) list"

section \<open>The crate\<close>

record byteorder =
  dec_u16 :: "bytes \<Rightarrow> u16"
  dec_u32 :: "bytes \<Rightarrow> u32"
  enc_u16 :: "u16 \<Rightarrow> bytes"
  enc_u32 :: "u32 \<Rightarrow> bytes"

section \<open>Readers\<close>

type_synonym 'a reader = "bytes \<Rightarrow> ('a \<times> bytes) result"

definition unexpected_eof :: rust_error where
  "unexpected_eof = Err ''failed to fill whole buffer''"

definition ret_rd :: "'a \<Rightarrow> 'a reader" where
  "ret_rd x bs = Inr (x, bs)"

definition fail_rd :: "rust_error \<Rightarrow> 'a reader" where
  "fail_rd e bs = Inl e"

text \<open>Rust's \<^verbatim>\<open>?\<close> operator.\<close>

definition bind_rd :: "'a reader \<Rightarrow> ('a \<Rightarrow> 'b reader) \<Rightarrow> 'b reader" where
  "bind_rd m k bs = (case m bs of Inl e \<Rightarrow> Inl e | Inr (x, r) \<Rightarrow> k x r)"

text \<open>\<^verbatim>\<open>read_exact\<close> into a buffer of \<open>n\<close> bytes.\<close>

definition take_rd :: "nat \<Rightarrow> bytes reader" where
  "take_rd n bs = (if n \<le> length bs then Inr (take n bs, drop n bs) else Inl unexpected_eof)"

definition rd_u16 :: "byteorder \<Rightarrow> u16 reader" where
  "rd_u16 B = bind_rd (take_rd 2) (\<lambda>b. ret_rd (dec_u16 B b))"

definition rd_u32 :: "byteorder \<Rightarrow> u32 reader" where
  "rd_u32 B = bind_rd (take_rd 4) (\<lambda>b. ret_rd (dec_u32 B b))"

text \<open>\<^verbatim>\<open>for _ in 0..n { v.push(read()?) }\<close>\<close>

primrec repeat_rd :: "nat \<Rightarrow> 'a reader \<Rightarrow> 'a list reader" where
  "repeat_rd 0 m = ret_rd []"
| "repeat_rd (Suc n) m = bind_rd m (\<lambda>x. bind_rd (repeat_rd n m) (\<lambda>xs. ret_rd (x # xs)))"

lemma reader_simps [simp]:
  "ret_rd x bs = Inr (x, bs)" "fail_rd e bs = Inl e"
  "m bs = Inl e \<Longrightarrow> bind_rd m k bs = Inl e"
  "m bs = Inr (x, r) \<Longrightarrow> bind_rd m k bs = k x r"
  by (simp_all add: ret_rd_def fail_rd_def bind_rd_def)

lemma bind_rd_Inr: "bind_rd m k bs = Inr (y, r) \<longleftrightarrow> (\<exists>x s. m bs = Inr (x, s) \<and> k x s = Inr (y, r))"
  by (auto simp: bind_rd_def split: sum.splits prod.splits)

lemma map_sum_id_Inr [simp]: "map_sum id f r = Inr y \<longleftrightarrow> (\<exists>x. r = Inr x \<and> y = f x)"
  by (cases r) auto

lemma take_rd_Inr: "take_rd n bs = Inr (x, r) \<longleftrightarrow> n \<le> length bs \<and> x = take n bs \<and> r = drop n bs"
  by (auto simp: take_rd_def)

lemma take_rd_append [simp]: "length xs = n \<Longrightarrow> take_rd n (xs @ r) = Inr (xs, r)"
  by (simp add: take_rd_def)

section \<open>What the crate promises\<close>

locale little_endian =
  fixes B :: byteorder
  assumes dec16: "length b = 2 \<Longrightarrow> dec_u16 B b = from_le_bytes b"
    and dec32: "length b = 4 \<Longrightarrow> dec_u32 B b = from_le_bytes b"
    and enc16: "enc_u16 B w = to_le_bytes w"
    and enc32: "enc_u32 B v = to_le_bytes v"
begin

lemma rd_enc [simp]:
  "rd_u16 B (enc_u16 B w @ r) = Inr (w, r)"
  "rd_u32 B (enc_u32 B v @ r) = Inr (v, r)"
  by (simp_all add: rd_u16_def rd_u32_def enc16 enc32 dec16 dec32)

lemma length_enc [simp]: "length (enc_u16 B w) = 2" "length (enc_u32 B v) = 4"
  by (simp_all add: enc16 enc32)

lemma repeat_rd_enc:
  assumes "\<And>x r. x \<in> set xs \<Longrightarrow> m (enc x @ r) = Inr (x, r)"
  shows "repeat_rd (length xs) m (concat (map enc xs) @ r) = Inr (xs, r)"
  using assms
proof (induction xs)
  case (Cons x xs)
  have "repeat_rd (length xs) m (concat (map enc xs) @ r) = Inr (xs, r)"
    using Cons.prems by (intro Cons.IH) simp
  then show ?case using Cons.prems [of x] by simp
qed simp

end

text \<open>The hypotheses hold for the conversions of the standard library.\<close>

definition std_byteorder :: byteorder where
  "std_byteorder = \<lparr>dec_u16 = from_le_bytes, dec_u32 = from_le_bytes, enc_u16 = to_le_bytes, enc_u32 = to_le_bytes\<rparr>"

interpretation std_le: little_endian std_byteorder
  by unfold_locales (simp_all add: std_byteorder_def)

end
