(* ===== verification/Vmap_Format.thy ===== *)
theory Vmap_Format
  imports Bih Byte_Order
begin

text \<open>
  The file formats of \<^verbatim>\<open>crates/extractors/src/vmap_assemble.rs\<close>: model spawns, liquids, the
  raw models of the extractor and the models of the assembler, their readers and writers.
  Arithmetic on \<^verbatim>\<open>u32\<close> and \<^verbatim>\<open>i32\<close> that leaves the range is a panic.
\<close>

section \<open>Vectors\<close>

definition read_vec3 :: "byteorder \<Rightarrow> vec3 reader" where
  "read_vec3 B =
     bind_rd (rd_u32 B) (\<lambda>x. bind_rd (rd_u32 B) (\<lambda>y. bind_rd (rd_u32 B) (\<lambda>z. ret_rd (vec3_new x y z))))"

definition write_vec3 :: "byteorder \<Rightarrow> vec3 \<Rightarrow> bytes" where
  "write_vec3 B v = enc_u32 B (vx v) @ enc_u32 B (vy v) @ enc_u32 B (vz v)"

section \<open>Model spawns\<close>

definition MOD_M2 :: u32 where "MOD_M2 = 1"
definition MOD_WORLDSPAWN :: u32 where "MOD_WORLDSPAWN = push_bit 1 1"
definition MOD_HAS_BOUND :: u32 where "MOD_HAS_BOUND = push_bit 2 1"

record model_spawn =
  ms_flags :: u32
  ms_adt_id :: u16
  ms_id :: u32
  ms_pos :: vec3
  ms_rot :: vec3
  ms_scale :: f32
  ms_bound :: "aabox option"
  ms_name :: string

definition read_name :: "byteorder \<Rightarrow> string \<Rightarrow> (bytes \<times> string) reader" where
  "read_name B what =
     bind_rd (rd_u32 B) (\<lambda>n.
     if unat n > 500 then fail_rd (Err what)
     else bind_rd (take_rd (unat n)) (\<lambda>buf. ret_rd (buf, from_utf8_lossy buf)))"

definition read_bound :: "byteorder \<Rightarrow> u32 \<Rightarrow> aabox option reader" where
  "read_bound B flags =
     (if flags AND MOD_HAS_BOUND \<noteq> 0
      then bind_rd (read_vec3 B) (\<lambda>lo. bind_rd (read_vec3 B) (\<lambda>hi. ret_rd (Some \<lparr>bx_min = lo, bx_max = hi\<rparr>)))
      else ret_rd None)"

definition model_spawn_rest :: "byteorder \<Rightarrow> u32 \<Rightarrow> model_spawn reader" where
  "model_spawn_rest B flags =
     bind_rd (rd_u16 B) (\<lambda>adt_id.
     bind_rd (rd_u32 B) (\<lambda>sid.
     bind_rd (read_vec3 B) (\<lambda>pos.
     bind_rd (read_vec3 B) (\<lambda>rot.
     bind_rd (rd_u32 B) (\<lambda>scale.
     bind_rd (read_bound B flags) (\<lambda>bound.
     bind_rd (read_name B ''ModelSpawn name length too large'') (\<lambda>(buf, name).
     ret_rd \<lparr>ms_flags = flags, ms_adt_id = adt_id, ms_id = sid, ms_pos = pos, ms_rot = rot,
             ms_scale = scale, ms_bound = bound, ms_name = name\<rparr>)))))))"

text \<open>\<open>None\<close> when the input ends before the record starts.\<close>

definition model_spawn_read_from :: "byteorder \<Rightarrow> model_spawn option reader" where
  "model_spawn_read_from B bs =
     (case rd_u32 B bs of
        Inl e \<Rightarrow> Inr (None, [])
      | Inr (flags, bs) \<Rightarrow> bind_rd (model_spawn_rest B flags) (\<lambda>s. ret_rd (Some s)) bs)"

definition model_spawn_write_to :: "byteorder \<Rightarrow> model_spawn \<Rightarrow> bytes" where
  "model_spawn_write_to B s =
     enc_u32 B (ms_flags s) @ enc_u16 B (ms_adt_id s) @ enc_u32 B (ms_id s) @
     write_vec3 B (ms_pos s) @ write_vec3 B (ms_rot s) @ enc_u32 B (ms_scale s) @
     (case ms_bound s of Some b \<Rightarrow> write_vec3 B (bx_min b) @ write_vec3 B (bx_max b) | None \<Rightarrow> []) @
     enc_u32 B (word_of_nat (length (ms_name s))) @ as_bytes (ms_name s)"

section \<open>Liquids and raw models\<close>

record mesh_triangle =
  idx0 :: u32
  idx1 :: u32
  idx2 :: u32

record wmo_liquid =
  wl_tiles_x :: u32
  wl_tiles_y :: u32
  wl_corner :: vec3
  wl_liquid_type :: u32
  wl_heights :: "f32 list"
  wl_flags :: bytes

definition wl_height_size :: "wmo_liquid \<Rightarrow> u32 result" where
  "wl_height_size l =
     bind_result (add_u32 (wl_tiles_x l) 1) (\<lambda>x. bind_result (add_u32 (wl_tiles_y l) 1) (\<lambda>y. mul_u32 x y))"

text \<open>\<^verbatim>\<open>heights.get(i).unwrap_or(0.0)\<close>, and \<^verbatim>\<open>flags.resize(n, 0)\<close>.\<close>

definition wmo_liquid_write_to :: "byteorder \<Rightarrow> wmo_liquid \<Rightarrow> bytes result" where
  "wmo_liquid_write_to B l =
     bind_result (wl_height_size l) (\<lambda>height_size.
     bind_result (mul_u32 (wl_tiles_x l) (wl_tiles_y l)) (\<lambda>flag_size.
     Inr (enc_u32 B (wl_tiles_x l) @ enc_u32 B (wl_tiles_y l) @ write_vec3 B (wl_corner l) @
          enc_u32 B (wl_liquid_type l) @
          concat (map (\<lambda>i. enc_u32 B (if i < length (wl_heights l) then wl_heights l ! i else 0)) [0..<unat height_size]) @
          take (unat flag_size) (wl_flags l @ replicate (unat flag_size) 0))))"

definition wmo_liquid_file_size :: "wmo_liquid \<Rightarrow> u32 result" where
  "wmo_liquid_file_size l =
     bind_result (wl_height_size l) (\<lambda>height_size.
     bind_result (mul_u32 height_size 4) (\<lambda>h.
     bind_result (add_u32 (2 * 4 + 12) h) (\<lambda>s.
     bind_result (mul_u32 (wl_tiles_x l) (wl_tiles_y l)) (\<lambda>f.
     add_u32 s f))))"

record raw_group =
  rg_mogp_flags :: u32
  rg_group_wmo_id :: u32
  rg_bounds :: aabox
  rg_liquid_flags :: u32
  rg_triangles :: "mesh_triangle list"
  rg_vertices :: "vec3 list"
  rg_liquid :: "wmo_liquid option"

record raw_model =
  rm_root_wmo_id :: u32
  rm_groups :: "raw_group list"

definition read_chunk :: "bytes \<Rightarrow> unit reader" where
  "read_chunk expected =
     bind_rd (take_rd 4) (\<lambda>chunk. if chunk \<noteq> expected then fail_rd (Err ''Chunk mismatch'') else ret_rd ())"

text \<open>\<^verbatim>\<open>indices.chunks(3)\<close>, the complete ones.\<close>

fun triangles_of :: "u32 list \<Rightarrow> mesh_triangle list" where
  "triangles_of (a # b # c # is) = \<lparr>idx0 = a, idx1 = b, idx2 = c\<rparr> # triangles_of is"
| "triangles_of is = []"

definition read_liquid :: "byteorder \<Rightarrow> wmo_liquid reader" where
  "read_liquid B =
     bind_rd (read_chunk (as_bytes ''LIQU'')) (\<lambda>_.
     bind_rd (rd_u32 B) (\<lambda>block_size.
     bind_rd (rd_u32 B) (\<lambda>xverts.
     bind_rd (rd_u32 B) (\<lambda>yverts.
     bind_rd (rd_u32 B) (\<lambda>xtiles.
     bind_rd (rd_u32 B) (\<lambda>ytiles.
     bind_rd (read_vec3 B) (\<lambda>pos.
     bind_rd (rd_u16 B) (\<lambda>liquid_type.
     bind_rd (rd_u16 B) (\<lambda>pad.
     case mul_i32 xverts yverts of
       Inl e \<Rightarrow> fail_rd e
     | Inr hc \<Rightarrow>
         bind_rd (repeat_rd (nonneg hc) (rd_u32 B)) (\<lambda>heights.
         case mul_i32 xtiles ytiles of
           Inl e \<Rightarrow> fail_rd e
         | Inr fc \<Rightarrow>
             bind_rd (take_rd (nonneg fc)) (\<lambda>flags.
             ret_rd \<lparr>wl_tiles_x = word_of_nat (nonneg xtiles), wl_tiles_y = word_of_nat (nonneg ytiles),
                     wl_corner = pos, wl_liquid_type = word_of_nat (nat (sint liquid_type)),
                     wl_heights = heights, wl_flags = flags\<rparr>)))))))))))"

definition read_raw_group :: "byteorder \<Rightarrow> raw_group reader" where
  "read_raw_group B =
     bind_rd (rd_u32 B) (\<lambda>mogp_flags.
     bind_rd (rd_u32 B) (\<lambda>group_wmo_id.
     bind_rd (read_vec3 B) (\<lambda>lo.
     bind_rd (read_vec3 B) (\<lambda>hi.
     bind_rd (rd_u32 B) (\<lambda>liquid_flags.
     bind_rd (read_chunk (as_bytes ''GRP '')) (\<lambda>_.
     bind_rd (rd_u32 B) (\<lambda>block_size.
     bind_rd (rd_u32 B) (\<lambda>branches.
     bind_rd (repeat_rd (unat branches) (rd_u32 B)) (\<lambda>_.
     bind_rd (read_chunk (as_bytes ''INDX'')) (\<lambda>_.
     bind_rd (rd_u32 B) (\<lambda>block_size.
     bind_rd (rd_u32 B) (\<lambda>nindexes.
     bind_rd (repeat_rd (unat nindexes) (rd_u16 B)) (\<lambda>indices.
     bind_rd (read_chunk (as_bytes ''VERT'')) (\<lambda>_.
     bind_rd (rd_u32 B) (\<lambda>block_size.
     bind_rd (rd_u32 B) (\<lambda>nverts.
     bind_rd (repeat_rd (unat nverts) (read_vec3 B)) (\<lambda>vertices.
     bind_rd (if liquid_flags AND 1 \<noteq> 0 then bind_rd (read_liquid B) (\<lambda>l. ret_rd (Some l)) else ret_rd None) (\<lambda>liquid.
     ret_rd \<lparr>rg_mogp_flags = mogp_flags, rg_group_wmo_id = group_wmo_id,
             rg_bounds = \<lparr>bx_min = lo, bx_max = hi\<rparr>, rg_liquid_flags = liquid_flags,
             rg_triangles = triangles_of (map ucast indices), rg_vertices = vertices,
             rg_liquid = liquid\<rparr>))))))))))))))))))"

definition RAW_VMAP_MAGIC :: string where "RAW_VMAP_MAGIC = ''VMAPs05''"
definition VMAP_MAGIC :: string where "VMAP_MAGIC = ''VMAP_7.0''"

definition parse_raw_model_with_header :: "byteorder \<Rightarrow> bytes \<Rightarrow> nat \<Rightarrow> raw_model result" where
  "parse_raw_model_with_header B data header_len =
     (if length data < header_len + 12 then Inl (Err ''Raw vmap file too small'')
      else if take 7 data \<noteq> as_bytes RAW_VMAP_MAGIC then Inl (Err ''Invalid raw vmap magic'')
      else
        map_sum id fst
          (bind_rd (rd_u32 B) (\<lambda>temp_vectors.
           bind_rd (rd_u32 B) (\<lambda>group_count.
           bind_rd (rd_u32 B) (\<lambda>root_wmo_id.
           bind_rd (repeat_rd (unat group_count) (read_raw_group B)) (\<lambda>groups.
           ret_rd \<lparr>rm_root_wmo_id = root_wmo_id, rm_groups = groups\<rparr>)))) (drop header_len data)))"

text \<open>The header of eight bytes is tried when the eighth byte is zero, then the one of seven.\<close>

definition parse_raw_model :: "byteorder \<Rightarrow> bytes \<Rightarrow> raw_model result" where
  "parse_raw_model B data =
     (let seven = parse_raw_model_with_header B data 7 in
      if length data < 8 \<or> data ! 7 \<noteq> 0 then seven
      else case parse_raw_model_with_header B data 8 of
        Inr m \<Rightarrow> Inr m
      | Inl (Panic e) \<Rightarrow> Inl (Panic e)
      | Inl (Err e) \<Rightarrow> seven)"

text \<open>\<open>raw name\<close> is the contents of \<^verbatim>\<open>raw_dir.join(name)\<close>, if there is such a file.\<close>

definition read_raw_model :: "byteorder \<Rightarrow> (string \<Rightarrow> bytes option) \<Rightarrow> string \<Rightarrow> raw_model result" where
  "read_raw_model B raw name =
     (case raw name of None \<Rightarrow> Inl (Err ''Missing raw model file'') | Some data \<Rightarrow> parse_raw_model B data)"

section \<open>Converted models\<close>

definition bih_write_to :: "byteorder \<Rightarrow> bih \<Rightarrow> bytes" where
  "bih_write_to B b =
     write_vec3 B (bx_min (bih_bounds b)) @ write_vec3 B (bx_max (bih_bounds b)) @
     enc_u32 B (word_of_nat (length (bih_tree b))) @ concat (map (enc_u32 B) (bih_tree b)) @
     enc_u32 B (word_of_nat (length (bih_objects b))) @ concat (map (enc_u32 B) (bih_objects b))"

definition triangle_box :: "vec3 list \<Rightarrow> mesh_triangle \<Rightarrow> aabox" where
  "triangle_box vertices tri =
     (case map (\<lambda>i. vertices ! unat i) (filter (\<lambda>i. unat i < length vertices) [idx0 tri, idx1 tri, idx2 tri]) of
        [] \<Rightarrow> aabox_default
      | v # vs \<Rightarrow> foldl aabox_merge (aabox_from_point v) vs)"

definition build_mesh_bih :: "raw_group \<Rightarrow> bih result option" where
  "build_mesh_bih g = bih_build (map (triangle_box (rg_vertices g)) (rg_triangles g)) 3"

definition build_group_bih :: "raw_group list \<Rightarrow> bih result option" where
  "build_group_bih groups = bih_build (map rg_bounds groups) 1"

text \<open>\<^verbatim>\<open>size + count * element\<close> of a chunk.\<close>

definition chunk_size :: "u32 \<Rightarrow> u32 \<Rightarrow> u32 result" where
  "chunk_size count elem = bind_result (mul_u32 count elem) (\<lambda>n. add_u32 4 n)"

definition write_triangle :: "byteorder \<Rightarrow> mesh_triangle \<Rightarrow> bytes" where
  "write_triangle B t = enc_u32 B (idx0 t) @ enc_u32 B (idx1 t) @ enc_u32 B (idx2 t)"

definition write_liquid_chunk :: "byteorder \<Rightarrow> wmo_liquid option \<Rightarrow> bytes result" where
  "write_liquid_chunk B liquid =
     (case liquid of
        None \<Rightarrow> Inr (as_bytes ''LIQU'' @ enc_u32 B 0)
      | Some l \<Rightarrow>
          bind_result (wmo_liquid_file_size l) (\<lambda>n.
          bind_result (wmo_liquid_write_to B l) (\<lambda>body.
          Inr (as_bytes ''LIQU'' @ enc_u32 B n @ body))))"

definition write_group_model :: "byteorder \<Rightarrow> raw_group \<Rightarrow> bytes result option" where
  "write_group_model B g =
     (let head = write_vec3 B (bx_min (rg_bounds g)) @ write_vec3 B (bx_max (rg_bounds g)) @
            enc_u32 B (rg_mogp_flags g) @ enc_u32 B (rg_group_wmo_id g);
          count = word_of_nat (length (rg_vertices g)); tcount = word_of_nat (length (rg_triangles g)) in
      bind_loop (Some (chunk_size count 12)) (\<lambda>vsize.
      let vert = as_bytes ''VERT'' @ enc_u32 B vsize @ enc_u32 B count in
      if count = 0 then Some (Inr (head @ vert))
      else
        bind_loop (Some (chunk_size tcount 12)) (\<lambda>tsize.
        bind_loop (build_mesh_bih g) (\<lambda>mesh.
        bind_loop (Some (write_liquid_chunk B (rg_liquid g))) (\<lambda>liquid.
        Some (Inr (head @ vert @ concat (map (write_vec3 B) (rg_vertices g)) @
          as_bytes ''TRIM'' @ enc_u32 B tsize @ enc_u32 B tcount @ concat (map (write_triangle B) (rg_triangles g)) @
          as_bytes ''MBIH'' @ bih_write_to B mesh @ liquid)))))))"

primrec write_groups :: "byteorder \<Rightarrow> raw_group list \<Rightarrow> bytes result option" where
  "write_groups B [] = Some (Inr [])"
| "write_groups B (g # gs) =
     bind_loop (write_group_model B g) (\<lambda>a. bind_loop (write_groups B gs) (\<lambda>b. Some (Inr (a @ b))))"

text \<open>The contents of \<^verbatim>\<open>name.vmo\<close>.\<close>

definition vmo_contents :: "byteorder \<Rightarrow> raw_model \<Rightarrow> bytes result option" where
  "vmo_contents B m =
     (let head = as_bytes VMAP_MAGIC @ as_bytes ''WMOD'' @ enc_u32 B (4 * 2) @ enc_u32 B (rm_root_wmo_id m) in
      if rm_groups m = [] then Some (Inr head)
      else
        bind_loop (write_groups B (rm_groups m)) (\<lambda>groups.
        bind_loop (build_group_bih (rm_groups m)) (\<lambda>gbih.
        Some (Inr (head @ as_bytes ''GMOD'' @ enc_u32 B (word_of_nat (length (rm_groups m))) @ groups @
          as_bytes ''GBIH'' @ bih_write_to B gbih)))))"

end
