(* ===== verification/Vmap_Assemble.thy ===== *)
theory Vmap_Assemble
  imports Vmap_Format Ordered_Map
begin

text \<open>
  The assembler of \<^verbatim>\<open>crates/extractors/src/vmap_assemble.rs\<close>: reading the spawns of all maps,
  completing their bounds, writing one tree and the tiles of each map, exporting the game
  object models and converting the models.  The raw directory is a function from names to
  file contents; what is written is the list of files with their contents in the order of
  their creation.  The sine and cosine of the platform's mathematical library are the
  parameter \<open>sin_cos\<close>.
\<close>

section \<open>Tile numbers and transformations\<close>

definition pack_tile_id :: "u32 \<Rightarrow> u32 \<Rightarrow> u32" where
  "pack_tile_id tile_x tile_y = push_bit 16 tile_x OR tile_y"

definition unpack_tile_id :: "u32 \<Rightarrow> u32 \<times> u32" where
  "unpack_tile_id tile_id = (drop_bit 16 tile_id, tile_id AND 0xFF)"

text \<open>\<^verbatim>\<open>std::f32::consts::PI\<close> and \<^verbatim>\<open>180.0\<close> as bit patterns.\<close>

definition deg_to_rad :: "f32 \<Rightarrow> f32" where
  "deg_to_rad value = f32_div (f32_mul value 0x40490FDB) 0x43340000"

type_synonym mat3 = "vec3 \<times> vec3 \<times> vec3"

definition matrix_from_euler_zyx :: "(f32 \<Rightarrow> f32 \<times> f32) \<Rightarrow> f32 \<Rightarrow> f32 \<Rightarrow> f32 \<Rightarrow> mat3" where
  "matrix_from_euler_zyx sin_cos z y x =
     (let (sz, cz) = sin_cos z; (sy, cy) = sin_cos y; (sx, cx) = sin_cos x in
      (vec3_new (f32_mul cy cz)
         (f32_sub (f32_mul (f32_mul cz sx) sy) (f32_mul cx sz))
         (f32_add (f32_mul (f32_mul cx cz) sy) (f32_mul sx sz)),
       vec3_new (f32_mul cy sz)
         (f32_add (f32_mul cx cz) (f32_mul (f32_mul sx sy) sz))
         (f32_add (f32_mul (f32_neg cz) sx) (f32_mul (f32_mul cx sy) sz)),
       vec3_new (f32_neg sy) (f32_mul cy sx) (f32_mul cx cy)))"

definition dot_row :: "vec3 \<Rightarrow> vec3 \<Rightarrow> f32" where
  "dot_row r v = f32_add (f32_add (f32_mul (vx r) (vx v)) (f32_mul (vy r) (vy v))) (f32_mul (vz r) (vz v))"

definition mat3_mul_vec3 :: "mat3 \<Rightarrow> vec3 \<Rightarrow> vec3" where
  "mat3_mul_vec3 m v = (case m of (a, b, c) \<Rightarrow> vec3_new (dot_row a v) (dot_row b v) (dot_row c v))"

section \<open>Bounds\<close>

definition merge_point :: "aabox option \<Rightarrow> vec3 \<Rightarrow> aabox option" where
  "merge_point bound p =
     Some (case bound of Some current \<Rightarrow> aabox_merge current p | None \<Rightarrow> aabox_from_point p)"

definition compute_model_bounds :: "raw_model \<Rightarrow> aabox option" where
  "compute_model_bounds m = foldl merge_point None (concat (map rg_vertices (rm_groups m)))"

definition calculate_transformed_bound ::
    "byteorder \<Rightarrow> (f32 \<Rightarrow> f32 \<times> f32) \<Rightarrow> (string \<Rightarrow> bytes option) \<Rightarrow> model_spawn \<Rightarrow> model_spawn result" where
  "calculate_transformed_bound B sin_cos raw spawn =
     bind_result (read_raw_model B raw (ms_name spawn)) (\<lambda>model.
     if rm_groups model = [] then Inl (Err ''Model has no geometry'')
     else
       let rotation = matrix_from_euler_zyx sin_cos (deg_to_rad (vy (ms_rot spawn)))
             (deg_to_rad (vx (ms_rot spawn))) (deg_to_rad (vz (ms_rot spawn)));
           points = map (\<lambda>v. mat3_mul_vec3 rotation (vec3_scale v (ms_scale spawn)))
             (concat (map rg_vertices (rm_groups model)))
       in case foldl merge_point None points of
            None \<Rightarrow> Inl (Err ''Model has no geometry'')
          | Some bound \<Rightarrow>
              Inr (spawn\<lparr>ms_bound := Some (aabox_add bound (ms_pos spawn)),
                         ms_flags := ms_flags spawn OR MOD_HAS_BOUND\<rparr>))"

section \<open>Reading the spawns\<close>

record map_spawns =
  unique_entries :: "(u32 \<times> model_spawn) list"
  tile_entries :: "(u32 \<times> u32) list"

definition map_spawns_default :: map_spawns where
  "map_spawns_default = \<lparr>unique_entries = [], tile_entries = []\<rparr>"

type_synonym map_data = "(u32 \<times> map_spawns) list"

definition add_spawn :: "u32 \<Rightarrow> u32 \<Rightarrow> u32 \<Rightarrow> model_spawn \<Rightarrow> map_data \<Rightarrow> map_data" where
  "add_spawn map_id tile_x tile_y spawn md =
     (let e = (case btm_get md map_id of Some e \<Rightarrow> e | None \<Rightarrow> map_spawns_default) in
      btm_insert map_id
        (e\<lparr>unique_entries := btm_or_insert (ms_id spawn) spawn (unique_entries e),
           tile_entries := tile_entries e @ [(pack_tile_id tile_x tile_y, ms_id spawn)]\<rparr>) md)"

text \<open>Readers only consume.\<close>

definition consuming :: "'a reader \<Rightarrow> bool" where
  "consuming m \<longleftrightarrow> (\<forall>bs x r. m bs = Inr (x, r) \<longrightarrow> length r \<le> length bs)"

lemma consuming_intros:
  "consuming (ret_rd x)" "consuming (fail_rd e)" "consuming (take_rd n)"
  "consuming m \<Longrightarrow> (\<And>x. consuming (k x)) \<Longrightarrow> consuming (bind_rd m k)"
  unfolding consuming_def
  by (auto simp: take_rd_def bind_rd_Inr split: if_splits) (meson le_trans)

lemma consuming_readers:
  "consuming (rd_u16 B)" "consuming (rd_u32 B)" "consuming (read_vec3 B)" "consuming (read_bound B f)"
  "consuming (read_name B w)" "consuming (model_spawn_rest B f)"
  unfolding rd_u16_def rd_u32_def read_vec3_def read_bound_def read_name_def model_spawn_rest_def
  by (auto split: prod.split intro!: consuming_intros)

lemma rd_u32_consumes: "rd_u32 B bs = Inr (v, r) \<Longrightarrow> length r < length bs"
  by (auto simp: rd_u32_def bind_rd_Inr take_rd_def split: if_splits)

lemma model_spawn_consumes: "model_spawn_read_from B bs = Inr (s, r) \<Longrightarrow> length r \<le> length bs"
  using consuming_readers(6) [of B, unfolded consuming_def]
  by (fastforce simp: model_spawn_read_from_def bind_rd_Inr split: sum.splits prod.splits dest: rd_u32_consumes)

definition read_tile :: "byteorder \<Rightarrow> (u32 \<times> u32) reader" where
  "read_tile B = bind_rd (rd_u32 B) (\<lambda>tile_x. bind_rd (rd_u32 B) (\<lambda>tile_y. ret_rd (tile_x, tile_y)))"

lemma read_tile_consumes: "read_tile B bs = Inr (t, r) \<Longrightarrow> length r < length bs"
  unfolding read_tile_def by (force simp: bind_rd_Inr dest: rd_u32_consumes)

function read_map_spawns :: "byteorder \<Rightarrow> bytes \<Rightarrow> map_data \<Rightarrow> map_data result" where
  "read_map_spawns B bs md =
     (case rd_u32 B bs of
        Inl e \<Rightarrow> Inr md
      | Inr (map_id, bs1) \<Rightarrow>
          (case read_tile B bs1 of
             Inl e \<Rightarrow> Inl e
           | Inr ((tile_x, tile_y), bs2) \<Rightarrow>
               (case model_spawn_read_from B bs2 of
                  Inl e \<Rightarrow> Inl e
                | Inr (None, bs3) \<Rightarrow> Inr md
                | Inr (Some spawn, bs3) \<Rightarrow> read_map_spawns B bs3 (add_spawn map_id tile_x tile_y spawn md))))"
  by pat_completeness auto
termination
  by (relation "measure (\<lambda>(B, bs, md). length bs)")
    (auto dest!: rd_u32_consumes read_tile_consumes model_spawn_consumes)

declare read_map_spawns.simps [simp del]

section \<open>Map files\<close>

text \<open>The position of each spawn among the primitives; ids are unique.\<close>

definition build_map_bih :: "model_spawn list \<Rightarrow> (bih \<times> (u32 \<Rightarrow> u32 option)) result option" where
  "build_map_bih spawns =
     (let prim_bounds = map (\<lambda>s. case ms_bound s of Some b \<Rightarrow> b | None \<Rightarrow> aabox_default) spawns;
          node_index = foldl (\<lambda>m (i, s). m(ms_id s \<mapsto> word_of_nat i)) Map.empty (zip [0..<length spawns] spawns)
      in bind_loop (bih_build prim_bounds 3) (\<lambda>bih. Some (Inr (bih, node_index))))"

definition entry_bytes :: "byteorder \<Rightarrow> (u32 \<Rightarrow> u32 option) \<Rightarrow> model_spawn \<Rightarrow> u32 \<Rightarrow> bytes" where
  "entry_bytes B node_index spawn spawn_id =
     model_spawn_write_to B spawn @ enc_u32 B (case node_index spawn_id of Some i \<Rightarrow> i | None \<Rightarrow> 0)"

primrec write_entries ::
    "byteorder \<Rightarrow> (u32 \<Rightarrow> u32 option) \<Rightarrow> string \<Rightarrow> (u32 \<times> model_spawn) list \<Rightarrow> (u32 \<times> u32) list \<Rightarrow> bytes result" where
  "write_entries B ni msg spawns [] = Inr []"
| "write_entries B ni msg spawns (e # es) =
     (case btm_get spawns (snd e) of
        None \<Rightarrow> Inl (Err msg)
      | Some s \<Rightarrow> bind_result (write_entries B ni msg spawns es) (\<lambda>rest. Inr (entry_bytes B ni s (snd e) @ rest)))"

definition is_worldspawn :: "model_spawn \<Rightarrow> bool" where
  "is_worldspawn s \<longleftrightarrow> ms_flags s AND MOD_WORLDSPAWN \<noteq> 0"

text \<open>One run of equal tile numbers: a tile file, unless only world spawns are on the tile.\<close>

definition tile_file ::
    "byteorder \<Rightarrow> (u32 \<Rightarrow> u32 option) \<Rightarrow> u32 \<Rightarrow> (u32 \<times> model_spawn) list \<Rightarrow> u32 \<Rightarrow> (u32 \<times> u32) list \<Rightarrow> files result" where
  "tile_file B ni map_id spawns tile_id run =
     (let non_worldspawn = filter (\<lambda>e. case btm_get spawns (snd e) of Some s \<Rightarrow> \<not> is_worldspawn s | None \<Rightarrow> False) run in
      if non_worldspawn = [] then Inr []
      else
        let (tile_x, tile_y) = unpack_tile_id tile_id;
            name = fmt0 3 map_id @ ''_'' @ fmt0 2 tile_x @ ''_'' @ fmt0 2 tile_y @ ''.vmtile''
        in bind_result (write_entries B ni ''Missing spawn for tile entry'' spawns non_worldspawn) (\<lambda>body.
           Inr [(name, as_bytes VMAP_MAGIC @ enc_u32 B (word_of_nat (length non_worldspawn)) @ body)]))"

function tile_files ::
    "byteorder \<Rightarrow> (u32 \<Rightarrow> u32 option) \<Rightarrow> u32 \<Rightarrow> (u32 \<times> model_spawn) list \<Rightarrow> (u32 \<times> u32) list \<Rightarrow> files result" where
  "tile_files B ni map_id spawns [] = Inr []"
| "tile_files B ni map_id spawns (e # es) =
     bind_result (tile_file B ni map_id spawns (fst e) (e # takeWhile (\<lambda>x. fst x = fst e) es)) (\<lambda>f.
     bind_result (tile_files B ni map_id spawns (dropWhile (\<lambda>x. fst x = fst e) es)) (\<lambda>fs. Inr (f @ fs)))"
  by pat_completeness auto
termination
  by (relation "measure (\<lambda>(B, ni, m, s, es). length es)") (auto simp: le_imp_less_Suc length_dropWhile_le)

definition tree_contents :: "byteorder \<Rightarrow> bool \<Rightarrow> bih \<Rightarrow> bytes" where
  "tree_contents B has_global bih =
     as_bytes VMAP_MAGIC @ [if has_global then 0 else 1] @ as_bytes ''NODE'' @ bih_write_to B bih @ as_bytes ''GOBJ''"

definition write_map_files :: "byteorder \<Rightarrow> u32 \<Rightarrow> map_spawns \<Rightarrow> files result option" where
  "write_map_files B map_id ms =
     (let bounded = filter (\<lambda>s. ms_bound s \<noteq> None) (map snd (unique_entries ms));
          global_tile_id = pack_tile_id 65 65;
          has_global = (\<exists>e \<in> set (tile_entries ms). fst e = global_tile_id)
      in bind_loop (build_map_bih bounded) (\<lambda>(bih, ni).
         bind_loop (Some (if has_global
             then write_entries B ni ''Missing spawn for global tile'' (unique_entries ms)
                    (filter (\<lambda>e. fst e = global_tile_id) (tile_entries ms))
             else Inr [])) (\<lambda>globals.
         bind_loop (Some (tile_files B ni map_id (unique_entries ms) (sort_key fst (tile_entries ms)))) (\<lambda>tiles.
         Some (Inr ((fmt0 3 map_id @ ''.vmtree'', tree_contents B has_global bih @ globals) # tiles))))))"

section \<open>Game object models\<close>

definition GAMEOBJECT_MODELS :: string where "GAMEOBJECT_MODELS = ''temp_gameobject_models''"

definition read_gameobject :: "byteorder \<Rightarrow> (bytes \<times> string) reader" where
  "read_gameobject B = read_name B ''Gameobject model name length too large''"

definition gameobject_bytes :: "byteorder \<Rightarrow> u32 \<Rightarrow> bytes \<Rightarrow> raw_model \<Rightarrow> bytes" where
  "gameobject_bytes B display_id name_buf model =
     (let bounds = (case compute_model_bounds model of Some b \<Rightarrow> b | None \<Rightarrow> aabox_default) in
      enc_u32 B display_id @ enc_u32 B (word_of_nat (length name_buf)) @ name_buf @
      write_vec3 B (bx_min bounds) @ write_vec3 B (bx_max bounds))"

text \<open>\<^verbatim>\<open>HashSet::insert\<close> on a list without repetitions; the order of a hash set is not specified
  and nothing depends on it.\<close>

definition hs_insert :: "'a \<Rightarrow> 'a list \<Rightarrow> 'a list" where
  "hs_insert x xs = (if x \<in> set xs then xs else xs @ [x])"

lemma read_gameobject_consumes: "read_gameobject B bs = Inr (x, r) \<Longrightarrow> length r \<le> length bs"
  using consuming_readers(5) [of B] unfolding read_gameobject_def consuming_def by blast

function export_loop ::
    "byteorder \<Rightarrow> (string \<Rightarrow> bytes option) \<Rightarrow> bytes \<Rightarrow> bytes \<Rightarrow> string list \<Rightarrow> (bytes \<times> string list) result" where
  "export_loop B raw bs dest spawned =
     (case rd_u32 B bs of
        Inl e \<Rightarrow> Inr (dest, spawned)
      | Inr (display_id, bs1) \<Rightarrow>
          (case read_gameobject B bs1 of
             Inl e \<Rightarrow> Inl e
           | Inr ((name_buf, name), bs2) \<Rightarrow>
               (case read_raw_model B raw name of
                  Inl (Panic e) \<Rightarrow> Inl (Panic e)
                | Inl (Err e) \<Rightarrow> export_loop B raw bs2 dest spawned
                | Inr model \<Rightarrow>
                    export_loop B raw bs2 (dest @ gameobject_bytes B display_id name_buf model) (hs_insert name spawned))))"
  by pat_completeness auto
termination
  by (relation "measure (\<lambda>(B, raw, bs, dest, spawned). length bs)")
    (auto dest!: rd_u32_consumes read_gameobject_consumes)

declare export_loop.simps [simp del]

definition export_gameobject_models ::
    "byteorder \<Rightarrow> (string \<Rightarrow> bytes option) \<Rightarrow> string list \<Rightarrow> (files \<times> string list) result" where
  "export_gameobject_models B raw spawned =
     (case raw GAMEOBJECT_MODELS of
        None \<Rightarrow> Inr ([], spawned)
      | Some bs \<Rightarrow> map_sum id (\<lambda>(dest, sp). ([(GAMEOBJECT_MODELS, dest)], sp)) (export_loop B raw bs [] spawned))"

section \<open>The whole run\<close>

definition WORLDSPAWN_OFFSET :: f32 where
  "WORLDSPAWN_OFFSET = f32_mul 0x44055555 0x42000000" \<comment> \<open>\<^verbatim>\<open>533.333_3 * 32.0\<close>\<close>

text \<open>One spawn: \<open>None\<close> when its model is missing or has no bounds.\<close>

definition complete_spawn ::
    "byteorder \<Rightarrow> (f32 \<Rightarrow> f32 \<times> f32) \<Rightarrow> (string \<Rightarrow> bytes option) \<Rightarrow> model_spawn \<Rightarrow> model_spawn option result" where
  "complete_spawn B sin_cos raw spawn =
     (if raw (ms_name spawn) = None then Inr None
      else if ms_flags spawn AND MOD_M2 \<noteq> 0 then
        (case calculate_transformed_bound B sin_cos raw spawn of
           Inl (Panic e) \<Rightarrow> Inl (Panic e)
         | Inl (Err e) \<Rightarrow> Inr None
         | Inr s \<Rightarrow> Inr (Some s))
      else
        Inr (Some (case ms_bound spawn of
            Some b \<Rightarrow> (if ms_flags spawn AND MOD_WORLDSPAWN \<noteq> 0
                       then spawn\<lparr>ms_bound := Some (aabox_add b (vec3_new WORLDSPAWN_OFFSET WORLDSPAWN_OFFSET 0))\<rparr>
                       else spawn)
          | None \<Rightarrow> spawn)))"

primrec complete_spawns ::
    "byteorder \<Rightarrow> (f32 \<Rightarrow> f32 \<times> f32) \<Rightarrow> (string \<Rightarrow> bytes option) \<Rightarrow> (u32 \<times> model_spawn) list \<Rightarrow>
      (u32 \<times> model_spawn option) list result" where
  "complete_spawns B sin_cos raw [] = Inr []"
| "complete_spawns B sin_cos raw (e # es) =
     bind_result (complete_spawn B sin_cos raw (snd e)) (\<lambda>s.
     bind_result (complete_spawns B sin_cos raw es) (\<lambda>rest. Inr ((fst e, s) # rest)))"

text \<open>Missing spawns leave the map and its tiles.\<close>

definition prune :: "(u32 \<times> model_spawn option) list \<Rightarrow> map_spawns \<Rightarrow> map_spawns" where
  "prune completed ms =
     (let missing = map fst (filter (\<lambda>e. snd e = None) completed) in
      \<lparr>unique_entries = List.map_filter (\<lambda>(k, s). map_option (Pair k) s) completed,
       tile_entries = filter (\<lambda>e. snd e \<notin> set missing) (tile_entries ms)\<rparr>)"

primrec assemble_maps ::
    "byteorder \<Rightarrow> (f32 \<Rightarrow> f32 \<times> f32) \<Rightarrow> (string \<Rightarrow> bytes option) \<Rightarrow> map_data \<Rightarrow> string list \<Rightarrow>
      (files \<times> string list) result option" where
  "assemble_maps B sin_cos raw [] spawned = Some (Inr ([], spawned))"
| "assemble_maps B sin_cos raw (m # md) spawned =
     bind_loop (Some (complete_spawns B sin_cos raw (unique_entries (snd m)))) (\<lambda>completed.
     let ms = prune completed (snd m);
         spawned = foldl (\<lambda>sp e. hs_insert (ms_name (snd e)) sp) spawned (unique_entries ms)
     in bind_loop (write_map_files B (fst m) ms) (\<lambda>files.
        bind_loop (assemble_maps B sin_cos raw md spawned) (\<lambda>(rest, spawned).
        Some (Inr (files @ rest, spawned)))))"

primrec convert_models :: "byteorder \<Rightarrow> (string \<Rightarrow> bytes option) \<Rightarrow> string list \<Rightarrow> files result option" where
  "convert_models B raw [] = Some (Inr [])"
| "convert_models B raw (name # names) =
     bind_loop
       (case read_raw_model B raw name of
          Inl (Panic e) \<Rightarrow> Some (Inl (Panic e))
        | Inl (Err e) \<Rightarrow> Some (Inr [])
        | Inr m \<Rightarrow> bind_loop (vmo_contents B m) (\<lambda>c. Some (Inr [(name @ ''.vmo'', c)]))) (\<lambda>f.
     bind_loop (convert_models B raw names) (\<lambda>fs. Some (Inr (f @ fs))))"

definition run_vmap_assemble ::
    "byteorder \<Rightarrow> (f32 \<Rightarrow> f32 \<times> f32) \<Rightarrow> bool \<Rightarrow> (string \<Rightarrow> bytes option) \<Rightarrow> files result option" where
  "run_vmap_assemble B sin_cos raw_dir_exists raw =
     (if \<not> raw_dir_exists then Some (Inl (Err ''Raw data directory does not exist''))
      else
        case raw ''dir_bin'' of
          None \<Rightarrow> Some (Inl (Err ''Could not read dir_bin''))
        | Some bs \<Rightarrow>
            bind_loop (Some (read_map_spawns B bs [])) (\<lambda>md.
            bind_loop (assemble_maps B sin_cos raw md []) (\<lambda>(maps, spawned).
            bind_loop (Some (export_gameobject_models B raw spawned)) (\<lambda>(objects, spawned).
            bind_loop (convert_models B raw spawned) (\<lambda>models.
            Some (Inr (maps @ objects @ models)))))))"

end
