(* ===== verification/Bih_Search.thy ===== *)
theory Bih_Search
  imports Bih "HOL-Library.Multiset"
begin

text \<open>
  The search for a split plane: what the partition loop leaves behind, what each way out of
  the search loop says about the primitives of the range, and that the loop ends for
  ordinary coordinates.
\<close>

section \<open>Bounds by comparable numbers\<close>

text \<open>\<open>f32_ub c v\<close>: no number above \<open>v\<close> that compares with it is lost by cutting at \<open>c\<close>.\<close>

definition f32_ub :: "f32 \<Rightarrow> f32 \<Rightarrow> bool" where
  "f32_ub c v \<longleftrightarrow> \<not> f32_is_nan c \<and> \<not> f32_lt c v"

definition f32_lb :: "f32 \<Rightarrow> f32 \<Rightarrow> bool" where
  "f32_lb c v \<longleftrightarrow> \<not> f32_is_nan c \<and> \<not> f32_lt v c"

lemma f32_ub_le: "f32_ub c v \<Longrightarrow> f32_le q v \<Longrightarrow> f32_le q c"
  by (auto simp: f32_ub_def f32_lt_def f32_le_def)

lemma f32_lb_le: "f32_lb c v \<Longrightarrow> f32_le v q \<Longrightarrow> f32_le c q"
  by (auto simp: f32_lb_def f32_lt_def f32_le_def)

lemma f32_ub_trans: "f32_ub c v \<Longrightarrow> f32_le c d \<Longrightarrow> f32_ub d v"
  by (auto simp: f32_ub_def f32_lt_def f32_le_def)

lemma f32_lb_trans: "f32_lb c v \<Longrightarrow> f32_le d c \<Longrightarrow> f32_lb d v"
  by (auto simp: f32_lb_def f32_lt_def f32_le_def)

lemma f32_le_refl: "\<not> f32_is_nan x \<Longrightarrow> f32_le x x"
  by (simp add: f32_le_def)

lemma f32_le_trans: "f32_le x y \<Longrightarrow> f32_le y z \<Longrightarrow> f32_le x z"
  by (auto simp: f32_le_def)

lemma f32_le_not_nan: "f32_le x y \<Longrightarrow> \<not> f32_is_nan x \<and> \<not> f32_is_nan y"
  by (simp add: f32_le_def)

lemma f32_raise: "\<not> f32_is_nan c \<Longrightarrow> f32_le c (if f32_lt c v then v else c) \<and> f32_ub (if f32_lt c v then v else c) v"
  by (auto simp: f32_ub_def f32_lt_def f32_le_def)

lemma f32_lower: "\<not> f32_is_nan c \<Longrightarrow> f32_le (if f32_lt v c then v else c) c \<and> f32_lb (if f32_lt v c then v else c) v"
  by (auto simp: f32_lb_def f32_lt_def f32_le_def)

lemma f32_min_bound: "\<not> f32_is_nan c \<Longrightarrow> f32_le (f32_min c v) c \<and> f32_lb (f32_min c v) v"
  by (auto simp: f32_min_def f32_lb_def f32_lt_def f32_le_def)

lemma f32_max_bound: "\<not> f32_is_nan c \<Longrightarrow> f32_le c (f32_max c v) \<and> f32_ub (f32_max c v) v"
  by (auto simp: f32_max_def f32_ub_def f32_lt_def f32_le_def)

lemma infinities_not_nan: "\<not> f32_is_nan f32_INFINITY" "\<not> f32_is_nan f32_NEG_INFINITY"
  by (simp_all add: f32_is_nan_bits f32_constants)

section \<open>Ranges of the index array\<close>

definition obj_range :: "'a list \<Rightarrow> int \<Rightarrow> int \<Rightarrow> 'a set" where
  "obj_range ixs a b = (\<lambda>k. ixs ! nat k) ` {a..b}"

text \<open>\<open>permuted a b xs ys\<close>: \<open>ys\<close> is \<open>xs\<close> with the positions \<open>a\<close> to \<open>b\<close> rearranged.\<close>

definition permuted :: "int \<Rightarrow> int \<Rightarrow> 'a list \<Rightarrow> 'a list \<Rightarrow> bool" where
  "permuted a b xs ys \<longleftrightarrow> mset ys = mset xs \<and> (\<forall>k. k < nat a \<or> b < int k \<longrightarrow> ys ! k = xs ! k)"

lemma permuted_refl [simp]: "permuted a b xs xs"
  by (simp add: permuted_def)

lemma permuted_trans: "permuted a b xs ys \<Longrightarrow> permuted a b ys zs \<Longrightarrow> permuted a b xs zs"
  by (simp add: permuted_def)

lemma permuted_widen: "permuted c d xs ys \<Longrightarrow> a \<le> c \<Longrightarrow> d \<le> b \<Longrightarrow> permuted a b xs ys"
  unfolding permuted_def by (auto simp: nat_less_iff)

lemma permuted_length: "permuted a b xs ys \<Longrightarrow> length ys = length xs"
  unfolding permuted_def by (metis size_mset)

lemma permuted_set: "permuted a b xs ys \<Longrightarrow> set ys = set xs"
  unfolding permuted_def by (metis set_mset_mset)

lemma obj_range_take_drop:
  assumes "0 \<le> a" "b < int (length xs)" "a \<le> b"
  shows "obj_range xs a b = set (take (nat (b - a + 1)) (drop (nat a) xs))"
proof -
  have "obj_range xs a b = (\<lambda>k. xs ! (nat a + k)) ` {0..<nat (b - a + 1)}" (is "_ = ?f ` ?S")
  proof
    show "obj_range xs a b \<subseteq> ?f ` ?S"
    proof
      fix x assume "x \<in> obj_range xs a b"
      then obtain k where k: "a \<le> k" "k \<le> b" "x = xs ! nat k" by (auto simp: obj_range_def)
      then have "nat k = nat a + nat (k - a)" "nat (k - a) \<in> ?S" using assms(1) by auto
      with k(3) show "x \<in> ?f ` ?S" by auto
    qed
    show "?f ` ?S \<subseteq> obj_range xs a b"
    proof
      fix x assume "x \<in> ?f ` ?S"
      then obtain k where k: "k < nat (b - a + 1)" "x = xs ! (nat a + k)" by auto
      then have "a + int k \<in> {a..b}" "nat (a + int k) = nat a + k" using assms(1) by auto
      with k(2) show "x \<in> obj_range xs a b" unfolding obj_range_def by (metis image_eqI)
    qed
  qed
  moreover have "nat a + nat (b - a + 1) \<le> length xs" using assms by linarith
  ultimately show ?thesis using nth_image [of "nat (b - a + 1)" "drop (nat a) xs"] by (simp add: image_def)
qed

lemma permuted_range:
  assumes "permuted a b xs ys" "0 \<le> a" "a \<le> b" "b < int (length xs)"
  shows "obj_range ys a b = obj_range xs a b"
proof -
  let ?n = "nat (b - a + 1)" and ?a = "nat a"
  have len: "length ys = length xs" using assms(1) by (rule permuted_length)
  have e: "?a + ?n = nat (b + 1)" using assms(2,3) by linarith
  have "take ?a ys = take ?a xs"
    using assms(1) len by (auto simp: permuted_def intro!: nth_equalityI)
  moreover have "drop (?a + ?n) ys = drop (?a + ?n) xs"
    using assms(1) len unfolding e by (intro nth_equalityI) (auto simp: permuted_def)
  moreover have split: "mset zs = mset (take ?a zs) + mset (take ?n (drop ?a zs)) + mset (drop (?a + ?n) zs)" for zs :: "'a list"
  proof -
    have "zs = take ?a zs @ take ?n (drop ?a zs) @ drop (?a + ?n) zs"
      by (metis add.commute append_take_drop_id drop_drop)
    then have "mset zs = mset (take ?a zs @ take ?n (drop ?a zs) @ drop (?a + ?n) zs)" by simp
    then show ?thesis by (simp only: mset_append add.assoc)
  qed
  ultimately have "mset (take ?n (drop ?a ys)) = mset (take ?n (drop ?a xs))"
    using assms(1) split [of xs] split [of ys] unfolding permuted_def by (metis add_left_cancel add_right_cancel)
  then show ?thesis
    using obj_range_take_drop [of a b xs] obj_range_take_drop [of a b ys] assms len by (metis set_mset_mset)
qed

lemma permuted_swap:
  assumes "a \<le> i" "i \<le> j" "j \<le> b" "0 \<le> a" "nat j < length xs"
  shows "permuted a b xs (xs[nat i := xs ! nat j, nat j := xs ! nat i])"
proof -
  have i: "nat i < length xs" using assms by linarith
  have "nat a \<le> nat i" "int (nat j) \<le> b" "nat i \<le> nat j" using assms by linarith+
  then have "k < nat a \<or> b < int k \<Longrightarrow> nat i \<noteq> k" "k < nat a \<or> b < int k \<Longrightarrow> nat j \<noteq> k" for k by linarith+
  then show ?thesis
    using assms(5) i by (auto simp: permuted_def mset_swap nth_list_update)
qed

section \<open>The partition\<close>

abbreviation obj_min :: "aabox list \<Rightarrow> int \<Rightarrow> u32 \<Rightarrow> f32" where
  "obj_min pb axis obj \<equiv> coord axis (bx_min (pb ! unat obj))"

abbreviation obj_max :: "aabox list \<Rightarrow> int \<Rightarrow> u32 \<Rightarrow> f32" where
  "obj_max pb axis obj \<equiv> coord axis (bx_max (pb ! unat obj))"

definition part_ok :: "partition \<Rightarrow> bool" where
  "part_ok p \<longleftrightarrow> \<not> f32_is_nan (pt_clip_l p) \<and> \<not> f32_is_nan (pt_clip_r p) \<and>
     \<not> f32_is_nan (pt_node_l p) \<and> \<not> f32_is_nan (pt_node_r p)"

text \<open>What one run of the loop from \<open>i\<close> establishes.\<close>

definition part_post :: "aabox list \<Rightarrow> int \<Rightarrow> int \<Rightarrow> partition \<Rightarrow> partition \<Rightarrow> bool" where
  "part_post pb axis i p p' \<longleftrightarrow>
     part_ok p' \<and> permuted i (pt_right p) (pt_indices p) (pt_indices p') \<and>
     pt_right p' \<le> pt_right p \<and> i \<le> pt_right p' + 1 \<and>
     f32_le (pt_clip_l p) (pt_clip_l p') \<and> f32_le (pt_clip_r p') (pt_clip_r p) \<and>
     f32_le (pt_node_l p') (pt_node_l p) \<and> f32_le (pt_node_r p) (pt_node_r p') \<and>
     (\<forall>k. i \<le> k \<and> k \<le> pt_right p' \<longrightarrow> f32_ub (pt_clip_l p') (obj_max pb axis (pt_indices p' ! nat k))) \<and>
     (\<forall>k. pt_right p' < k \<and> k \<le> pt_right p \<longrightarrow> f32_lb (pt_clip_r p') (obj_min pb axis (pt_indices p' ! nat k))) \<and>
     (\<forall>k. i \<le> k \<and> k \<le> pt_right p \<longrightarrow> f32_lb (pt_node_l p') (obj_min pb axis (pt_indices p' ! nat k)) \<and>
        f32_ub (pt_node_r p') (obj_max pb axis (pt_indices p' ! nat k)))"

lemma part_post_keep:
  assumes "part_ok p" "0 \<le> i" "i \<le> pt_right p"
    and q: "q = part_stay axis (pb ! unat (pt_indices p ! nat i)) p"
    and post: "part_post pb axis (i + 1) q p'"
  shows "part_post pb axis i p p'"
proof -
  let ?o = "pt_indices p ! nat i"
  have b: "f32_le (pt_clip_l p) (pt_clip_l q)" "f32_ub (pt_clip_l q) (obj_max pb axis ?o)"
    "f32_le (pt_node_l q) (pt_node_l p)" "f32_lb (pt_node_l q) (obj_min pb axis ?o)"
    "f32_le (pt_node_r p) (pt_node_r q)" "f32_ub (pt_node_r q) (obj_max pb axis ?o)"
    using f32_raise [of "pt_clip_l p" "obj_max pb axis ?o"] f32_min_bound [of "pt_node_l p" "obj_min pb axis ?o"]
      f32_max_bound [of "pt_node_r p" "obj_max pb axis ?o"] assms(1)
    by (simp_all add: q part_ok_def part_stay_def part_move_def Let_def)
  have k: "pt_indices q = pt_indices p" "pt_right q = pt_right p" "pt_clip_r q = pt_clip_r p" by (simp_all add: q part_stay_def Let_def)
  have o: "pt_indices p' ! nat i = ?o"
    using post assms(2) k by (simp add: part_post_def permuted_def)
  have perm: "permuted i (pt_right p) (pt_indices p) (pt_indices p')"
    using post k by (auto simp: part_post_def intro: permuted_widen)
  have at: "f32_ub (pt_clip_l p') (obj_max pb axis (pt_indices p' ! nat i))"
    "f32_lb (pt_node_l p') (obj_min pb axis (pt_indices p' ! nat i))"
    "f32_ub (pt_node_r p') (obj_max pb axis (pt_indices p' ! nat i))"
    using post b o by (auto simp: part_post_def intro: f32_ub_trans f32_lb_trans)
  have range: "(\<forall>k. i \<le> k \<and> k \<le> n \<longrightarrow> P k) \<longleftrightarrow> (\<forall>k. i + 1 \<le> k \<and> k \<le> n \<longrightarrow> P k)" if "P i" for P n
    using that by (metis add1_zle_eq order_le_less)
  show ?thesis
    unfolding part_post_def
    using post b at perm k
    by (auto simp: part_post_def range at intro: f32_le_trans)
qed

lemma part_post_swap:
  assumes "part_ok p" "0 \<le> i" "i \<le> pt_right p" "nat (pt_right p) < length (pt_indices p)"
    and ixs: "ixs = (pt_indices p)[nat i := pt_indices p ! nat (pt_right p), nat (pt_right p) := pt_indices p ! nat i]"
    and q: "q = part_move axis (pb ! unat (pt_indices p ! nat i)) ixs p"
    and post: "part_post pb axis i q p'"
  shows "part_post pb axis i p p'"
proof -
  let ?o = "pt_indices p ! nat i"
  have b: "f32_le (pt_clip_r q) (pt_clip_r p)" "f32_lb (pt_clip_r q) (obj_min pb axis ?o)"
    "f32_le (pt_node_l q) (pt_node_l p)" "f32_lb (pt_node_l q) (obj_min pb axis ?o)"
    "f32_le (pt_node_r p) (pt_node_r q)" "f32_ub (pt_node_r q) (obj_max pb axis ?o)"
    using f32_lower [of "pt_clip_r p" "obj_min pb axis ?o"] f32_min_bound [of "pt_node_l p" "obj_min pb axis ?o"]
      f32_max_bound [of "pt_node_r p" "obj_max pb axis ?o"] assms(1)
    by (simp_all add: q part_ok_def part_stay_def part_move_def Let_def)
  have k: "pt_indices q = ixs" "pt_right q = pt_right p - 1" "pt_clip_l q = pt_clip_l p" by (simp_all add: q part_move_def Let_def)
  have "pt_indices p' ! nat (pt_right p) = ixs ! nat (pt_right p)"
    using post assms(2,3) k by (simp add: part_post_def permuted_def)
  then have o: "pt_indices p' ! nat (pt_right p) = ?o" using assms(4) by (simp add: ixs)
  have "permuted i (pt_right p) (pt_indices p) ixs"
    unfolding ixs using assms by (intro permuted_swap) auto
  moreover have "permuted i (pt_right p) ixs (pt_indices p')"
    using post k by (auto simp: part_post_def intro: permuted_widen)
  ultimately have perm: "permuted i (pt_right p) (pt_indices p) (pt_indices p')" by (rule permuted_trans)
  have at: "f32_lb (pt_clip_r p') (obj_min pb axis (pt_indices p' ! nat (pt_right p)))"
    "f32_lb (pt_node_l p') (obj_min pb axis (pt_indices p' ! nat (pt_right p)))"
    "f32_ub (pt_node_r p') (obj_max pb axis (pt_indices p' ! nat (pt_right p)))"
    using post b o by (auto simp: part_post_def intro: f32_ub_trans f32_lb_trans)
  have range: "(\<forall>k. Q k \<and> k \<le> pt_right p \<longrightarrow> P k) \<longleftrightarrow> (\<forall>k. Q k \<and> k \<le> pt_right p - 1 \<longrightarrow> P k)"
    if "P (pt_right p)" for P Q
    using that by (metis zle_diff1_eq order_le_less)
  show ?thesis
    unfolding part_post_def
    using post b at perm k
    by (auto simp: part_post_def range at intro: f32_le_trans)
qed

lemma part_ok_updates:
  "part_ok p \<Longrightarrow> part_ok (part_stay axis box p)" "part_ok p \<Longrightarrow> part_ok (part_move axis box ixs p)"
  by (simp_all add: part_ok_def part_stay_def part_move_def Let_def f32_min_def f32_max_def f32_lt_def)

lemma partition_step:
  assumes "\<not> pt_right p < i" "slice_get (pt_indices p) i = Inr obj" "slice_get pb (uint obj) = Inr box"
  shows "partition_loop pb axis split i p =
    (if f32_le (center axis box) split then partition_loop pb axis split (i + 1) (part_stay axis box p)
     else bind_result (slice_swap i (pt_right p) (pt_indices p)) (\<lambda>ixs.
            partition_loop pb axis split i (part_move axis box ixs p)))"
  using assms by (subst partition_loop.simps) simp

lemma partition_stop: "pt_right p < i \<Longrightarrow> partition_loop pb axis split i p = Inr p"
  by (simp add: partition_loop.simps)

lemma partition_loop_post:
  "partition_loop pb axis split i p = Inr p' \<Longrightarrow> part_ok p \<Longrightarrow> 0 \<le> i \<Longrightarrow> i \<le> pt_right p + 1 \<Longrightarrow>
   part_post pb axis i p p'"
proof (induction pb axis split i p rule: partition_loop.induct)
  case (1 pb axis split i p)
  show ?case
  proof (cases "pt_right p < i")
    case True
    then have "p' = p" using "1.prems"(1) by (simp add: partition_stop)
    with True 1 show ?thesis by (auto simp: part_post_def part_ok_def intro: f32_le_refl)
  next
    case False
    let ?o = "pt_indices p ! nat i"
    obtain obj box where "slice_get (pt_indices p) i = Inr obj" "slice_get pb (uint obj) = Inr box"
      using "1.prems"(1) False by (subst (asm) partition_loop.simps) auto
    then have o: "slice_get (pt_indices p) i = Inr ?o" "slice_get pb (uint ?o) = Inr (pb ! unat ?o)"
      by (auto simp: slice_get_def split: if_splits)
    note step = partition_step [OF False o, of axis split]
    show ?thesis
    proof (cases "f32_le (center axis (pb ! unat ?o)) split")
      case True
      then have "part_post pb axis (i + 1) (part_stay axis (pb ! unat ?o) p) p'"
        using "1.prems" False step by (intro "1.IH"(1) [OF False True]) (auto simp: part_ok_updates)
      from part_post_keep [OF _ _ _ refl this] show ?thesis using "1.prems" False by simp
    next
      case c: False
      obtain ixs where sw: "slice_swap i (pt_right p) (pt_indices p) = Inr ixs"
        using "1.prems"(1) step c by auto
      then have len: "nat (pt_right p) < length (pt_indices p)"
        "ixs = (pt_indices p)[nat i := pt_indices p ! nat (pt_right p), nat (pt_right p) := pt_indices p ! nat i]"
        by (auto simp: slice_swap_def split: if_splits)
      have "part_post pb axis i (part_move axis (pb ! unat ?o) ixs p) p'"
        using "1.prems" False step sw c by (intro "1.IH"(2) [OF False c]) (auto simp: part_ok_updates)
      from part_post_swap [OF _ _ _ len refl this] show ?thesis using "1.prems" False by simp
    qed
  qed
qed

lemma partition_loop_total:
  "0 \<le> i \<Longrightarrow> pt_right p < int (length (pt_indices p)) \<Longrightarrow> \<forall>obj \<in> set (pt_indices p). unat obj < length pb \<Longrightarrow>
   \<exists>p'. partition_loop pb axis split i p = Inr p'"
proof (induction pb axis split i p rule: partition_loop.induct)
  case (1 pb axis split i p)
  show ?case
  proof (cases "pt_right p < i")
    case False
    let ?o = "pt_indices p ! nat i"
    have n: "nat i < length (pt_indices p)" "nat (pt_right p) < length (pt_indices p)" using False 1 by linarith+
    then have o: "slice_get (pt_indices p) i = Inr ?o" "slice_get pb (uint ?o) = Inr (pb ! unat ?o)"
      using "1.prems" by (auto simp: slice_get_def)
    obtain ixs where sw: "slice_swap i (pt_right p) (pt_indices p) = Inr ixs"
      using False "1.prems"(1) n by (auto simp: slice_swap_def)
    then have "length ixs = length (pt_indices p)" "set ixs = set (pt_indices p)"
      using n by (auto simp: slice_swap_def set_swap split: if_splits)
    then show ?thesis
      using False "1.prems" sw "1.IH"(1) [OF False, of "pb ! unat ?o"] "1.IH"(2) [OF False, of "pb ! unat ?o" ixs]
      by (subst partition_step [OF False o]) auto
  qed (simp add: partition_stop)
qed

section \<open>The search for a split\<close>

definition axes :: "int set" where "axes = {0, 1, 2}"

lemma longest_axis_axes [simp]: "longest_axis g \<in> axes"
  by (simp add: longest_axis_def axes_def Let_def)

text \<open>A one-sided clip holds for every primitive of the range.\<close>

definition clip_ok :: "aabox list \<Rightarrow> u32 set \<Rightarrow> int \<Rightarrow> f32 \<Rightarrow> bool \<Rightarrow> bool" where
  "clip_ok pb objs axis clip was_left \<longleftrightarrow> axis \<in> axes \<and>
     (\<forall>obj \<in> objs. if was_left then f32_ub clip (obj_max pb axis obj) else f32_lb clip (obj_min pb axis obj))"

definition split_inv :: "aabox list \<Rightarrow> int \<Rightarrow> int \<Rightarrow> split_state \<Rightarrow> bool" where
  "split_inv pb left right st \<longleftrightarrow> ss_axis st = - 1 \<or> f32_is_nan (ss_prev_clip st) \<or>
     clip_ok pb (obj_range (ss_indices st) left right) (ss_axis st) (ss_prev_clip st) (ss_was_left st)"

fun split_post :: "aabox list \<Rightarrow> int \<Rightarrow> int \<Rightarrow> u32 list \<Rightarrow> split_outcome \<Rightarrow> bool" where
  "split_post pb left right ixs0 (MakeLeaf ixs) \<longleftrightarrow> permuted left right ixs0 ixs"
| "split_post pb left right ixs0 (Shrink ixs g axis node_l node_r) \<longleftrightarrow>
     permuted left right ixs0 ixs \<and> clip_ok pb (obj_range ixs left right) axis node_r True \<and>
     clip_ok pb (obj_range ixs left right) axis node_l False"
| "split_post pb left right ixs0 (Divide ixs g prev axis split clip_l clip_r mid) \<longleftrightarrow>
     permuted left right ixs0 ixs \<and> left \<le> mid \<and> mid < right \<and>
     clip_ok pb (obj_range ixs left mid) axis clip_l True \<and>
     clip_ok pb (obj_range ixs (mid + 1) right) axis clip_r False \<and>
     (case prev of None \<Rightarrow> True | Some (a, c, w) \<Rightarrow> clip_ok pb (obj_range ixs left right) a c w)"

lemma clip_okI:
  assumes "axis \<in> axes"
    and "\<And>k. a \<le> k \<Longrightarrow> k \<le> b \<Longrightarrow> if w then f32_ub c (obj_max pb axis (ixs ! nat k)) else f32_lb c (obj_min pb axis (ixs ! nat k))"
  shows "clip_ok pb (obj_range ixs a b) axis c w"
  using assms by (auto simp: clip_ok_def obj_range_def)

lemma split_step_post:
  assumes "split_step pb left right node_box st = Inr r" "split_inv pb left right st"
    and "0 \<le> left" "left \<le> right" "right < int (length (ss_indices st))"
  shows "case r of
      Continue st' \<Rightarrow> permuted left right (ss_indices st) (ss_indices st') \<and> split_inv pb left right st'
    | Break out \<Rightarrow> split_post pb left right (ss_indices st) out"
proof -
  let ?ax = "longest_axis (ss_grid st)" and ?p0 = "part_start (ss_indices st) right"
  obtain split p where p: "partition_loop pb ?ax split left ?p0 = Inr p"
    and r: "r = split_decide left right node_box st ?ax split p"
    using assms(1) unfolding split_step_def Let_def by auto
  have "part_post pb ?ax left ?p0 p"
    by (rule partition_loop_post [OF p])
      (use assms in \<open>auto simp: part_ok_def part_start_def infinities_not_nan\<close>)
  then have perm: "permuted left right (ss_indices st) (pt_indices p)"
    and range: "left \<le> pt_right p + 1" "pt_right p \<le> right"
    and clips: "clip_ok pb (obj_range (pt_indices p) left (pt_right p)) ?ax (pt_clip_l p) True"
      "clip_ok pb (obj_range (pt_indices p) (pt_right p + 1) right) ?ax (pt_clip_r p) False"
      "clip_ok pb (obj_range (pt_indices p) left right) ?ax (pt_node_l p) False"
      "clip_ok pb (obj_range (pt_indices p) left right) ?ax (pt_node_r p) True"
    by (auto simp: part_post_def part_start_def intro!: clip_okI)
  have objs: "obj_range (pt_indices p) left right = obj_range (ss_indices st) left right"
    by (rule permuted_range [OF perm assms(3-5)])
  have none_left: "pt_right p + 1 = left" if "pt_right p < left" using that range by linarith
  let ?shrink = "empty_space (coord ?ax (fst node_box)) (coord ?ax (snd node_box)) p"
  consider "?shrink" | "\<not> ?shrink" "pt_right p = right" | "\<not> ?shrink" "pt_right p < left" "pt_right p \<noteq> right"
    | "\<not> ?shrink" "left \<le> pt_right p" "pt_right p < right" using range by linarith
  then show ?thesis
  proof cases
    case 1
    then show ?thesis using perm clips by (simp add: r split_decide_def Let_def)
  next
    case 2
    then show ?thesis using perm clips by (auto simp: r split_decide_def Let_def split_inv_def f32_constants)
  next
    case 3
    then show ?thesis using perm clips none_left by (auto simp: r split_decide_def Let_def split_inv_def f32_constants)
  next
    case 4
    then show ?thesis
      using perm clips assms(2) by (auto simp: r split_decide_def Let_def split_inv_def objs)
  qed
qed

lemma split_post_perm:
  "split_post pb left right xs out \<Longrightarrow> permuted left right ys xs \<Longrightarrow> split_post pb left right ys out"
  by (cases out) (auto intro: permuted_trans)

lemma split_loop_result:
  "split_loop pb left right node_box st = Some r \<Longrightarrow>
   (case r of Inl e \<Rightarrow> True | Inr out \<Rightarrow> split_inv pb left right st \<longrightarrow> 0 \<le> left \<longrightarrow> left \<le> right \<longrightarrow>
      right < int (length (ss_indices st)) \<longrightarrow> split_post pb left right (ss_indices st) out)"
proof (induction rule: split_loop.raw_induct [rotated, consumes 1, case_names 1])
  case (1 loop pb left right node_box st r)
  show ?case
  proof (cases "split_step pb left right node_box st")
    case (Inr it)
    note step = split_step_post [OF Inr]
    show ?thesis
    proof (cases it)
      case (Continue st')
      then have "loop pb left right node_box st' = Some r" using 1(2) Inr by simp
      note IH = 1(1) [OF this]
      show ?thesis
      proof (cases r)
        case (Inr out)
        have "split_post pb left right (ss_indices st) out"
          if a: "split_inv pb left right st" "0 \<le> left" "left \<le> right" "right < int (length (ss_indices st))"
        proof -
          from step [OF a] Continue
          have s: "permuted left right (ss_indices st) (ss_indices st')" "split_inv pb left right st'"
            by simp_all
          then have "split_post pb left right (ss_indices st') out"
            using IH Inr a permuted_length [OF s(1)] by simp
          then show ?thesis using s(1) by (rule split_post_perm)
        qed
        then show ?thesis using Inr by simp
      qed simp
    next
      case (Break out)
      then show ?thesis using 1(2) Inr step by auto
    qed
  qed (use 1(2) in auto)
qed

lemma split_loop_post:
  assumes "split_loop pb left right node_box st = Some (Inr out)" "split_inv pb left right st"
    and "0 \<le> left" "left \<le> right" "right < int (length (ss_indices st))"
  shows "split_post pb left right (ss_indices st) out"
  using split_loop_result [OF assms(1)] assms(2-) by simp

section \<open>The search returns\<close>

text \<open>Ordinary coordinates: finite, and small enough that the sum of two of them is finite.\<close>

definition plain :: "f32 \<Rightarrow> bool" where
  "plain x \<longleftrightarrow> f32_abs_bits x < 0x7F000000"

definition plain_box :: "box2 \<Rightarrow> bool" where
  "plain_box g \<longleftrightarrow> (\<forall>a \<in> axes. plain (coord a (fst g)) \<and> plain (coord a (snd g)) \<and>
     f32_ord (coord a (fst g)) \<le> f32_ord (coord a (snd g)))"

lemma plain_ord: "plain x \<longleftrightarrow> \<bar>f32_ord x\<bar> < 0x7F000000"
  by (auto simp: plain_def f32_ord_def)

lemma plain_finite: "plain x \<Longrightarrow> f32_is_finite x"
  by (simp add: plain_def f32_is_finite_def)

lemma plain_between: "plain x \<Longrightarrow> plain y \<Longrightarrow> f32_ord x \<le> f32_ord m \<Longrightarrow> f32_ord m \<le> f32_ord y \<Longrightarrow> plain m"
  by (auto simp: plain_ord)

lemma coord_set_coord [simp]: "a \<in> axes \<Longrightarrow> b \<in> axes \<Longrightarrow> coord a (set_coord b c v) = (if a = b then c else coord a v)"
  by (auto simp: axes_def coord_def set_coord_def)

lemma middle_between:
  assumes "plain_box g" "a \<in> axes"
  shows "f32_ord (coord a (fst g)) \<le> f32_ord (middle a g)" "f32_ord (middle a g) \<le> f32_ord (coord a (snd g))"
    and "plain (middle a g)"
proof -
  show le: "f32_ord (coord a (fst g)) \<le> f32_ord (middle a g)" "f32_ord (middle a g) \<le> f32_ord (coord a (snd g))"
    using f32_middle [of "coord a (fst g)" "coord a (snd g)"] assms
    by (simp_all add: middle_def plain_box_def plain_def)
  show "plain (middle a g)"
    by (rule plain_between [OF _ _ le]) (use assms in \<open>simp_all add: plain_box_def\<close>)
qed

lemma plain_box_cut:
  assumes "plain_box g" "a \<in> axes"
  shows "plain_box (fst g, set_coord a (middle a g) (snd g))" "plain_box (set_coord a (middle a g) (fst g), snd g)"
  using assms middle_between [OF assms] by (auto simp: plain_box_def)

text \<open>Every cut makes the grid smaller, counted in representable numbers, or leaves all its
  coordinates equal.\<close>

definition grid_size :: "box2 \<Rightarrow> int" where
  "grid_size g = (\<Sum>a \<in> axes. f32_ord (coord a (snd g)) - f32_ord (coord a (fst g)))"

definition same_box :: "box2 \<Rightarrow> box2 \<Rightarrow> bool" where
  "same_box g h \<longleftrightarrow> (\<forall>a \<in> axes. f32_ord (coord a (fst g)) = f32_ord (coord a (fst h)) \<and>
     f32_ord (coord a (snd g)) = f32_ord (coord a (snd h)))"

lemma grid_size_nonneg: "plain_box g \<Longrightarrow> 0 \<le> grid_size g"
  unfolding grid_size_def by (rule sum_nonneg) (simp add: plain_box_def)

lemma grid_size_cut:
  assumes "plain_box g" "a \<in> axes"
  defines "u \<equiv> (fst g, set_coord a (middle a g) (snd g))" and "v \<equiv> (set_coord a (middle a g) (fst g), snd g)"
  shows "grid_size u < grid_size g \<or> grid_size u = grid_size g \<and> same_box u g"
    and "grid_size v < grid_size g \<or> grid_size v = grid_size g \<and> same_box v g"
proof -
  have "grid_size u = grid_size g - (f32_ord (coord a (snd g)) - f32_ord (middle a g))"
    "grid_size v = grid_size g - (f32_ord (middle a g) - f32_ord (coord a (fst g)))"
    using assms(2) by (auto simp: grid_size_def u_def v_def axes_def coord_def set_coord_def)
  then show "grid_size u < grid_size g \<or> grid_size u = grid_size g \<and> same_box u g"
    "grid_size v < grid_size g \<or> grid_size v = grid_size g \<and> same_box v g"
    using middle_between [OF assms(1,2)] assms(2) by (auto simp: same_box_def u_def v_def)
qed

text \<open>Equal coordinates give the same axis and the same plane again.\<close>

lemma f32_int_eq: "f32_ord x = f32_ord y \<Longrightarrow> f32_int x = f32_int y"
  by (intro order.antisym) (simp_all add: f32_int_le_iff)

lemma f32_add_not_nan:
  assumes "f32_is_finite x" "f32_is_finite y"
  shows "\<not> f32_is_nan (f32_add x y)"
  using f32_kinds(1,2) [OF assms(1)] f32_kinds(1,2) [OF assms(2)]
  by (simp add: f32_add_def Let_def) (simp add: f32_is_nan_bits not_less)

lemma f32_neg_finite: "f32_is_finite x \<Longrightarrow> f32_is_finite (f32_neg x)" "f32_int (f32_neg x) = - f32_int x"
  by (simp_all add: f32_neg_def f32_is_finite_def f32_int_def)

lemma f32_sub_ord:
  assumes "f32_is_finite x" "f32_is_finite y"
  shows "f32_ord (f32_sub x y) = f32_rnd (f32_int x - f32_int y) 0" "\<not> f32_is_nan (f32_sub x y)"
  using f32_ord_add [OF assms(1) f32_neg_finite(1) [OF assms(2)]] f32_add_not_nan [OF assms(1) f32_neg_finite(1) [OF assms(2)]]
  by (simp_all add: f32_sub_def f32_neg_finite)

lemma f32_sub_same:
  assumes "f32_is_finite x" "f32_is_finite y" "f32_ord x = f32_ord y"
  shows "f32_lt (f32_abs (f32_sub x y)) 0x358637BD"
proof -
  have "f32_ord (f32_sub x y) = 0"
    using f32_sub_ord(1) [OF assms(1,2)] f32_int_eq [OF assms(3)] by (simp add: f32_rnd_def)
  then have "f32_abs_bits (f32_sub x y) = 0" by (auto simp: f32_ord_def split: if_splits)
  then show ?thesis
    by (simp add: f32_abs_def f32_lt_def f32_is_nan_bits f32_ord_def f32_pack_def)
      (simp add: f32_abs_bits_def f32_neg_bit_def)
qed

lemma same_box_axis:
  assumes "plain_box g" "plain_box h" "same_box g h"
  shows "longest_axis g = longest_axis h"
proof -
  have d: "f32_ord (f32_sub (coord a (snd g)) (coord a (fst g))) = f32_ord (f32_sub (coord a (snd h)) (coord a (fst h)))
      \<and> \<not> f32_is_nan (f32_sub (coord a (snd g)) (coord a (fst g)))
      \<and> \<not> f32_is_nan (f32_sub (coord a (snd h)) (coord a (fst h)))" if "a \<in> axes" for a
  proof -
    have fin: "f32_is_finite (coord a (fst x))" "f32_is_finite (coord a (snd x))" if "plain_box x" for x
      using that \<open>a \<in> axes\<close> by (simp_all add: plain_box_def plain_finite)
    have "f32_int (coord a (fst g)) = f32_int (coord a (fst h))" "f32_int (coord a (snd g)) = f32_int (coord a (snd h))"
      using assms(3) that by (auto simp: same_box_def intro: f32_int_eq)
    then show ?thesis
      using f32_sub_ord [OF fin(2,1) [OF assms(1)]] f32_sub_ord [OF fin(2,1) [OF assms(2)]] by simp
  qed
  have "0 \<in> axes" "1 \<in> axes" "2 \<in> axes" by (simp_all add: axes_def)
  from this [THEN d] show ?thesis
    by (simp add: longest_axis_def vec3_sub_def vec3_new_def Let_def coord_def f32_le_def)
qed

lemma same_box_middle:
  assumes "plain_box g" "plain_box h" "same_box g h" "a \<in> axes"
  shows "f32_ord (middle a g) = f32_ord (middle a h)"
proof -
  let ?s = "\<lambda>g. f32_add (coord a (fst g)) (coord a (snd g))"
  have fin: "f32_is_finite (coord a (fst x))" "f32_is_finite (coord a (snd x))" "f32_is_finite (?s x)"
    if "plain_box x" for x
    using that assms(4) f32_middle [of "coord a (fst x)" "coord a (snd x)"]
    by (simp_all add: plain_box_def plain_finite plain_def)
  have "f32_int (coord a (fst g)) = f32_int (coord a (fst h))" "f32_int (coord a (snd g)) = f32_int (coord a (snd h))"
    using assms(3,4) by (auto simp: same_box_def intro: f32_int_eq)
  then have "f32_ord (?s g) = f32_ord (?s h)"
    using f32_ord_add [OF fin(1,2) [OF assms(1)]] f32_ord_add [OF fin(1,2) [OF assms(2)]] by simp
  then have "f32_int (?s g) = f32_int (?s h)" by (rule f32_int_eq)
  then show ?thesis
    using f32_ord_mul [OF f32_half_value(1) fin(3) [OF assms(1)]] f32_ord_mul [OF f32_half_value(1) fin(3) [OF assms(2)]]
    by (simp add: middle_def)
qed

text \<open>The variant: the size of the grid, and whether the next iteration will see the plane of
  this one again.\<close>

definition split_variant :: "split_state \<Rightarrow> nat" where
  "split_variant st =
     2 * nat (grid_size (ss_grid st)) +
     (if same_split st (longest_axis (ss_grid st)) (middle (longest_axis (ss_grid st)) (ss_grid st)) then 0 else 1)"

lemma split_variant_cut:
  assumes "plain_box (ss_grid st)" "\<not> same_split st a (middle a (ss_grid st))" "a = longest_axis (ss_grid st)"
    and "ss_axis st' = a" "ss_split st' = middle a (ss_grid st)"
    and "ss_grid st' = (fst (ss_grid st), set_coord a (middle a (ss_grid st)) (snd (ss_grid st))) \<or>
         ss_grid st' = (set_coord a (middle a (ss_grid st)) (fst (ss_grid st)), snd (ss_grid st))"
  shows "split_variant st' < split_variant st \<and> plain_box (ss_grid st')"
proof -
  let ?g = "ss_grid st" and ?h = "ss_grid st'"
  have ax: "a \<in> axes" using assms(3) by simp
  have h: "plain_box ?h" using plain_box_cut [OF assms(1) ax] assms(6) by auto
  have v: "split_variant st = 2 * nat (grid_size ?g) + 1" using assms(2,3) by (simp add: split_variant_def)
  from grid_size_cut [OF assms(1) ax] assms(6)
  have "grid_size ?h < grid_size ?g \<or> grid_size ?h = grid_size ?g \<and> same_box ?h ?g" by auto
  then show ?thesis
  proof
    assume "grid_size ?h < grid_size ?g"
    then have "nat (grid_size ?h) < nat (grid_size ?g)" using grid_size_nonneg [OF h] by linarith
    moreover have "split_variant st' \<le> 2 * nat (grid_size ?h) + 1" by (simp add: split_variant_def)
    ultimately show ?thesis using v h by linarith
  next
    assume s: "grid_size ?h = grid_size ?g \<and> same_box ?h ?g"
    then have "longest_axis ?h = a" "f32_ord (middle a ?h) = f32_ord (middle a ?g)"
      using same_box_axis [OF h assms(1)] same_box_middle [OF h assms(1) _ ax] assms(3) by auto
    moreover have "plain (middle a ?g)" "plain (middle a ?h)" using middle_between(3) assms(1) h ax by blast+
    ultimately have "same_split st' (longest_axis ?h) (middle (longest_axis ?h) ?h)"
      using assms(4,5) f32_sub_same f32_kinds(1) by (simp add: same_split_def plain_finite)
    then show ?thesis using v s h by (simp add: split_variant_def)
  qed
qed

text \<open>What the builder passes on: a range of valid indices.\<close>

definition range_ok :: "aabox list \<Rightarrow> int \<Rightarrow> int \<Rightarrow> u32 list \<Rightarrow> bool" where
  "range_ok pb left right ixs \<longleftrightarrow> 0 \<le> left \<and> left \<le> right \<and> right < int (length ixs) \<and>
     (\<forall>obj \<in> set ixs. unat obj < length pb)"

fun outcome_grid :: "split_outcome \<Rightarrow> bool" where
  "outcome_grid (MakeLeaf ixs) \<longleftrightarrow> True"
| "outcome_grid (Shrink ixs g axis l r) \<longleftrightarrow> plain_box g"
| "outcome_grid (Divide ixs g prev axis split l r mid) \<longleftrightarrow>
     plain_box (fst g, set_coord axis split (snd g)) \<and> plain_box (set_coord axis split (fst g), snd g)"

lemma split_step_total:
  assumes "range_ok pb left right (ss_indices st)" "plain_box (ss_grid st)"
  obtains st' where "split_step pb left right nb st = Inr (Continue st')" "split_variant st' < split_variant st"
      "plain_box (ss_grid st')" "range_ok pb left right (ss_indices st')"
  | out where "split_step pb left right nb st = Inr (Break out)" "outcome_grid out"
proof -
  let ?g = "ss_grid st"
  let ?a = "longest_axis ?g" and ?p0 = "part_start (ss_indices st) right"
  let ?m = "middle ?a ?g"
  obtain p where p: "partition_loop pb ?a ?m left ?p0 = Inr p"
    using partition_loop_total [of left ?p0 pb ?a ?m] assms(1) by (auto simp: range_ok_def part_start_def)
  have "part_post pb ?a left ?p0 p"
    by (rule partition_loop_post [OF p])
      (use assms in \<open>auto simp: part_ok_def part_start_def infinities_not_nan range_ok_def\<close>)
  then have "permuted left right (ss_indices st) (pt_indices p)" by (simp add: part_post_def part_start_def)
  then have ok: "range_ok pb left right (pt_indices p)"
    using assms(1) permuted_length permuted_set unfolding range_ok_def by metis
  have step: "split_step pb left right nb st = Inr (split_decide left right nb st ?a ?m p)"
    using p by (simp add: split_step_def Let_def)
  show ?thesis
  proof (cases "split_decide left right nb st ?a ?m p")
    case (Continue st')
    then have "\<not> same_split st ?a ?m \<and> ss_axis st' = ?a \<and> ss_split st' = ?m \<and> ss_indices st' = pt_indices p \<and>
      (ss_grid st' = (fst ?g, set_coord ?a ?m (snd ?g)) \<or> ss_grid st' = (set_coord ?a ?m (fst ?g), snd ?g))"
      unfolding split_decide_def Let_def by (auto split: if_splits)
    then show ?thesis
      using that(1) [of st'] split_variant_cut [OF assms(2) _ refl, of st'] ok step Continue by auto
  next
    case (Break out)
    have "outcome_grid out"
      using Break assms(2) plain_box_cut [OF assms(2), of ?a]
      unfolding split_decide_def Let_def by (auto split: if_splits)
    then show ?thesis using that(2) step Break by simp
  qed
qed

lemma split_loop_total:
  "range_ok pb left right (ss_indices st) \<Longrightarrow> plain_box (ss_grid st) \<Longrightarrow>
   \<exists>out. split_loop pb left right nb st = Some (Inr out) \<and> outcome_grid out"
proof (induction st rule: measure_induct_rule [of split_variant])
  case (less st)
  from less.prems show ?case
  proof (cases rule: split_step_total [where nb = nb])
    case (1 st')
    then show ?thesis using less.IH [of st'] by (subst split_loop.simps) simp
  next
    case (2 out)
    then show ?thesis by (subst split_loop.simps) simp
  qed
qed

end
