(* ===== verification/Bih_Correct.thy ===== *)
theory Bih_Correct
  imports Bih_Search
begin

text \<open>
  Correctness of the hierarchy builder.  For coordinates that are ordinary finite numbers
  the builder returns without a panic; the object list is a permutation of the primitives;
  and the tree is complete for range queries: whatever box is asked for, every primitive
  that meets it is in a leaf the descent reaches.
\<close>

section \<open>Descending the tree\<close>

text \<open>A node is three words: the kind (axis, or 3 for a leaf) in the two top bits, a flag for
  box-shrinking nodes, and the index of the first child or object in the other 29 bits;
  then the two clip planes, or the number of objects.\<close>

definition node_kind :: "u32 \<Rightarrow> int" where "node_kind w = uint (drop_bit 30 w)"
definition node_flag :: "u32 \<Rightarrow> bool" where "node_flag w = bit w 29"
definition node_child :: "u32 \<Rightarrow> nat" where "node_child w = unat (take_bit 29 w)"

lemma high_bits_nat: "n < 2 ^ 29 \<Longrightarrow> 29 \<le> j \<Longrightarrow> \<not> bit (n :: nat) j"
proof -
  assume "n < 2 ^ 29" "29 \<le> j"
  then have "n < 2 ^ j" using power_increasing [of 29 j "2 :: nat"] by simp
  then show ?thesis by (simp add: bit_iff_odd)
qed

lemma bit_nat_word: "bit (word_of_nat n :: 'a::len word) j \<longleftrightarrow> j < LENGTH('a) \<and> bit n j"
  using bit_word_of_int_iff [where 'a = 'a, of "int n" j] by (simp add: bit_of_nat_iff possible_bit_def)

lemma node_word:
  fixes a n :: nat and f :: bool
  assumes "a < 4" "n < 2 ^ 29"
  defines "w \<equiv> push_bit 30 (word_of_nat a) OR push_bit 29 (of_bool f) OR word_of_nat n :: u32"
  shows "node_kind w = int a" "node_flag w = f" "node_child w = n"
proof -
  have top: "\<not> bit (word_of_nat n :: u32) j" if "29 \<le> j" for j
    using high_bits_nat [OF assms(2) that] by (simp add: bit_nat_word)
  have "drop_bit 30 w = word_of_nat a"
  proof (rule bit_word_eqI)
    fix j assume "j < LENGTH(32)"
    have "j < 2" if "bit a j"
    proof (rule ccontr)
      assume "\<not> j < 2"
      then have "a < 2 ^ j" using assms(1) power_increasing [of 2 j "2 :: nat"] by simp
      with that show False by (simp add: bit_iff_odd)
    qed
    then show "bit (drop_bit 30 w) j = bit (word_of_nat a :: u32) j"
      using top [of "30 + j"]
      by (auto simp: w_def bit_simps bit_nat_word not_less)
  qed
  moreover have "unat (word_of_nat a :: u32) = a" using assms(1) by (simp add: unat_of_nat)
  ultimately show "node_kind w = int a" by (simp only: node_kind_def uint_nat)
  show "node_flag w = f" using top [of 29] by (simp add: node_flag_def w_def bit_simps)
  have "take_bit 29 w = word_of_nat n"
    by (intro bit_word_eqI) (auto simp: w_def bit_simps bit_nat_word not_less dest: high_bits_nat [OF assms(2)])
  then show "node_child w = n" using assms(2) by (simp add: node_child_def unat_of_nat)
qed

lemmas node_word_plain = node_word [where f = False, simplified]
lemmas node_word_flag = node_word [where f = True, simplified]

inductive descends :: "u32 list \<Rightarrow> box2 \<Rightarrow> nat \<Rightarrow> nat \<Rightarrow> bool" for t q where
  in_leaf: "node_kind (t ! i) = 3 \<Longrightarrow> node_child (t ! i) \<le> k \<Longrightarrow> k < node_child (t ! i) + unat (t ! (i + 1)) \<Longrightarrow>
     descends t q i k"
| in_box: "node_kind (t ! i) \<in> axes \<Longrightarrow> node_flag (t ! i) \<Longrightarrow>
     f32_le (coord (node_kind (t ! i)) (fst q)) (t ! (i + 2)) \<Longrightarrow>
     f32_le (t ! (i + 1)) (coord (node_kind (t ! i)) (snd q)) \<Longrightarrow>
     descends t q (node_child (t ! i)) k \<Longrightarrow> descends t q i k"
| go_left: "node_kind (t ! i) \<in> axes \<Longrightarrow> \<not> node_flag (t ! i) \<Longrightarrow>
     f32_le (coord (node_kind (t ! i)) (fst q)) (t ! (i + 1)) \<Longrightarrow>
     descends t q (node_child (t ! i)) k \<Longrightarrow> descends t q i k"
| go_right: "node_kind (t ! i) \<in> axes \<Longrightarrow> \<not> node_flag (t ! i) \<Longrightarrow>
     f32_le (t ! (i + 2)) (coord (node_kind (t ! i)) (snd q)) \<Longrightarrow>
     descends t q (node_child (t ! i) + 3) k \<Longrightarrow> descends t q i k"

definition meets :: "box2 \<Rightarrow> aabox \<Rightarrow> bool" where
  "meets q b \<longleftrightarrow> (\<forall>a \<in> axes. f32_le (coord a (fst q)) (coord a (bx_max b)) \<and> f32_le (coord a (bx_min b)) (coord a (snd q)))"

lemma clip_meets:
  assumes "clip_ok pb objs axis c w" "obj \<in> objs" "meets q (pb ! unat obj)"
  shows "if w then f32_le (coord axis (fst q)) c else f32_le c (coord axis (snd q))"
  using assms by (auto simp: clip_ok_def meets_def) (blast intro: f32_ub_le f32_lb_le)+

section \<open>What a call establishes\<close>

text \<open>\<open>agree T t i n\<close>: \<open>T\<close> has the node at \<open>i\<close> and everything from \<open>n\<close> on as in \<open>t\<close>.\<close>

definition agree :: "u32 list \<Rightarrow> u32 list \<Rightarrow> nat \<Rightarrow> nat \<Rightarrow> bool" where
  "agree T t i n \<longleftrightarrow> (\<forall>j. i \<le> j \<and> j \<le> i + 2 \<or> n \<le> j \<and> j < length t \<longrightarrow> T ! j = t ! j)"

lemma agree_node: "agree T t i n \<Longrightarrow> T ! i = t ! i \<and> T ! (i + 1) = t ! (i + 1) \<and> T ! (i + 2) = t ! (i + 2)"
  unfolding agree_def by auto

definition reachable :: "aabox list \<Rightarrow> int \<Rightarrow> int \<Rightarrow> u32 list \<Rightarrow> u32 list \<Rightarrow> nat \<Rightarrow> bool" where
  "reachable pb left right ixs T i \<longleftrightarrow>
     (\<forall>q k. left \<le> int k \<longrightarrow> int k \<le> right \<longrightarrow> meets q (pb ! unat (ixs ! k)) \<longrightarrow> descends T q i k)"

definition sub_post ::
    "aabox list \<Rightarrow> int \<Rightarrow> int \<Rightarrow> u32 list \<Rightarrow> u32 list \<Rightarrow> nat \<Rightarrow> u32 list \<Rightarrow> u32 list \<Rightarrow> bool" where
  "sub_post pb left right tree ixs i tree' ixs' \<longleftrightarrow>
     permuted left right ixs ixs' \<and> length tree \<le> length tree' \<and>
     (\<forall>j < length tree. j < i \<or> i + 2 < j \<longrightarrow> tree' ! j = tree ! j) \<and>
     (length tree' < 2 ^ 29 \<longrightarrow> length ixs < 2 ^ 29 \<longrightarrow>
        (\<forall>T. agree T tree' i (length tree) \<longrightarrow> reachable pb left right ixs' T i))"

lemma node_writes:
  assumes "i + 2 < length t"
  shows "(t[i := a, i + 1 := b, i + 2 := c]) ! i = a" "(t[i := a, i + 1 := b, i + 2 := c]) ! (i + 1) = b"
    "(t[i := a, i + 1 := b, i + 2 := c]) ! (i + 2) = c"
    "j < i \<or> i + 2 < j \<Longrightarrow> (t[i := a, i + 1 := b, i + 2 := c]) ! j = t ! j"
  using assms by (auto simp: nth_list_update)

lemma sub_post_leaf:
  assumes "create_node tree i (word_of_int left) (word_of_int right) = Inr tree'" "i + 2 < length tree"
    and "0 \<le> left" "left \<le> right" "right < int (length ixs)" "permuted left right ixs0 ixs"
  shows "sub_post pb left right tree ixs0 i tree' ixs"
proof -
  have t: "tree' = tree[i := push_bit 30 3 OR word_of_int left, i + 1 := word_of_int right - word_of_int left + 1]"
    using assms(1) by (auto simp: create_node_def split: if_splits)
  have "descends T q i k"
    if "length ixs < 2 ^ 29" "agree T tree' i (length tree)" "left \<le> int k" "int k \<le> right" for T q k
  proof (rule in_leaf)
    have len: "i < length tree" "i + 1 < length tree" using assms(2) by linarith+
    have "tree' ! i = push_bit 30 3 OR word_of_int left" "tree' ! (i + 1) = word_of_int right - word_of_int left + 1"
      unfolding t using len by simp_all
    then have T: "T ! i = push_bit 30 3 OR word_of_int left" "T ! (i + 1) = word_of_int right - word_of_int left + 1"
      using agree_node [OF that(2)] by metis+
    have l: "word_of_int left = (word_of_nat (nat left) :: u32)" using assms(3) by simp
    have n: "nat left < 536870912" using that(1) assms(4,5) by simp
    show "node_kind (T ! i) = 3" using node_word_plain(1) [OF _ n, of 3] by (simp add: T l)
    have c: "node_child (T ! i) = nat left" using node_word_plain(3) [OF _ n, of 3] by (simp add: T l)
    then show "node_child (T ! i) \<le> k" using that(3) by linarith
    have "T ! (i + 1) = word_of_int (right - left + 1)" unfolding T by simp
    also have "\<dots> = word_of_nat (nat (right - left + 1))" using assms(4) by simp
    finally have "unat (T ! (i + 1)) = nat (right - left + 1) mod 2 ^ 32" by (simp add: unat_of_nat)
    moreover have "nat (right - left + 1) < 2 ^ 32" using that(1) assms(3,5) by simp
    ultimately have "unat (T ! (i + 1)) = nat (right - left + 1)" by (simp only: mod_less)
    with c show "k < node_child (T ! i) + unat (T ! (i + 1))" using that(4) assms(3,4) by linarith
  qed
  moreover have "length ixs0 = length ixs" using permuted_length [OF assms(6)] by simp
  ultimately show ?thesis
    using assms(2,6) by (auto simp: sub_post_def reachable_def t nth_list_update)
qed

lemma set_node_result:
  assumes "set_node i a b c t = Inr t'"
  shows "i + 2 < length t" "length t' = length t" "t' ! i = a" "t' ! (i + 1) = b" "t' ! (i + 2) = c"
    "j < i \<or> i + 2 < j \<Longrightarrow> t' ! j = t ! j"
  using assms node_writes [of i t] by (auto simp: set_node_def split: if_splits)

lemma permuted_obj:
  assumes "permuted left right xs ys" "0 \<le> left" "left \<le> right" "right < int (length xs)" "left \<le> int k" "int k \<le> right"
  shows "ys ! k \<in> obj_range xs left right"
proof -
  have "ys ! k \<in> obj_range ys left right" using assms(5,6) by (auto simp: obj_range_def intro!: image_eqI [of _ _ "int k"])
  then show ?thesis using permuted_range [OF assms(1-4)] by simp
qed

text \<open>A node with a single child, appended at the end of the tree.\<close>

lemma sub_post_via:
  assumes node: "set_node i w a b (tree @ new_node) = Inr t1" and i: "i + 2 < length tree"
    and inner: "sub_post pb left right t1 ixs1 (length tree) t' ixs'" and perm: "permuted left right ixs ixs1"
    and down: "\<And>T q k. T ! i = w \<Longrightarrow> T ! (i + 1) = a \<Longrightarrow> T ! (i + 2) = b \<Longrightarrow> length tree < 2 ^ 29 \<Longrightarrow>
      left \<le> int k \<Longrightarrow> int k \<le> right \<Longrightarrow> meets q (pb ! unat (ixs' ! k)) \<Longrightarrow>
      descends T q (length tree) k \<Longrightarrow> descends T q i k"
  shows "sub_post pb left right tree ixs i t' ixs'"
proof -
  let ?n = "length tree"
  have len: "length t1 = ?n + 3" using set_node_result(2) [OF node] by (simp add: new_node_def)
  have le: "length t1 \<le> length t'" using inner by (simp add: sub_post_def)
  have keep: "t' ! j = t1 ! j" if "j < ?n" for j
    using inner that len by (simp add: sub_post_def)
  have old: "t' ! j = tree ! j" if "j < ?n" "j < i \<or> i + 2 < j" for j
    using keep [OF that(1)] set_node_result(6) [OF node that(2)] that(1) by (simp add: nth_append)
  have "reachable pb left right ixs' T i"
    if small: "length t' < 2 ^ 29" "length ixs < 2 ^ 29" and ag: "agree T t' i ?n" for T
  proof -
    have T: "T ! i = w" "T ! (i + 1) = a" "T ! (i + 2) = b"
      using agree_node [OF ag] keep [of i] keep [of "i + 1"] keep [of "i + 2"] set_node_result [OF node] i
      by (metis add_lessD1 add_less_cancel_left less_trans one_less_numeral_iff semiring_norm(76))+
    have "agree T t' ?n (length t1)" using ag le len by (auto simp: agree_def)
    then have "reachable pb left right ixs' T ?n"
      using inner small permuted_length [OF perm] by (simp add: sub_post_def)
    moreover have "?n < 2 ^ 29" using small(1) le len by linarith
    ultimately show ?thesis using down [OF T] by (auto simp: reachable_def)
  qed
  moreover have "permuted left right ixs ixs'"
    using perm inner permuted_trans by (auto simp: sub_post_def)
  ultimately show ?thesis using le len old by (auto simp: sub_post_def)
qed

lemma node_axis:
  assumes "axis \<in> axes" "n < 2 ^ 29" "w = push_bit 30 (word_of_int axis) OR word_of_nat n"
  shows "node_kind w = axis" "\<not> node_flag w" "node_child w = n"
proof -
  have w: "w = push_bit 30 (word_of_nat (nat axis)) OR push_bit 29 (of_bool False) OR word_of_nat n"
    using assms(1,3) by (auto simp: axes_def)
  have a: "nat axis < 4" "int (nat axis) = axis" using assms(1) by (auto simp: axes_def)
  show "node_kind w = axis" "\<not> node_flag w" "node_child w = n"
    unfolding w node_word [OF a(1) assms(2)] a(2) by simp_all
qed

lemma node_axis_flag:
  assumes "axis \<in> axes" "n < 2 ^ 29" "w = push_bit 30 (word_of_int axis) OR push_bit 29 1 OR word_of_nat n"
  shows "node_kind w = axis" "node_flag w" "node_child w = n"
proof -
  have w: "w = push_bit 30 (word_of_nat (nat axis)) OR push_bit 29 (of_bool True) OR word_of_nat n"
    using assms(1,3) by (auto simp: axes_def)
  have a: "nat axis < 4" "int (nat axis) = axis" using assms(1) by (auto simp: axes_def)
  show "node_kind w = axis" "node_flag w" "node_child w = n"
    unfolding w node_word [OF a(1) assms(2)] a(2) by simp_all
qed

lemma sub_post_shrink:
  assumes node: "set_node i (push_bit 30 (word_of_int axis) OR push_bit 29 1 OR word_of_nat (length tree)) nl nr
      (tree @ new_node) = Inr t1" and i: "i + 2 < length tree"
    and inner: "sub_post pb left right t1 ixs1 (length tree) t' ixs'"
    and post: "split_post pb left right ixs (Shrink ixs1 g axis nl nr)"
    and range: "0 \<le> left" "left \<le> right" "right < int (length ixs)"
  shows "sub_post pb left right tree ixs i t' ixs'"
proof (rule sub_post_via [OF node i inner])
  show perm: "permuted left right ixs ixs1" using post by simp
  have inner_perm: "permuted left right ixs1 ixs'" using inner by (simp add: sub_post_def)
  have ax: "axis \<in> axes" using post by (simp add: clip_ok_def)
  fix T q k
  assume T: "T ! i = push_bit 30 (word_of_int axis) OR push_bit 29 1 OR word_of_nat (length tree)"
      "T ! (i + 1) = nl" "T ! (i + 2) = nr" and small: "length tree < 2 ^ 29"
    and k: "left \<le> int k" "int k \<le> right" and m: "meets q (pb ! unat (ixs' ! k))" and d: "descends T q (length tree) k"
  note kind = node_axis_flag [OF ax small T(1)]
  have "ixs' ! k \<in> obj_range ixs1 left right"
    using permuted_obj [OF inner_perm range(1,2) _ k] range(3) permuted_length [OF perm] by simp
  then have "f32_le (coord axis (fst q)) nr" "f32_le nl (coord axis (snd q))"
    using post m clip_meets by fastforce+
  then show "descends T q i k" using T d kind ax by - (rule in_box; simp)
qed

lemma sub_post_one_sided:
  assumes node: "one_sided prev tree i = Inr (t1, i1)" and i: "i + 2 < length tree"
    and inner: "sub_post pb left right t1 ixs1 i1 t' ixs'"
    and perm: "permuted left right ixs ixs1"
    and clip: "case prev of None \<Rightarrow> True | Some (a, c, w) \<Rightarrow> clip_ok pb (obj_range ixs1 left right) a c w"
    and range: "0 \<le> left" "left \<le> right" "right < int (length ixs)"
  shows "sub_post pb left right tree ixs i t' ixs'"
proof (cases prev)
  case None
  then have "t1 = tree" "i1 = i" using node by (auto simp: one_sided_def)
  then show ?thesis
    using inner perm permuted_trans [OF perm] permuted_length [OF perm] by (auto simp: sub_post_def)
next
  case (Some x)
  obtain axis c w where x: "prev = Some (axis, c, w)" using Some by (cases x) auto
  let ?tag = "push_bit 30 (word_of_int axis) :: u32" and ?n = "length tree"
  let ?node = "if w then (?tag OR word_of_nat ?n, c, f32_INFINITY) else (?tag OR (word_of_nat ?n - 3), f32_NEG_INFINITY, c)"
  have i1: "i1 = ?n" and node': "set_node i (fst ?node) (fst (snd ?node)) (snd (snd ?node)) (tree @ new_node) = Inr t1"
    using node x by (cases w; auto simp: one_sided_def Let_def map_sum_def split: sum.splits)+
  have ax: "axis \<in> axes" using clip x by (simp add: clip_ok_def)
  have inner_perm: "permuted left right ixs1 ixs'" using inner by (simp add: sub_post_def)
  show ?thesis
  proof (rule sub_post_via [OF node' i inner [unfolded i1] perm])
    fix T q k
    assume T: "T ! i = fst ?node" "T ! (i + 1) = fst (snd ?node)" "T ! (i + 2) = snd (snd ?node)"
      and small: "?n < 2 ^ 29" and k: "left \<le> int k" "int k \<le> right"
      and m: "meets q (pb ! unat (ixs' ! k))" and d: "descends T q ?n k"
    have "ixs' ! k \<in> obj_range ixs1 left right"
      using permuted_obj [OF inner_perm range(1,2) _ k] range(3) permuted_length [OF perm] by simp
    then have c: "if w then f32_le (coord axis (fst q)) c else f32_le c (coord axis (snd q))"
      using clip x m clip_meets by fastforce
    show "descends T q i k"
    proof (cases w)
      case True
      then have "T ! i = push_bit 30 (word_of_int axis) OR word_of_nat ?n" using T(1) by simp
      from node_axis [OF ax small this] show ?thesis using True T(2) c d ax by - (rule go_left; simp)
    next
      case False
      have "word_of_nat ?n - 3 = (word_of_nat (?n - 3) :: u32)" using i by (simp add: of_nat_diff)
      then have "T ! i = push_bit 30 (word_of_int axis) OR word_of_nat (?n - 3)" using T(1) False by simp
      moreover have "?n - 3 < 2 ^ 29" using small by simp
      ultimately have "node_kind (T ! i) = axis" "\<not> node_flag (T ! i)" "node_child (T ! i) = ?n - 3"
        using node_axis [OF ax] by blast+
      moreover have "?n - 3 + 3 = ?n" using i by simp
      ultimately show ?thesis using False T c d ax by - (rule go_right; simp)
    qed
  qed
qed

text \<open>A node with two children, appended next to each other and built one after the other.\<close>

lemma obj_range_outside:
  assumes "permuted left mid xs ys" "mid < a"
  shows "obj_range ys a b = obj_range xs a b"
proof -
  have "ys ! nat k = xs ! nat k" if "a \<le> k" "k \<le> b" for k
  proof -
    have "nat k < nat left \<or> mid < int (nat k)" using that assms(2) by linarith
    then show ?thesis using assms(1) unfolding permuted_def by blast
  qed
  then show ?thesis by (auto simp: obj_range_def)
qed

lemma sub_post_divide:
  assumes node: "set_node i (push_bit 30 (word_of_int axis) OR word_of_nat (length tree)) cl cr
      (tree @ new_node @ new_node) = Inr t2" and i: "i + 2 < length tree"
    and l: "sub_post pb left mid t2 ixs (length tree) t3 ixs3"
    and r: "sub_post pb (mid + 1) right t3 ixs3 (length tree + 3) t4 ixs4"
    and clip_l: "clip_ok pb (obj_range ixs left mid) axis cl True"
    and clip_r: "clip_ok pb (obj_range ixs (mid + 1) right) axis cr False"
    and range: "0 \<le> left" "left \<le> mid" "mid < right" "right < int (length ixs)"
  shows "sub_post pb left right tree ixs i t4 ixs4"
proof -
  let ?n = "length tree"
  have len: "length t2 = ?n + 6" using set_node_result(2) [OF node] by (simp add: new_node_def)
  have le: "length t2 \<le> length t3" "length t3 \<le> length t4" using l r by (simp_all add: sub_post_def)
  have perm: "permuted left mid ixs ixs3" "permuted (mid + 1) right ixs3 ixs4" using l r by (simp_all add: sub_post_def)
  have ax: "axis \<in> axes" using clip_l by (simp add: clip_ok_def)
  have f3: "t3 ! j = t2 ! j" if "j < ?n" for j using l that len by (simp add: sub_post_def)
  have f4: "t4 ! j = t3 ! j" if "j < length t3" "j < ?n + 3 \<or> ?n + 5 < j" for j
    using r that by (auto simp: sub_post_def)
  have keep: "t4 ! j = t2 ! j" if "j < ?n" for j using f3 [OF that] f4 [of j] that le len by simp
  have old: "t4 ! j = tree ! j" if "j < ?n" "j < i \<or> i + 2 < j" for j
    using keep [OF that(1)] set_node_result(6) [OF node that(2)] that(1) by (simp add: nth_append)
  have "descends T q i k"
    if small: "length t4 < 2 ^ 29" "length ixs < 2 ^ 29" and ag: "agree T t4 i ?n"
      and k: "left \<le> int k" "int k \<le> right" and m: "meets q (pb ! unat (ixs4 ! k))" for T q k
  proof -
    have n: "i < ?n" "i + 1 < ?n" "i + 2 < ?n" using i by linarith+
    have T: "T ! i = push_bit 30 (word_of_int axis) OR word_of_nat ?n" "T ! (i + 1) = cl" "T ! (i + 2) = cr"
      using agree_node [OF ag] keep [OF n(1)] keep [OF n(2)] keep [OF n(3)] set_node_result(3-5) [OF node] by simp_all
    have "?n < 2 ^ 29" using small(1) le len by linarith
    note kind = node_axis [OF ax this T(1)]
    have sizes: "length t3 < 2 ^ 29" "length ixs3 < 2 ^ 29"
      using small le permuted_length [OF perm(1)] by linarith+
    show ?thesis
    proof (cases "int k \<le> mid")
      case True
      have "T ! j = t3 ! j" if "?n \<le> j" "j \<le> ?n + 2 \<or> length t2 \<le> j" "j < length t3" for j
        using ag f4 [of j] that le len by (auto simp: agree_def)
      then have "agree T t3 ?n (length t2)" using le len by (auto simp: agree_def)
      then have "reachable pb left mid ixs3 T ?n" using l sizes small(2) by (simp add: sub_post_def)
      moreover have same: "ixs4 ! k = ixs3 ! k" using perm(2) True range(1,2) by (simp add: permuted_def nat_less_iff)
      ultimately have d: "descends T q ?n k" using k(1) True m unfolding reachable_def by metis
      have "ixs3 ! k \<in> obj_range ixs left mid"
        using permuted_obj [OF perm(1) range(1,2) _ k(1) True] range(3,4) by simp
      then have "f32_le (coord axis (fst q)) cl" using clip_meets [OF clip_l] m same by auto
      then show ?thesis using T(2) kind d ax by - (rule go_left; simp)
    next
      case False
      have "agree T t4 (?n + 3) (length t3)" using ag le len by (auto simp: agree_def)
      then have "reachable pb (mid + 1) right ixs4 T (?n + 3)" using r sizes small(1) by (simp add: sub_post_def)
      moreover have "mid + 1 \<le> int k" using False by simp
      ultimately have d: "descends T q (?n + 3) k" using k(2) m unfolding reachable_def by metis
      have "ixs4 ! k \<in> obj_range ixs3 (mid + 1) right"
        using permuted_obj [OF perm(2), of k] range False k permuted_length [OF perm(1)] by simp
      then have "ixs4 ! k \<in> obj_range ixs (mid + 1) right"
        using obj_range_outside [OF perm(1), of "mid + 1" right] by simp
      then have "f32_le cr (coord axis (snd q))" using clip_meets [OF clip_r] m by auto
      then show ?thesis using T(3) kind d ax by - (rule go_right; simp)
    qed
  qed
  moreover have "permuted left right ixs ixs4"
    using permuted_widen [OF perm(1), of left right] permuted_widen [OF perm(2), of left right] range permuted_trans
    by (metis less_imp_le order.refl zle_add1_eq_le add.commute le_add_same_cancel2 order_trans zero_le_one)
  ultimately show ?thesis using le len old by (auto simp: sub_post_def reachable_def)
qed

section \<open>The recursion\<close>

lemma bind_loop_Inr: "bind_loop r k = Some (Inr y) \<longleftrightarrow> (\<exists>x. r = Some (Inr x) \<and> k x = Some (Inr y))"
  by (auto simp: bind_loop_def split: option.splits sum.splits)

lemma map_sum_Inr: "map_sum id f r = Inr y \<longleftrightarrow> (\<exists>x. r = Inr x \<and> y = f x)"
  by (cases r) auto

lemma one_sided_node:
  assumes "one_sided prev tree i = Inr (t1, i1)" "i + 2 < length tree"
  shows "i1 + 2 < length t1"
  using assms set_node_result(2)
  by (fastforce simp: one_sided_def Let_def map_sum_Inr new_node_def split: option.splits prod.splits if_splits)

lemma split_start: "split_inv pb left right \<lparr>ss_indices = ixs, ss_grid = g, ss_axis = - 1, ss_split = f32_NAN,
   ss_prev_clip = f32_NAN, ss_was_left = True\<rparr>"
  by (simp add: split_inv_def)

lemma subdivide_post:
  "subdivide pb max_prims left right tree ixs g nb i depth = Some (Inr (tree', ixs')) \<Longrightarrow>
   0 \<le> left \<Longrightarrow> left \<le> right \<Longrightarrow> right < int (length ixs) \<Longrightarrow> i + 2 < length tree \<Longrightarrow>
   sub_post pb left right tree ixs i tree' ixs'"
proof (induction pb max_prims left right tree ixs g nb i depth arbitrary: tree' ixs' rule: subdivide.induct)
  case (1 pb max_prims left right tree ixs g nb i depth)
  note prems = "1.prems"
  show ?case
  proof (cases "right - left + 1 \<le> max_prims \<or> MAX_STACK_SIZE \<le> depth")
    case True
    then show ?thesis
      using prems by (subst (asm) subdivide.simps) (auto simp: map_sum_Inr intro: sub_post_leaf)
  next
    case False
    let ?st = "\<lparr>ss_indices = ixs, ss_grid = g, ss_axis = - 1, ss_split = f32_NAN, ss_prev_clip = f32_NAN,
      ss_was_left = True\<rparr>"
    obtain out where out: "split_loop pb left right nb ?st = Some (Inr out)"
      using prems(1) False by (subst (asm) subdivide.simps) (auto simp: bind_loop_Inr)
    have post: "split_post pb left right ixs out"
      using split_loop_post [OF out split_start prems(2-3)] prems(4) by simp
    show ?thesis
    proof (cases out)
      case (MakeLeaf ixs1)
      then have "length ixs1 = length ixs" using post permuted_length by auto
      then show ?thesis
        using prems out False post MakeLeaf
        by (subst (asm) subdivide.simps) (auto simp: bind_loop_def map_sum_Inr intro!: sub_post_leaf)
    next
      case (Shrink ixs1 g1 axis nl nr)
      obtain t1 where t1: "set_node i (push_bit 30 (word_of_int axis) OR push_bit 29 1 OR word_of_nat (length tree)) nl nr
            (tree @ new_node) = Inr t1"
        and rec: "subdivide pb max_prims left right t1 ixs1 g1
            (set_coord axis nl (fst nb), set_coord axis nr (snd nb)) (length tree) (depth + 1) = Some (Inr (tree', ixs'))"
        using prems(1) False out Shrink by (subst (asm) subdivide.simps) (auto simp: bind_loop_Inr Let_def)
      have len: "length tree + 2 < length t1" using set_node_result(2) [OF t1] by (simp add: new_node_def)
      have "length ixs1 = length ixs" using post Shrink permuted_length by auto
      then have "sub_post pb left right t1 ixs1 (length tree) tree' ixs'"
        using "1.IH"(1) [OF refl False refl rec] prems len Shrink by simp
      then show ?thesis
        using sub_post_shrink [OF t1 prems(5)] post Shrink prems(2-4) by blast
    next
      case (Divide ixs1 g1 prev axis split cl cr mid)
      have mid: "left \<le> mid" "mid < right" and perm: "permuted left right ixs ixs1" using post Divide by auto
      then have pos: "mid - left + 1 > 0" "right - (mid + 1) + 1 > 0" by simp_all
      obtain t1 i1 t2 t3 ixs3 where t1: "one_sided prev tree i = Inr (t1, i1)"
        and t2: "set_node i1 (push_bit 30 (word_of_int axis) OR word_of_nat (length t1)) cl cr
            (t1 @ new_node @ new_node) = Inr t2"
        and l: "subdivide pb max_prims left mid t2 ixs1 (fst g1, set_coord axis split (snd g1))
            (fst nb, set_coord axis cl (snd nb)) (length t1) (depth + 1) = Some (Inr (t3, ixs3))"
        and r: "subdivide pb max_prims (mid + 1) right t3 ixs3 (set_coord axis split (fst g1), snd g1)
            (set_coord axis cr (fst nb), snd nb) (length t1 + 3) (depth + 1) = Some (Inr (tree', ixs'))"
        using prems(1) False out Divide mid
        by (subst (asm) subdivide.simps) (auto simp: bind_loop_Inr Let_def)
      have i1: "i1 + 2 < length t1" by (rule one_sided_node [OF t1 prems(5)])
      have len: "length t2 = length t1 + 6" using set_node_result(2) [OF t2] by (simp add: new_node_def)
      have ixs1: "length ixs1 = length ixs" by (rule permuted_length [OF perm])
      have L: "sub_post pb left mid t2 ixs1 (length t1) t3 ixs3"
        using "1.IH"(2) [OF refl False] prems mid len ixs1 l pos by auto
      then have "permuted left mid ixs1 ixs3" "length t2 \<le> length t3" by (simp_all add: sub_post_def)
      then have "length ixs3 = length ixs" "length t2 \<le> length t3"
        using ixs1 permuted_length [of left mid ixs1 ixs3] by simp_all
      then have R: "sub_post pb (mid + 1) right t3 ixs3 (length t1 + 3) tree' ixs'"
        using "1.IH"(3) [OF refl False refl refl refl refl, where xh = mid and xi = t1 and xq = ixs3 and xp = t3
          and xd = axis and xe = split and xg = cr and xb = g1] prems mid len r pos by auto
      have "sub_post pb left right t1 ixs1 i1 tree' ixs'"
        using sub_post_divide [OF t2 i1 L R] post Divide mid prems(2,4) ixs1 by simp
      then show ?thesis
        using sub_post_one_sided [OF t1 prems(5)] perm post Divide prems(2-4) by (auto split: option.splits)
    qed
  qed
qed

section \<open>The builder returns\<close>

lemma create_node_total:
  assumes "i + 2 < length tree" "0 \<le> left" "left \<le> right" "right < 2 ^ 31"
  shows "\<exists>t. create_node tree i (word_of_int left) (word_of_int right) = Inr t"
proof -
  have u: "uint (word_of_int k :: u32) = k" if "0 \<le> k" "k < 2 ^ 31" for k
    using that by (simp add: uint_word_of_int_eq take_bit_int_eq_self)
  have "\<not> word_of_int right < (word_of_int left :: u32)"
    using assms u by (simp add: word_less_alt)
  moreover have "(word_of_int right :: u32) - word_of_int left \<noteq> - 1"
  proof
    assume "(word_of_int right :: u32) - word_of_int left = - 1"
    then have "uint (word_of_int (right - left) :: u32) = uint (- 1 :: u32)" by simp
    then show False using u [of "right - left"] assms by (simp add: unsigned_minus_1_eq_mask mask_eq_exp_minus_1)
  qed
  ultimately show ?thesis using assms(1) by (simp add: create_node_def)
qed

lemma one_sided_total: "i + 2 < length tree \<Longrightarrow> \<exists>t j. one_sided prev tree i = Inr (t, j)"
  by (auto simp: one_sided_def set_node_def Let_def split: option.splits prod.splits)

lemma range_ok_permuted:
  "range_ok pb left right xs \<Longrightarrow> permuted a b xs ys \<Longrightarrow> range_ok pb left right ys"
  unfolding range_ok_def using permuted_length permuted_set by metis

lemma subdivide_total:
  "range_ok pb left right ixs \<Longrightarrow> plain_box g \<Longrightarrow> i + 2 < length tree \<Longrightarrow> length ixs < 2 ^ 31 \<Longrightarrow>
   \<exists>t xs. subdivide pb max_prims left right tree ixs g nb i depth = Some (Inr (t, xs))"
proof (induction pb max_prims left right tree ixs g nb i depth rule: subdivide.induct)
  case (1 pb max_prims left right tree ixs g nb i depth)
  note prems = "1.prems"
  have r: "0 \<le> left" "left \<le> right" "right < int (length ixs)" using prems(1) by (auto simp: range_ok_def)
  obtain lt where leaf: "create_node tree i (word_of_int left) (word_of_int right) = Inr lt"
    using create_node_total [OF prems(3) r(1,2)] r(3) prems(4) by fastforce
  show ?case
  proof (cases "right - left + 1 \<le> max_prims \<or> MAX_STACK_SIZE \<le> depth")
    case True
    then show ?thesis using leaf by (subst subdivide.simps) simp
  next
    case False
    let ?st = "\<lparr>ss_indices = ixs, ss_grid = g, ss_axis = - 1, ss_split = f32_NAN, ss_prev_clip = f32_NAN,
      ss_was_left = True\<rparr>"
    obtain out where out: "split_loop pb left right nb ?st = Some (Inr out)" "outcome_grid out"
      using split_loop_total [of pb left right ?st nb] prems(1,2) by auto
    have post: "split_post pb left right ixs out"
      using split_loop_post [OF out(1) split_start r(1,2)] r(3) by simp
    show ?thesis
    proof (cases out)
      case (MakeLeaf ixs1)
      then show ?thesis using leaf out(1) False by (subst subdivide.simps) (simp add: bind_loop_def)
    next
      case (Shrink ixs1 g1 axis nl nr)
      let ?w = "push_bit 30 (word_of_int axis) OR push_bit 29 1 OR word_of_nat (length tree)"
      obtain t1 where t1: "set_node i ?w nl nr (tree @ new_node) = Inr t1"
        using prems(3) by (auto simp: set_node_def)
      have perm: "permuted left right ixs ixs1" using post Shrink by simp
      have len: "length tree + 2 < length t1" using set_node_result(2) [OF t1] by (simp add: new_node_def)
      have "\<exists>t xs. subdivide pb max_prims left right t1 ixs1 g1
          (set_coord axis nl (fst nb), set_coord axis nr (snd nb)) (length tree) (depth + 1) = Some (Inr (t, xs))"
        using out(2) Shrink len prems(4) permuted_length [OF perm] range_ok_permuted [OF prems(1) perm]
        by (intro "1.IH"(1) [OF refl False refl]) auto
      then show ?thesis using t1 out(1) Shrink False by (subst subdivide.simps) (auto simp: bind_loop_def Let_def)
    next
      case (Divide ixs1 g1 prev axis split cl cr mid)
      have mid: "left \<le> mid" "mid < right" and perm: "permuted left right ixs ixs1" using post Divide by auto
      obtain t1 i1 where t1: "one_sided prev tree i = Inr (t1, i1)" using one_sided_total [OF prems(3)] by blast
      have i1: "i1 + 2 < length t1" by (rule one_sided_node [OF t1 prems(3)])
      let ?w = "push_bit 30 (word_of_int axis) OR word_of_nat (length t1)"
      obtain t2 where t2: "set_node i1 ?w cl cr (t1 @ new_node @ new_node) = Inr t2"
        using i1 by (auto simp: set_node_def)
      have len: "length t2 = length t1 + 6" using set_node_result(2) [OF t2] by (simp add: new_node_def)
      have ok: "range_ok pb left right ixs1" by (rule range_ok_permuted [OF prems(1) perm])
      have ixs1: "length ixs1 = length ixs" by (rule permuted_length [OF perm])
      have "\<exists>t xs. subdivide pb max_prims left mid t2 ixs1 (fst g1, set_coord axis split (snd g1))
          (fst nb, set_coord axis cl (snd nb)) (length t1) (depth + 1) = Some (Inr (t, xs))"
        using "1.IH"(2) [OF refl False] mid ok out(2) Divide len ixs1 prems(4) by (auto simp: range_ok_def)
      then obtain t3 ixs3 where l: "subdivide pb max_prims left mid t2 ixs1 (fst g1, set_coord axis split (snd g1))
          (fst nb, set_coord axis cl (snd nb)) (length t1) (depth + 1) = Some (Inr (t3, ixs3))" by blast
      then have L: "sub_post pb left mid t2 ixs1 (length t1) t3 ixs3"
        using mid r ixs1 len by (intro subdivide_post) auto
      then have p3: "permuted left mid ixs1 ixs3" "length t2 \<le> length t3" by (simp_all add: sub_post_def)
      have "range_ok pb (mid + 1) right ixs3"
        using range_ok_permuted [OF ok p3(1)] mid r by (auto simp: range_ok_def)
      moreover have "length ixs3 = length ixs" using permuted_length [OF p3(1)] ixs1 by simp
      ultimately have "\<exists>t xs. subdivide pb max_prims (mid + 1) right t3 ixs3 (set_coord axis split (fst g1), snd g1)
          (set_coord axis cr (fst nb), snd nb) (length t1 + 3) (depth + 1) = Some (Inr (t, xs))"
        using "1.IH"(3) [OF refl False refl refl refl refl, where xh = mid and xi = t1 and xq = ixs3 and xp = t3
          and xd = axis and xe = split and xg = cr and xb = g1] mid out(2) Divide len p3 prems(4) by auto
      then show ?thesis
        using t1 t2 l out(1) Divide False mid by (subst subdivide.simps) (auto simp: bind_loop_def Let_def)
    qed
  qed
qed

section \<open>The bounds of all primitives\<close>

definition plain_prim :: "aabox \<Rightarrow> bool" where
  "plain_prim b \<longleftrightarrow> (\<forall>a \<in> axes. plain (coord a (bx_min b)) \<and> plain (coord a (bx_max b)))"

definition box_of :: "aabox \<Rightarrow> box2" where
  "box_of b = (bx_min b, bx_max b)"

lemma plain_min_max: "plain x \<Longrightarrow> plain y \<Longrightarrow> plain (f32_min x y) \<and> plain (f32_max x y)"
  by (simp add: f32_min_def f32_max_def)

lemma coord_min_max:
  "coord a (vec3_min u v) = f32_min (coord a u) (coord a v)" "coord a (vec3_max u v) = f32_max (coord a u) (coord a v)"
  by (simp_all add: coord_def vec3_min_def vec3_max_def vec3_new_def)

lemma plain_ord_min_max:
  assumes "plain x" "plain y"
  shows "f32_ord (f32_min x y) \<le> f32_ord x" "f32_ord (f32_min x y) \<le> f32_ord y"
    "f32_ord x \<le> f32_ord (f32_max x y)" "f32_ord y \<le> f32_ord (f32_max x y)"
  using assms f32_kinds(1) [OF plain_finite] by (auto simp: f32_min_def f32_max_def)

definition merge_box :: "aabox \<Rightarrow> aabox \<Rightarrow> aabox" where
  "merge_box b q = aabox_merge (aabox_merge b (bx_min q)) (bx_max q)"

lemma merge_box_plain:
  assumes "plain_prim b" "plain_prim q"
  shows "plain_box (box_of (merge_box b q))"
  unfolding plain_box_def
proof
  fix a assume a: "a \<in> axes"
  let ?lo = "coord a (bx_min b)" and ?hi = "coord a (bx_max b)" and ?l = "coord a (bx_min q)" and ?h = "coord a (bx_max q)"
  have p: "plain ?lo" "plain ?hi" "plain ?l" "plain ?h" using assms a by (simp_all add: plain_prim_def)
  have "f32_ord (f32_min (f32_min ?lo ?l) ?h) \<le> f32_ord ?l"
    using plain_ord_min_max(1,2) p plain_min_max by (meson order_trans)
  also have "\<dots> \<le> f32_ord (f32_max (f32_max ?hi ?l) ?h)"
    using plain_ord_min_max(3,4) p plain_min_max by (meson order_trans)
  finally show "plain (coord a (fst (box_of (merge_box b q)))) \<and> plain (coord a (snd (box_of (merge_box b q)))) \<and>
      f32_ord (coord a (fst (box_of (merge_box b q)))) \<le> f32_ord (coord a (snd (box_of (merge_box b q))))"
    using p plain_min_max by (simp add: box_of_def merge_box_def aabox_merge_def coord_min_max)
qed

lemma plain_box_prim: "plain_box (box_of b) \<Longrightarrow> plain_prim b"
  by (simp add: plain_box_def box_of_def plain_prim_def)

lemma merge_boxes_plain:
  "plain_prim b \<Longrightarrow> \<forall>q \<in> set qs. plain_prim q \<Longrightarrow> qs \<noteq> [] \<or> plain_box (box_of b) \<Longrightarrow> plain_box (box_of (foldl merge_box b qs))"
proof (induction qs arbitrary: b)
  case (Cons q qs)
  then have m: "plain_box (box_of (merge_box b q))" by (intro merge_box_plain) simp_all
  with Cons show ?case by (simp add: plain_box_prim)
qed simp

section \<open>Building\<close>

lemma start_indices:
  assumes "n < 2 ^ 31"
  shows "unat (word_of_nat n :: u32) = n" "sint (word_of_nat n :: i32) = int n"
    "length (map word_of_nat [0..<n] :: u32 list) = n"
    "\<forall>obj \<in> set (map word_of_nat [0..<n] :: u32 list). unat obj < n"
proof -
  have u: "unat (word_of_nat k :: u32) = k" if "k < 2 ^ 31" for k using that by (simp add: unat_of_nat)
  show "unat (word_of_nat n :: u32) = n" by (rule u [OF assms])
  have "sint (word_of_int (int n) :: i32) = signed_take_bit 31 (int n)" by (subst sint_sbintrunc') simp
  then show "sint (word_of_nat n :: i32) = int n"
    using assms by (simp add: signed_take_bit_int_eq_self)
  show "\<forall>obj \<in> set (map word_of_nat [0..<n] :: u32 list). unat obj < n" using u assms by auto
qed simp

lemma bih_build_unfold:
  assumes "prims \<noteq> []" "length prims < 2 ^ 31"
  shows "bih_build prims leaf = (let bounds = foldl merge_box (hd prims) (tl prims) in
    bind_loop (subdivide prims (sint leaf) 0 (int (length prims) - 1) dummy_leaf (map word_of_nat [0..<length prims])
      (box_of bounds) (box_of bounds) 0 1) (\<lambda>(tree, ixs).
    Some (if length ixs < length prims then Inl out_of_bounds
      else Inr \<lparr>bih_bounds = bounds, bih_tree = tree, bih_objects = map (\<lambda>i. ixs ! i) [0..<length prims]\<rparr>)))"
  using assms(1) unfolding bih_build_def Let_def start_indices(1,2) [OF assms(2)] box_of_def merge_box_def by simp

lemma bih_build_result:
  assumes "bih_build prims leaf = Some (Inr b)" "length prims < 2 ^ 31" "prims \<noteq> []"
  shows "sub_post prims 0 (int (length prims) - 1) dummy_leaf (map word_of_nat [0..<length prims]) 0
    (bih_tree b) (bih_objects b)"
proof -
  let ?n = "length prims" and ?xs = "map word_of_nat [0..<length prims] :: u32 list"
  let ?b = "box_of (foldl merge_box (hd prims) (tl prims))"
  from assms(1) obtain tree ixs where
    s: "subdivide prims (sint leaf) 0 (int ?n - 1) dummy_leaf ?xs ?b ?b 0 1 = Some (Inr (tree, ixs))"
    and b: "bih_tree b = tree" "bih_objects b = map (\<lambda>i. ixs ! i) [0..<?n]"
    unfolding bih_build_unfold [OF assms(3,2)] Let_def bind_loop_Inr by (auto split: if_splits)
  have n: "0 < ?n" using assms(3) by simp
  have post: "sub_post prims 0 (int ?n - 1) dummy_leaf ?xs 0 tree ixs"
    by (rule subdivide_post [OF s]) (use n in \<open>simp_all add: dummy_leaf_def\<close>)
  then have "length ixs = ?n" using permuted_length [of 0 "int ?n - 1" ?xs ixs] by (simp add: sub_post_def)
  then have "map (\<lambda>i. ixs ! i) [0..<?n] = ixs" by (metis map_nth)
  with post b show ?thesis by simp
qed

lemma bih_build_total:
  assumes "\<forall>b \<in> set prims. plain_prim b" "length prims < 2 ^ 31" "1 \<le> sint leaf"
  shows "\<exists>b. bih_build prims leaf = Some (Inr b)"
proof (cases "prims = []")
  case False
  let ?n = "length prims" and ?xs = "map word_of_nat [0..<length prims] :: u32 list"
  let ?b = "box_of (foldl merge_box (hd prims) (tl prims))"
  have n: "0 < ?n" using False by simp
  have ok: "range_ok prims 0 (int ?n - 1) ?xs"
    using start_indices(3,4) [OF assms(2)] n by (simp add: range_ok_def)
  have d: "(0 :: nat) + 2 < length dummy_leaf" by (simp add: dummy_leaf_def)
  have "\<exists>t xs. subdivide prims (sint leaf) 0 (int ?n - 1) dummy_leaf ?xs ?b ?b 0 1 = Some (Inr (t, xs))"
  proof (cases "?n = 1")
    case True
    obtain t where "create_node dummy_leaf 0 (word_of_int 0) (word_of_int (int ?n - 1)) = Inr t"
      using create_node_total [OF d, of 0 "int ?n - 1"] True by auto
    then show ?thesis using True assms(3) by (subst subdivide.simps) simp
  next
    case other: False
    then have "tl prims \<noteq> []" using False by (cases prims) auto
    moreover have "plain_prim (hd prims)" "\<forall>q \<in> set (tl prims). plain_prim q"
      using assms(1) False by (simp_all add: list.set_sel)
    ultimately have "plain_box ?b" by (intro merge_boxes_plain) simp_all
    then show ?thesis using assms(2) by (intro subdivide_total [OF ok _ d]) simp_all
  qed
  then obtain t xs where s: "subdivide prims (sint leaf) 0 (int ?n - 1) dummy_leaf ?xs ?b ?b 0 1 = Some (Inr (t, xs))"
    by blast
  have "sub_post prims 0 (int ?n - 1) dummy_leaf ?xs 0 t xs"
    by (rule subdivide_post [OF s]) (use n in \<open>simp_all add: dummy_leaf_def\<close>)
  then have "length xs = ?n" using permuted_length [of 0 "int ?n - 1" ?xs xs] by (simp add: sub_post_def)
  then show ?thesis using s by (simp add: bih_build_unfold [OF False assms(2)] bind_loop_def)
qed (simp add: bih_build_def)

section \<open>A small hierarchy\<close>

lemmas f32_eval = f32_add_def f32_sub_def f32_mul_def f32_neg_def f32_pack_def f32_le_def f32_lt_def
  f32_ord_def f32_int_def f32_mag_def f32_is_nan_bits f32_is_inf_def f32_abs_bits_def f32_neg_bit_def
  f32_encode_def round_half_even_def f32_min_def f32_max_def f32_half_def Let_def log2_floor.simps
  f32_INFINITY_def f32_NEG_INFINITY_def f32_NAN_def

definition sample_box :: "f32 \<Rightarrow> f32 \<Rightarrow> aabox" where
  "sample_box lo hi = \<lparr>bx_min = vec3_new lo lo lo, bx_max = vec3_new hi hi hi\<rparr>"

lemma sample_plain: "plain lo \<Longrightarrow> plain hi \<Longrightarrow> plain_prim (sample_box lo hi)"
  by (simp add: sample_box_def plain_prim_def axes_def coord_def vec3_new_def)

lemmas box_eval = coord_def sample_box_def vec3_new_def center_def middle_def longest_axis_def vec3_sub_def

text \<open>The boxes \<^verbatim>\<open>[0,1]\<close> and \<^verbatim>\<open>[2,3]\<close> (in each coordinate), one primitive per leaf.\<close>

definition sample_prims :: "aabox list" where
  "sample_prims = [sample_box 0 0x3F800000, sample_box 0x40000000 0x40400000]"

definition sample_grid :: box2 where
  "sample_grid = (vec3_new 0 0 0, vec3_new 0x40400000 0x40400000 0x40400000)"

lemma sample_split: "longest_axis sample_grid = 0" "middle 0 sample_grid = 0x3FC00000"
  by (simp_all add: sample_grid_def box_eval f32_eval)

lemma sample_sides:
  "f32_le (center 0 (sample_box 0 0x3F800000)) 0x3FC00000"
  "\<not> f32_le (center 0 (sample_box 0x40000000 0x40400000)) 0x3FC00000"
  by (simp_all add: box_eval f32_eval)

lemma sample_partition:
  "partition_loop sample_prims 0 0x3FC00000 0 (part_start [0, 1] 1) =
     Inr \<lparr>pt_indices = [0, 1], pt_right = 0, pt_clip_l = 0x3F800000, pt_clip_r = 0x40000000,
          pt_node_l = 0, pt_node_r = 0x40400000\<rparr>"
proof -
  let ?q = "\<lparr>pt_indices = [0, 1], pt_right = 1, pt_clip_l = 0x3F800000, pt_clip_r = f32_INFINITY,
    pt_node_l = 0, pt_node_r = 0x3F800000\<rparr>"
  have 1: "part_stay 0 (sample_box 0 0x3F800000) (part_start [0, 1] 1) = ?q"
    by (simp add: part_stay_def part_start_def box_eval f32_eval)
  have 2: "part_move 0 (sample_box 0x40000000 0x40400000) [0, 1] ?q =
      \<lparr>pt_indices = [0, 1], pt_right = 0, pt_clip_l = 0x3F800000, pt_clip_r = 0x40000000,
       pt_node_l = 0, pt_node_r = 0x40400000\<rparr>"
    by (simp add: part_move_def box_eval f32_eval)
  have "partition_loop sample_prims 0 0x3FC00000 0 (part_start [0, 1] 1) = partition_loop sample_prims 0 0x3FC00000 1 ?q"
    by (subst partition_step [where obj = 0 and box = "sample_box 0 0x3F800000"])
      (simp_all add: sample_sides 1, simp_all add: part_start_def slice_get_def sample_prims_def)
  also have "\<dots> = partition_loop sample_prims 0 0x3FC00000 1 (part_move 0 (sample_box 0x40000000 0x40400000) [0, 1] ?q)"
    by (subst partition_step [where obj = 1 and box = "sample_box 0x40000000 0x40400000"])
      (simp_all add: sample_sides slice_get_def slice_swap_def sample_prims_def)
  finally show ?thesis unfolding 2 by (simp add: partition_stop)
qed

lemma sample_search:
  "split_loop sample_prims 0 1 sample_grid \<lparr>ss_indices = [0, 1], ss_grid = sample_grid, ss_axis = - 1,
      ss_split = f32_NAN, ss_prev_clip = f32_NAN, ss_was_left = True\<rparr> =
   Some (Inr (Divide [0, 1] sample_grid None 0 0x3FC00000 0x3F800000 0x40000000 0))"
proof -
  have "\<not> empty_space (coord 0 (fst sample_grid)) (coord 0 (snd sample_grid))
      \<lparr>pt_indices = [0, 1], pt_right = 0, pt_clip_l = 0x3F800000, pt_clip_r = 0x40000000,
       pt_node_l = 0, pt_node_r = 0x40400000\<rparr>"
    by (simp add: empty_space_def sample_grid_def box_eval f32_eval)
  then show ?thesis
    by (subst split_loop.simps) (simp add: split_step_def sample_split sample_partition split_decide_def Let_def)
qed

lemma sample_bounds: "box_of (foldl merge_box (hd sample_prims) (tl sample_prims)) = sample_grid"
  by (simp add: sample_prims_def sample_grid_def merge_box_def aabox_merge_def vec3_min_def vec3_max_def box_of_def
      box_eval f32_eval)

lemma sample_build:
  "\<exists>bb. bih_build sample_prims 1 = Some (Inr \<lparr>bih_bounds = bb,
     bih_tree = [3, 0x3F800000, 0x40000000, 0xC0000000, 1, 0, 0xC0000001, 1, 0], bih_objects = [0, 1]\<rparr>)"
proof -
  have left: "subdivide sample_prims 1 0 0 [3, 0x3F800000, 0x40000000, 0, 0, 0, 0, 0, 0] [0, 1] g nb i d =
      Some (Inr ([3, 0x3F800000, 0x40000000, 0xC0000000, 1, 0, 0, 0, 0], [0, 1]))" if "i = 3" for g nb i d
    using that by (subst subdivide.simps) (simp add: create_node_def)
  have right: "subdivide sample_prims 1 1 1 [3, 0x3F800000, 0x40000000, 0xC0000000, 1, 0, 0, 0, 0] [0, 1] g nb i d =
      Some (Inr ([3, 0x3F800000, 0x40000000, 0xC0000000, 1, 0, 0xC0000001, 1, 0], [0, 1]))" if "i = 6" for g nb i d
    using that by (subst subdivide.simps) (simp add: create_node_def)
  have "subdivide sample_prims 1 0 1 dummy_leaf [0, 1] sample_grid sample_grid 0 1 =
      Some (Inr ([3, 0x3F800000, 0x40000000, 0xC0000000, 1, 0, 0xC0000001, 1, 0], [0, 1]))"
    by (subst subdivide.simps)
      (simp add: MAX_STACK_SIZE_def sample_search bind_loop_def one_sided_def set_node_def dummy_leaf_def new_node_def
        Let_def left right)
  moreover have "length sample_prims = 2" by (simp add: sample_prims_def)
  ultimately show ?thesis
    using bih_build_unfold [of sample_prims 1] sample_bounds
    by (auto simp: bind_loop_def Let_def upt_rec simp flip: length_0_conv)
qed
section \<open>Properties\<close>

text \<open>C22: for primitives with ordinary coordinates (finite, below \<open>2\<^sup>1\<^sup>2\<^sup>7\<close> in magnitude) the
  construction ends without a panic, although its inner loop has no counter: every pass
  without a split halves the grid until the plane repeats.\<close>

theorem bih_build_returns:
  assumes "\<forall>b \<in> set prims. plain_prim b" "length prims < 2 ^ 31" "1 \<le> sint leaf_size"
  shows "\<exists>b. bih_build prims leaf_size = Some (Inr b)"
  using bih_build_total [OF assms] .

theorem bih_build_returns_witness:
  "\<exists>b. bih_build sample_prims 1 = Some (Inr b)"
  by (rule bih_build_returns) (simp_all add: sample_prims_def sample_plain plain_def f32_abs_bits_def)

text \<open>C23: the object list of a hierarchy is a permutation of the primitives' numbers: every
  primitive is listed once.\<close>

theorem bih_objects_permutation:
  assumes "bih_build prims leaf_size = Some (Inr b)" "length prims < 2 ^ 31"
  shows "mset (bih_objects b) = mset (map word_of_nat [0..<length prims])"
proof (cases "prims = []")
  case False
  from bih_build_result [OF assms False] show ?thesis by (simp add: sub_post_def permuted_def)
qed (use assms in \<open>auto simp: bih_build_def bih_new_empty_def\<close>)

theorem bih_objects_permutation_witness:
  "\<exists>b. bih_build sample_prims 1 = Some (Inr b) \<and> mset (bih_objects b) = {#0, 1#}"
proof -
  obtain b where b: "bih_build sample_prims 1 = Some (Inr b)" using sample_build by blast
  show ?thesis using b bih_objects_permutation [OF b] by (auto simp: sample_prims_def upt_rec)
qed

text \<open>C21: the hierarchy is complete for range queries.  For every query box and every primitive
  that meets it, the descent that visits a child exactly when the query reaches the child's
  clip plane arrives at a leaf that lists the primitive.  The node format has 29 bits for
  an index.\<close>

theorem bih_query_complete:
  assumes "bih_build prims leaf_size = Some (Inr b)" "length (bih_tree b) < 2 ^ 29" "length prims < 2 ^ 29"
    and "i < length prims" "meets q (prims ! i)"
  shows "\<exists>k < length prims. bih_objects b ! k = word_of_nat i \<and> descends (bih_tree b) q 0 k"
proof -
  let ?n = "length prims" and ?xs = "map word_of_nat [0..<length prims] :: u32 list"
  have n: "length prims < 2 ^ 31" "prims \<noteq> []" using assms(3,4) by auto
  note post = bih_build_result [OF assms(1) n]
  then have perm: "permuted 0 (int ?n - 1) ?xs (bih_objects b)" by (simp add: sub_post_def)
  then have len: "length (bih_objects b) = ?n" using permuted_length by fastforce
  have "word_of_nat i \<in> set (bih_objects b)" using permuted_set [OF perm] assms(4) by simp
  then obtain k where k: "k < ?n" "bih_objects b ! k = word_of_nat i" using len by (auto simp: in_set_conv_nth)
  have "unat (word_of_nat i :: u32) = i" using start_indices(1) [of i] assms(4) n(1) by simp
  then have "meets q (prims ! unat (bih_objects b ! k))" using k(2) assms(5) by simp
  moreover have "reachable prims 0 (int ?n - 1) (bih_objects b) (bih_tree b) 0"
    using post assms(2,3) by (simp add: sub_post_def agree_def)
  moreover have "0 \<le> int k" "int k \<le> int ?n - 1" using k(1) by simp_all
  ultimately have "descends (bih_tree b) q 0 k" unfolding reachable_def by metis
  with k show ?thesis by blast
qed

text \<open>The query \<^verbatim>\<open>[2.5, 2.75]\<close> meets the second box, which is the right child of the root.\<close>

theorem bih_query_complete_witness:
  "\<exists>b. bih_build sample_prims 1 = Some (Inr b) \<and>
     (\<exists>k < 2. bih_objects b ! k = 1 \<and>
        descends (bih_tree b) (vec3_new 0x40200000 0x40200000 0x40200000, vec3_new 0x40300000 0x40300000 0x40300000) 0 k)"
proof -
  let ?q = "(vec3_new 0x40200000 0x40200000 0x40200000, vec3_new 0x40300000 0x40300000 0x40300000)"
  obtain bb where b: "bih_build sample_prims 1 = Some (Inr \<lparr>bih_bounds = bb,
     bih_tree = [3, 0x3F800000, 0x40000000, 0xC0000000, 1, 0, 0xC0000001, 1, 0], bih_objects = [0, 1]\<rparr>)"
    using sample_build by blast
  have "meets ?q (sample_prims ! 1)"
    by (simp add: meets_def axes_def sample_prims_def box_eval f32_le_def f32_is_nan_bits f32_ord_def
        f32_abs_bits_def f32_neg_bit_def)
  then have "\<exists>k < length sample_prims. bih_objects \<lparr>bih_bounds = bb,
      bih_tree = [3, 0x3F800000, 0x40000000, 0xC0000000, 1, 0, 0xC0000001, 1, 0], bih_objects = [0, 1]\<rparr> ! k = word_of_nat 1 \<and>
      descends [3, 0x3F800000, 0x40000000, 0xC0000000, 1, 0, 0xC0000001, 1, 0] ?q 0 k"
    using bih_query_complete [OF b, of 1 ?q] by (simp add: sample_prims_def)
  moreover have "length sample_prims = 2" by (simp add: sample_prims_def)
  ultimately show ?thesis using b by auto
qed

end
