(* ===== verification/Vmap_Correct.thy ===== *)
theory Vmap_Correct
  imports Vmap_Assemble Bih_Correct
begin

text \<open>
  Properties of the assembler: what is written can be read back, every tile entry of a map
  refers to a spawn of that map so that no map fails with a missing spawn, the tiles are
  the sorted tile numbers with the spawns in the order of the input, and the sizes in the
  chunk headers.
\<close>

section \<open>Round trips\<close>

definition wf_spawn :: "model_spawn \<Rightarrow> bool" where
  "wf_spawn s \<longleftrightarrow> (ms_bound s = None \<longleftrightarrow> ms_flags s AND MOD_HAS_BOUND = 0) \<and> length (ms_name s) \<le> 500 \<and>
     from_utf8_lossy (as_bytes (ms_name s)) = ms_name s"

context little_endian
begin

lemma rd_vec3 [simp]: "read_vec3 B (write_vec3 B v @ r) = Inr (v, r)"
  by (simp add: read_vec3_def write_vec3_def vec3_new_def)

lemma rd_name:
  assumes "length s \<le> 500" "from_utf8_lossy (as_bytes s) = s"
  shows "read_name B w (enc_u32 B (word_of_nat (length s)) @ as_bytes s @ r) = Inr ((as_bytes s, s), r)"
proof -
  have "unat (word_of_nat (length s) :: u32) = length s" using assms(1) by (simp add: unat_of_nat)
  then show ?thesis using assms by (simp add: read_name_def)
qed

lemma rd_model_spawn:
  assumes "wf_spawn s"
  shows "model_spawn_read_from B (model_spawn_write_to B s @ r) = Inr (Some s, r)"
proof (cases "ms_bound s")
  case None
  then have "ms_flags s AND MOD_HAS_BOUND = 0" using assms by (simp add: wf_spawn_def)
  with None show ?thesis
    using assms by (simp add: model_spawn_read_from_def model_spawn_write_to_def model_spawn_rest_def read_bound_def rd_name wf_spawn_def)
next
  case (Some b)
  then have "ms_flags s AND MOD_HAS_BOUND \<noteq> 0" using assms by (simp add: wf_spawn_def)
  with Some show ?thesis
    using assms by (simp add: model_spawn_read_from_def model_spawn_write_to_def model_spawn_rest_def read_bound_def rd_name wf_spawn_def)
qed

lemma length_vec3 [simp]: "length (write_vec3 B v) = 12"
  by (simp add: write_vec3_def)

end

section \<open>Spawns of a map\<close>

definition wf_spawns :: "map_spawns \<Rightarrow> bool" where
  "wf_spawns ms \<longleftrightarrow> btm_sorted (unique_entries ms) \<and> (\<forall>(k, s) \<in> set (unique_entries ms). ms_id s = k) \<and>
     (\<forall>e \<in> set (tile_entries ms). btm_get (unique_entries ms) (snd e) \<noteq> None)"

definition wf_map_data :: "map_data \<Rightarrow> bool" where
  "wf_map_data md \<longleftrightarrow> btm_sorted md \<and> (\<forall>(k, ms) \<in> set md. wf_spawns ms)"

lemma in_btm_insert: "x \<in> set (btm_insert k v m) \<Longrightarrow> x = (k, v) \<or> x \<in> set m"
  by (induction k v m rule: btm_insert.induct) (auto split: if_splits)

lemma in_btm_or_insert: "x \<in> set (btm_or_insert k v m) \<Longrightarrow> x = (k, v) \<or> x \<in> set m"
  by (auto simp: btm_or_insert_def split: option.splits dest: in_btm_insert)

lemma wf_spawns_add:
  assumes "wf_spawns e"
  shows "wf_spawns (e\<lparr>unique_entries := btm_or_insert (ms_id s) s (unique_entries e),
    tile_entries := tile_entries e @ [(t, ms_id s)]\<rparr>)"
proof -
  have "btm_sorted (unique_entries e)" using assms by (simp add: wf_spawns_def)
  then show ?thesis
    using assms unfolding wf_spawns_def
    by (auto simp: btm_sorted_or_insert btm_get_or_insert dest!: in_btm_or_insert)
qed

lemma wf_add_spawn:
  assumes "wf_map_data md"
  shows "wf_map_data (add_spawn map_id x y s md)"
proof -
  have "wf_spawns map_spawns_default" by (simp add: wf_spawns_def map_spawns_default_def)
  then have "wf_spawns (case btm_get md map_id of Some e \<Rightarrow> e | None \<Rightarrow> map_spawns_default)"
    using assms by (auto simp: wf_map_data_def btm_get_iff split: option.splits)
  from wf_spawns_add [OF this] show ?thesis
    using assms unfolding wf_map_data_def add_spawn_def Let_def
    by (auto simp: btm_sorted_insert dest!: in_btm_insert)
qed

lemma read_map_spawns_wf: "wf_map_data md \<Longrightarrow> read_map_spawns B bs md = Inr md' \<Longrightarrow> wf_map_data md'"
proof (induction B bs md rule: read_map_spawns.induct)
  case (1 B bs md)
  consider "md' = md"
    | map_id bs1 x y bs2 s bs3 where "rd_u32 B bs = Inr (map_id, bs1)" "read_tile B bs1 = Inr ((x, y), bs2)"
        "model_spawn_read_from B bs2 = Inr (Some s, bs3)"
        "read_map_spawns B bs3 (add_spawn map_id x y s md) = Inr md'"
    using "1.prems"(2) by (subst (asm) read_map_spawns.simps) (auto split: sum.splits prod.splits option.splits)
  then show ?case
  proof cases
    case 2
    then show ?thesis using "1.IH" wf_add_spawn [OF "1.prems"(1)] by fastforce
  qed (use 1 in simp)
qed

section \<open>Completing and pruning\<close>

lemma complete_spawn_id: "complete_spawn B sc raw s = Inr (Some s') \<Longrightarrow> ms_id s' = ms_id s"
  by (auto simp: complete_spawn_def calculate_transformed_bound_def Let_def
      split: if_splits option.splits sum.splits rust_error.splits)

lemma complete_spawns_keys:
  assumes "complete_spawns B sc raw es = Inr out"
  shows "map fst out = map fst es"
    and "(\<forall>(k, s) \<in> set es. ms_id s = k) \<Longrightarrow> (k, Some s') \<in> set out \<Longrightarrow> ms_id s' = k"
  using assms by (induction es arbitrary: out) (auto dest!: complete_spawn_id)

lemma map_filter_keys:
  "btm_sorted out \<Longrightarrow> btm_sorted (List.map_filter (\<lambda>(k, s). map_option (Pair k) s) out)"
  "btm_get (List.map_filter (\<lambda>(k, s). map_option (Pair k) s) out) k = None \<Longrightarrow> btm_sorted out \<Longrightarrow>
     (k, s) \<in> set out \<Longrightarrow> s = None"
proof -
  have sub: "fst ` set (List.map_filter (\<lambda>(k, s). map_option (Pair k) s) xs) \<subseteq> fst ` set xs" for xs :: "('a \<times> 'b option) list"
    by (induction xs) (auto simp: List.map_filter_simps split: option.splits)
  have key: "k \<in> fst ` set xs" if "(k, v) \<in> set (List.map_filter (\<lambda>(k, s). map_option (Pair k) s) xs)"
    for k v and xs :: "('a \<times> 'b option) list"
    using sub [of xs] that by force
  show "btm_sorted out \<Longrightarrow> btm_sorted (List.map_filter (\<lambda>(k, s). map_option (Pair k) s) out)"
    by (induction out) (auto simp: List.map_filter_simps btm_sorted_def split: option.splits dest!: key)
  show "btm_get (List.map_filter (\<lambda>(k, s). map_option (Pair k) s) out) k = None \<Longrightarrow> btm_sorted out \<Longrightarrow>
     (k, s) \<in> set out \<Longrightarrow> s = None"
    by (induction out) (auto simp: List.map_filter_simps btm_get_def split: option.splits if_splits)
qed

lemma wf_prune:
  assumes "wf_spawns ms" "complete_spawns B sc raw (unique_entries ms) = Inr out"
  shows "wf_spawns (prune out ms)"
proof -
  have keys: "map fst out = map fst (unique_entries ms)" using complete_spawns_keys(1) [OF assms(2)] .
  then have sorted: "btm_sorted out" using assms(1) by (simp add: wf_spawns_def btm_sorted_def)
  have ids: "ms_id s = k" if "(k, Some s) \<in> set out" for k s
    using complete_spawns_keys(2) [OF assms(2) _ that] assms(1) by (auto simp: wf_spawns_def)
  have "btm_get (unique_entries (prune out ms)) (snd e) \<noteq> None" if "e \<in> set (tile_entries (prune out ms))" for e
  proof
    assume none: "btm_get (unique_entries (prune out ms)) (snd e) = None"
    have e: "e \<in> set (tile_entries ms)" "snd e \<notin> fst ` {x \<in> set out. snd x = None}"
      using that by (auto simp: prune_def)
    have "btm_get (unique_entries ms) (snd e) \<noteq> None" using e(1) assms(1) by (simp add: wf_spawns_def)
    then have "snd e \<in> set (map fst (unique_entries ms))"
      by (simp add: btm_get_def map_of_eq_None_iff)
    then obtain s where s: "(snd e, s) \<in> set out" using keys by (metis (no_types, lifting) fst_conv image_iff list.set_map surj_pair)
    have "s = None" by (rule map_filter_keys(2) [OF _ sorted s]) (use none in \<open>simp add: prune_def\<close>)
    with s e(2) show False by force
  qed
  moreover have "\<forall>(k, s) \<in> set (unique_entries (prune out ms)). ms_id s = k"
    using ids by (auto simp: prune_def List.map_filter_def)
  ultimately show ?thesis
    using map_filter_keys(1) [OF sorted] by (auto simp: wf_spawns_def prune_def)
qed

section \<open>Every map is written\<close>

lemma write_entries_total:
  assumes "\<forall>e \<in> set es. btm_get sp (snd e) \<noteq> None"
  shows "write_entries B ni msg sp es = Inr (concat (map (\<lambda>e. entry_bytes B ni (the (btm_get sp (snd e))) (snd e)) es))"
  using assms by (induction es) auto

definition vmtile_name :: "u32 \<Rightarrow> u32 \<Rightarrow> string" where
  "vmtile_name map_id tile_id =
     (case unpack_tile_id tile_id of (x, y) \<Rightarrow> fmt0 3 map_id @ ''_'' @ fmt0 2 x @ ''_'' @ fmt0 2 y @ ''.vmtile'')"

text \<open>What a tile file is to hold: the spawns of the tile that are not world spawns, in the
  order of the input.\<close>

definition on_tile :: "(u32 \<times> model_spawn) list \<Rightarrow> (u32 \<times> u32) list \<Rightarrow> u32 \<Rightarrow> (u32 \<times> model_spawn) list" where
  "on_tile sp es t = [(snd e, s). e \<leftarrow> es, fst e = t, (k, s) \<leftarrow> sp, k = snd e, \<not> is_worldspawn s]"

definition expected_tile ::
    "byteorder \<Rightarrow> (u32 \<Rightarrow> u32 option) \<Rightarrow> u32 \<Rightarrow> (u32 \<times> model_spawn) list \<Rightarrow> (u32 \<times> u32) list \<Rightarrow> u32 \<Rightarrow> files" where
  "expected_tile B ni map_id sp es t =
     (case on_tile sp es t of
        [] \<Rightarrow> []
      | run \<Rightarrow> [(vmtile_name map_id t, as_bytes VMAP_MAGIC @ enc_u32 B (word_of_nat (length run)) @
                 concat (map (\<lambda>(sid, s). entry_bytes B ni s sid) run))])"

lemma lookup_all:
  assumes "btm_sorted sp"
  shows "[(sid, s). (k, s) \<leftarrow> sp, k = sid, P s] = (case btm_get sp sid of Some s \<Rightarrow> if P s then [(sid, s)] else [] | None \<Rightarrow> [])"
  using assms
proof (induction sp)
  case (Cons e sp)
  have "concat (map (\<lambda>(k, s). if k = fst e then if P s then [(fst e, s)] else [] else []) sp) = []"
    using Cons.prems by (cases e) (auto simp: concat_eq_Nil_conv)
  moreover have "map_of sp (fst e) = None"
    using Cons.prems by (cases e) (auto simp: map_of_eq_None_iff)
  ultimately show ?case using Cons by (cases e) (auto simp: btm_get_def)
qed (simp add: btm_get_def)

lemma on_tile_conv:
  assumes "btm_sorted sp"
  shows "on_tile sp es t =
    map (\<lambda>e. (snd e, the (btm_get sp (snd e))))
      (filter (\<lambda>e. case btm_get sp (snd e) of Some s \<Rightarrow> \<not> is_worldspawn s | None \<Rightarrow> False) (filter (\<lambda>e. fst e = t) es))"
  unfolding on_tile_def lookup_all [OF assms] by (induction es) (auto split: option.split)

lemma tile_file_expected:
  assumes "btm_sorted sp"
  shows "tile_file B ni map_id sp t (filter (\<lambda>e. fst e = t) es) = Inr (expected_tile B ni map_id sp es t)"
proof -
  let ?P = "\<lambda>e. case btm_get sp (snd e) of Some s \<Rightarrow> \<not> is_worldspawn s | None \<Rightarrow> False"
  let ?r = "filter ?P (filter (\<lambda>e. fst e = t) es)"
  have w: "write_entries B ni ''Missing spawn for tile entry'' sp ?r =
      Inr (concat (map (\<lambda>e. entry_bytes B ni (the (btm_get sp (snd e))) (snd e)) ?r))"
    by (rule write_entries_total) (auto split: option.splits)
  show ?thesis
    unfolding tile_file_def expected_tile_def on_tile_conv [OF assms] Let_def w vmtile_name_def
    by (cases ?r) (simp_all add: split_beta comp_def)
qed

lemma sorted_runs:
  assumes "\<forall>x \<in> set es. k \<le> fst x" "sorted (map fst es)"
  shows "takeWhile (\<lambda>x. fst x = k) es = filter (\<lambda>x. fst x = k) es"
    and "dropWhile (\<lambda>x. fst x = k) es = filter (\<lambda>x. fst x \<noteq> k) es"
proof -
  have "takeWhile (\<lambda>x. fst x = k) es = filter (\<lambda>x. fst x = k) es \<and> dropWhile (\<lambda>x. fst x = k) es = filter (\<lambda>x. fst x \<noteq> k) es"
    using assms
  proof (induction es)
    case (Cons x es)
    show ?case
    proof (cases "fst x = k")
      case False
      then have "\<forall>y \<in> set es. fst y \<noteq> k" using Cons.prems by auto
      with False show ?thesis by (auto simp: filter_empty_conv filter_id_conv)
    qed (use Cons in simp)
  qed simp
  then show "takeWhile (\<lambda>x. fst x = k) es = filter (\<lambda>x. fst x = k) es"
    "dropWhile (\<lambda>x. fst x = k) es = filter (\<lambda>x. fst x \<noteq> k) es" by simp_all
qed

lemma expected_tile_other: "t \<noteq> k \<Longrightarrow> expected_tile B ni m sp (filter (\<lambda>x. fst x \<noteq> k) es) t = expected_tile B ni m sp es t"
proof -
  assume "t \<noteq> k"
  then have "on_tile sp (filter (\<lambda>x. fst x \<noteq> k) es) t = on_tile sp es t"
    unfolding on_tile_def by (induction es) auto
  then show ?thesis by (simp add: expected_tile_def)
qed

lemma sorted_tiles:
  assumes "\<forall>x \<in> set es. (k::u32) \<le> fst x"
  shows "sorted_list_of_set (insert k (fst ` set es)) = k # sorted_list_of_set (fst ` set (filter (\<lambda>x. fst x \<noteq> k) es))"
proof -
  have "Min (insert k (fst ` set es)) = k" using assms by (intro Min_eqI) auto
  moreover have "insert k (fst ` set es) - {k} = fst ` set (filter (\<lambda>x. fst x \<noteq> k) es)" by auto
  ultimately show ?thesis using sorted_list_of_set_nonempty [of "insert k (fst ` set es)"] by simp
qed

lemma tile_files_sorted:
  assumes "btm_sorted sp" "sorted (map fst es)"
  shows "tile_files B ni m sp es = Inr (concat (map (expected_tile B ni m sp es) (sorted_list_of_set (fst ` set es))))"
  using assms(2)
proof (induction "length es" arbitrary: es rule: less_induct)
  case less
  show ?case
  proof (cases es)
    case (Cons e r)
    have le: "\<forall>x \<in> set r. fst e \<le> fst x" and srt: "sorted (map fst r)" using less.prems Cons by auto
    let ?rest = "filter (\<lambda>x. fst x \<noteq> fst e) r"
    have "length ?rest < length es" using Cons by (simp add: le_imp_less_Suc)
    moreover have "sorted (map fst ?rest)" using srt by (rule sorted_filter)
    ultimately have IH: "tile_files B ni m sp ?rest =
        Inr (concat (map (expected_tile B ni m sp ?rest) (sorted_list_of_set (fst ` set ?rest))))" by (rule less.hyps)
    have same: "map (expected_tile B ni m sp ?rest) (sorted_list_of_set (fst ` set ?rest)) =
        map (expected_tile B ni m sp es) (sorted_list_of_set (fst ` set ?rest))"
      using expected_tile_other [of _ "fst e" B ni m sp es] by (intro map_cong) (auto simp: Cons)
    have "e # takeWhile (\<lambda>x. fst x = fst e) r = filter (\<lambda>x. fst x = fst e) es"
      using sorted_runs(1) [OF le srt] Cons by simp
    then show ?thesis
      using sorted_runs(2) [OF le srt] IH [unfolded same] sorted_tiles [OF le] tile_file_expected [OF assms(1), of B ni m "fst e" es] Cons
      by simp
  qed simp
qed

lemma tile_files_conv:
  assumes "btm_sorted sp"
  shows "tile_files B ni map_id sp (sort_key fst es) =
    Inr (concat (map (expected_tile B ni map_id sp es) (sorted_list_of_set (fst ` set es))))"
proof -
  have "on_tile sp (sort_key fst es) = on_tile sp es"
    unfolding on_tile_conv [OF assms] fun_eq_iff by (simp add: sort_key_stable)
  then have "expected_tile B ni map_id sp (sort_key fst es) = expected_tile B ni map_id sp es"
    by (simp add: expected_tile_def fun_eq_iff)
  then show ?thesis using tile_files_sorted [OF assms, of "sort_key fst es" B ni map_id] by simp
qed

text \<open>C29: the tile files of a map are, for the tile numbers in increasing order, the spawns of
  that tile without the world spawns, in the order in which they were read; a tile with
  world spawns only has no file.\<close>

theorem tile_files_reference:
  assumes "btm_sorted sp"
  shows "tile_files B ni map_id sp (sort_key fst es) =
    Inr (concat (map (expected_tile B ni map_id sp es) (sorted_list_of_set (fst ` set es))))"
  using tile_files_conv [OF assms] .

definition sample_spawn :: "u32 \<Rightarrow> u32 \<Rightarrow> model_spawn" where
  "sample_spawn f i =
     \<lparr>ms_flags = f, ms_adt_id = 7, ms_id = i, ms_pos = vec3_new 0 0 0, ms_rot = vec3_new 0 0 0,
      ms_scale = 0x3F800000, ms_bound = None, ms_name = ''tree.m2''\<rparr>"

theorem tile_files_reference_witness:
  "tile_files std_byteorder Map.empty 0 [(1, sample_spawn 0 1), (2, sample_spawn 2 2)] (sort_key fst [(9, 1), (5, 2), (3, 1), (9, 1)]) =
     Inr (expected_tile std_byteorder Map.empty 0 [(1, sample_spawn 0 1), (2, sample_spawn 2 2)] [(9, 1), (5, 2), (3, 1), (9, 1)] 3 @
          expected_tile std_byteorder Map.empty 0 [(1, sample_spawn 0 1), (2, sample_spawn 2 2)] [(9, 1), (5, 2), (3, 1), (9, 1)] 9)"
proof -
  let ?sp = "[(1, sample_spawn 0 1), (2, sample_spawn 2 2)] :: (u32 \<times> model_spawn) list" and ?es = "[(9, 1), (5, 2), (3, 1), (9, 1)] :: (u32 \<times> u32) list"
  have tiles: "sorted_list_of_set (fst ` set ?es) = [3, 5, 9]" by code_simp
  have "on_tile ?sp ?es 5 = []"
    by (simp add: on_tile_def is_worldspawn_def sample_spawn_def MOD_WORLDSPAWN_def)
  then have "expected_tile std_byteorder Map.empty 0 ?sp ?es 5 = []" by (simp add: expected_tile_def)
  moreover have "btm_sorted (?sp :: (u32 \<times> model_spawn) list)" by simp
  ultimately show ?thesis
    using tile_files_reference [of ?sp std_byteorder Map.empty 0 ?es] unfolding tiles by simp
qed

text \<open>A model spawn that is written is read back unchanged, whatever follows it: every tile
  file can be read by the reader of the directory file.\<close>

theorem model_spawn_roundtrip:
  assumes "little_endian B" "wf_spawn s"
  shows "model_spawn_read_from B (model_spawn_write_to B s @ rest) = Inr (Some s, rest)"
  using little_endian.rd_model_spawn [OF assms] .

theorem model_spawn_roundtrip_witness:
  "model_spawn_read_from std_byteorder (model_spawn_write_to std_byteorder (sample_spawn 0 1) @ [1]) = Inr (Some (sample_spawn 0 1), [1])"
proof (rule model_spawn_roundtrip)
  show "little_endian std_byteorder" by unfold_locales
  show "wf_spawn (sample_spawn 0 1)" unfolding wf_spawn_def by code_simp
qed

text \<open>C28: once the directory file has been read and the spawns of a map completed, the files of
  the map are written: no tile entry refers to a missing spawn and the hierarchy is built,
  for bounds with ordinary coordinates.\<close>

theorem map_is_written:
  assumes "read_map_spawns B dir_bin [] = Inr md" "(map_id, ms) \<in> set md"
    and "complete_spawns B sin_cos raw (unique_entries ms) = Inr completed"
    and "\<forall>(k, s) \<in> set completed. \<forall>b. Option.bind s ms_bound = Some b \<longrightarrow> plain_prim b" "length completed < 2 ^ 31"
  shows "\<exists>files. write_map_files B map_id (prune completed ms) = Some (Inr files)"
proof -
  have "wf_map_data []" by (simp add: wf_map_data_def)
  then have "wf_map_data md" using read_map_spawns_wf assms(1) by blast
  then have "wf_spawns ms" using assms(2) by (auto simp: wf_map_data_def)
  from wf_prune [OF this assms(3)] have wf: "wf_spawns (prune completed ms)" .
  let ?bounded = "filter (\<lambda>s. ms_bound s \<noteq> None) (map snd (unique_entries (prune completed ms)))"
  let ?prims = "map (\<lambda>s. case ms_bound s of Some b \<Rightarrow> b | None \<Rightarrow> aabox_default) ?bounded"
  have "\<forall>b \<in> set ?prims. plain_prim b"
    using assms(4) by (fastforce simp: prune_def List.map_filter_def)
  moreover have "length ?prims < 2 ^ 31"
    using assms(5) by (simp add: prune_def List.map_filter_def) (meson le_less_trans length_filter_le)
  ultimately obtain bih where "bih_build ?prims 3 = Some (Inr bih)"
    using bih_build_total by fastforce
  then obtain ni where ni: "build_map_bih ?bounded = Some (Inr (bih, ni))"
    by (simp add: build_map_bih_def Let_def bind_loop_def)
  have present: "\<forall>e \<in> set (tile_entries (prune completed ms)). btm_get (unique_entries (prune completed ms)) (snd e) \<noteq> None"
    and sorted: "btm_sorted (unique_entries (prune completed ms))" using wf by (simp_all add: wf_spawns_def)
  obtain globals where "write_entries B ni ''Missing spawn for global tile'' (unique_entries (prune completed ms))
      (filter (\<lambda>e. fst e = pack_tile_id 65 65) (tile_entries (prune completed ms))) = Inr globals"
    using write_entries_total present by fastforce
  then show ?thesis
    unfolding write_map_files_def Let_def ni tile_files_conv [OF sorted] by (simp add: bind_loop_def)
qed

definition bounded_spawn :: model_spawn where
  "bounded_spawn = (sample_spawn 4 1)\<lparr>ms_bound := Some (sample_box 0 0x3F800000)\<rparr>"

definition sample_dir :: bytes where
  "sample_dir = enc_u32 std_byteorder 530 @ enc_u32 std_byteorder 31 @ enc_u32 std_byteorder 32 @
     model_spawn_write_to std_byteorder bounded_spawn"

lemma sample_dir_read:
  "read_map_spawns std_byteorder sample_dir [] =
     Inr [(530, \<lparr>unique_entries = [(1, bounded_spawn)], tile_entries = [(pack_tile_id 31 32, 1)]\<rparr>)]"
proof -
  have "wf_spawn bounded_spawn" unfolding wf_spawn_def bounded_spawn_def by code_simp
  from std_le.rd_model_spawn [OF this, of "[]"]
  have spawn: "model_spawn_read_from std_byteorder (model_spawn_write_to std_byteorder bounded_spawn) = Inr (Some bounded_spawn, [])"
    by simp
  have "ms_id bounded_spawn = 1" by (simp add: bounded_spawn_def sample_spawn_def)
  moreover have "read_map_spawns std_byteorder [] md = Inr md" for md
    by (subst read_map_spawns.simps) (simp add: rd_u32_def take_rd_def bind_rd_def)
  ultimately show ?thesis
    by (subst read_map_spawns.simps)
      (simp add: sample_dir_def read_tile_def spawn add_spawn_def map_spawns_default_def btm_or_insert_def)
qed

theorem map_is_written_witness:
  "\<exists>files. write_map_files std_byteorder 530
     (prune [(1, Some bounded_spawn)] \<lparr>unique_entries = [(1, bounded_spawn)], tile_entries = [(pack_tile_id 31 32, 1)]\<rparr>) =
     Some (Inr files)"
proof (rule map_is_written)
  show "read_map_spawns std_byteorder sample_dir [] =
     Inr [(530, \<lparr>unique_entries = [(1, bounded_spawn)], tile_entries = [(pack_tile_id 31 32, 1)]\<rparr>)]"
    by (rule sample_dir_read)
  show "complete_spawns std_byteorder (\<lambda>x. (x, x)) (\<lambda>_. Some [])
      (unique_entries \<lparr>unique_entries = [(1, bounded_spawn)], tile_entries = [(pack_tile_id 31 32, 1)]\<rparr>) =
      Inr [(1, Some bounded_spawn)]"
    by (simp add: complete_spawn_def bounded_spawn_def sample_spawn_def MOD_M2_def MOD_WORLDSPAWN_def)
  show "\<forall>(k, s) \<in> set [(1::u32, Some bounded_spawn)]. \<forall>b. Option.bind s ms_bound = Some b \<longrightarrow> plain_prim b"
    by (simp add: bounded_spawn_def sample_spawn_def sample_plain plain_def f32_abs_bits_def)
qed simp_all

section \<open>Tile numbers and chunk sizes\<close>

text \<open>A tile number is unpacked to the coordinates it was packed from whenever the first
  fits in 16 bits and the second in 8 (the grid has 64 tiles a side, and the global tile is
  65, 65).\<close>

theorem tile_id_roundtrip:
  assumes "x < 2 ^ 16" "y < 2 ^ 8"
  shows "unpack_tile_id (pack_tile_id x y) = (x, y)"
proof -
  have x: "bit x n \<Longrightarrow> n < 16" and y: "bit y n \<Longrightarrow> n < 8" for n
    using word_less_bit [OF assms(1)] word_less_bit [OF assms(2)] by blast+
  have "drop_bit 16 (push_bit 16 x OR y) = x"
    by (rule bit_word_eqI) (use x y in \<open>force simp: bit_simps\<close>)
  moreover have "take_bit 8 (push_bit 16 x OR y) = y"
    by (rule bit_word_eqI) (use y in \<open>force simp: bit_simps\<close>)
  then have "(push_bit 16 x OR y) AND 0xFF = y" by (simp add: take_bit_eq_mask mask_eq_exp_minus_1)
  ultimately show ?thesis by (simp add: unpack_tile_id_def pack_tile_id_def)
qed

theorem tile_id_roundtrip_witness: "unpack_tile_id (pack_tile_id 65 65) = (65, 65)"
  using tile_id_roundtrip [of 65 65] by simp

context little_endian
begin

lemma length_concat_enc [simp]: "length (concat (map (\<lambda>x. enc_u32 B (f x)) xs)) = 4 * length xs"
  by (induction xs) auto

lemma liquid_length:
  assumes "wmo_liquid_file_size l = Inr n" "wmo_liquid_write_to B l = Inr body"
  shows "length body = unat n + 4"
  using assms
  by (auto simp: wmo_liquid_file_size_def wmo_liquid_write_to_def bind_result_def split: sum.splits dest!: checked_u32)

end

text \<open>C30: the size in the header of a liquid chunk is four less than the number of bytes that
  follow it: \<^verbatim>\<open>file_size\<close> does not count the liquid type that \<^verbatim>\<open>write_to\<close> writes.\<close>

theorem liquid_size_short:
  assumes "little_endian B" "wmo_liquid_file_size l = Inr n" "wmo_liquid_write_to B l = Inr body"
  shows "length body = unat n + 4"
  using little_endian.liquid_length [OF assms] .

definition sample_liquid :: wmo_liquid where
  "sample_liquid = \<lparr>wl_tiles_x = 1, wl_tiles_y = 1, wl_corner = vec3_new 0 0 0, wl_liquid_type = 5,
     wl_heights = [0, 0, 0, 0], wl_flags = [0]\<rparr>"

theorem liquid_size_short_witness:
  "\<exists>body. wmo_liquid_file_size sample_liquid = Inr 37 \<and> wmo_liquid_write_to std_byteorder sample_liquid = Inr body \<and> length body = 41"
proof -
  have size: "wmo_liquid_file_size sample_liquid = Inr 37"
    by (simp add: wmo_liquid_file_size_def sample_liquid_def wl_height_size_def add_u32_def mul_u32_def)
  obtain body where body: "wmo_liquid_write_to std_byteorder sample_liquid = Inr body"
    by (simp add: wmo_liquid_write_to_def sample_liquid_def wl_height_size_def add_u32_def mul_u32_def)
  have "little_endian std_byteorder" by unfold_locales
  from liquid_size_short [OF this size body] show ?thesis using size body by simp
qed

end
