(* ===== verification/Arrays.thy ===== *)
theory Arrays
  imports Byte_Order
begin

text \<open>
  Fixed-size vectors and the counted loops over them.  Reading or writing outside the vector
  is Rust's index panic.  A loop is \<open>for_each\<close> over the list of its counter values; the locale
  \<open>safe_state\<close> has the rules its users apply: steps that keep an invariant and do not fail
  make loops and sequences that do so.
\<close>

section \<open>Vectors\<close>

definition index_panic :: rust_error where
  "index_panic = Panic ''index out of bounds''"

definition vec_get :: "'a list \<Rightarrow> nat \<Rightarrow> 'a result" where
  "vec_get xs i = (if i < length xs then Inr (xs ! i) else Inl index_panic)"

definition vec_set :: "nat \<Rightarrow> 'a \<Rightarrow> 'a list \<Rightarrow> 'a list result" where
  "vec_set i v xs = (if i < length xs then Inr (xs[i := v]) else Inl index_panic)"

text \<open>\<^verbatim>\<open>xs[i] = f(xs[i])\<close>, \<^verbatim>\<open>xs.get(i)\<close> and \<^verbatim>\<open>&xs[a..b]\<close>.\<close>

definition vec_upd :: "nat \<Rightarrow> ('a \<Rightarrow> 'a) \<Rightarrow> 'a list \<Rightarrow> 'a list result" where
  "vec_upd i f xs = (if i < length xs then Inr (xs[i := f (xs ! i)]) else Inl index_panic)"

definition nth_opt :: "'a list \<Rightarrow> nat \<Rightarrow> 'a option" where
  "nth_opt xs i = (if i < length xs then Some (xs ! i) else None)"

definition vec_slice :: "nat \<Rightarrow> nat \<Rightarrow> 'a list \<Rightarrow> 'a list result" where
  "vec_slice a b xs = (if a \<le> b \<and> b \<le> length xs then Inr (take (b - a) (drop a xs)) else Inl index_panic)"

lemma vec_simps [simp]:
  "i < length xs \<Longrightarrow> vec_get xs i = Inr (xs ! i)"
  "i < length xs \<Longrightarrow> vec_set i v xs = Inr (xs[i := v])"
  "i < length xs \<Longrightarrow> vec_upd i f xs = Inr (xs[i := f (xs ! i)])"
  by (simp_all add: vec_get_def vec_set_def vec_upd_def)

lemma vec_length:
  "vec_set i v xs = Inr ys \<Longrightarrow> length ys = length xs"
  "vec_upd i f xs = Inr ys \<Longrightarrow> length ys = length xs"
  by (auto simp: vec_set_def vec_upd_def split: if_splits)

section \<open>Loops\<close>

primrec for_each :: "('a \<Rightarrow> 's \<Rightarrow> 's result) \<Rightarrow> 'a list \<Rightarrow> 's \<Rightarrow> 's result" where
  "for_each f [] s = Inr s"
| "for_each f (x # xs) s = bind_result (f x s) (for_each f xs)"

text \<open>\<^verbatim>\<open>for y in 0..n { for x in 0..m { .. } }\<close>\<close>

definition pairs :: "nat \<Rightarrow> nat \<Rightarrow> (nat \<times> nat) list" where
  "pairs n m = [(y, x). y \<leftarrow> [0..<n], x \<leftarrow> [0..<m]]"

lemma set_pairs [simp]: "(y, x) \<in> set (pairs n m) \<longleftrightarrow> y < n \<and> x < m"
  by (force simp: pairs_def)

lemma for_each_append: "for_each f (xs @ ys) s = bind_result (for_each f xs s) (for_each f ys)"
  by (induction xs arbitrary: s) (auto simp: bind_result_def split: sum.splits)

section \<open>Steps that never fail\<close>

text \<open>A set of states with a start state: \<open>safe\<close> steps lead from every state of the set to
  another one, without an error or a panic.\<close>

locale safe_state =
  fixes inv :: "'s \<Rightarrow> bool" and init :: 's
  assumes inv_init: "inv init"
begin

definition safe :: "('s \<Rightarrow> 's result) \<Rightarrow> bool" where
  "safe f \<longleftrightarrow> (\<forall>s. inv s \<longrightarrow> (\<exists>t. f s = Inr t \<and> inv t))"

lemma safeD: "safe f \<Longrightarrow> inv s \<Longrightarrow> \<exists>t. f s = Inr t \<and> inv t"
  by (simp add: safe_def)

lemma safe_Inr: "safe Inr" "safe (\<lambda>s. Inr s)"
  by (simp_all add: safe_def)

lemma safe_bind: "safe f \<Longrightarrow> safe k \<Longrightarrow> safe (\<lambda>s. bind_result (f s) k)"
  unfolding safe_def by fastforce

lemma safe_if: "(b \<Longrightarrow> safe f) \<Longrightarrow> (\<not> b \<Longrightarrow> safe k) \<Longrightarrow> safe (\<lambda>s. if b then f s else k s)"
  by (cases b) simp_all

lemma safe_option: "safe f \<Longrightarrow> (\<And>x. v = Some x \<Longrightarrow> safe (k x)) \<Longrightarrow> safe (\<lambda>s. case v of None \<Rightarrow> f s | Some x \<Rightarrow> k x s)"
  by (cases v) simp_all

lemma safe_for_each:
  assumes "\<And>x. x \<in> set xs \<Longrightarrow> safe (body x)"
  shows "safe (for_each body xs)"
  using assms
proof (induction xs)
  case (Cons x xs)
  have "safe (body x)" "safe (for_each body xs)" using Cons by simp_all
  then have "safe (\<lambda>s. bind_result (body x s) (for_each body xs))" by (rule safe_bind)
  then show ?case by simp
qed (simp add: safe_def)

lemma safe_run: "safe f \<Longrightarrow> \<exists>t. f init = Inr t \<and> inv t"
  using inv_init safeD by blast

end

text \<open>An update of one vector of fixed length.\<close>

definition total_on :: "nat \<Rightarrow> ('a list \<Rightarrow> 'a list result) \<Rightarrow> bool" where
  "total_on n f \<longleftrightarrow> (\<forall>xs. length xs = n \<longrightarrow> (\<exists>ys. f xs = Inr ys \<and> length ys = n))"

lemma total_on_vec: "i < n \<Longrightarrow> total_on n (vec_set i v)" "i < n \<Longrightarrow> total_on n (vec_upd i f)"
  by (simp_all add: total_on_def)

lemma total_onD: "total_on n f \<Longrightarrow> length xs = n \<Longrightarrow> \<exists>ys. f xs = Inr ys \<and> length ys = n"
  by (simp add: total_on_def)

end
