(* ===== verification/Map_Grid.thy ===== *)
theory Map_Grid
  imports Arrays Float32
begin

text \<open>
  Terrain conversion of \<^verbatim>\<open>crates/extractors/src/map_dbc.rs\<close>: the contents of one terrain tile as
  the \<^verbatim>\<open>wow_adt\<close> crate delivers them are spread over the grids of a map file, the heights are
  limited and packed, and the file is written with its section table.  The parsed tile is
  given by what the methods of the crate return; the conversions to bytes are the parameter
  \<open>B\<close>.  Messages are not modelled.
\<close>

section \<open>Constants\<close>

definition ADT_CELLS_PER_GRID :: nat where "ADT_CELLS_PER_GRID = 16"
definition ADT_CELL_SIZE :: nat where "ADT_CELL_SIZE = 8"
definition ADT_GRID_SIZE :: nat where "ADT_GRID_SIZE = ADT_CELLS_PER_GRID * ADT_CELL_SIZE"

definition fourcc :: "string \<Rightarrow> u32" where
  "fourcc s = from_le_bytes (as_bytes s)"

definition MAP_MAGIC :: u32 where "MAP_MAGIC = fourcc ''MAPS''"
definition MAP_VERSION_MAGIC :: u32 where "MAP_VERSION_MAGIC = fourcc ''s1.4''"
definition MAP_AREA_MAGIC :: u32 where "MAP_AREA_MAGIC = fourcc ''AREA''"
definition MAP_HEIGHT_MAGIC :: u32 where "MAP_HEIGHT_MAGIC = fourcc ''MHGT''"
definition MAP_LIQUID_MAGIC :: u32 where "MAP_LIQUID_MAGIC = fourcc ''MLIQ''"

definition MAP_AREA_NO_AREA :: u16 where "MAP_AREA_NO_AREA = 0x0001"
definition MAP_HEIGHT_NO_HEIGHT :: u32 where "MAP_HEIGHT_NO_HEIGHT = 0x0001"
definition MAP_HEIGHT_AS_INT16 :: u32 where "MAP_HEIGHT_AS_INT16 = 0x0002"
definition MAP_HEIGHT_AS_INT8 :: u32 where "MAP_HEIGHT_AS_INT8 = 0x0004"
definition MAP_LIQUID_NO_TYPE :: u8 where "MAP_LIQUID_NO_TYPE = 0x01"
definition MAP_LIQUID_NO_HEIGHT :: u8 where "MAP_LIQUID_NO_HEIGHT = 0x02"

definition MAP_LIQUID_TYPE_MAGMA :: u8 where "MAP_LIQUID_TYPE_MAGMA = 0x01"
definition MAP_LIQUID_TYPE_OCEAN :: u8 where "MAP_LIQUID_TYPE_OCEAN = 0x02"
definition MAP_LIQUID_TYPE_SLIME :: u8 where "MAP_LIQUID_TYPE_SLIME = 0x04"
definition MAP_LIQUID_TYPE_WATER :: u8 where "MAP_LIQUID_TYPE_WATER = 0x08"
definition MAP_LIQUID_TYPE_DEEP_WATER :: u8 where "MAP_LIQUID_TYPE_DEEP_WATER = 0x10"

definition LIQUID_TYPE_MAGMA :: u16 where "LIQUID_TYPE_MAGMA = 0"
definition LIQUID_TYPE_OCEAN :: u16 where "LIQUID_TYPE_OCEAN = 1"
definition LIQUID_TYPE_SLIME :: u16 where "LIQUID_TYPE_SLIME = 2"
definition LIQUID_TYPE_WATER :: u16 where "LIQUID_TYPE_WATER = 3"

text \<open>\<^verbatim>\<open>2.0\<close>, \<^verbatim>\<open>2048.0\<close>, \<^verbatim>\<open>0.005\<close>, \<^verbatim>\<open>0.001\<close>, \<^verbatim>\<open>20000.0\<close> and \<^verbatim>\<open>-20000.0\<close> as bit patterns.\<close>

definition CONF_FLOAT_TO_INT8_LIMIT :: f32 where "CONF_FLOAT_TO_INT8_LIMIT = 0x40000000"
definition CONF_FLOAT_TO_INT16_LIMIT :: f32 where "CONF_FLOAT_TO_INT16_LIMIT = 0x45000000"
definition CONF_FLAT_HEIGHT_DELTA_LIMIT :: f32 where "CONF_FLAT_HEIGHT_DELTA_LIMIT = 0x3BA3D70A"
definition CONF_FLAT_LIQUID_DELTA_LIMIT :: f32 where "CONF_FLAT_LIQUID_DELTA_LIMIT = 0x3A83126F"
definition HEIGHT_TOP :: f32 where "HEIGHT_TOP = 0x469C4000"
definition HEIGHT_BOTTOM :: f32 where "HEIGHT_BOTTOM = 0xC69C4000"

definition GRID_MAP_FILE_HEADER_SIZE :: u32 where "GRID_MAP_FILE_HEADER_SIZE = 40"
definition GRID_MAP_AREA_HEADER_SIZE :: u32 where "GRID_MAP_AREA_HEADER_SIZE = 8"
definition GRID_MAP_HEIGHT_HEADER_SIZE :: u32 where "GRID_MAP_HEIGHT_HEADER_SIZE = 16"
definition GRID_MAP_LIQUID_HEADER_SIZE :: u32 where "GRID_MAP_LIQUID_HEADER_SIZE = 16"

record extract_config =
  allow_height_limit :: bool
  cfg_min_height :: f32
  allow_float_to_int :: bool

definition idx_v8 :: "nat \<Rightarrow> nat \<Rightarrow> nat" where
  "idx_v8 y x = y * ADT_GRID_SIZE + x"

definition idx_v9 :: "nat \<Rightarrow> nat \<Rightarrow> nat" where
  "idx_v9 y x = y * (ADT_GRID_SIZE + 1) + x"

definition idx_cell :: "nat \<Rightarrow> nat \<Rightarrow> nat" where
  "idx_cell y x = y * ADT_CELLS_PER_GRID + x"

section \<open>The parsed tile\<close>

record mcnk_liquid =
  lq_tile_flag :: "nat \<Rightarrow> nat \<Rightarrow> u8 option"
  lq_vertex :: "nat \<Rightarrow> nat \<Rightarrow> f32 option"

record mcnk_heights =
  outer_height :: "nat \<Rightarrow> nat \<Rightarrow> f32 option"
  inner_height :: "nat \<Rightarrow> nat \<Rightarrow> f32 option"

record mcnk =
  mc_area_id :: u32
  mc_holes_low_res :: u16
  mc_height :: f32
  mc_flags :: u32
  mc_size_liquid :: u32
  mc_heights :: "mcnk_heights option"
  mc_liquid :: "mcnk_liquid option"

record water_instance =
  wi_liquid_type :: u16
  wi_min_height_level :: f32
  wi_x_offset :: nat
  wi_y_offset :: nat
  wi_width :: nat
  wi_height :: nat

text \<open>A grid of vertices, each with its height above a base height.\<close>

type_synonym vertex_grid = "nat \<Rightarrow> (f32 \<Rightarrow> f32) option"

datatype vertex_data_array =
    HeightDepth vertex_grid | HeightUv vertex_grid | DepthOnly | HeightUvDepth vertex_grid

record water_entry =
  we_has_liquid :: bool
  we_instances :: "water_instance list"
  we_exists_bitmaps :: "u64 option list"
  we_vertex_data :: "vertex_data_array option list"

record adt_root =
  mcnk_chunks :: "mcnk list"
  water_data :: "water_entry list option"

datatype parsed_adt = Root adt_root | OtherAdt

section \<open>The grids\<close>

record adt_grid =
  g_area_flags :: "u16 list"
  g_v8 :: "f32 list"
  g_v9 :: "f32 list"
  g_liquid_entry :: "u16 list"
  g_liquid_flags :: "u8 list"
  g_liquid_show :: "u8 list"
  g_liquid_height :: "f32 list"
  g_holes :: "u16 list"

definition new_grid :: adt_grid where
  "new_grid =
     (let cells = ADT_CELLS_PER_GRID * ADT_CELLS_PER_GRID; n8 = ADT_GRID_SIZE * ADT_GRID_SIZE;
          n9 = (ADT_GRID_SIZE + 1) * (ADT_GRID_SIZE + 1) in
      \<lparr>g_area_flags = replicate cells 0xFFFF, g_v8 = replicate n8 0, g_v9 = replicate n9 0,
       g_liquid_entry = replicate cells 0, g_liquid_flags = replicate cells 0,
       g_liquid_show = replicate n8 0, g_liquid_height = replicate n9 0, g_holes = replicate cells 0\<rparr>)"

text \<open>Assignments to one component.\<close>

definition on_v8 :: "(f32 list \<Rightarrow> f32 list result) \<Rightarrow> adt_grid \<Rightarrow> adt_grid result" where
  "on_v8 f g = bind_result (f (g_v8 g)) (\<lambda>v. Inr (g\<lparr>g_v8 := v\<rparr>))"

definition on_v9 :: "(f32 list \<Rightarrow> f32 list result) \<Rightarrow> adt_grid \<Rightarrow> adt_grid result" where
  "on_v9 f g = bind_result (f (g_v9 g)) (\<lambda>v. Inr (g\<lparr>g_v9 := v\<rparr>))"

definition on_entry :: "(u16 list \<Rightarrow> u16 list result) \<Rightarrow> adt_grid \<Rightarrow> adt_grid result" where
  "on_entry f g = bind_result (f (g_liquid_entry g)) (\<lambda>v. Inr (g\<lparr>g_liquid_entry := v\<rparr>))"

definition on_flags :: "(u8 list \<Rightarrow> u8 list result) \<Rightarrow> adt_grid \<Rightarrow> adt_grid result" where
  "on_flags f g = bind_result (f (g_liquid_flags g)) (\<lambda>v. Inr (g\<lparr>g_liquid_flags := v\<rparr>))"

definition on_show :: "(u8 list \<Rightarrow> u8 list result) \<Rightarrow> adt_grid \<Rightarrow> adt_grid result" where
  "on_show f g = bind_result (f (g_liquid_show g)) (\<lambda>v. Inr (g\<lparr>g_liquid_show := v\<rparr>))"

definition on_liquid_height :: "(f32 list \<Rightarrow> f32 list result) \<Rightarrow> adt_grid \<Rightarrow> adt_grid result" where
  "on_liquid_height f g = bind_result (f (g_liquid_height g)) (\<lambda>v. Inr (g\<lparr>g_liquid_height := v\<rparr>))"

section \<open>Cells\<close>

definition cell_area :: "u16 list \<Rightarrow> u32 \<Rightarrow> nat \<Rightarrow> mcnk \<Rightarrow> adt_grid \<Rightarrow> adt_grid result" where
  "cell_area areas max_area_id idx cell g =
     (if mc_area_id cell \<noteq> 0 \<and> mc_area_id cell \<le> max_area_id then
        bind_result (vec_get areas (unat (mc_area_id cell))) (\<lambda>area_flag.
        if area_flag \<noteq> 0xFFFF
        then bind_result (vec_set idx area_flag (g_area_flags g)) (\<lambda>a. Inr (g\<lparr>g_area_flags := a\<rparr>))
        else Inr g)
      else Inr g)"

definition cell_base :: "nat \<Rightarrow> nat \<Rightarrow> f32 \<Rightarrow> adt_grid \<Rightarrow> adt_grid result" where
  "cell_base i j base_height g =
     bind_result
       (for_each (\<lambda>(y, x). on_v9 (vec_set (idx_v9 (i * ADT_CELL_SIZE + y) (j * ADT_CELL_SIZE + x)) base_height))
          (pairs (ADT_CELL_SIZE + 1) (ADT_CELL_SIZE + 1)) g)
       (for_each (\<lambda>(y, x). on_v8 (vec_set (idx_v8 (i * ADT_CELL_SIZE + y) (j * ADT_CELL_SIZE + x)) base_height))
          (pairs ADT_CELL_SIZE ADT_CELL_SIZE))"

definition cell_heights :: "nat \<Rightarrow> nat \<Rightarrow> mcnk \<Rightarrow> adt_grid \<Rightarrow> adt_grid result" where
  "cell_heights i j cell g =
     (case mc_heights cell of
        None \<Rightarrow> Inr g
      | Some heights \<Rightarrow>
          bind_result
            (for_each (\<lambda>(y, x). case outer_height heights x y of
                 None \<Rightarrow> Inr
               | Some h \<Rightarrow> on_v9 (vec_upd (idx_v9 (i * ADT_CELL_SIZE + y) (j * ADT_CELL_SIZE + x)) (\<lambda>v. f32_add v h)))
               (pairs (ADT_CELL_SIZE + 1) (ADT_CELL_SIZE + 1)) g)
            (for_each (\<lambda>(y, x). case inner_height heights x y of
                 None \<Rightarrow> Inr
               | Some h \<Rightarrow> on_v8 (vec_upd (idx_v8 (i * ADT_CELL_SIZE + y) (j * ADT_CELL_SIZE + x)) (\<lambda>v. f32_add v h)))
               (pairs ADT_CELL_SIZE ADT_CELL_SIZE)))"

definition mclq_tile :: "nat \<Rightarrow> nat \<Rightarrow> nat \<Rightarrow> mcnk_liquid \<Rightarrow> nat \<times> nat \<Rightarrow> adt_grid \<Rightarrow> adt_grid result" where
  "mclq_tile i j idx liquid p g =
     (case p of (y, x) \<Rightarrow>
        let flag = (case lq_tile_flag liquid x y of Some f \<Rightarrow> f | None \<Rightarrow> 0x0F) in
        if flag \<noteq> 0x0F then
          bind_result (on_show (vec_set (idx_v8 (i * ADT_CELL_SIZE + y) (j * ADT_CELL_SIZE + x)) 1) g)
            (\<lambda>g. if flag AND 0x80 \<noteq> 0 then on_flags (vec_upd idx (\<lambda>f. f OR MAP_LIQUID_TYPE_DEEP_WATER)) g else Inr g)
        else Inr g)"

text \<open>One of the three liquid bits of the cell's flags.\<close>

definition mclq_kind :: "nat \<Rightarrow> u32 \<Rightarrow> nat \<times> u16 \<times> u8 \<Rightarrow> adt_grid \<Rightarrow> adt_grid result" where
  "mclq_kind idx c_flag k g =
     (case k of (b, entry, kind) \<Rightarrow>
        if c_flag AND push_bit b 1 \<noteq> 0
        then bind_result (on_entry (vec_set idx entry) g) (on_flags (vec_upd idx (\<lambda>f. f OR kind)))
        else Inr g)"

definition cell_liquid :: "nat \<Rightarrow> nat \<Rightarrow> nat \<Rightarrow> mcnk \<Rightarrow> adt_grid \<Rightarrow> adt_grid result" where
  "cell_liquid i j idx cell g =
     (case mc_liquid cell of
        None \<Rightarrow> Inr g
      | Some liquid \<Rightarrow>
          if mc_size_liquid cell \<le> 8 then Inr g
          else
            bind_result (for_each (mclq_tile i j idx liquid) (pairs ADT_CELL_SIZE ADT_CELL_SIZE) g) (\<lambda>g.
            bind_result (for_each (mclq_kind idx (mc_flags cell))
              [(2, 1, MAP_LIQUID_TYPE_WATER), (3, 2, MAP_LIQUID_TYPE_OCEAN), (4, 3, MAP_LIQUID_TYPE_MAGMA)] g) (\<lambda>g.
            for_each (\<lambda>(y, x). case lq_vertex liquid x y of
                None \<Rightarrow> Inr
              | Some h \<Rightarrow> on_liquid_height (vec_set (idx_v9 (i * ADT_CELL_SIZE + y) (j * ADT_CELL_SIZE + x)) h))
              (pairs (ADT_CELL_SIZE + 1) (ADT_CELL_SIZE + 1)) g)))"

definition cell_step :: "u16 list \<Rightarrow> u32 \<Rightarrow> adt_root \<Rightarrow> nat \<times> nat \<Rightarrow> adt_grid \<Rightarrow> adt_grid result" where
  "cell_step areas max_area_id root p g =
     (case p of (i, j) \<Rightarrow>
        let idx = idx_cell i j in
        case nth_opt (mcnk_chunks root) idx of
          None \<Rightarrow> Inr g
        | Some cell \<Rightarrow>
            bind_result (cell_area areas max_area_id idx cell g) (\<lambda>g.
            bind_result (vec_set idx (mc_holes_low_res cell) (g_holes g)) (\<lambda>hs.
            bind_result (cell_base i j (mc_height cell) (g\<lparr>g_holes := hs\<rparr>)) (\<lambda>g.
            bind_result (cell_heights i j cell g) (cell_liquid i j idx cell)))))"

section \<open>Water\<close>

definition vertex_height :: "vertex_data_array option \<Rightarrow> nat \<Rightarrow> nat \<Rightarrow> f32 \<Rightarrow> f32" where
  "vertex_height vdata x y min_height =
     (if x > 8 \<or> y > 8 then min_height
      else
        let at = (\<lambda>grid. case grid (y * 9 + x) of Some v \<Rightarrow> v min_height | None \<Rightarrow> min_height) in
        case vdata of
          None \<Rightarrow> min_height
        | Some (HeightDepth grid) \<Rightarrow> at grid
        | Some (HeightUv grid) \<Rightarrow> at grid
        | Some DepthOnly \<Rightarrow> min_height
        | Some (HeightUvDepth grid) \<Rightarrow> at grid)"

definition water_tile ::
    "nat \<Rightarrow> nat \<Rightarrow> water_instance \<Rightarrow> nat \<times> nat \<Rightarrow> adt_grid \<times> u64 \<Rightarrow> (adt_grid \<times> u64) result" where
  "water_tile i j inst p s =
     (case p of (y, x) \<Rightarrow> case s of (g, show_map) \<Rightarrow>
        bind_result
          (if show_map AND 1 \<noteq> 0
           then on_show (vec_set (idx_v8 (i * ADT_CELL_SIZE + y + wi_y_offset inst)
                  (j * ADT_CELL_SIZE + x + wi_x_offset inst)) 1) g
           else Inr g) (\<lambda>g. Inr (g, drop_bit 1 show_map)))"

definition liquid_kind :: "u16 \<Rightarrow> u8" where
  "liquid_kind liq_type =
     (if liq_type = LIQUID_TYPE_WATER then MAP_LIQUID_TYPE_WATER
      else if liq_type = LIQUID_TYPE_OCEAN then MAP_LIQUID_TYPE_OCEAN
      else if liq_type = LIQUID_TYPE_MAGMA then MAP_LIQUID_TYPE_MAGMA
      else if liq_type = LIQUID_TYPE_SLIME then MAP_LIQUID_TYPE_SLIME else 0)"

definition water_step :: "u16 list \<Rightarrow> water_entry list \<Rightarrow> nat \<times> nat \<Rightarrow> adt_grid \<Rightarrow> adt_grid result" where
  "water_step liquid_types water p g =
     (case p of (i, j) \<Rightarrow>
        let idx = idx_cell i j in
        case nth_opt water idx of
          None \<Rightarrow> Inr g
        | Some entry \<Rightarrow>
            (case we_instances entry of
               [] \<Rightarrow> Inr g
             | inst # _ \<Rightarrow>
                 if \<not> we_has_liquid entry then Inr g
                 else
                   let show_map = (case we_exists_bitmaps entry of Some b # _ \<Rightarrow> b | _ \<Rightarrow> - 1);
                       liq_type = (case nth_opt liquid_types (unat (wi_liquid_type inst)) of Some t \<Rightarrow> t | None \<Rightarrow> 0xFFFF);
                       vdata = (case we_vertex_data entry of v # _ \<Rightarrow> v | [] \<Rightarrow> None);
                       dark = (if liq_type = LIQUID_TYPE_OCEAN \<and> Option.is_none vdata then MAP_LIQUID_TYPE_DEEP_WATER else 0)
                   in
                   bind_result (for_each (water_tile i j inst)
                     (pairs (wi_height inst) (wi_width inst)) (g, show_map)) (\<lambda>(g, _).
                   bind_result (on_entry (vec_set idx (wi_liquid_type inst)) g) (\<lambda>g.
                   bind_result (on_flags (vec_upd idx (\<lambda>f. f OR liquid_kind liq_type OR dark)) g)
                     (for_each (\<lambda>(y, x). on_liquid_height
                        (vec_set (idx_v9 (i * ADT_CELL_SIZE + y + wi_y_offset inst)
                           (j * ADT_CELL_SIZE + x + wi_x_offset inst))
                           (vertex_height vdata x y (wi_min_height_level inst))))
                       (pairs (wi_height inst + 1) (wi_width inst + 1)))))))"

end
