(* ===== verification/Map_File.thy ===== *)
theory Map_File
  imports Map_Grid
begin

text \<open>
  The second half of the terrain conversion of \<^verbatim>\<open>crates/extractors/src/map_dbc.rs\<close>: limiting
  and packing of the heights, the area and liquid sections, the table of sections and the
  bytes of the map file.
\<close>

section \<open>Heights\<close>

definition select_uint8_step_store :: "f32 \<Rightarrow> f32" where
  "select_uint8_step_store max_diff = f32_div 0x437F0000 max_diff"

definition select_uint16_step_store :: "f32 \<Rightarrow> f32" where
  "select_uint16_step_store max_diff = f32_div 0x477FFF00 max_diff"

definition widen :: "f32 \<times> f32 \<Rightarrow> f32 \<Rightarrow> f32 \<times> f32" where
  "widen r value =
     (case r of (min_height, max_height) \<Rightarrow>
        (if f32_lt value min_height then value else min_height,
         if f32_lt max_height value then value else max_height))"

definition compute_height_range :: "f32 list \<Rightarrow> f32 list \<Rightarrow> f32 \<times> f32" where
  "compute_height_range v8 v9 = foldl widen (HEIGHT_TOP, HEIGHT_BOTTOM) (v8 @ v9)"

definition clamp_height :: "f32 \<Rightarrow> f32 \<Rightarrow> f32" where
  "clamp_height min_height value = (if f32_lt value min_height then min_height else value)"

definition clamp_heights :: "f32 list \<Rightarrow> f32 list \<Rightarrow> f32 \<Rightarrow> f32 list \<times> f32 list" where
  "clamp_heights v8 v9 min_height = (map (clamp_height min_height) v8, map (clamp_height min_height) v9)"

record grid_map_height_header =
  hh_fourcc :: u32
  hh_flags :: u32
  hh_grid_height :: f32
  hh_grid_max_height :: f32

definition quantise :: "nat \<Rightarrow> f32 \<Rightarrow> f32 \<Rightarrow> f32 \<Rightarrow> f32 \<Rightarrow> nat" where
  "quantise limit ceiling min_height step value =
     f32_to_nat limit (f32_clamp 0 ceiling (f32_add (f32_mul (f32_sub value min_height) step) f32_half))"

definition pack_u8 :: "f32 \<Rightarrow> f32 \<Rightarrow> f32 \<Rightarrow> u8" where
  "pack_u8 min_height step value = word_of_nat (quantise 255 0x437F0000 min_height step value)"

definition pack_u16 :: "f32 \<Rightarrow> f32 \<Rightarrow> f32 \<Rightarrow> u16" where
  "pack_u16 min_height step value = word_of_nat (quantise 65535 0x477FFF00 min_height step value)"

definition flat_height :: "f32 \<Rightarrow> f32 \<Rightarrow> extract_config \<Rightarrow> bool" where
  "flat_height min_height max_height config \<longleftrightarrow>
     f32_lt (f32_abs (f32_sub max_height min_height)) f32_EPSILON \<or>
     allow_float_to_int config \<and> f32_lt (f32_sub max_height min_height) CONF_FLAT_HEIGHT_DELTA_LIMIT"

text \<open>The flags are the constants 1, 2 and 4, tried in that order.\<close>

definition build_height_header ::
    "byteorder \<Rightarrow> f32 list \<Rightarrow> f32 list \<Rightarrow> f32 \<Rightarrow> f32 \<Rightarrow> extract_config \<Rightarrow> grid_map_height_header \<times> bytes" where
  "build_height_header B v8 v9 min_height max_height config =
     (let header = \<lparr>hh_fourcc = MAP_HEIGHT_MAGIC, hh_flags = 0, hh_grid_height = min_height, hh_grid_max_height = max_height\<rparr>;
          diff = f32_sub max_height min_height in
      if flat_height min_height max_height config then (header\<lparr>hh_flags := MAP_HEIGHT_NO_HEIGHT\<rparr>, [])
      else if allow_float_to_int config \<and> f32_lt diff CONF_FLOAT_TO_INT8_LIMIT then
        (header\<lparr>hh_flags := MAP_HEIGHT_AS_INT8\<rparr>,
         map (pack_u8 min_height (select_uint8_step_store diff)) (v9 @ v8))
      else if allow_float_to_int config \<and> f32_lt diff CONF_FLOAT_TO_INT16_LIMIT then
        (header\<lparr>hh_flags := MAP_HEIGHT_AS_INT16\<rparr>,
         concat (map (\<lambda>v. enc_u16 B (pack_u16 min_height (select_uint16_step_store diff) v)) (v9 @ v8)))
      else (header, concat (map (enc_u32 B) (v9 @ v8))))"

section \<open>Areas\<close>

record grid_map_area_header =
  ah_fourcc :: u32
  ah_flags :: u16
  ah_grid_area :: u16

definition build_area_header :: "byteorder \<Rightarrow> u16 list \<Rightarrow> grid_map_area_header \<times> bytes" where
  "build_area_header B area_flags =
     (let first = (case area_flags of a # _ \<Rightarrow> a | [] \<Rightarrow> 0xFFFF) in
      if list_ex (\<lambda>value. value \<noteq> first) area_flags
      then (\<lparr>ah_fourcc = MAP_AREA_MAGIC, ah_flags = 0, ah_grid_area = 0\<rparr>, concat (map (enc_u16 B) area_flags))
      else (\<lparr>ah_fourcc = MAP_AREA_MAGIC, ah_flags = MAP_AREA_NO_AREA, ah_grid_area = first\<rparr>, []))"

section \<open>Liquids\<close>

record grid_map_liquid_header =
  lh_fourcc :: u32
  lh_flags :: u8
  lh_liquid_flags :: u8
  lh_liquid_type :: u16
  lh_offset_x :: u8
  lh_offset_y :: u8
  lh_width :: u8
  lh_height :: u8
  lh_liquid_level :: f32

record liquid_scan =
  sc_min_x :: nat
  sc_min_y :: nat
  sc_max_x :: nat
  sc_max_y :: nat
  sc_max_height :: f32
  sc_min_height :: f32
  sc_liquid_height :: "f32 list"

definition scan_start :: "f32 list \<Rightarrow> liquid_scan" where
  "scan_start liquid_height =
     \<lparr>sc_min_x = 255, sc_min_y = 255, sc_max_x = 0, sc_max_y = 0,
      sc_max_height = HEIGHT_BOTTOM, sc_min_height = HEIGHT_TOP, sc_liquid_height = liquid_height\<rparr>"

definition scan_step :: "f32 \<Rightarrow> u8 list \<Rightarrow> nat \<times> nat \<Rightarrow> liquid_scan \<Rightarrow> liquid_scan result" where
  "scan_step min_level liquid_show p s =
     (case p of (y, x) \<Rightarrow>
        bind_result (vec_get liquid_show (idx_v8 y x)) (\<lambda>shown.
        if shown \<noteq> 0 then
          bind_result (vec_get (sc_liquid_height s) (idx_v9 y x)) (\<lambda>h.
          Inr (s\<lparr>sc_min_x := min (sc_min_x s) x, sc_max_x := max (sc_max_x s) x,
                 sc_min_y := min (sc_min_y s) y, sc_max_y := max (sc_max_y s) y,
                 sc_max_height := if f32_lt (sc_max_height s) h then h else sc_max_height s,
                 sc_min_height := if f32_lt h (sc_min_height s) then h else sc_min_height s\<rparr>))
        else
          bind_result (vec_set (idx_v9 y x) min_level (sc_liquid_height s)) (\<lambda>hs.
          Inr (s\<lparr>sc_liquid_height := hs,
                 sc_min_height := if f32_lt min_level (sc_min_height s) then min_level else sc_min_height s\<rparr>))))"

text \<open>An empty range is the cell at the origin.\<close>

definition scan_range :: "liquid_scan \<Rightarrow> liquid_scan" where
  "scan_range s =
     (if sc_min_x s = 255 \<or> sc_min_y s = 255
      then s\<lparr>sc_min_x := 0, sc_min_y := 0, sc_max_x := 0, sc_max_y := 0\<rparr> else s)"

definition flat_liquid :: "f32 \<Rightarrow> f32 \<Rightarrow> extract_config \<Rightarrow> bool" where
  "flat_liquid min_height max_height config \<longleftrightarrow>
     f32_lt (f32_abs (f32_sub max_height min_height)) f32_EPSILON \<or>
     allow_float_to_int config \<and> f32_lt (f32_sub max_height min_height) CONF_FLAT_LIQUID_DELTA_LIMIT"

definition liquid_row :: "byteorder \<Rightarrow> grid_map_liquid_header \<Rightarrow> f32 list \<Rightarrow> nat \<Rightarrow> bytes \<Rightarrow> bytes result" where
  "liquid_row B h liquid_height y payload =
     (let start = idx_v9 (y + unat (lh_offset_y h)) (unat (lh_offset_x h)) in
      bind_result (vec_slice start (start + unat (lh_width h)) liquid_height) (\<lambda>row.
      Inr (payload @ concat (map (enc_u32 B) row))))"

definition build_liquid_header ::
    "byteorder \<Rightarrow> u8 list \<Rightarrow> f32 list \<Rightarrow> u16 list \<Rightarrow> u8 list \<Rightarrow> extract_config \<Rightarrow>
      (grid_map_liquid_header option \<times> bytes) result" where
  "build_liquid_header B liquid_show liquid_height liquid_entry liquid_flags config =
     (let first_entry = (case liquid_entry of e # _ \<Rightarrow> e | [] \<Rightarrow> 0);
          first_flag = (case liquid_flags of f # _ \<Rightarrow> f | [] \<Rightarrow> 0);
          full_type = list_ex (\<lambda>(entry, flag). entry \<noteq> first_entry \<or> flag \<noteq> first_flag) (zip liquid_entry liquid_flags) in
      if first_flag = 0 \<and> \<not> full_type then Inr (None, [])
      else
        bind_result (for_each (scan_step (cfg_min_height config) liquid_show) (pairs ADT_GRID_SIZE ADT_GRID_SIZE)
          (scan_start liquid_height)) (\<lambda>s.
        let s = scan_range s;
            no_height = flat_liquid (sc_min_height s) (sc_max_height s) config;
            header = \<lparr>lh_fourcc = MAP_LIQUID_MAGIC,
              lh_flags = (if no_height then MAP_LIQUID_NO_HEIGHT else 0) OR (if full_type then 0 else MAP_LIQUID_NO_TYPE),
              lh_liquid_flags = (if full_type then 0 else first_flag),
              lh_liquid_type = (if full_type then 0 else first_entry),
              lh_offset_x = word_of_nat (sc_min_x s), lh_offset_y = word_of_nat (sc_min_y s),
              lh_width = word_of_nat (sc_max_x s - sc_min_x s + 2), lh_height = word_of_nat (sc_max_y s - sc_min_y s + 2),
              lh_liquid_level = sc_min_height s\<rparr>;
            types = (if full_type then concat (map (enc_u16 B) liquid_entry) @ liquid_flags else [])
        in bind_result
             (if no_height then Inr types
              else for_each (liquid_row B header (sc_liquid_height s)) [0..<unat (lh_height header)] types) (\<lambda>payload.
           Inr (Some header, payload))))"

section \<open>The map file\<close>

record grid_map_file_header =
  fh_map_magic :: u32
  fh_version_magic :: u32
  fh_area_map_offset :: u32
  fh_area_map_size :: u32
  fh_height_map_offset :: u32
  fh_height_map_size :: u32
  fh_liquid_map_offset :: u32
  fh_liquid_map_size :: u32
  fh_holes_offset :: u32
  fh_holes_size :: u32

record map_file_sections =
  ms_area_header :: grid_map_area_header
  ms_area_payload :: bytes
  ms_height_header :: grid_map_height_header
  ms_height_payload :: bytes
  ms_liquid_header :: "grid_map_liquid_header option"
  ms_liquid_payload :: bytes
  ms_holes :: "u16 list"

definition area_section :: "byteorder \<Rightarrow> grid_map_area_header \<Rightarrow> bytes \<Rightarrow> bytes" where
  "area_section B h payload = enc_u32 B (ah_fourcc h) @ enc_u16 B (ah_flags h) @ enc_u16 B (ah_grid_area h) @ payload"

definition height_section :: "byteorder \<Rightarrow> grid_map_height_header \<Rightarrow> bytes \<Rightarrow> bytes" where
  "height_section B h payload =
     enc_u32 B (hh_fourcc h) @ enc_u32 B (hh_flags h) @ enc_u32 B (hh_grid_height h) @ enc_u32 B (hh_grid_max_height h) @ payload"

definition liquid_section :: "byteorder \<Rightarrow> grid_map_liquid_header option \<Rightarrow> bytes \<Rightarrow> bytes" where
  "liquid_section B header payload =
     (case header of
        None \<Rightarrow> []
      | Some h \<Rightarrow> enc_u32 B (lh_fourcc h) @ [lh_flags h, lh_liquid_flags h] @ enc_u16 B (lh_liquid_type h) @
          [lh_offset_x h, lh_offset_y h, lh_width h, lh_height h] @ enc_u32 B (lh_liquid_level h) @ payload)"

definition write_map_file :: "byteorder \<Rightarrow> grid_map_file_header \<Rightarrow> map_file_sections \<Rightarrow> bytes" where
  "write_map_file B h s =
     concat (map (enc_u32 B) [fh_map_magic h, fh_version_magic h, fh_area_map_offset h, fh_area_map_size h,
       fh_height_map_offset h, fh_height_map_size h, fh_liquid_map_offset h, fh_liquid_map_size h,
       fh_holes_offset h, fh_holes_size h]) @
     area_section B (ms_area_header s) (ms_area_payload s) @
     height_section B (ms_height_header s) (ms_height_payload s) @
     liquid_section B (ms_liquid_header s) (ms_liquid_payload s) @
     concat (map (enc_u16 B) (ms_holes s))"

text \<open>The section table; \<^verbatim>\<open>len() as u32\<close> wraps and the sums are checked.\<close>

definition size_u32 :: "'a list \<Rightarrow> u32" where
  "size_u32 xs = word_of_nat (length xs)"

definition map_file_header :: "map_file_sections \<Rightarrow> grid_map_file_header result" where
  "map_file_header s =
     bind_result (add_u32 GRID_MAP_AREA_HEADER_SIZE (size_u32 (ms_area_payload s))) (\<lambda>area_size.
     bind_result (add_u32 GRID_MAP_FILE_HEADER_SIZE area_size) (\<lambda>height_offset.
     bind_result (add_u32 GRID_MAP_HEIGHT_HEADER_SIZE (size_u32 (ms_height_payload s))) (\<lambda>height_size.
     bind_result (add_u32 height_offset height_size) (\<lambda>after_height.
     let h = \<lparr>fh_map_magic = MAP_MAGIC, fh_version_magic = MAP_VERSION_MAGIC,
           fh_area_map_offset = GRID_MAP_FILE_HEADER_SIZE, fh_area_map_size = area_size,
           fh_height_map_offset = height_offset, fh_height_map_size = height_size,
           fh_liquid_map_offset = 0, fh_liquid_map_size = 0,
           fh_holes_offset = after_height, fh_holes_size = word_of_nat (length (ms_holes s) * 2)\<rparr>
     in case ms_liquid_header s of
          None \<Rightarrow> Inr h
        | Some _ \<Rightarrow>
            bind_result (add_u32 GRID_MAP_LIQUID_HEADER_SIZE (size_u32 (ms_liquid_payload s))) (\<lambda>liquid_size.
            bind_result (add_u32 after_height liquid_size) (\<lambda>holes_offset.
            Inr (h\<lparr>fh_liquid_map_offset := after_height, fh_liquid_map_size := liquid_size,
                   fh_holes_offset := holes_offset\<rparr>)))))))"

section \<open>Conversion of a tile\<close>

definition fill_grid :: "u16 list \<Rightarrow> u32 \<Rightarrow> u16 list \<Rightarrow> adt_root \<Rightarrow> adt_grid result" where
  "fill_grid areas max_area_id liquid_types root =
     bind_result (for_each (cell_step areas max_area_id root) (pairs ADT_CELLS_PER_GRID ADT_CELLS_PER_GRID) new_grid) (\<lambda>g.
     case water_data root of
       None \<Rightarrow> Inr g
     | Some water \<Rightarrow> for_each (water_step liquid_types water) (pairs ADT_CELLS_PER_GRID ADT_CELLS_PER_GRID) g)"

definition limit_heights :: "extract_config \<Rightarrow> adt_grid \<Rightarrow> adt_grid \<times> f32 \<times> f32" where
  "limit_heights config g =
     (let (min_height, max_height) = compute_height_range (g_v8 g) (g_v9 g) in
      if allow_height_limit config \<and> f32_lt min_height (cfg_min_height config) then
        let (v8, v9) = clamp_heights (g_v8 g) (g_v9 g) (cfg_min_height config) in
        (g\<lparr>g_v8 := v8, g_v9 := v9\<rparr>, clamp_height (cfg_min_height config) min_height,
         clamp_height (cfg_min_height config) max_height)
      else (g, min_height, max_height))"

definition grid_sections :: "byteorder \<Rightarrow> extract_config \<Rightarrow> adt_grid \<Rightarrow> map_file_sections result" where
  "grid_sections B config g =
     (let (g, min_height, max_height) = limit_heights config g;
          (height_header, height_payload) = build_height_header B (g_v8 g) (g_v9 g) min_height max_height config;
          (area_header, area_payload) = build_area_header B (g_area_flags g)
      in bind_result (build_liquid_header B (g_liquid_show g) (g_liquid_height g) (g_liquid_entry g)
           (g_liquid_flags g) config) (\<lambda>(liquid_header, liquid_payload).
         Inr \<lparr>ms_area_header = area_header, ms_area_payload = area_payload,
              ms_height_header = height_header, ms_height_payload = height_payload,
              ms_liquid_header = liquid_header, ms_liquid_payload = liquid_payload, ms_holes = g_holes g\<rparr>))"

text \<open>\<open>parse_adt\<close> is the parser of the crate; the result is the contents of the map file.\<close>

definition convert_adt ::
    "byteorder \<Rightarrow> (bytes \<Rightarrow> parsed_adt result) \<Rightarrow> bytes \<Rightarrow> u16 list \<Rightarrow> u32 \<Rightarrow> u16 list \<Rightarrow> extract_config \<Rightarrow> bytes result" where
  "convert_adt B parse_adt adt_bytes areas max_area_id liquid_types config =
     bind_result (parse_adt adt_bytes) (\<lambda>parsed. case parsed of
       OtherAdt \<Rightarrow> Inl (Err ''Unsupported ADT file type'')
     | Root root \<Rightarrow>
         bind_result (fill_grid areas max_area_id liquid_types root) (\<lambda>g.
         bind_result (grid_sections B config g) (\<lambda>s.
         bind_result (map_file_header s) (\<lambda>h.
         Inr (write_map_file B h s)))))"

end
