(* ===== verification/Dbc.thy ===== *)
theory Dbc
  imports Byte_Order
begin

text \<open>
  The client database files of \<^verbatim>\<open>crates/extractors/src/dbc.rs\<close>: a header, rows of 32-bit
  fields and a table of zero-terminated strings.  Reading past the end, a wrong magic and a
  data size beyond 32 bits are errors; sums that leave \<^verbatim>\<open>usize\<close> are panics.
\<close>

section \<open>Files\<close>

record dbc_file =
  dbc_record_count :: u32
  dbc_field_count :: u32
  dbc_record_size :: u32
  dbc_data :: bytes
  dbc_string_table :: bytes

definition dbc_read_u32 :: "u32 reader" where
  "dbc_read_u32 = bind_rd (take_rd 4) (\<lambda>buf. ret_rd (from_le_bytes buf))"

definition dbc_tables :: "u32 \<Rightarrow> u32 \<Rightarrow> u32 \<Rightarrow> u32 \<Rightarrow> dbc_file reader" where
  "dbc_tables record_count field_count record_size string_size =
     (if unat record_count * unat record_size \<ge> 2 ^ 32 then fail_rd (Err ''DBC data size overflow'')
      else
        bind_rd (take_rd (unat (record_count * record_size))) (\<lambda>data.
        bind_rd (take_rd (unat string_size)) (\<lambda>string_table.
        ret_rd \<lparr>dbc_record_count = record_count, dbc_field_count = field_count,
                dbc_record_size = record_size, dbc_data = data, dbc_string_table = string_table\<rparr>)))"

definition dbc_body :: "dbc_file reader" where
  "dbc_body =
     bind_rd dbc_read_u32 (\<lambda>record_count.
     bind_rd dbc_read_u32 (\<lambda>field_count.
     bind_rd dbc_read_u32 (\<lambda>record_size.
     bind_rd dbc_read_u32 (\<lambda>string_size.
     dbc_tables record_count field_count record_size string_size))))"

definition dbc_from_bytes :: "bytes \<Rightarrow> dbc_file result" where
  "dbc_from_bytes bytes =
     map_sum id fst
       (bind_rd (take_rd 4) (\<lambda>magic.
        if magic \<noteq> as_bytes ''WDBC'' then fail_rd (Err ''Invalid DBC magic'') else dbc_body) bytes)"

definition header_mismatch :: rust_error where
  "header_mismatch = Err ''DBC header mismatch: field_count * 4 != record_size''"

definition dbc_validate :: "dbc_file \<Rightarrow> unit result" where
  "dbc_validate f =
     bind_result (mul_u32 (dbc_field_count f) 4) (\<lambda>n.
     if n \<noteq> dbc_record_size f then Inl header_mismatch else Inr ())"

section \<open>Records\<close>

record dbc_rec =
  rec_file :: dbc_file
  rec_index :: nat

definition dbc_record :: "dbc_file \<Rightarrow> nat \<Rightarrow> dbc_rec option" where
  "dbc_record f index =
     (if index \<ge> unat (dbc_record_count f) then None else Some \<lparr>rec_file = f, rec_index = index\<rparr>)"

definition get_u32 :: "dbc_rec \<Rightarrow> nat \<Rightarrow> u32 option result" where
  "get_u32 r field =
     (let offset = field * 4; start = rec_index r * unat (dbc_record_size (rec_file r)) + offset in
      if offset \<ge> 2 ^ 64 then Inr None
      else if start + 4 \<ge> 2 ^ 64 then Inl overflow
      else if start + 4 > length (dbc_data (rec_file r)) then Inr None
      else Inr (Some (from_le_bytes (take 4 (drop start (dbc_data (rec_file r)))))))"

text \<open>\<^verbatim>\<open>position(|b| b == 0).unwrap_or(len)\<close> bytes from the offset.\<close>

definition get_string :: "dbc_rec \<Rightarrow> nat \<Rightarrow> string option result" where
  "get_string r field =
     map_sum id
       (map_option (\<lambda>offset.
          let strings = dbc_string_table (rec_file r) in
          if unat offset \<ge> length strings then []
          else from_utf8_lossy (takeWhile (\<lambda>b. b \<noteq> 0) (drop (unat offset) strings))))
       (get_u32 r field)"

text \<open>\<^verbatim>\<open>for idx in 0..record_count\<close> with \<^verbatim>\<open>unwrap_or\<close> on each field.\<close>

definition unwrap_or :: "'a \<Rightarrow> 'a option \<Rightarrow> 'a" where
  "unwrap_or d x = (case x of Some y \<Rightarrow> y | None \<Rightarrow> d)"

primrec max_id_loop :: "dbc_file \<Rightarrow> nat list \<Rightarrow> u32 \<Rightarrow> u32 result" where
  "max_id_loop f [] max_id = Inr max_id"
| "max_id_loop f (idx # idxs) max_id =
     (case dbc_record f idx of
        None \<Rightarrow> max_id_loop f idxs max_id
      | Some r \<Rightarrow>
          bind_result (get_u32 r 0) (\<lambda>v.
          let i = unwrap_or 0 v in max_id_loop f idxs (if i > max_id then i else max_id)))"

definition dbc_max_id :: "dbc_file \<Rightarrow> u32 result" where
  "dbc_max_id f = max_id_loop f [0..<unat (dbc_record_count f)] 0"

section \<open>Loaded files\<close>

text \<open>What loading and validating establish: the rows fill the data exactly.\<close>

definition wf_dbc :: "dbc_file \<Rightarrow> bool" where
  "wf_dbc f \<longleftrightarrow> length (dbc_data f) = unat (dbc_record_count f) * unat (dbc_record_size f) \<and>
     unat (dbc_record_size f) = unat (dbc_field_count f) * 4 \<and> length (dbc_data f) < 2 ^ 32"

lemma dbc_read_u32_Inr: "dbc_read_u32 bs = Inr (v, r) \<longleftrightarrow> 4 \<le> length bs \<and> v = from_le_bytes (take 4 bs) \<and> r = drop 4 bs"
  by (auto simp: dbc_read_u32_def bind_rd_Inr take_rd_Inr)

lemma unat_data_size: "unat a * unat b < 2 ^ 32 \<Longrightarrow> unat (a * b :: u32) = unat a * unat b"
  using unat_mult_lem [of a b] by simp

lemma dbc_tables_layout:
  assumes "dbc_tables c k n s bs = Inr (f, r)"
  shows "length (dbc_data f) = unat (dbc_record_count f) * unat (dbc_record_size f) \<and> length (dbc_data f) < 2 ^ 32 \<and>
    dbc_data f = take (length (dbc_data f)) bs"
  using assms unat_data_size [of c n]
  by (cases "2 ^ 32 \<le> unat c * unat n") (auto simp: dbc_tables_def bind_rd_Inr take_rd_Inr min_def)

lemma dbc_body_tables: "dbc_body bs = Inr (f, r) \<Longrightarrow> \<exists>c k n s. dbc_tables c k n s (drop 16 bs) = Inr (f, r)"
  unfolding dbc_body_def bind_rd_Inr dbc_read_u32_Inr by auto

lemma dbc_from_bytes_layout:
  assumes "dbc_from_bytes bs = Inr f"
  shows "length (dbc_data f) = unat (dbc_record_count f) * unat (dbc_record_size f)" "length (dbc_data f) < 2 ^ 32"
    "dbc_data f = take (length (dbc_data f)) (drop 20 bs)"
proof -
  obtain r where "dbc_body (drop 4 bs) = Inr (f, r)"
    using assms by (auto simp: dbc_from_bytes_def bind_rd_Inr [of "take_rd 4"] take_rd_Inr split: if_splits)
  then obtain c k n s where "dbc_tables c k n s (drop 20 bs) = Inr (f, r)" using dbc_body_tables by fastforce
  then have "length (dbc_data f) = unat (dbc_record_count f) * unat (dbc_record_size f) \<and> length (dbc_data f) < 2 ^ 32 \<and>
    dbc_data f = take (length (dbc_data f)) (drop 20 bs)" by (rule dbc_tables_layout)
  then show "length (dbc_data f) = unat (dbc_record_count f) * unat (dbc_record_size f)" "length (dbc_data f) < 2 ^ 32"
    "dbc_data f = take (length (dbc_data f)) (drop 20 bs)" by blast+
qed

lemma dbc_validate_size:
  assumes "dbc_validate f = Inr ()"
  shows "unat (dbc_record_size f) = unat (dbc_field_count f) * 4"
proof -
  obtain n where n: "mul_u32 (dbc_field_count f) 4 = Inr n" "(if n \<noteq> dbc_record_size f then Inl header_mismatch else Inr ()) = Inr ()"
    using assms unfolding dbc_validate_def bind_result_Inr by blast
  then have "n = dbc_record_size f" by (cases "n = dbc_record_size f") simp_all
  with checked_u32(2) [OF n(1)] show ?thesis by simp
qed

lemma dbc_from_bytes_wf: "dbc_from_bytes bs = Inr f \<Longrightarrow> dbc_validate f = Inr () \<Longrightarrow> wf_dbc f"
  unfolding wf_dbc_def using dbc_from_bytes_layout(1,2) dbc_validate_size by blast

lemma field_in_data:
  assumes "i < c" "j < n"
  shows "i * (n * 4) + j * 4 + 4 \<le> c * (n * (4::nat))"
proof -
  have "i * n + j + 1 \<le> c * n"
    using mult_le_mono1 [of "i + 1" c n] assms by simp
  then show ?thesis using mult_le_mono1 [of "i * n + j + 1" "c * n" 4] by (simp add: algebra_simps)
qed

text \<open>Within a well-formed file every access is defined, and none panics.\<close>

lemma get_u32_wf:
  assumes "wf_dbc f" "i < unat (dbc_record_count f)" "j < unat (dbc_field_count f)"
  shows "get_u32 \<lparr>rec_file = f, rec_index = i\<rparr> j = Inr (Some (from_le_bytes (take 4 (drop ((i * unat (dbc_field_count f) + j) * 4) (dbc_data f)))))"
proof -
  have "i * (unat (dbc_field_count f) * 4) + j * 4 + 4 \<le> length (dbc_data f)"
    using field_in_data [OF assms(2,3)] assms(1) by (simp add: wf_dbc_def)
  moreover have "(i * unat (dbc_field_count f) + j) * 4 = i * unat (dbc_record_size f) + j * 4"
    using assms(1) by (simp add: wf_dbc_def algebra_simps)
  moreover have "length (dbc_data f) < 2 ^ 32" "unat (dbc_record_size f) = unat (dbc_field_count f) * 4"
    using assms(1) unfolding wf_dbc_def by blast+
  ultimately show ?thesis unfolding get_u32_def Let_def dbc_rec.simps by (simp add: mult.assoc)
qed

definition dbc_field :: "dbc_file \<Rightarrow> nat \<Rightarrow> nat \<Rightarrow> u32" where
  "dbc_field f i j = from_le_bytes (take 4 (drop ((i * unat (dbc_field_count f) + j) * 4) (dbc_data f)))"


definition sample_dbc :: bytes where
  "sample_dbc = as_bytes ''WDBC'' @ [2,0,0,0, 1,0,0,0, 4,0,0,0, 1,0,0,0] @ [7,0,0,0, 1,2,0,0] @ [0]"


end
