(* ===== verification/Mpq.thy ===== *)
theory Mpq
  imports Byte_Order Ordered_Map "HOL-Library.List_Lexorder" "HOL-Library.Char_ord"
begin

text \<open>
  The archive manager of \<^verbatim>\<open>crates/extractors/src/mpq.rs\<close>.  An archive belongs to the \<^verbatim>\<open>mpq\<close>
  crate: it is given by what its methods return, a file for a name if it can be opened, the
  file's size, and the bytes a read of a buffer of that size gives, if the read succeeds.
  Paths are lists of components.
\<close>

record mpq_file =
  mf_size :: nat
  mf_read :: "nat \<Rightarrow> bytes option"

record archive =
  ar_open_file :: "string \<Rightarrow> mpq_file option"

type_synonym path = "string list"

text \<open>The archives on the disk: nothing for a path that does not exist, else what
  \<^verbatim>\<open>Archive::open\<close> gives.\<close>

type_synonym archives_on_disk = "path \<Rightarrow> archive result option"

type_synonym mpq_manager = "archive list"

definition mpq_new :: mpq_manager where
  "mpq_new = []"

definition open_archive :: "archives_on_disk \<Rightarrow> path \<Rightarrow> mpq_manager \<Rightarrow> (bool \<times> mpq_manager) result" where
  "open_archive disk path m =
     (case disk path of
        None \<Rightarrow> Inr (False, m)
      | Some a \<Rightarrow> bind_result a (\<lambda>a. Inr (True, a # m)))"

text \<open>Files that cannot be opened, are empty or cannot be read are looked up in the next
  archive.\<close>

fun open_file :: "mpq_manager \<Rightarrow> string \<Rightarrow> bytes option" where
  "open_file [] filename = None"
| "open_file (a # m) filename =
     (case ar_open_file a filename of
        None \<Rightarrow> open_file m filename
      | Some f \<Rightarrow>
          if mf_size f = 0 then open_file m filename
          else case mf_read f (mf_size f) of Some buf \<Rightarrow> Some buf | None \<Rightarrow> open_file m filename)"

definition listed :: "archive \<Rightarrow> string list" where
  "listed a =
     (case ar_open_file a ''(listfile)'' of
        None \<Rightarrow> []
      | Some f \<Rightarrow> (case mf_read f (mf_size f) of
            None \<Rightarrow> []
          | Some buf \<Rightarrow> filter (\<lambda>l. l \<noteq> []) (map trim (lines (from_utf8_lossy buf)))))"

definition list_files :: "mpq_manager \<Rightarrow> string list" where
  "list_files m = fold bts_insert (concat (map listed m)) []"

definition build_path :: "path \<Rightarrow> string list \<Rightarrow> path" where
  "build_path base parts = base @ filter (\<lambda>p. p \<noteq> []) parts"

section \<open>Opening a sequence of archives\<close>

fun open_archives :: "archives_on_disk \<Rightarrow> path list \<Rightarrow> mpq_manager \<Rightarrow> mpq_manager result" where
  "open_archives disk [] m = Inr m"
| "open_archives disk (p # ps) m = bind_result (open_archive disk p m) (\<lambda>(_, m). open_archives disk ps m)"

text \<open>What an archive holds under a name, as far as the manager uses it.\<close>

definition readable :: "archive \<Rightarrow> string \<Rightarrow> bytes option" where
  "readable a filename =
     Option.bind (ar_open_file a filename) (\<lambda>f. if mf_size f = 0 then None else mf_read f (mf_size f))"

definition opened :: "archives_on_disk \<Rightarrow> path list \<Rightarrow> archive list" where
  "opened disk ps = List.map_filter (\<lambda>p. case disk p of Some (Inr a) \<Rightarrow> Some a | _ \<Rightarrow> None) ps"

lemma open_file_readable: "open_file m filename = (case List.map_filter (\<lambda>a. readable a filename) m of [] \<Rightarrow> None | b # _ \<Rightarrow> Some b)"
  by (induction m) (auto simp: List.map_filter_simps readable_def split: option.splits)

lemma open_archives_opened:
  "open_archives disk ps m = Inr m' \<Longrightarrow> m' = rev (opened disk ps) @ m"
  by (induction ps arbitrary: m)
    (auto simp: open_archive_def opened_def List.map_filter_simps split: option.splits)

lemma set_list_files: "set (list_files m) = set (concat (map listed m))" "sorted (list_files m)" "distinct (list_files m)"
proof -
  have "set (fold bts_insert xs s) = set xs \<union> set s" for xs and s :: "string list"
    by (induction xs arbitrary: s) (auto simp: bts_insert_def set_insort_insert)
  moreover have "sorted s \<Longrightarrow> sorted (fold bts_insert xs s)" for xs and s :: "string list"
    by (induction xs arbitrary: s) (auto simp: bts_insert_def sorted_insort_insert)
  moreover have "distinct s \<Longrightarrow> distinct (fold bts_insert xs s)" for xs and s :: "string list"
    by (induction xs arbitrary: s) (auto simp: bts_insert_def distinct_insort_insert)
  ultimately show "set (list_files m) = set (concat (map listed m))" "sorted (list_files m)" "distinct (list_files m)"
    unfolding list_files_def by simp_all
qed

text \<open>Patches take precedence.  After the archives of a list of paths have been opened, a file
  is taken from the last archive of the list that holds it with contents; archives that do
  not exist, and files that are empty or unreadable, are passed over.\<close>

theorem later_archives_win:
  assumes "open_archives disk ps mpq_new = Inr m"
  shows "open_file m filename =
    (case rev (List.map_filter (\<lambda>a. readable a filename) (opened disk ps)) of [] \<Rightarrow> None | b # _ \<Rightarrow> Some b)"
proof -
  have "List.map_filter f (rev xs) = rev (List.map_filter f xs)" for f :: "archive \<Rightarrow> bytes option" and xs
    by (simp add: List.map_filter_def rev_map rev_filter)
  then show ?thesis
    using open_archives_opened [OF assms] by (simp add: open_file_readable mpq_new_def)
qed

definition one_file :: "string \<Rightarrow> bytes \<Rightarrow> archive" where
  "one_file name data = \<lparr>ar_open_file = (\<lambda>f. if f = name then Some \<lparr>mf_size = length data, mf_read = (\<lambda>n. Some data)\<rparr> else None)\<rparr>"

definition sample_disk :: archives_on_disk where
  "sample_disk p =
     (if p = [''common''] then Some (Inr (one_file ''a'' [1]))
      else if p = [''patch''] then Some (Inr (one_file ''a'' [2]))
      else if p = [''patch-2''] then Some (Inr (one_file ''a'' []))
      else None)"

theorem later_archives_win_witness:
  "\<exists>m. open_archives sample_disk [[''common''], [''patch''], [''patch-2''], [''patch-3'']] mpq_new = Inr m \<and>
     open_file m ''a'' = Some [2]"
proof -
  let ?ps = "[[''common''], [''patch''], [''patch-2''], [''patch-3'']]"
  obtain m where m: "open_archives sample_disk ?ps mpq_new = Inr m"
    by (simp add: open_archive_def sample_disk_def)
  moreover have "List.map_filter (\<lambda>a. readable a ''a'') (opened sample_disk ?ps) = [[1], [2]]"
    by (simp add: opened_def sample_disk_def List.map_filter_simps readable_def one_file_def)
  ultimately have "open_file m ''a'' = Some [2]" using later_archives_win [OF m, of "''a''"] by simp
  with m show ?thesis by blast
qed

end
