(* ===== verification/Map_Dbc.thy ===== *)
theory Map_Dbc
  imports Map_File Dbc Mpq
begin

text \<open>
  The driver of \<^verbatim>\<open>crates/extractors/src/map_dbc.rs\<close>: detection of the locales, the order in which
  archives are opened, extraction of the database and camera files, the tables the terrain
  conversion needs, and the conversion of all maps.  The archives are those of \<open>Mpq\<close>, the
  WDT and ADT parsers are parameters given by what they return, and the result is the list
  of the files written, in order.
\<close>

section \<open>Locales and archives\<close>

definition LANGS :: "string list" where
  "LANGS = [''enGB'', ''enUS'', ''deDE'', ''esES'', ''frFR'', ''koKR'', ''zhCN'', ''zhTW'', ''enCN'', ''enTW'', ''esMX'', ''ruRU'']"

definition CONF_MPQ_LIST :: "string list" where
  "CONF_MPQ_LIST = [''common.MPQ'', ''common-2.MPQ'', ''lichking.MPQ'', ''expansion.MPQ'', ''patch.MPQ'',
     ''patch-2.MPQ'', ''patch-3.MPQ'', ''patch-4.MPQ'', ''patch-5.MPQ'']"

definition EXTRACT_MAP :: u8 where "EXTRACT_MAP = 1"
definition EXTRACT_DBC :: u8 where "EXTRACT_DBC = 2"
definition EXTRACT_CAMERA :: u8 where "EXTRACT_CAMERA = 4"

definition locale_path :: "path \<Rightarrow> string \<Rightarrow> path" where
  "locale_path input_path l = build_path input_path [''Data'', l, ''locale-'' @ l @ ''.MPQ'']"

definition detect_locales :: "archives_on_disk \<Rightarrow> path \<Rightarrow> string list" where
  "detect_locales disk input_path = filter (\<lambda>l. \<not> Option.is_none (disk (locale_path input_path l))) LANGS"

definition patch_name :: "string \<Rightarrow> nat \<Rightarrow> string" where
  "patch_name l idx = ''patch-'' @ l @ (if idx > 1 then ''-'' @ dec_str idx else []) @ ''.MPQ''"

definition load_locale_mpqs :: "archives_on_disk \<Rightarrow> path \<Rightarrow> string \<Rightarrow> mpq_manager \<Rightarrow> mpq_manager result" where
  "load_locale_mpqs disk input_path l m =
     open_archives disk
       (locale_path input_path l # map (\<lambda>idx. build_path input_path [''Data'', l, patch_name l idx]) [1..<5]) m"

definition load_common_mpqs :: "archives_on_disk \<Rightarrow> path \<Rightarrow> mpq_manager \<Rightarrow> mpq_manager result" where
  "load_common_mpqs disk input_path m =
     open_archives disk (map (\<lambda>name. build_path input_path [''Data'', name]) CONF_MPQ_LIST) m"

section \<open>Paths of extracted files\<close>

definition strip_prefix :: "string \<Rightarrow> string \<Rightarrow> string" where
  "strip_prefix prefix s = (if take (length prefix) s = prefix then drop (length prefix) s else s)"

definition backslash_char :: char where "backslash_char = CHR 0x5C"

definition mpq_to_path :: "path \<Rightarrow> string \<Rightarrow> string \<Rightarrow> path" where
  "mpq_to_path base mpq_path prefix =
     base @ filter (\<lambda>part. part \<noteq> []) (split_on (CHR ''/'') (replace_char backslash_char ''/'' (strip_prefix prefix mpq_path)))"

definition ends_with :: "string \<Rightarrow> string \<Rightarrow> bool" where
  "ends_with suffix s \<longleftrightarrow> length suffix \<le> length s \<and> drop (length s - length suffix) s = suffix"

text \<open>\<^verbatim>\<open>rfind(".mdx")\<close>: the last place where the text occurs.\<close>

definition rfind :: "string \<Rightarrow> string \<Rightarrow> nat option" where
  "rfind sub s =
     (case filter (\<lambda>i. take (length sub) (drop i s) = sub) (rev [0..<length s]) of [] \<Rightarrow> None | i # _ \<Rightarrow> Some i)"

definition camera_name :: "string \<Rightarrow> string" where
  "camera_name cam_file =
     (case rfind ''.mdx'' cam_file of
        None \<Rightarrow> cam_file
      | Some pos \<Rightarrow> take pos cam_file @ ''.m2'' @ drop (pos + 4) cam_file)"

type_synonym written = "(path \<times> bytes) list"

definition extract_dbc_files :: "mpq_manager \<Rightarrow> path \<Rightarrow> string \<Rightarrow> bool \<Rightarrow> written" where
  "extract_dbc_files mpq output_path l basic_locale =
     (let base_path = (if basic_locale then output_path @ [''dbc''] else output_path @ [''dbc'', l]) in
      List.map_filter (\<lambda>file. map_option (Pair (mpq_to_path base_path file (''DBFilesClient'' @ [backslash_char]))) (open_file mpq file))
        (filter (ends_with ''.dbc'') (list_files mpq)))"

section \<open>Reading tables\<close>

definition client_file :: "string \<Rightarrow> string" where
  "client_file name = ''DBFilesClient'' @ [backslash_char] @ name"

definition load_table :: "mpq_manager \<Rightarrow> string \<Rightarrow> dbc_file result" where
  "load_table mpq name =
     (case open_file mpq (client_file name) of
        None \<Rightarrow> Inl (Err (name @ '' not found''))
      | Some dbc_bytes \<Rightarrow>
          bind_result (dbc_from_bytes dbc_bytes) (\<lambda>dbc.
          bind_result (dbc_validate dbc) (\<lambda>_. Inr dbc)))"

primrec collect :: "(nat \<Rightarrow> 'a result) \<Rightarrow> nat list \<Rightarrow> 'a list result" where
  "collect f [] = Inr []"
| "collect f (i # is) = bind_result (f i) (\<lambda>x. bind_result (collect f is) (\<lambda>xs. Inr (x # xs)))"

record map_entry =
  me_id :: u32
  me_name :: string

text \<open>Every index is below the count, so that \<^verbatim>\<open>record\<close> always gives a record.\<close>

definition row :: "dbc_file \<Rightarrow> nat \<Rightarrow> dbc_rec" where
  "row dbc idx = \<lparr>rec_file = dbc, rec_index = idx\<rparr>"

definition read_map_dbc :: "mpq_manager \<Rightarrow> map_entry list result" where
  "read_map_dbc mpq =
     bind_result (load_table mpq ''Map.dbc'') (\<lambda>dbc.
     collect (\<lambda>idx.
       bind_result (get_u32 (row dbc idx) 0) (\<lambda>i.
       bind_result (get_string (row dbc idx) 1) (\<lambda>name.
       Inr \<lparr>me_id = unwrap_or 0 i, me_name = unwrap_or [] name\<rparr>))) [0..<unat (dbc_record_count dbc)])"

text \<open>\<^verbatim>\<open>as u16\<close> truncates; an id beyond the vector is ignored.\<close>

definition set_entry :: "dbc_file \<Rightarrow> nat \<Rightarrow> u16 list \<Rightarrow> u16 list result" where
  "set_entry dbc idx entries =
     bind_result (get_u32 (row dbc idx) 0) (\<lambda>i.
     bind_result (get_u32 (row dbc idx) 3) (\<lambda>v.
     let i = unat (unwrap_or 0 i) in
     Inr (if i < length entries then entries[i := ucast (unwrap_or 0 v)] else entries)))"

definition table_by_id :: "dbc_file \<Rightarrow> (u16 list \<times> u32) result" where
  "table_by_id dbc =
     bind_result (dbc_max_id dbc) (\<lambda>max_id.
     bind_result (for_each (set_entry dbc) [0..<unat (dbc_record_count dbc)] (replicate (unat max_id + 1) 0xFFFF)) (\<lambda>entries.
     Inr (entries, max_id)))"

definition read_area_table_dbc :: "mpq_manager \<Rightarrow> (u16 list \<times> u32) result" where
  "read_area_table_dbc mpq = bind_result (load_table mpq ''AreaTable.dbc'') table_by_id"

definition read_liquid_type_dbc :: "mpq_manager \<Rightarrow> u16 list result" where
  "read_liquid_type_dbc mpq = bind_result (load_table mpq ''LiquidType.dbc'') (\<lambda>dbc. map_sum id fst (table_by_id dbc))"

section \<open>Cameras\<close>

text \<open>\<open>exists\<close> tells which output files are there before the run; files written by the run are
  there from then on.\<close>

definition extract_camera :: "mpq_manager \<Rightarrow> path \<Rightarrow> (path \<Rightarrow> bool) \<Rightarrow> dbc_file \<Rightarrow> nat \<Rightarrow> written \<Rightarrow> written result" where
  "extract_camera mpq base_path exists dbc idx out =
     bind_result (get_string (row dbc idx) 1) (\<lambda>name.
     let cam_file = unwrap_or [] name in
     if cam_file = [] then Inr out
     else
       let cam_file = camera_name cam_file;
           out_path = mpq_to_path base_path cam_file (''Cameras'' @ [backslash_char]) in
       if exists out_path \<or> out_path \<in> fst ` set out then Inr out
       else case open_file mpq cam_file of None \<Rightarrow> Inr out | Some data \<Rightarrow> Inr (out @ [(out_path, data)]))"

definition extract_camera_files :: "mpq_manager \<Rightarrow> path \<Rightarrow> (path \<Rightarrow> bool) \<Rightarrow> string \<Rightarrow> bool \<Rightarrow> written result" where
  "extract_camera_files mpq output_path exists l basic_locale =
     (case open_file mpq (client_file ''CinematicCamera.dbc'') of
        None \<Rightarrow> Inr []
      | Some dbc_bytes \<Rightarrow>
          bind_result (dbc_from_bytes dbc_bytes) (\<lambda>dbc.
          bind_result (dbc_validate dbc) (\<lambda>_.
          let base_path = (if basic_locale then output_path @ [''Cameras''] else output_path @ [''Cameras'', l]) in
          for_each (extract_camera mpq base_path exists dbc) [0..<unat (dbc_record_count dbc)] [])))"

section \<open>Maps\<close>

text \<open>The two parsers of the crates: the tile table of a WDT file (whether the tile at x, y has
  terrain, if there is such a tile), and the parsed ADT file.\<close>

record parsers =
  read_wdt :: "bytes \<Rightarrow> (nat \<Rightarrow> nat \<Rightarrow> bool option) result"
  parse_adt_file :: "bytes \<Rightarrow> parsed_adt result"

definition world_file :: "string \<Rightarrow> string \<Rightarrow> string" where
  "world_file name file = ''World'' @ [backslash_char] @ ''Maps'' @ [backslash_char] @ name @ [backslash_char] @ file"

definition WDT_MAP_SIZE :: nat where "WDT_MAP_SIZE = 64"

definition adt_tiles :: "mpq_manager \<Rightarrow> string \<Rightarrow> (nat \<Rightarrow> nat \<Rightarrow> bool option) \<Rightarrow> (nat \<times> nat \<times> bytes) list" where
  "adt_tiles mpq name wdt =
     List.map_filter (\<lambda>(y, x).
       if wdt x y = Some True
       then map_option (\<lambda>b. (x, y, b))
         (open_file mpq (world_file name (name @ ''_'' @ dec_str x @ ''_'' @ dec_str y @ ''.adt'')))
       else None) (pairs WDT_MAP_SIZE WDT_MAP_SIZE)"

text \<open>With a thread pool every tile is converted before the results are inspected: a panic of
  any of them comes first.  Without one the conversion stops at the first failure.\<close>

definition is_panic :: "'a result \<Rightarrow> bool" where
  "is_panic r = (case r of Inl (Panic e) \<Rightarrow> True | _ \<Rightarrow> False)"

primrec sequence_results :: "'a result list \<Rightarrow> 'a list result" where
  "sequence_results [] = Inr []"
| "sequence_results (r # rs) = bind_result r (\<lambda>x. bind_result (sequence_results rs) (\<lambda>xs. Inr (x # xs)))"

definition all_results :: "bool \<Rightarrow> 'a result list \<Rightarrow> 'a list result" where
  "all_results pooled rs =
     sequence_results (if pooled then filter is_panic rs @ filter (\<lambda>r. \<not> is_panic r) rs else rs)"

definition tile_name :: "u32 \<Rightarrow> nat \<Rightarrow> nat \<Rightarrow> string" where
  "tile_name map_id y x = fmt0 3 map_id @ fmt0 2 (word_of_nat y) @ fmt0 2 (word_of_nat x) @ ''.map''"

definition convert_tile ::
    "byteorder \<Rightarrow> parsers \<Rightarrow> path \<Rightarrow> u32 \<Rightarrow> u16 list \<Rightarrow> u32 \<Rightarrow> u16 list \<Rightarrow> extract_config \<Rightarrow> nat \<times> nat \<times> bytes \<Rightarrow>
      (path \<times> bytes) result" where
  "convert_tile B P maps_path map_id areas max_area_id liquid_types config t =
     (case t of (x, y, adt_bytes) \<Rightarrow>
        map_sum id (Pair (maps_path @ [tile_name map_id y x]))
          (convert_adt B (parse_adt_file P) adt_bytes areas max_area_id liquid_types config))"

definition extract_map ::
    "byteorder \<Rightarrow> parsers \<Rightarrow> bool \<Rightarrow> mpq_manager \<Rightarrow> path \<Rightarrow> u16 list \<Rightarrow> u32 \<Rightarrow> u16 list \<Rightarrow> extract_config \<Rightarrow>
      map_entry \<Rightarrow> written \<Rightarrow> written result" where
  "extract_map B P pooled mpq maps_path areas max_area_id liquid_types config m out =
     (case open_file mpq (world_file (me_name m) (me_name m @ ''.wdt'')) of
        None \<Rightarrow> Inr out
      | Some wdt_bytes \<Rightarrow>
          (case read_wdt P wdt_bytes of
             Inl (Err message) \<Rightarrow>
               if contains ''Missing required chunk: MVER'' message then Inr out else Inl (Err message)
           | Inl (Panic e) \<Rightarrow> Inl (Panic e)
           | Inr wdt \<Rightarrow>
               bind_result (all_results pooled
                 (map (convert_tile B P maps_path (me_id m) areas max_area_id liquid_types config)
                   (adt_tiles mpq (me_name m) wdt))) (\<lambda>files. Inr (out @ files))))"

definition extract_maps ::
    "byteorder \<Rightarrow> parsers \<Rightarrow> bool \<Rightarrow> mpq_manager \<Rightarrow> path \<Rightarrow> extract_config \<Rightarrow> written result" where
  "extract_maps B P pooled mpq output_path config =
     bind_result (read_map_dbc mpq) (\<lambda>map_ids.
     bind_result (read_area_table_dbc mpq) (\<lambda>(areas, max_area_id).
     bind_result (read_liquid_type_dbc mpq) (\<lambda>liquid_types.
     for_each (extract_map B P pooled mpq (output_path @ [''maps'']) areas max_area_id liquid_types config) map_ids [])))"

section \<open>The whole run\<close>

record map_dbc_args =
  a_input_path :: path
  a_output_path :: path
  a_extract_mask :: u8
  a_float_to_int :: u8
  a_min_height :: f32
  a_disable_min_height_limit :: bool

definition extract_config_of :: "map_dbc_args \<Rightarrow> extract_config" where
  "extract_config_of args =
     \<lparr>allow_height_limit = \<not> a_disable_min_height_limit args, cfg_min_height = a_min_height args,
      allow_float_to_int = a_float_to_int args \<noteq> 0\<rparr>"

text \<open>The database files of every locale; the first one goes to the plain directory.\<close>

definition extract_all_dbc :: "archives_on_disk \<Rightarrow> map_dbc_args \<Rightarrow> string list \<Rightarrow> written result" where
  "extract_all_dbc disk args locales =
     map_sum id concat (sequence_results
       (map (\<lambda>(k, l). map_sum id (\<lambda>mpq. extract_dbc_files mpq (a_output_path args) l (k = 0))
          (load_locale_mpqs disk (a_input_path args) l mpq_new)) (zip [0..<length locales] locales)))"

definition load_all :: "archives_on_disk \<Rightarrow> map_dbc_args \<Rightarrow> string \<Rightarrow> mpq_manager result" where
  "load_all disk args l =
     bind_result (load_locale_mpqs disk (a_input_path args) l mpq_new) (load_common_mpqs disk (a_input_path args))"

definition run_map_dbc ::
    "byteorder \<Rightarrow> parsers \<Rightarrow> bool \<Rightarrow> archives_on_disk \<Rightarrow> (path \<Rightarrow> bool) \<Rightarrow> bool \<Rightarrow> map_dbc_args \<Rightarrow> written result" where
  "run_map_dbc B P pooled disk exists input_exists args =
     (let mask = a_extract_mask args; locales = detect_locales disk (a_input_path args) in
      if mask = 0 \<or> mask > (EXTRACT_MAP OR EXTRACT_DBC OR EXTRACT_CAMERA) then Inl (Err ''Invalid extract mask'')
      else if \<not> input_exists then Inl (Err ''Input path does not exist'')
      else case locales of
        [] \<Rightarrow> Inr []
      | l # _ \<Rightarrow>
          bind_result (if mask AND EXTRACT_DBC \<noteq> 0 then extract_all_dbc disk args locales else Inr []) (\<lambda>dbcs.
          bind_result (if mask AND EXTRACT_CAMERA \<noteq> 0
            then bind_result (load_all disk args l) (\<lambda>mpq. extract_camera_files mpq (a_output_path args) exists l True)
            else Inr []) (\<lambda>cameras.
          bind_result (if mask AND EXTRACT_MAP \<noteq> 0
            then bind_result (load_all disk args l) (\<lambda>mpq. extract_maps B P pooled mpq (a_output_path args) (extract_config_of args))
            else Inr []) (\<lambda>maps.
          Inr (dbcs @ cameras @ maps)))))"

end
