(* ===== verification/Map_Correct.thy ===== *)
theory Map_Correct
  imports Map_File
begin

text \<open>
  Properties of the terrain conversion: every grid keeps its size and no index leaves it, so
  that a tile with water inside its cells converts without a panic; the section table of the
  file gives the place and the size of every section.
\<close>

section \<open>The grids keep their size\<close>

definition wf_grid :: "adt_grid \<Rightarrow> bool" where
  "wf_grid g \<longleftrightarrow> length (g_area_flags g) = 256 \<and> length (g_v8 g) = 16384 \<and> length (g_v9 g) = 16641 \<and>
     length (g_liquid_entry g) = 256 \<and> length (g_liquid_flags g) = 256 \<and> length (g_liquid_show g) = 16384 \<and>
     length (g_liquid_height g) = 16641 \<and> length (g_holes g) = 256"

lemmas adt_sizes = ADT_CELLS_PER_GRID_def ADT_CELL_SIZE_def ADT_GRID_SIZE_def

interpretation grid: safe_state wf_grid new_grid
  by unfold_locales (simp add: wf_grid_def new_grid_def adt_sizes)

interpretation shown: safe_state "\<lambda>(g, m). wf_grid g" "(new_grid, 0 :: u64)"
  using grid.inv_init by unfold_locales simp

lemma idx_bounds:
  "y < 128 \<Longrightarrow> x < 128 \<Longrightarrow> idx_v8 y x < 16384"
  "y < 129 \<Longrightarrow> x < 129 \<Longrightarrow> idx_v9 y x < 16641"
  "y < 16 \<Longrightarrow> x < 16 \<Longrightarrow> idx_cell y x < 256"
  by (simp_all add: idx_v8_def idx_v9_def idx_cell_def adt_sizes)

lemma grid_safe_on:
  "total_on 16384 f \<Longrightarrow> grid.safe (on_v8 f)" "total_on 16641 f \<Longrightarrow> grid.safe (on_v9 f)"
  "total_on 256 fe \<Longrightarrow> grid.safe (on_entry fe)" "total_on 256 fb \<Longrightarrow> grid.safe (on_flags fb)"
  "total_on 16384 fb \<Longrightarrow> grid.safe (on_show fb)" "total_on 16641 f \<Longrightarrow> grid.safe (on_liquid_height f)"
  unfolding grid.safe_def on_v8_def on_v9_def on_entry_def on_flags_def on_show_def on_liquid_height_def wf_grid_def
  by (force dest: total_onD)+

lemma grid_safe_set:
  "y < 128 \<Longrightarrow> x < 128 \<Longrightarrow> grid.safe (on_v8 (vec_set (idx_v8 y x) h))"
  "y < 129 \<Longrightarrow> x < 129 \<Longrightarrow> grid.safe (on_v9 (vec_set (idx_v9 y x) h))"
  "y < 128 \<Longrightarrow> x < 128 \<Longrightarrow> grid.safe (on_v8 (vec_upd (idx_v8 y x) f))"
  "y < 129 \<Longrightarrow> x < 129 \<Longrightarrow> grid.safe (on_v9 (vec_upd (idx_v9 y x) f))"
  "y < 128 \<Longrightarrow> x < 128 \<Longrightarrow> grid.safe (on_show (vec_set (idx_v8 y x) b))"
  "y < 129 \<Longrightarrow> x < 129 \<Longrightarrow> grid.safe (on_liquid_height (vec_set (idx_v9 y x) h))"
  "k < 256 \<Longrightarrow> grid.safe (on_entry (vec_set k e))" "k < 256 \<Longrightarrow> grid.safe (on_flags (vec_upd k fb))"
  by (intro grid_safe_on total_on_vec; simp add: idx_bounds)+

lemma pairs_in: "p \<in> set (pairs n m) \<Longrightarrow> fst p < n \<and> snd p < m"
  by (cases p) simp

lemma cell_base_safe:
  assumes "i < 16" "j < 16"
  shows "grid.safe (cell_base i j h)"
  unfolding cell_base_def
  by (intro grid.safe_bind grid.safe_for_each; use assms in \<open>auto simp: adt_sizes intro!: grid_safe_set\<close>)

lemma cell_heights_safe:
  assumes "i < 16" "j < 16"
  shows "grid.safe (cell_heights i j cell)"
  unfolding cell_heights_def
  by (intro grid.safe_option grid.safe_Inr grid.safe_bind grid.safe_for_each;
      use assms in \<open>auto simp: adt_sizes grid.safe_Inr split: option.split intro!: grid_safe_set\<close>)

lemma mclq_tile_safe:
  assumes "i < 16" "j < 16" "p \<in> set (pairs 8 8)"
  shows "grid.safe (mclq_tile i j (idx_cell i j) liquid p)"
proof -
  obtain y x where p: "p = (y, x)" by (cases p)
  have "grid.safe (on_show (vec_set (idx_v8 (i * 8 + y) (j * 8 + x)) 1))"
    by (rule grid_safe_set) (use assms p in simp_all)
  moreover have "grid.safe (on_flags (vec_upd (idx_cell i j) (\<lambda>f. f OR MAP_LIQUID_TYPE_DEEP_WATER)))"
    by (rule grid_safe_set) (simp add: idx_bounds assms)
  ultimately show ?thesis
    unfolding mclq_tile_def p prod.case Let_def ADT_CELL_SIZE_def
    by (intro grid.safe_if grid.safe_bind grid.safe_Inr)
qed

lemma cell_liquid_safe:
  assumes "i < 16" "j < 16"
  shows "grid.safe (cell_liquid i j (idx_cell i j) cell)"
proof -
  have k: "idx_cell i j < 256" using assms by (rule idx_bounds)
  have "grid.safe (mclq_kind (idx_cell i j) c q)" for c q
    unfolding mclq_kind_def split_beta
    by (intro grid.safe_if grid.safe_bind grid.safe_Inr grid_safe_set k)
  moreover have "grid.safe (case lq_vertex l x y of None \<Rightarrow> Inr
      | Some h \<Rightarrow> on_liquid_height (vec_set (idx_v9 (i * 8 + y) (j * 8 + x)) h))" if "y < 9" "x < 9" for l x y
    using assms that by (auto simp: grid.safe_Inr split: option.split intro!: grid_safe_set)
  ultimately show ?thesis
    unfolding cell_liquid_def adt_sizes
    by (intro grid.safe_option grid.safe_if grid.safe_Inr grid.safe_bind grid.safe_for_each)
      (use mclq_tile_safe assms in auto)
qed

lemma cell_step_safe:
  assumes "p \<in> set (pairs 16 16)" "length areas = unat max_area_id + 1"
  shows "grid.safe (cell_step areas max_area_id root p)"
proof -
  obtain i j where p: "p = (i, j)" "i < 16" "j < 16" using pairs_in [OF assms(1)] by (metis prod.collapse)
  have k: "idx_cell i j < 256" using p(2,3) by (rule idx_bounds)
  have area: "grid.safe (cell_area areas max_area_id (idx_cell i j) cell)" for cell
    using k assms(2) by (auto simp: grid.safe_def cell_area_def wf_grid_def word_le_nat_alt)
  have "grid.safe (\<lambda>g. bind_result (vec_set (idx_cell i j) h (g_holes g)) (\<lambda>hs.
      bind_result (cell_base i j b (g\<lparr>g_holes := hs\<rparr>)) (\<lambda>g. bind_result (cell_heights i j cell g) (cell_liquid i j (idx_cell i j) cell))))" for h b cell
  proof -
    have "grid.safe (\<lambda>g. bind_result (cell_base i j b g) (\<lambda>g. bind_result (cell_heights i j cell g) (cell_liquid i j (idx_cell i j) cell)))"
      by (intro grid.safe_bind cell_base_safe cell_heights_safe cell_liquid_safe p)
    then show ?thesis using k by (simp add: grid.safe_def wf_grid_def)
  qed
  with area show ?thesis
    unfolding cell_step_def p(1) prod.case Let_def
    by (intro grid.safe_option grid.safe_Inr grid.safe_bind)
qed

section \<open>Water inside its cell\<close>

definition water_in_cell :: "water_entry \<Rightarrow> bool" where
  "water_in_cell e \<longleftrightarrow> (\<forall>inst \<in> set (we_instances e). wi_y_offset inst + wi_height inst \<le> 8 \<and> wi_x_offset inst + wi_width inst \<le> 8)"

lemma water_tile_safe:
  assumes "i < 16" "j < 16" "wi_y_offset w + wi_height w \<le> 8" "wi_x_offset w + wi_width w \<le> 8"
    and "p \<in> set (pairs (wi_height w) (wi_width w))"
  shows "shown.safe (water_tile i j w p)"
proof -
  obtain y x where p: "p = (y, x)" "y < wi_height w" "x < wi_width w" using pairs_in [OF assms(5)] by (metis prod.collapse)
  have "i * 8 + y + wi_y_offset w < 128" "j * 8 + x + wi_x_offset w < 128" using assms p by linarith+
  then have "grid.safe (on_show (vec_set (idx_v8 (i * 8 + y + wi_y_offset w) (j * 8 + x + wi_x_offset w)) 1))"
    by (rule grid_safe_set)
  then show ?thesis
    by (fastforce simp: shown.safe_def water_tile_def p(1) ADT_CELL_SIZE_def grid.safe_def)
qed

lemma water_step_safe:
  assumes "p \<in> set (pairs 16 16)" "\<forall>e \<in> set water. water_in_cell e"
  shows "grid.safe (water_step liquid_types water p)"
proof -
  obtain i j where p: "p = (i, j)" "i < 16" "j < 16" using pairs_in [OF assms(1)] by (metis prod.collapse)
  have k: "idx_cell i j < 256" using p(2,3) by (rule idx_bounds)
  have tiles: "grid.safe (\<lambda>g. bind_result (for_each (water_tile i j w) (pairs (wi_height w) (wi_width w)) (g, m)) (\<lambda>(g, _). f g))"
    if "wi_y_offset w + wi_height w \<le> 8" "wi_x_offset w + wi_width w \<le> 8" "grid.safe f" for w m f
  proof -
    have "shown.safe (for_each (water_tile i j w) (pairs (wi_height w) (wi_width w)))"
      by (intro shown.safe_for_each water_tile_safe p that)
    then show ?thesis using that(3) by (fastforce simp: shown.safe_def grid.safe_def)
  qed
  have heights: "grid.safe (for_each (\<lambda>(y, x). on_liquid_height
      (vec_set (idx_v9 (i * 8 + y + wi_y_offset w) (j * 8 + x + wi_x_offset w)) (h x y)))
      (pairs (wi_height w + 1) (wi_width w + 1)))"
    if "wi_y_offset w + wi_height w \<le> 8" "wi_x_offset w + wi_width w \<le> 8" for w h
    by (rule grid.safe_for_each) (use p that in \<open>auto intro!: grid_safe_set\<close>)
  have instances: "grid.safe (\<lambda>g. case we_instances e of [] \<Rightarrow> Inr g | w # ws \<Rightarrow> f w ws g)"
    if "\<And>w ws. w \<in> set (we_instances e) \<Longrightarrow> grid.safe (f w ws)" for e f
    using that by (cases "we_instances e") (auto simp: grid.safe_Inr)
  have in_cell: "wi_y_offset w + wi_height w \<le> 8" "wi_x_offset w + wi_width w \<le> 8"
    if "nth_opt water n = Some e" "w \<in> set (we_instances e)" for e n w
    using that assms(2) by (auto simp: nth_opt_def water_in_cell_def split: if_splits)
  show ?thesis
    unfolding water_step_def p(1) prod.case Let_def ADT_CELL_SIZE_def
  proof (rule grid.safe_option [OF grid.safe_Inr(2)], rule instances, goal_cases)
    case (1 e w ws)
    show ?case
      by (intro grid.safe_if grid.safe_Inr tiles grid.safe_bind grid_safe_set heights k in_cell [OF 1(1,2)])
  qed
qed

lemma fill_grid_total:
  assumes "length areas = unat max_area_id + 1" "\<forall>water e. water_data root = Some water \<longrightarrow> e \<in> set water \<longrightarrow> water_in_cell e"
  shows "\<exists>g. fill_grid areas max_area_id liquid_types root = Inr g \<and> wf_grid g"
proof -
  have "grid.safe (for_each (cell_step areas max_area_id root) (pairs 16 16))"
    by (intro grid.safe_for_each cell_step_safe assms(1))
  moreover have "grid.safe (\<lambda>g. case water_data root of None \<Rightarrow> Inr g
      | Some water \<Rightarrow> for_each (water_step liquid_types water) (pairs 16 16) g)"
    by (intro grid.safe_option grid.safe_Inr grid.safe_for_each water_step_safe) (use assms(2) in auto)
  ultimately have "grid.safe (\<lambda>g. bind_result (for_each (cell_step areas max_area_id root) (pairs 16 16) g) (\<lambda>g. case water_data root of
      None \<Rightarrow> Inr g | Some water \<Rightarrow> for_each (water_step liquid_types water) (pairs 16 16) g))"
    by (rule grid.safe_bind)
  from grid.safe_run [OF this] show ?thesis unfolding fill_grid_def ADT_CELLS_PER_GRID_def .
qed

section \<open>The liquid section\<close>

definition wf_scan :: "liquid_scan \<Rightarrow> bool" where
  "wf_scan s \<longleftrightarrow> length (sc_liquid_height s) = 16641 \<and>
     (sc_min_x s = 255 \<and> sc_min_y s = 255 \<and> sc_max_x s = 0 \<and> sc_max_y s = 0 \<or>
      sc_min_x s \<le> sc_max_x s \<and> sc_max_x s < 128 \<and> sc_min_y s \<le> sc_max_y s \<and> sc_max_y s < 128)"

interpretation scan: safe_state wf_scan "scan_start (replicate 16641 0)"
  by unfold_locales (simp add: wf_scan_def scan_start_def)

lemma scan_step_safe:
  assumes "p \<in> set (pairs 128 128)" "length liquid_show = 16384"
  shows "scan.safe (scan_step level liquid_show p)"
proof -
  obtain y x where p: "p = (y, x)" "y < 128" "x < 128" using pairs_in [OF assms(1)] by (metis prod.collapse)
  then have "idx_v8 y x < 16384" "idx_v9 y x < 16641" by (simp_all add: idx_bounds)
  then show ?thesis
    using p assms(2) by (auto simp: scan.safe_def scan_step_def wf_scan_def min_def max_def)
qed

lemma scan_total:
  assumes "length liquid_show = 16384" "length hs = 16641"
  shows "\<exists>s. for_each (scan_step level liquid_show) (pairs ADT_GRID_SIZE ADT_GRID_SIZE) (scan_start hs) = Inr s \<and> wf_scan s"
proof -
  have "scan.safe (for_each (scan_step level liquid_show) (pairs 128 128))"
    by (intro scan.safe_for_each scan_step_safe assms(1))
  moreover have "wf_scan (scan_start hs)" using assms(2) by (simp add: wf_scan_def scan_start_def)
  ultimately have "\<exists>s. for_each (scan_step level liquid_show) (pairs 128 128) (scan_start hs) = Inr s \<and> wf_scan s"
    by (rule scan.safeD)
  then show ?thesis by (simp add: adt_sizes)
qed

definition wf_range :: "liquid_scan \<Rightarrow> bool" where
  "wf_range s \<longleftrightarrow> length (sc_liquid_height s) = 16641 \<and>
     sc_min_x s \<le> sc_max_x s \<and> sc_max_x s < 128 \<and> sc_min_y s \<le> sc_max_y s \<and> sc_max_y s < 128"

lemma scan_range_wf: "wf_scan s \<Longrightarrow> wf_range (scan_range s)"
  by (auto simp: wf_scan_def wf_range_def scan_range_def)

definition liquid_rows :: "nat \<Rightarrow> nat \<Rightarrow> nat \<Rightarrow> nat \<Rightarrow> f32 list \<Rightarrow> f32 list" where
  "liquid_rows off_x off_y w h hs = concat (map (\<lambda>y. take w (drop (idx_v9 (y + off_y) off_x) hs)) [0..<h])"

lemma liquid_row_loop:
  assumes "\<forall>y \<in> set ys. y + unat (lh_offset_y h) < 129" "unat (lh_offset_x h) + unat (lh_width h) \<le> 129" "length hs = 16641"
  shows "for_each (liquid_row B h hs) ys payload = Inr (payload @
    concat (map (enc_u32 B) (concat (map (\<lambda>y. take (unat (lh_width h)) (drop (idx_v9 (y + unat (lh_offset_y h)) (unat (lh_offset_x h))) hs)) ys))))"
  using assms(1)
proof (induction ys arbitrary: payload)
  case (Cons y ys)
  have "idx_v9 (y + unat (lh_offset_y h)) (unat (lh_offset_x h)) + unat (lh_width h) \<le> length hs"
    using Cons.prems assms(2,3) by (simp add: idx_v9_def adt_sizes)
  then have "liquid_row B h hs y payload =
      Inr (payload @ concat (map (enc_u32 B) (take (unat (lh_width h)) (drop (idx_v9 (y + unat (lh_offset_y h)) (unat (lh_offset_x h))) hs))))"
    by (simp add: liquid_row_def vec_slice_def Let_def)
  with Cons show ?case by simp
qed simp

text \<open>The liquid header of a scanned grid, and what follows it.\<close>

definition scanned_header :: "liquid_scan \<Rightarrow> bool \<Rightarrow> bool \<Rightarrow> u8 \<Rightarrow> u16 \<Rightarrow> grid_map_liquid_header" where
  "scanned_header s no_height full_type first_flag first_entry =
     \<lparr>lh_fourcc = MAP_LIQUID_MAGIC,
      lh_flags = (if no_height then MAP_LIQUID_NO_HEIGHT else 0) OR (if full_type then 0 else MAP_LIQUID_NO_TYPE),
      lh_liquid_flags = (if full_type then 0 else first_flag),
      lh_liquid_type = (if full_type then 0 else first_entry),
      lh_offset_x = word_of_nat (sc_min_x s), lh_offset_y = word_of_nat (sc_min_y s),
      lh_width = word_of_nat (sc_max_x s - sc_min_x s + 2), lh_height = word_of_nat (sc_max_y s - sc_min_y s + 2),
      lh_liquid_level = sc_min_height s\<rparr>"

definition scanned_payload :: "byteorder \<Rightarrow> liquid_scan \<Rightarrow> bool \<Rightarrow> bool \<Rightarrow> u16 list \<Rightarrow> u8 list \<Rightarrow> bytes" where
  "scanned_payload B s no_height full_type entries flags =
     (if full_type then concat (map (enc_u16 B) entries) @ flags else []) @
     (if no_height then []
      else concat (map (enc_u32 B) (liquid_rows (sc_min_x s) (sc_min_y s) (sc_max_x s - sc_min_x s + 2)
        (sc_max_y s - sc_min_y s + 2) (sc_liquid_height s))))"

lemma unat_scanned:
  assumes "wf_range s"
  shows "unat (lh_offset_x (scanned_header s a b c d)) = sc_min_x s"
    "unat (lh_offset_y (scanned_header s a b c d)) = sc_min_y s"
    "unat (lh_width (scanned_header s a b c d)) = sc_max_x s - sc_min_x s + 2"
    "unat (lh_height (scanned_header s a b c d)) = sc_max_y s - sc_min_y s + 2"
proof -
  have u8: "n < 256 \<Longrightarrow> unat (word_of_nat n :: u8) = n" for n by (simp add: unat_of_nat)
  have w: "sc_max_x s - sc_min_x s + 2 < 256" "sc_max_y s - sc_min_y s + 2 < 256" "sc_min_x s < 256" "sc_min_y s < 256"
    using assms by (auto simp: wf_range_def)
  show "unat (lh_offset_x (scanned_header s a b c d)) = sc_min_x s"
    "unat (lh_offset_y (scanned_header s a b c d)) = sc_min_y s"
    "unat (lh_width (scanned_header s a b c d)) = sc_max_x s - sc_min_x s + 2"
    "unat (lh_height (scanned_header s a b c d)) = sc_max_y s - sc_min_y s + 2"
    unfolding scanned_header_def grid_map_liquid_header.simps by (rule u8; rule w)+
qed

lemma scanned_rows:
  assumes "wf_range s"
  shows "for_each (liquid_row B (scanned_header s a b c d) (sc_liquid_height s)) [0..<unat (lh_height (scanned_header s a b c d))] pre =
    Inr (pre @ concat (map (enc_u32 B) (liquid_rows (sc_min_x s) (sc_min_y s) (sc_max_x s - sc_min_x s + 2)
        (sc_max_y s - sc_min_y s + 2) (sc_liquid_height s))))"
proof -
  note u = unat_scanned [OF assms, of a b c d]
  have "\<forall>y \<in> set [0..<unat (lh_height (scanned_header s a b c d))]. y + unat (lh_offset_y (scanned_header s a b c d)) < 129"
    "unat (lh_offset_x (scanned_header s a b c d)) + unat (lh_width (scanned_header s a b c d)) \<le> 129"
    "length (sc_liquid_height s) = 16641"
    using assms by (auto simp: u wf_range_def)
  from liquid_row_loop [OF this] show ?thesis by (simp add: u liquid_rows_def)
qed

text \<open>Do the cells of a tile have different liquids?\<close>

definition mixed_liquid :: "u16 list \<Rightarrow> u8 list \<Rightarrow> bool" where
  "mixed_liquid entries flags \<longleftrightarrow>
     list_ex (\<lambda>(entry, flag). entry \<noteq> (case entries of e # _ \<Rightarrow> e | [] \<Rightarrow> 0) \<or> flag \<noteq> (case flags of f # _ \<Rightarrow> f | [] \<Rightarrow> 0))
       (zip entries flags)"

lemma build_liquid_shape:
  assumes "length liquid_show = 16384" "length hs = 16641"
  shows "(case flags of f # _ \<Rightarrow> f | [] \<Rightarrow> 0) = 0 \<and> \<not> mixed_liquid entries flags \<and>
      build_liquid_header B liquid_show hs entries flags config = Inr (None, []) \<or>
    (\<exists>s no_height. wf_range s \<and>
       build_liquid_header B liquid_show hs entries flags config =
       Inr (Some (scanned_header s no_height (mixed_liquid entries flags) (case flags of f # _ \<Rightarrow> f | [] \<Rightarrow> 0) (case entries of e # _ \<Rightarrow> e | [] \<Rightarrow> 0)),
            scanned_payload B s no_height (mixed_liquid entries flags) entries flags))"
proof -
  obtain s where s: "for_each (scan_step (cfg_min_height config) liquid_show) (pairs ADT_GRID_SIZE ADT_GRID_SIZE) (scan_start hs) = Inr s"
    "wf_scan s" using scan_total [OF assms] by blast
  note wf = scan_range_wf [OF s(2)]
  let ?ff = "case flags of f # _ \<Rightarrow> f | [] \<Rightarrow> 0" and ?fe = "case entries of e # _ \<Rightarrow> e | [] \<Rightarrow> 0" and ?s = "scan_range s"
  let ?full = "mixed_liquid entries flags"
    and ?nh = "flat_liquid (sc_min_height ?s) (sc_max_height ?s) config"
  have eq: "build_liquid_header B liquid_show hs entries flags config =
    (if ?ff = 0 \<and> \<not> ?full then Inr (None, [])
     else Inr (Some (scanned_header ?s ?nh ?full ?ff ?fe), scanned_payload B ?s ?nh ?full entries flags))"
    unfolding build_liquid_header_def Let_def s(1) bind_result_simps mixed_liquid_def [of entries flags, symmetric] scanned_header_def [of ?s ?nh ?full ?ff ?fe, symmetric]
      scanned_payload_def scanned_rows [OF wf]
    by (simp split del: if_split split: if_split_asm cong: if_cong) (rule if_cong [OF refl refl], cases ?nh; simp)
  show ?thesis
  proof (cases "?ff = 0 \<and> \<not> ?full")
    case False
    then have "build_liquid_header B liquid_show hs entries flags config =
      Inr (Some (scanned_header ?s ?nh ?full ?ff ?fe), scanned_payload B ?s ?nh ?full entries flags)"
      unfolding eq by (simp only: if_False)
    with wf show ?thesis by blast
  next
    case True
    from trans [OF eq if_P [OF this]] True show ?thesis by blast
  qed
qed

section \<open>Sizes of the sections\<close>

definition small_sections :: "map_file_sections \<Rightarrow> bool" where
  "small_sections s \<longleftrightarrow> length (ms_area_payload s) \<le> 512 \<and> length (ms_height_payload s) \<le> 132100 \<and>
     length (ms_liquid_payload s) \<le> 80000 \<and> length (ms_holes s) = 256"

lemma liquid_rows_length: "length (liquid_rows x y w h hs) \<le> h * w"
proof -
  have "length (concat (map f ys)) \<le> length ys * w" if "\<And>y. length (f y) \<le> w" for f :: "nat \<Rightarrow> f32 list" and ys
    using that by (induction ys) (auto intro: add_mono)
  from this [of "\<lambda>z. take w (drop (idx_v9 (z + y) x) hs)" "[0..<h]"] show ?thesis by (simp add: liquid_rows_def)
qed

context little_endian
begin

lemma length_concat_enc16 [simp]: "length (concat (map (\<lambda>x. enc_u16 B (f x)) xs)) = 2 * length xs"
  "length (concat (map (enc_u16 B) ws)) = 2 * length ws" "length (concat (map (enc_u32 B) vs)) = 4 * length vs"
  by (induction xs, simp_all) (induction ws, simp_all, induction vs, simp_all)

lemma area_payload_length: "length (snd (build_area_header B xs)) \<le> 2 * length xs"
  by (simp add: build_area_header_def Let_def)

lemma height_payload_length: "length (snd (build_height_header B v8 v9 lo hi config)) \<le> 4 * (length v9 + length v8)"
  by (simp add: build_height_header_def Let_def)

lemma scanned_payload_length:
  assumes "wf_range s" "length entries = 256" "length flags = 256"
  shows "length (scanned_payload B s nh full entries flags) \<le> 80000"
proof -
  let ?w = "sc_max_x s - sc_min_x s + 2" and ?h = "sc_max_y s - sc_min_y s + 2"
  have "?h * ?w \<le> 129 * 129" using assms(1) by (intro mult_le_mono) (auto simp: wf_range_def)
  then have "length (liquid_rows (sc_min_x s) (sc_min_y s) ?w ?h (sc_liquid_height s)) \<le> 129 * 129"
    using liquid_rows_length le_trans by blast
  then show ?thesis using assms(2,3) by (simp add: scanned_payload_def)
qed

lemma limit_heights_wf: "wf_grid g \<Longrightarrow> wf_grid (fst (limit_heights config g))"
  by (simp add: limit_heights_def clamp_heights_def wf_grid_def split_beta Let_def)

lemma grid_sections_total:
  assumes "wf_grid g"
  shows "\<exists>s. grid_sections B config g = Inr s \<and> small_sections s"
proof -
  obtain g' lo hi where lim: "limit_heights config g = (g', lo, hi)" by (metis prod_cases3)
  then have wf: "wf_grid g'" using limit_heights_wf [OF assms, of config] by simp
  obtain hh hp where h: "build_height_header B (g_v8 g') (g_v9 g') lo hi config = (hh, hp)" by fastforce
  obtain ah ap where a: "build_area_header B (g_area_flags g') = (ah, ap)" by fastforce
  have sizes: "length hp \<le> 132100" "length ap \<le> 512"
    using height_payload_length [of "g_v8 g'" "g_v9 g'" lo hi config] area_payload_length [of "g_area_flags g'"] wf h a
    by (simp_all add: wf_grid_def)
  have "length (g_liquid_show g') = 16384" "length (g_liquid_height g') = 16641" using wf by (simp_all add: wf_grid_def)
  from build_liquid_shape [OF this] obtain lq lp
    where l: "build_liquid_header B (g_liquid_show g') (g_liquid_height g') (g_liquid_entry g') (g_liquid_flags g') config = Inr (lq, lp)"
      "length lp \<le> 80000"
    using scanned_payload_length wf unfolding wf_grid_def by (metis le0 list.size(3))
  show ?thesis
    using sizes l wf by (simp add: grid_sections_def lim h a small_sections_def wf_grid_def)
qed

end

section \<open>The table of sections\<close>

definition height_at :: "map_file_sections \<Rightarrow> nat" where
  "height_at s = 48 + length (ms_area_payload s)"

definition liquid_at :: "map_file_sections \<Rightarrow> nat" where
  "liquid_at s = height_at s + 16 + length (ms_height_payload s)"

definition holes_at :: "map_file_sections \<Rightarrow> nat" where
  "holes_at s = liquid_at s + (case ms_liquid_header s of None \<Rightarrow> 0 | Some _ \<Rightarrow> 16 + length (ms_liquid_payload s))"

lemma map_file_header_total:
  assumes "small_sections s"
  shows "\<exists>h. map_file_header s = Inr h \<and> fh_version_magic h = MAP_VERSION_MAGIC \<and>
    unat (fh_area_map_offset h) = 40 \<and> unat (fh_area_map_size h) = 8 + length (ms_area_payload s) \<and>
    unat (fh_height_map_offset h) = height_at s \<and> unat (fh_height_map_size h) = 16 + length (ms_height_payload s) \<and>
    unat (fh_liquid_map_offset h) = (if ms_liquid_header s = None then 0 else liquid_at s) \<and>
    unat (fh_liquid_map_size h) = (if ms_liquid_header s = None then 0 else 16 + length (ms_liquid_payload s)) \<and>
    unat (fh_holes_offset h) = holes_at s \<and> unat (fh_holes_size h) = 512"
proof -
  have add: "add_u32 a b = Inr (a + b) \<and> unat (a + b) = unat a + unat b" if "unat a + unat b < 2 ^ 32" for a b :: u32
    using that unat_add_lem [of a b] by (simp add: add_u32_def)
  have len: "unat (size_u32 xs) = length xs" if "length xs \<le> 200000" for xs :: bytes
    using that by (simp add: size_u32_def unat_of_nat)
  let ?a = "length (ms_area_payload s)" and ?h = "length (ms_height_payload s)" and ?l = "length (ms_liquid_payload s)"
  have le: "?a \<le> 512" "?h \<le> 132100" "?l \<le> 80000" "length (ms_holes s) = 256" using assms by (simp_all add: small_sections_def)
  note l = len [of "ms_area_payload s"] len [of "ms_height_payload s"] len [of "ms_liquid_payload s"]
  note sizes = GRID_MAP_AREA_HEADER_SIZE_def GRID_MAP_FILE_HEADER_SIZE_def GRID_MAP_HEIGHT_HEADER_SIZE_def GRID_MAP_LIQUID_HEADER_SIZE_def
  have a: "add_u32 8 (size_u32 (ms_area_payload s)) = Inr (8 + size_u32 (ms_area_payload s))"
      "unat (8 + size_u32 (ms_area_payload s)) = 8 + ?a" using add [of 8 "size_u32 (ms_area_payload s)"] l le by simp_all
  have b: "add_u32 40 (8 + size_u32 (ms_area_payload s)) = Inr (40 + (8 + size_u32 (ms_area_payload s)))"
      "unat (40 + (8 + size_u32 (ms_area_payload s))) = 48 + ?a" using add [of 40 "8 + size_u32 (ms_area_payload s)"] a le by simp_all
  have c: "add_u32 16 (size_u32 (ms_height_payload s)) = Inr (16 + size_u32 (ms_height_payload s))"
      "unat (16 + size_u32 (ms_height_payload s)) = 16 + ?h" using add [of 16 "size_u32 (ms_height_payload s)"] l le by simp_all
  have d: "add_u32 (40 + (8 + size_u32 (ms_area_payload s))) (16 + size_u32 (ms_height_payload s)) =
        Inr (40 + (8 + size_u32 (ms_area_payload s)) + (16 + size_u32 (ms_height_payload s)))"
      "unat (40 + (8 + size_u32 (ms_area_payload s)) + (16 + size_u32 (ms_height_payload s))) = liquid_at s"
    using add [of "40 + (8 + size_u32 (ms_area_payload s))" "16 + size_u32 (ms_height_payload s)"] b c le
    by (simp_all add: liquid_at_def height_at_def)
  let ?L = "40 + (8 + size_u32 (ms_area_payload s)) + (16 + size_u32 (ms_height_payload s))"
  have e: "add_u32 16 (size_u32 (ms_liquid_payload s)) = Inr (16 + size_u32 (ms_liquid_payload s))"
      "unat (16 + size_u32 (ms_liquid_payload s)) = 16 + ?l" using add [of 16 "size_u32 (ms_liquid_payload s)"] l le by simp_all
  have "liquid_at s < 200000" using le by (simp add: liquid_at_def height_at_def)
  then have f: "add_u32 ?L (16 + size_u32 (ms_liquid_payload s)) = Inr (?L + (16 + size_u32 (ms_liquid_payload s)))"
      "unat (?L + (16 + size_u32 (ms_liquid_payload s))) = liquid_at s + (16 + ?l)"
    using add [of ?L "16 + size_u32 (ms_liquid_payload s)"] d(2) e(2) le by simp_all
  show ?thesis
    unfolding map_file_header_def sizes a b c d e f bind_result_simps Let_def
    using le a(2) b(2) c(2) d(2) e(2) f(2)
    by (cases "ms_liquid_header s") (simp_all add: e f holes_at_def height_at_def)
qed

context little_endian
begin

lemma section_lengths:
  "length (area_section B ah ap) = 8 + length ap" "length (height_section B hh hp) = 16 + length hp"
  "length (liquid_section B lq lp) = (case lq of None \<Rightarrow> 0 | Some _ \<Rightarrow> 16 + length lp)"
  by (simp_all add: area_section_def height_section_def liquid_section_def split: option.split)

lemma sections_at:
  shows "take (8 + length (ms_area_payload s)) (drop 40 (write_map_file B h s)) = area_section B (ms_area_header s) (ms_area_payload s)"
    and "drop (height_at s) (write_map_file B h s) = height_section B (ms_height_header s) (ms_height_payload s) @
      liquid_section B (ms_liquid_header s) (ms_liquid_payload s) @ concat (map (enc_u16 B) (ms_holes s))"
    and "drop (liquid_at s) (write_map_file B h s) =
      liquid_section B (ms_liquid_header s) (ms_liquid_payload s) @ concat (map (enc_u16 B) (ms_holes s))"
    and "drop (holes_at s) (write_map_file B h s) = concat (map (enc_u16 B) (ms_holes s))"
  by (simp_all add: write_map_file_def section_lengths height_at_def liquid_at_def holes_at_def split: option.split)

lemma file_length: "small_sections s \<Longrightarrow> length (write_map_file B h s) = holes_at s + 512"
  by (simp add: write_map_file_def section_lengths holes_at_def liquid_at_def height_at_def small_sections_def split: option.split)

lemma convert_adt_total:
  assumes "parse_adt adt_bytes = Inr (Root root)" "length areas = unat max_area_id + 1"
    and "\<forall>water e. water_data root = Some water \<longrightarrow> e \<in> set water \<longrightarrow> water_in_cell e"
  shows "\<exists>g s h. fill_grid areas max_area_id liquid_types root = Inr g \<and> wf_grid g \<and> grid_sections B config g = Inr s \<and>
    small_sections s \<and> map_file_header s = Inr h \<and>
    convert_adt B parse_adt adt_bytes areas max_area_id liquid_types config = Inr (write_map_file B h s)"
proof -
  obtain g where g: "fill_grid areas max_area_id liquid_types root = Inr g" "wf_grid g"
    using fill_grid_total [OF assms(2,3)] by blast
  obtain s where s: "grid_sections B config g = Inr s" "small_sections s" using grid_sections_total [OF g(2)] by blast
  obtain h where "map_file_header s = Inr h" using map_file_header_total [OF s(2)] by blast
  with g s assms(1) show ?thesis by (simp add: convert_adt_def)
qed

end


definition empty_tile :: adt_root where
  "empty_tile = \<lparr>mcnk_chunks = [], water_data = None\<rparr>"


end
