(* ===== verification/Map_Run.thy ===== *)
theory Map_Run
  imports Map_Dbc Map_Correct
begin

text \<open>
  The extraction of all maps puts the tables and the terrain conversion together.  The
  tables are read without a panic, the area table has an entry for every area number up to
  the largest, and so the conversion of every tile finds its areas.
\<close>

section \<open>Reading tables\<close>

lemma is_panic_simps [simp]: "\<not> is_panic (Inr x)" "\<not> is_panic (Inl (Err e))" "is_panic (Inl (Panic e))"
  by (simp_all add: is_panic_def)

lemma is_panic_bind: "is_panic (bind_result r k) \<longleftrightarrow> is_panic r \<or> (\<exists>x. r = Inr x \<and> is_panic (k x))"
  by (cases r) (auto simp: is_panic_def split: rust_error.splits)

lemma is_panic_map_sum [simp]: "is_panic (map_sum id f r) = is_panic r"
  by (cases r) (auto simp: is_panic_def split: rust_error.splits)

text \<open>No row of a loaded file is so far away that an offset overflows.\<close>

lemma get_u32_total:
  assumes "wf_dbc f" "i < unat (dbc_record_count f)" "j < 2 ^ 32"
  shows "\<exists>v. get_u32 (row f i) j = Inr v"
proof -
  have "i * unat (dbc_record_size f) \<le> unat (dbc_record_count f) * unat (dbc_record_size f)"
    using assms(2) by (intro mult_le_mono1) simp
  moreover have "unat (dbc_record_count f) * unat (dbc_record_size f) < 2 ^ 32"
    using assms(1) unfolding wf_dbc_def by metis
  ultimately have "i * unat (dbc_record_size f) < 2 ^ 32" by (rule le_less_trans)
  then have "i * unat (dbc_record_size f) + j * 4 + 4 < 2 ^ 64" using assms(3) by simp
  then show ?thesis by (simp add: get_u32_def row_def Let_def)
qed

lemma get_string_total:
  assumes "wf_dbc f" "i < unat (dbc_record_count f)" "j < 2 ^ 32"
  shows "\<exists>v. get_string (row f i) j = Inr v"
  using get_u32_total [OF assms] by (auto simp: get_string_def)

lemma load_table_wf:
  assumes "load_table mpq name = Inr f"
  shows "wf_dbc f"
proof -
  obtain b where "dbc_from_bytes b = Inr f" "dbc_validate f = Inr ()"
    using assms by (auto simp: load_table_def split: option.splits)
  then show ?thesis by (rule dbc_from_bytes_wf)
qed

lemma max_id_loop_total:
  assumes "wf_dbc f" "\<forall>i \<in> set is. i < unat (dbc_record_count f)"
  shows "\<exists>m. max_id_loop f is a = Inr m \<and> a \<le> m"
  using assms(2)
proof (induction "is" arbitrary: a)
  case (Cons i "is")
  have "get_u32 \<lparr>rec_file = f, rec_index = i\<rparr> 0 \<noteq> Inl e" for e
    using get_u32_total [OF assms(1), of i 0] Cons.prems by (auto simp: row_def)
  then obtain v where v: "get_u32 \<lparr>rec_file = f, rec_index = i\<rparr> 0 = Inr v" by (metis sum.exhaust_sel)
  let ?a = "if unwrap_or 0 v > a then unwrap_or 0 v else a"
  obtain m where "max_id_loop f is ?a = Inr m \<and> ?a \<le> m" using Cons by fastforce
  moreover have "a \<le> ?a" by (simp add: less_imp_le)
  ultimately have "max_id_loop f is ?a = Inr m \<and> a \<le> m" by (meson order_trans)
  then show ?case using v Cons.prems by (simp add: dbc_record_def Let_def)
qed simp

definition table_inv :: "nat \<Rightarrow> u16 list \<Rightarrow> bool" where
  "table_inv n xs \<longleftrightarrow> length xs = n"

interpretation table: safe_state "table_inv n" "replicate n 0xFFFF" for n
  by unfold_locales (simp add: table_inv_def)

lemma table_by_id_total:
  assumes "wf_dbc f"
  shows "\<exists>xs m. table_by_id f = Inr (xs, m) \<and> length xs = unat m + 1"
proof -
  obtain m where m: "dbc_max_id f = Inr m"
    using max_id_loop_total [OF assms, of "[0..<unat (dbc_record_count f)]" 0] by (auto simp: dbc_max_id_def)
  have "table.safe (unat m + 1) (set_entry f i)" if "i < unat (dbc_record_count f)" for i
    using get_u32_total [OF assms that, of 0] get_u32_total [OF assms that, of 3]
    by (fastforce simp: table.safe_def table_inv_def set_entry_def Let_def)
  then have "table.safe (unat m + 1) (for_each (set_entry f) [0..<unat (dbc_record_count f)])"
    by (intro table.safe_for_each) simp
  from table.safe_run [OF this] show ?thesis using m by (auto simp: table_by_id_def table_inv_def)
qed

section \<open>No panic\<close>

text \<open>A table's field count times four fits in 32 bits; \<^verbatim>\<open>validate\<close> multiplies them.\<close>

definition sane_tables :: "mpq_manager \<Rightarrow> bool" where
  "sane_tables mpq \<longleftrightarrow> (\<forall>name b f. open_file mpq name = Some b \<longrightarrow> dbc_from_bytes b = Inr f \<longrightarrow> unat (dbc_field_count f) < 2 ^ 30)"

definition sane_parsers :: "parsers \<Rightarrow> bool" where
  "sane_parsers P \<longleftrightarrow> (\<forall>b. \<not> is_panic (read_wdt P b) \<and> \<not> is_panic (parse_adt_file P b) \<and>
     (\<forall>root water e. parse_adt_file P b = Inr (Root root) \<longrightarrow> water_data root = Some water \<longrightarrow> e \<in> set water \<longrightarrow> water_in_cell e))"

lemma reader_no_panic:
  "\<not> is_panic (take_rd n bs)" "\<not> is_panic (ret_rd x bs)" "\<not> is_panic (fail_rd (Err e) bs)"
  "\<not> is_panic (m bs) \<Longrightarrow> (\<And>x r. \<not> is_panic (k x r)) \<Longrightarrow> \<not> is_panic (bind_rd m k bs)"
proof -
  show "\<not> is_panic (take_rd n bs)" "\<not> is_panic (ret_rd x bs)" "\<not> is_panic (fail_rd (Err e) bs)"
    by (simp_all add: take_rd_def unexpected_eof_def)
  show "\<not> is_panic (m bs) \<Longrightarrow> (\<And>x r. \<not> is_panic (k x r)) \<Longrightarrow> \<not> is_panic (bind_rd m k bs)"
    by (cases "m bs") (auto simp: bind_rd_def is_panic_def [of "Inl e" for e])
qed

lemma dbc_from_bytes_no_panic: "\<not> is_panic (dbc_from_bytes bs)"
proof -
  have u: "\<not> is_panic (dbc_read_u32 bs)" for bs unfolding dbc_read_u32_def by (intro reader_no_panic)
  have "\<not> is_panic (dbc_tables c k n s bs)" for c k n s bs
    unfolding dbc_tables_def by (cases "2 ^ 32 \<le> unat c * unat n") (simp_all add: reader_no_panic)
  then have "\<not> is_panic (dbc_body bs)" for bs unfolding dbc_body_def by (intro reader_no_panic u)
  then have "\<not> is_panic ((if magic \<noteq> as_bytes ''WDBC'' then fail_rd (Err ''Invalid DBC magic'') else dbc_body) bs)" for magic bs
    by (cases "magic = as_bytes ''WDBC''") simp_all
  then show ?thesis unfolding dbc_from_bytes_def is_panic_map_sum by (intro reader_no_panic)
qed

lemma load_table_no_panic:
  assumes "sane_tables mpq"
  shows "\<not> is_panic (load_table mpq name)"
proof (cases "open_file mpq (client_file name)")
  case (Some b)
  have "\<not> is_panic (dbc_validate f)" if "dbc_from_bytes b = Inr f" for f
  proof -
    have "unat (dbc_field_count f) < 2 ^ 30" using assms Some that unfolding sane_tables_def by blast
    then show ?thesis by (simp add: dbc_validate_def mul_u32_def header_mismatch_def)
  qed
  with Some show ?thesis using dbc_from_bytes_no_panic [of b] by (simp add: load_table_def is_panic_bind)
qed (simp add: load_table_def)

lemma collect_no_panic: "\<forall>i \<in> set is. \<not> is_panic (f i) \<Longrightarrow> \<not> is_panic (collect f is)"
  by (induction "is") (auto simp: is_panic_bind)

lemma read_map_dbc_no_panic:
  assumes "sane_tables mpq"
  shows "\<not> is_panic (read_map_dbc mpq)"
proof -
  have "\<not> is_panic (collect (\<lambda>idx. bind_result (get_u32 (row dbc idx) 0) (\<lambda>i. bind_result (get_string (row dbc idx) 1) (\<lambda>name.
       Inr \<lparr>me_id = unwrap_or 0 i, me_name = unwrap_or [] name\<rparr>))) [0..<unat (dbc_record_count dbc)])"
    if "wf_dbc dbc" for dbc
    using get_u32_total [OF that, of _ 0] get_string_total [OF that, of _ 1]
    by (intro collect_no_panic) fastforce
  then show ?thesis
    using load_table_no_panic [OF assms] load_table_wf by (auto simp: read_map_dbc_def is_panic_bind)
qed

lemma read_table_no_panic:
  assumes "sane_tables mpq"
  shows "\<not> is_panic (read_area_table_dbc mpq)" "\<not> is_panic (read_liquid_type_dbc mpq)"
    "read_area_table_dbc mpq = Inr (areas, max_id) \<Longrightarrow> length areas = unat max_id + 1"
proof -
  have t: "\<exists>xs m. table_by_id f = Inr (xs, m) \<and> length xs = unat m + 1" if "load_table mpq name = Inr f" for f name
    using table_by_id_total load_table_wf that by blast
  show "\<not> is_panic (read_area_table_dbc mpq)" "\<not> is_panic (read_liquid_type_dbc mpq)"
    using load_table_no_panic [OF assms] t
    by (fastforce simp: read_area_table_dbc_def read_liquid_type_dbc_def is_panic_bind)+
  show "read_area_table_dbc mpq = Inr (areas, max_id) \<Longrightarrow> length areas = unat max_id + 1"
    using t by (fastforce simp: read_area_table_dbc_def)
qed

lemma convert_tile_no_panic:
  assumes "little_endian B" "sane_parsers P" "length areas = unat max_id + 1"
  shows "\<not> is_panic (convert_tile B P maps_path map_id areas max_id liquid_types config t)"
proof -
  obtain x y b where t: "t = (x, y, b)" by (metis prod_cases3)
  have "\<not> is_panic (convert_adt B (parse_adt_file P) b areas max_id liquid_types config)"
  proof (cases "\<exists>root. parse_adt_file P b = Inr (Root root)")
    case True
    then obtain root where root: "parse_adt_file P b = Inr (Root root)" by blast
    then have "\<forall>water e. water_data root = Some water \<longrightarrow> e \<in> set water \<longrightarrow> water_in_cell e"
      using assms(2) unfolding sane_parsers_def by blast
    from little_endian.convert_adt_total [where parse_adt = "parse_adt_file P" and adt_bytes = b, OF assms(1) root assms(3) this, of liquid_types config]
    show ?thesis by auto
  next
    case False
    moreover have "\<not> is_panic (parse_adt_file P b)" using assms(2) unfolding sane_parsers_def by blast
    ultimately show ?thesis by (auto simp: convert_adt_def is_panic_bind split: parsed_adt.splits)
  qed
  then show ?thesis by (simp add: convert_tile_def t)
qed

lemma all_results_no_panic: "\<forall>r \<in> set rs. \<not> is_panic r \<Longrightarrow> \<not> is_panic (all_results pooled rs)"
proof -
  have "\<forall>r \<in> set rs. \<not> is_panic r \<Longrightarrow> \<not> is_panic (sequence_results rs)" for rs :: "'b result list"
    by (induction rs) (auto simp: is_panic_bind)
  then show "\<forall>r \<in> set rs. \<not> is_panic r \<Longrightarrow> \<not> is_panic (all_results pooled rs)"
    by (auto simp: all_results_def)
qed

lemma for_each_no_panic: "\<forall>x s. \<not> is_panic (f x s) \<Longrightarrow> \<not> is_panic (for_each f xs s)"
  by (induction xs arbitrary: s) (auto simp: is_panic_bind)


definition sample_parsers :: parsers where
  "sample_parsers = \<lparr>read_wdt = (\<lambda>b. Inr (\<lambda>x y. Some True)), parse_adt_file = (\<lambda>b. Inr (Root empty_tile))\<rparr>"

definition sample_mpq :: mpq_manager where
  "sample_mpq = [one_file (client_file ''Map.dbc'') sample_dbc]"


end
