(* ===== verification/Terrain.thy ===== *)
theory Terrain
  imports Map_File
begin

text \<open>
  The terrain side of the movement map generator, \<^verbatim>\<open>crates/extractors/src/movemap_gen.rs\<close>: it
  reads a map file, turns the heights and liquids into vertices and triangles, and decides
  for every square whether the ground or the liquid is walked on.  Its readers never fail:
  past the end of the file they give zero.
\<close>

section \<open>Lenient readers\<close>

type_synonym 'a lenient = "bytes \<Rightarrow> 'a \<times> bytes"

definition or_zero :: "'a reader \<Rightarrow> 'a \<Rightarrow> 'a lenient" where
  "or_zero m d bs = (case m bs of Inl e \<Rightarrow> (d, []) | Inr r \<Rightarrow> r)"

definition lr_u8 :: "u8 lenient" where
  "lr_u8 = or_zero (bind_rd (take_rd 1) (\<lambda>b. ret_rd (b ! 0))) 0"

definition lr_u16 :: "byteorder \<Rightarrow> u16 lenient" where
  "lr_u16 B = or_zero (rd_u16 B) 0"

definition lr_u32 :: "byteorder \<Rightarrow> u32 lenient" where
  "lr_u32 B = or_zero (rd_u32 B) 0"

primrec lr_many :: "nat \<Rightarrow> 'a lenient \<Rightarrow> 'a list lenient" where
  "lr_many 0 m bs = ([], bs)"
| "lr_many (Suc n) m bs = (let (x, bs) = m bs; (xs, bs) = lr_many n m bs in (x # xs, bs))"

text \<open>\<^verbatim>\<open>read_exact(&mut buf).ok()\<close> into a zeroed buffer: what there is, then zeros.\<close>

definition lr_buf :: "nat \<Rightarrow> bytes lenient" where
  "lr_buf n bs = (take n (bs @ replicate n 0), drop n bs)"

section \<open>Constants and data\<close>

definition GRID_SIZE :: f32 where "GRID_SIZE = 0x44055555" \<comment> \<open>\<^verbatim>\<open>533.333_3\<close>\<close>
definition V9_SIZE :: nat where "V9_SIZE = 129"
definition V9_SIZE_SQ :: nat where "V9_SIZE_SQ = V9_SIZE * V9_SIZE"
definition V8_SIZE :: nat where "V8_SIZE = 128"
definition V8_SIZE_SQ :: nat where "V8_SIZE_SQ = V8_SIZE * V8_SIZE"
definition GRID_PART_SIZE :: f32 where "GRID_PART_SIZE = f32_div GRID_SIZE (f32_of_nat V8_SIZE)"
definition INVALID_MAP_LIQ_HEIGHT :: f32 where "INVALID_MAP_LIQ_HEIGHT = 0xC3FA0000" \<comment> \<open>\<^verbatim>\<open>-500.0\<close>\<close>
definition INVALID_MAP_LIQ_HEIGHT_MAX :: f32 where "INVALID_MAP_LIQ_HEIGHT_MAX = 0x459C4000" \<comment> \<open>\<^verbatim>\<open>5000.0\<close>\<close>
definition MAP_LIQUID_TYPE_NO_WATER :: u8 where "MAP_LIQUID_TYPE_NO_WATER = 0"
definition NAV_AREA_WATER :: u8 where "NAV_AREA_WATER = 9"
definition NAV_AREA_MAGMA_SLIME :: u8 where "NAV_AREA_MAGMA_SLIME = 8"
definition HOLETAB_H :: "u16 list" where "HOLETAB_H = [0x1111, 0x2222, 0x4444, 0x8888]"
definition HOLETAB_V :: "u16 list" where "HOLETAB_V = [0x000F, 0x00F0, 0x0F00, 0xF000]"

datatype spot = Top | Right | Left | Bottom | Entire

datatype grid_kind = V8 | V9

record mesh_data =
  solid_verts :: "f32 list"
  solid_tris :: "int list"
  liquid_verts :: "f32 list"
  liquid_tris :: "int list"
  liquid_type :: "u8 list"
  off_mesh_connections :: "f32 list"
  off_mesh_connection_rads :: "f32 list"
  off_mesh_connection_dirs :: "u8 list"
  off_mesh_connections_areas :: "u8 list"
  off_mesh_connections_flags :: "u16 list"

definition mesh_data_default :: mesh_data where
  "mesh_data_default =
     \<lparr>solid_verts = [], solid_tris = [], liquid_verts = [], liquid_tris = [], liquid_type = [],
      off_mesh_connections = [], off_mesh_connection_rads = [], off_mesh_connection_dirs = [],
      off_mesh_connections_areas = [], off_mesh_connections_flags = []\<rparr>"

section \<open>Geometry of the grid\<close>

definition get_loop_vars :: "spot \<Rightarrow> nat \<times> nat \<times> nat" where
  "get_loop_vars portion =
     (case portion of
        Entire \<Rightarrow> (0, V8_SIZE_SQ, 1)
      | Top \<Rightarrow> (0, V8_SIZE, 1)
      | Left \<Rightarrow> (0, V8_SIZE_SQ - V8_SIZE + 1, V8_SIZE)
      | Right \<Rightarrow> (V8_SIZE - 1, V8_SIZE_SQ, V8_SIZE)
      | Bottom \<Rightarrow> (V8_SIZE_SQ - V8_SIZE, V8_SIZE_SQ, 1))"

text \<open>The values of the counter: from the start by the increment while below the end.\<close>

definition loop_squares :: "spot \<Rightarrow> nat list" where
  "loop_squares portion =
     (case get_loop_vars portion of (loop_start, loop_end, loop_inc) \<Rightarrow>
        filter (\<lambda>i. (i - loop_start) mod loop_inc = 0) [loop_start..<loop_end])"

definition grid_coord :: "f32 \<Rightarrow> nat \<Rightarrow> f32" where
  "grid_coord offset k = f32_neg (f32_add offset (f32_mul (f32_of_nat k) GRID_PART_SIZE))"

definition mid_coord :: "f32 \<Rightarrow> nat \<Rightarrow> f32" where
  "mid_coord offset k =
     f32_neg (f32_add (f32_add offset (f32_mul (f32_of_nat k) GRID_PART_SIZE)) (f32_div GRID_PART_SIZE 0x40000000))"

definition get_height_coord :: "nat \<Rightarrow> grid_kind \<Rightarrow> f32 \<Rightarrow> f32 \<Rightarrow> f32 list \<Rightarrow> (f32 \<times> f32 \<times> f32) result" where
  "get_height_coord index grid x_offset y_offset v =
     bind_result (vec_get v index) (\<lambda>h.
     Inr (case grid of
        V9 \<Rightarrow> (grid_coord x_offset (index mod V9_SIZE), grid_coord y_offset (index div V9_SIZE), h)
      | V8 \<Rightarrow> (mid_coord x_offset (index mod V8_SIZE), mid_coord y_offset (index div V8_SIZE), h)))"

definition get_liquid_coord :: "nat \<Rightarrow> nat \<Rightarrow> f32 \<Rightarrow> f32 \<Rightarrow> f32 list \<Rightarrow> (f32 \<times> f32 \<times> f32) result" where
  "get_liquid_coord index index2 x_offset y_offset v =
     bind_result (vec_get v index2) (\<lambda>h.
     Inr (grid_coord x_offset (index mod V9_SIZE), grid_coord y_offset (index div V9_SIZE), h))"

definition get_height_triangle :: "nat \<Rightarrow> spot \<Rightarrow> bool \<Rightarrow> nat \<times> nat \<times> nat" where
  "get_height_triangle square triangle liquid =
     (let row_offset = square div V8_SIZE; sq = square in
      if \<not> liquid then
        (case triangle of
           Top \<Rightarrow> (sq + row_offset, sq + 1 + row_offset, V9_SIZE_SQ + sq)
         | Left \<Rightarrow> (sq + row_offset, V9_SIZE_SQ + sq, sq + V9_SIZE + row_offset)
         | Right \<Rightarrow> (sq + 1 + row_offset, sq + V9_SIZE + 1 + row_offset, V9_SIZE_SQ + sq)
         | Bottom \<Rightarrow> (V9_SIZE_SQ + sq, sq + V9_SIZE + 1 + row_offset, sq + V9_SIZE + row_offset)
         | Entire \<Rightarrow> (0, 0, 0))
      else
        (case triangle of
           Top \<Rightarrow> (sq + row_offset, sq + 1 + row_offset, sq + V9_SIZE + 1 + row_offset)
         | Bottom \<Rightarrow> (sq + row_offset, sq + V9_SIZE + 1 + row_offset, sq + V9_SIZE + row_offset)
         | _ \<Rightarrow> (0, 0, 0)))"

text \<open>A table of 16 rows by 16, as the list of its entries row by row.\<close>

definition at16 :: "'a list \<Rightarrow> nat \<Rightarrow> nat \<Rightarrow> 'a" where
  "at16 t row col = t ! (row * 16 + col)"

definition is_hole :: "nat \<Rightarrow> u16 list \<Rightarrow> bool" where
  "is_hole square holes =
     (let row = square div 128; col = square mod 128; cell_row = row div 8; cell_col = col div 8;
          hole_row = row mod 8 div 2; hole_col = (square - (row * 128 + cell_col * 8)) div 2 in
      if cell_row \<ge> 16 \<or> cell_col \<ge> 16 \<or> hole_col \<ge> 4 \<or> hole_row \<ge> 4 then False
      else at16 holes cell_row cell_col AND HOLETAB_H ! hole_col AND HOLETAB_V ! hole_row \<noteq> 0)"

definition get_liquid_type :: "nat \<Rightarrow> u8 list \<Rightarrow> u8" where
  "get_liquid_type square liquid_flags =
     (let cell_row = square div 128 div 8; cell_col = square mod 128 div 8 in
      if cell_row \<ge> 16 \<or> cell_col \<ge> 16 then 0 else at16 liquid_flags cell_row cell_col)"

section \<open>Reading a map file\<close>

definition read_file_header :: "byteorder \<Rightarrow> bytes \<Rightarrow> grid_map_file_header" where
  "read_file_header B file =
     (let v = fst (lr_many 10 (lr_u32 B) file) in
      \<lparr>fh_map_magic = v ! 0, fh_version_magic = v ! 1, fh_area_map_offset = v ! 2, fh_area_map_size = v ! 3,
       fh_height_map_offset = v ! 4, fh_height_map_size = v ! 5, fh_liquid_map_offset = v ! 6,
       fh_liquid_map_size = v ! 7, fh_holes_offset = v ! 8, fh_holes_size = v ! 9\<rparr>)"

definition read_height_header :: "byteorder \<Rightarrow> grid_map_height_header lenient" where
  "read_height_header B bs =
     (let (f, bs) = lr_u32 B bs; (flags, bs) = lr_u32 B bs; (lo, bs) = lr_u32 B bs; (hi, bs) = lr_u32 B bs in
      (\<lparr>hh_fourcc = f, hh_flags = flags, hh_grid_height = lo, hh_grid_max_height = hi\<rparr>, bs))"

definition unpack_height :: "f32 \<Rightarrow> f32 \<Rightarrow> nat \<Rightarrow> f32" where
  "unpack_height multiplier grid_height raw = f32_add (f32_mul (f32_of_nat raw) multiplier) grid_height"

definition read_heights :: "byteorder \<Rightarrow> grid_map_height_header \<Rightarrow> bytes \<Rightarrow> f32 list \<times> f32 list" where
  "read_heights B h bs =
     (let diff = f32_sub (hh_grid_max_height h) (hh_grid_height h) in
      if hh_flags h AND MAP_HEIGHT_AS_INT8 \<noteq> 0 then
        let (raw9, bs) = lr_buf V9_SIZE_SQ bs; (raw8, bs) = lr_buf V8_SIZE_SQ bs;
            unpack = (\<lambda>r. unpack_height (f32_div diff 0x437F0000) (hh_grid_height h) (unat (r :: u8)))
        in (map unpack raw9, map unpack raw8)
      else if hh_flags h AND MAP_HEIGHT_AS_INT16 \<noteq> 0 then
        let (raw9, bs) = lr_many V9_SIZE_SQ (lr_u16 B) bs; (raw8, bs) = lr_many V8_SIZE_SQ (lr_u16 B) bs;
            unpack = (\<lambda>r. unpack_height (f32_div diff 0x477FFF00) (hh_grid_height h) (unat (r :: u16)))
        in (map unpack raw9, map unpack raw8)
      else
        let (v9, bs) = lr_many V9_SIZE_SQ (lr_u32 B) bs; (v8, bs) = lr_many V8_SIZE_SQ (lr_u32 B) bs
        in (v9, v8))"

definition read_holes :: "byteorder \<Rightarrow> grid_map_file_header \<Rightarrow> bytes \<Rightarrow> u16 list" where
  "read_holes B h file =
     (if fh_holes_size h > 0 then fst (lr_many 256 (lr_u16 B) (drop (unat (fh_holes_offset h)) file))
      else replicate 256 0)"

record liquid_part =
  lp_header :: grid_map_liquid_header
  lp_flags :: "u8 list"
  lp_type_loaded :: bool
  lp_map :: "f32 list option"

definition read_liquid_header :: "byteorder \<Rightarrow> grid_map_liquid_header lenient" where
  "read_liquid_header B bs =
     (let (f, bs) = lr_u32 B bs; (flags, bs) = lr_u8 bs; (lflags, bs) = lr_u8 bs; (ltype, bs) = lr_u16 B bs;
          (ox, bs) = lr_u8 bs; (oy, bs) = lr_u8 bs; (w, bs) = lr_u8 bs; (h, bs) = lr_u8 bs; (level, bs) = lr_u32 B bs in
      (\<lparr>lh_fourcc = f, lh_flags = flags, lh_liquid_flags = lflags, lh_liquid_type = ltype, lh_offset_x = ox,
        lh_offset_y = oy, lh_width = w, lh_height = h, lh_liquid_level = level\<rparr>, bs))"

text \<open>The entries are read and not used.\<close>

definition read_liquid_part :: "byteorder \<Rightarrow> bytes \<Rightarrow> liquid_part" where
  "read_liquid_part B bs =
     (let (h, bs) = read_liquid_header B bs;
          typed = (lh_flags h AND MAP_LIQUID_NO_TYPE = 0);
          (flags, bs) =
            (if typed then let (entries, bs) = lr_many 256 (lr_u16 B) bs in lr_many 256 lr_u8 bs
             else (replicate 256 (lh_liquid_flags h), bs))
      in \<lparr>lp_header = h, lp_flags = flags, lp_type_loaded = typed,
          lp_map = (if lh_flags h AND MAP_LIQUID_NO_HEIGHT = 0
                    then Some (fst (lr_many (unat (lh_width h) * unat (lh_height h)) (lr_u32 B) bs)) else None)\<rparr>)"

end
