(* ===== verification/Terrain_Mesh.thy ===== *)
theory Terrain_Mesh
  imports Terrain
begin

text \<open>
  From a map file to the triangles of the terrain builder of
  \<^verbatim>\<open>crates/extractors/src/movemap_gen.rs\<close>: the vertices and triangles of ground and liquid,
  the choice between the two for each half square, and the loading of a tile with the
  borders of its four neighbours.  Triangle indices are \<^verbatim>\<open>i32\<close>: an index that leaves the
  range is a panic, and one cast to \<^verbatim>\<open>usize\<close> wraps around.
\<close>

section \<open>Indices\<close>

definition as_i32 :: "nat \<Rightarrow> int" where
  "as_i32 n = sint (word_of_nat n :: i32)"

definition add_i32 :: "int \<Rightarrow> int \<Rightarrow> int result" where
  "add_i32 a b = (if - (2 ^ 31) \<le> a + b \<and> a + b < 2 ^ 31 then Inr (a + b) else Inl overflow)"

definition as_usize :: "int \<Rightarrow> nat" where
  "as_usize i = nat (i mod 2 ^ 64)"

text \<open>\<^verbatim>\<open>vi as usize * 3 + 1\<close>: where the height of a vertex is.\<close>

definition height_slot :: "int \<Rightarrow> nat result" where
  "height_slot vi = (let k = as_usize vi * 3 + 1 in if k < 2 ^ 64 then Inr k else Inl overflow)"

section \<open>Vertices\<close>

text \<open>The second and third coordinates are swapped for Recast.\<close>

definition push_coord :: "(f32 \<times> f32 \<times> f32) result \<Rightarrow> f32 list \<Rightarrow> f32 list result" where
  "push_coord coord verts = bind_result coord (\<lambda>(x, y, z). Inr (verts @ [x, z, y]))"

definition tile_offset :: "u32 \<Rightarrow> f32" where
  "tile_offset tile = f32_mul (f32_sub (f32_of_nat (unat tile)) 0x42000000) GRID_SIZE"

definition push_terrain_verts :: "f32 \<Rightarrow> f32 \<Rightarrow> f32 list \<Rightarrow> f32 list \<Rightarrow> f32 list \<Rightarrow> f32 list result" where
  "push_terrain_verts xoffset yoffset v9 v8 verts =
     bind_result (for_each (\<lambda>i. push_coord (get_height_coord i V9 xoffset yoffset v9)) [0..<V9_SIZE_SQ] verts)
       (for_each (\<lambda>i. push_coord (get_height_coord i V8 xoffset yoffset v8)) [0..<V8_SIZE_SQ])"

definition outside_liquid :: "grid_map_liquid_header \<Rightarrow> nat \<Rightarrow> nat \<Rightarrow> bool" where
  "outside_liquid h row col \<longleftrightarrow>
     row < unat (lh_offset_y h) \<or> row \<ge> unat (lh_offset_y h) + unat (lh_height h) \<or>
     col < unat (lh_offset_x h) \<or> col \<ge> unat (lh_offset_x h) + unat (lh_width h)"

text \<open>The counter \<open>j\<close> runs over the heights of the file.\<close>

definition push_liquid_vert ::
    "grid_map_liquid_header \<Rightarrow> f32 list option \<Rightarrow> f32 \<Rightarrow> f32 \<Rightarrow> nat \<Rightarrow> f32 list \<times> nat \<Rightarrow> (f32 list \<times> nat) result" where
  "push_liquid_vert h liquid_map xoffset yoffset i s =
     (case s of (verts, j) \<Rightarrow>
        let row = i div V9_SIZE; col = i mod V9_SIZE;
            flat = (\<lambda>level. verts @ [grid_coord xoffset col, level, grid_coord yoffset row])
        in case liquid_map of
             None \<Rightarrow> Inr (flat (lh_liquid_level h), j)
           | Some lmap \<Rightarrow>
               if outside_liquid h row col then Inr (flat INVALID_MAP_LIQ_HEIGHT, j)
               else bind_result (push_coord (get_liquid_coord i j xoffset yoffset lmap) verts) (\<lambda>verts.
                    Inr (verts, j + 1)))"

section \<open>Triangles\<close>

definition push_triangle :: "int \<Rightarrow> nat \<times> nat \<times> nat \<Rightarrow> int list \<Rightarrow> int list result" where
  "push_triangle count indices tris =
     (case indices of (i0, i1, i2) \<Rightarrow>
        bind_result (add_i32 (int i2) count) (\<lambda>a.
        bind_result (add_i32 (int i1) count) (\<lambda>b.
        bind_result (add_i32 (int i0) count) (\<lambda>c. Inr (tris @ [a, b, c])))))"

definition square_triangles :: "int \<Rightarrow> bool \<Rightarrow> spot list \<Rightarrow> spot \<Rightarrow> int list result" where
  "square_triangles count liquid spots portion =
     for_each (\<lambda>i. for_each (\<lambda>j. push_triangle count (get_height_triangle i j liquid)) spots) (loop_squares portion) []"

section \<open>Ground or liquid\<close>

text \<open>The state of the loop over the half squares: the mesh and the positions in the two
  lists of triangles.\<close>

record resolve =
  rs_mesh :: mesh_data
  rs_lt :: nat
  rs_tt :: nat

definition choose_liquid :: "u8 \<Rightarrow> bool \<times> bool \<times> u8" where
  "choose_liquid v =
     (if v AND MAP_LIQUID_TYPE_DEEP_WATER \<noteq> 0 then (False, False, v)
      else if v AND (MAP_LIQUID_TYPE_WATER OR MAP_LIQUID_TYPE_OCEAN) \<noteq> 0 then (True, True, NAV_AREA_WATER)
      else if v AND (MAP_LIQUID_TYPE_MAGMA OR MAP_LIQUID_TYPE_SLIME) \<noteq> 0 then (True, True, NAV_AREA_MAGMA_SLIME)
      else (True, False, v))"

definition quad_step :: "f32 list \<Rightarrow> int \<Rightarrow> f32 \<times> nat \<Rightarrow> (f32 \<times> nat) result" where
  "quad_step lverts vi s =
     (case s of (quad_height, valid_count) \<Rightarrow>
        bind_result (height_slot vi) (\<lambda>k.
        case nth_opt lverts k of
          None \<Rightarrow> Inr s
        | Some h \<Rightarrow>
            if \<not> f32_eq h INVALID_MAP_LIQ_HEIGHT \<and> f32_lt h INVALID_MAP_LIQ_HEIGHT_MAX
            then Inr (f32_add quad_height h, valid_count + 1) else Inr s))"

definition patch_step :: "f32 \<Rightarrow> int \<Rightarrow> f32 list \<Rightarrow> f32 list result" where
  "patch_step quad_height vi verts =
     bind_result (height_slot vi) (\<lambda>k.
     case nth_opt verts k of
       None \<Rightarrow> Inr verts
     | Some h \<Rightarrow>
         if f32_eq h INVALID_MAP_LIQ_HEIGHT \<or> f32_lt INVALID_MAP_LIQ_HEIGHT_MAX h
         then vec_set k quad_height verts else Inr verts)"

text \<open>\<open>ltri\<close> is the triangle of the half square; a triangle without a valid height is not used.\<close>

definition patch_liquid :: "f32 list \<Rightarrow> int list \<Rightarrow> f32 list \<Rightarrow> (bool \<times> f32 list) result" where
  "patch_liquid lverts_copy ltri verts =
     bind_result (for_each (quad_step lverts_copy) ltri (0, 0)) (\<lambda>(quad_height, valid_count).
     bind_result
       (if 0 < valid_count \<and> valid_count < 3
        then for_each (patch_step (f32_div quad_height (f32_of_nat valid_count))) ltri verts else Inr verts) (\<lambda>verts.
     Inr (valid_count \<noteq> 0, verts)))"

definition level_step :: "(f32 \<Rightarrow> f32 \<Rightarrow> bool) \<Rightarrow> f32 list \<Rightarrow> int \<Rightarrow> f32 \<Rightarrow> f32 result" where
  "level_step better verts vi level =
     bind_result (height_slot vi) (\<lambda>k.
     case nth_opt verts k of
       None \<Rightarrow> Inr level
     | Some h \<Rightarrow> Inr (if better level h then h else level))"

text \<open>Is the lowest ground vertex above the highest liquid vertex?\<close>

definition ground_above :: "mesh_data \<Rightarrow> int list \<Rightarrow> int list \<Rightarrow> bool result" where
  "ground_above m ltri ttri =
     bind_result (for_each (level_step f32_lt (liquid_verts m)) ltri INVALID_MAP_LIQ_HEIGHT) (\<lambda>max_l_level.
     bind_result (for_each (level_step (\<lambda>a b. f32_lt b a) (solid_verts m)) ttri INVALID_MAP_LIQ_HEIGHT_MAX) (\<lambda>min_t_level.
     Inr (f32_lt max_l_level min_t_level)))"

record terrain_input =
  ti_type_loaded :: bool
  ti_flags :: "u8 list"
  ti_holes :: "u16 list"
  ti_lverts :: "f32 list"
  ti_ltris :: "int list"
  ti_ttris :: "int list"

definition store_half :: "bool \<Rightarrow> bool \<Rightarrow> u8 \<Rightarrow> int list \<Rightarrow> int list \<Rightarrow> mesh_data \<Rightarrow> mesh_data" where
  "store_half use_liquid use_terrain v ltri ttri m =
     (let m = (if use_liquid then m\<lparr>liquid_type := liquid_type m @ [v], liquid_tris := liquid_tris m @ ltri\<rparr> else m)
      in if use_terrain then m\<lparr>solid_tris := solid_tris m @ ttri\<rparr> else m)"

definition resolve_half :: "terrain_input \<Rightarrow> nat \<Rightarrow> resolve \<Rightarrow> resolve result" where
  "resolve_half t i s =
     (let m = rs_mesh s; ltri = take 3 (drop (rs_lt s) (ti_ltris t)); ttri = take 6 (drop (rs_tt s) (ti_ttris t));
          (use_terrain, use_liquid, v) =
            (if \<not> ti_type_loaded t \<or> liquid_verts m = [] \<or> ti_ltris t = [] then (True, False, MAP_LIQUID_TYPE_NO_WATER)
             else choose_liquid (get_liquid_type i (ti_flags t)));
          use_terrain = (use_terrain \<and> ti_ttris t \<noteq> []) in
      bind_result
        (if use_liquid \<and> rs_lt s + 2 < length (ti_ltris t) then patch_liquid (ti_lverts t) ltri (liquid_verts m)
         else Inr (use_liquid, liquid_verts m)) (\<lambda>(use_liquid, lverts).
      let m = m\<lparr>liquid_verts := lverts\<rparr>;
          use_terrain = (use_terrain \<and> \<not> is_hole i (ti_holes t)) in
      bind_result
        (if use_terrain \<and> use_liquid then bind_result (ground_above m ltri ttri) (\<lambda>above. Inr (\<not> above))
         else Inr use_liquid) (\<lambda>use_liquid.
      Inr \<lparr>rs_mesh = store_half use_liquid use_terrain v ltri ttri m, rs_lt = rs_lt s + 3, rs_tt = rs_tt s + 6\<rparr>)))"

definition resolve_square :: "terrain_input \<Rightarrow> nat \<Rightarrow> resolve \<Rightarrow> resolve result" where
  "resolve_square t i s = bind_result (resolve_half t i s) (resolve_half t i)"

section \<open>Loading a tile\<close>

definition load_terrain ::
    "byteorder \<Rightarrow> bytes \<Rightarrow> u32 \<Rightarrow> u32 \<Rightarrow> spot \<Rightarrow> mesh_data \<Rightarrow> (mesh_data \<times> u16 list \<times> int list) result" where
  "load_terrain B file tile_x tile_y portion m =
     (let h = read_file_header B file;
          (hh, rest) = read_height_header B (drop (unat (fh_height_map_offset h)) file);
          (v9, v8) = read_heights B hh rest;
          holes = read_holes B h file;
          count = as_i32 (length (solid_verts m) div 3) in
      bind_result (push_terrain_verts (tile_offset tile_x) (tile_offset tile_y) v9 v8 (solid_verts m)) (\<lambda>verts.
      bind_result (square_triangles count False [Top, Right, Left, Bottom] portion) (\<lambda>ttriangles.
      Inr (m\<lparr>solid_verts := verts\<rparr>, holes, ttriangles))))"

definition load_liquid ::
    "byteorder \<Rightarrow> bytes \<Rightarrow> u32 \<Rightarrow> u32 \<Rightarrow> spot \<Rightarrow> mesh_data \<Rightarrow> (mesh_data \<times> liquid_part \<times> int list) result" where
  "load_liquid B file tile_x tile_y portion m =
     (let part = read_liquid_part B (drop (unat (fh_liquid_map_offset (read_file_header B file))) file);
          count = as_i32 (length (liquid_verts m) div 3) in
      bind_result (for_each (push_liquid_vert (lp_header part) (lp_map part) (tile_offset tile_x) (tile_offset tile_y))
        [0..<V9_SIZE_SQ] (liquid_verts m, 0)) (\<lambda>(verts, j).
      bind_result (square_triangles count True [Top, Bottom] portion) (\<lambda>ltriangles.
      Inr (m\<lparr>liquid_verts := verts\<rparr>, part, ltriangles))))"

definition resolve_portion :: "terrain_input \<Rightarrow> spot \<Rightarrow> mesh_data \<Rightarrow> (bool \<times> mesh_data) result" where
  "resolve_portion t portion m =
     (if ti_ltris t = [] \<and> ti_ttris t = [] then Inr (False, m)
      else bind_result (for_each (resolve_square t) (loop_squares portion) \<lparr>rs_mesh = m, rs_lt = 0, rs_tt = 0\<rparr>) (\<lambda>s.
           let m = rs_mesh s in Inr (solid_tris m \<noteq> [] \<or> liquid_tris m \<noteq> [], m)))"

definition load_map_file ::
    "byteorder \<Rightarrow> bool \<Rightarrow> bytes \<Rightarrow> u32 \<Rightarrow> u32 \<Rightarrow> spot \<Rightarrow> mesh_data \<Rightarrow> (bool \<times> mesh_data) result" where
  "load_map_file B skip_liquid file tile_x tile_y portion m =
     (let h = read_file_header B file;
          hh = fst (read_height_header B (drop (unat (fh_height_map_offset h)) file));
          have_terrain = (hh_flags hh AND MAP_HEIGHT_NO_HEIGHT = 0);
          have_liquid = (fh_liquid_map_offset h \<noteq> 0 \<and> \<not> skip_liquid) in
      if fh_version_magic h \<noteq> MAP_VERSION_MAGIC then Inr (False, m)
      else if \<not> have_terrain \<and> \<not> have_liquid then Inr (False, m)
      else
        bind_result (if have_terrain then load_terrain B file tile_x tile_y portion m
                     else Inr (m, replicate 256 0, [])) (\<lambda>(m, holes, ttriangles).
        bind_result
          (if have_liquid then
             bind_result (load_liquid B file tile_x tile_y portion m) (\<lambda>(m, part, ltriangles).
             Inr (m, lp_type_loaded part, lp_flags part, ltriangles))
           else Inr (m, False, replicate 256 0, [])) (\<lambda>(m, loaded, flags, ltriangles).
        resolve_portion \<lparr>ti_type_loaded = loaded, ti_flags = flags, ti_holes = holes, ti_lverts = liquid_verts m,
          ti_ltris = ltriangles, ti_ttris = ttriangles\<rparr> portion m)))"

text \<open>\<open>maps\<close> is the directory of map files: the contents of the files that can be opened.\<close>

definition load_map_portion ::
    "byteorder \<Rightarrow> bool \<Rightarrow> (string \<Rightarrow> bytes option) \<Rightarrow> u32 \<Rightarrow> u32 \<Rightarrow> u32 \<Rightarrow> spot \<Rightarrow> mesh_data \<Rightarrow> (bool \<times> mesh_data) result" where
  "load_map_portion B skip_liquid maps map_id tile_x tile_y portion m =
     (case maps (fmt0 3 map_id @ fmt0 2 tile_y @ fmt0 2 tile_x @ ''.map'') of
        None \<Rightarrow> Inr (False, m)
      | Some file \<Rightarrow> load_map_file B skip_liquid file tile_x tile_y portion m)"

definition load_border ::
    "byteorder \<Rightarrow> bool \<Rightarrow> (string \<Rightarrow> bytes option) \<Rightarrow> u32 \<Rightarrow> u32 \<times> u32 \<times> spot \<Rightarrow> mesh_data \<Rightarrow> mesh_data result" where
  "load_border B skip_liquid maps map_id p m =
     (case p of (x, y, portion) \<Rightarrow>
        bind_result (load_map_portion B skip_liquid maps map_id x y portion m) (\<lambda>(loaded, m). Inr m))"

definition load_map ::
    "byteorder \<Rightarrow> bool \<Rightarrow> (string \<Rightarrow> bytes option) \<Rightarrow> u32 \<Rightarrow> u32 \<Rightarrow> u32 \<Rightarrow> mesh_data \<Rightarrow> mesh_data result" where
  "load_map B skip_liquid maps map_id tile_x tile_y m =
     bind_result (load_map_portion B skip_liquid maps map_id tile_x tile_y Entire m) (\<lambda>(loaded, m).
     if loaded then
       for_each (load_border B skip_liquid maps map_id)
         [(tile_x + 1, tile_y, Left), (tile_x - 1, tile_y, Right), (tile_x, tile_y + 1, Top), (tile_x, tile_y - 1, Bottom)] m
     else Inr m)"

end
