(* ===== verification/Terrain_Correct.thy ===== *)
theory Terrain_Correct
  imports Terrain_Mesh Map_Correct
begin

text \<open>
  Properties of the terrain builder.  Whatever the map files hold, loading a tile ends without
  a panic and every index of a triangle names a vertex, which is what the unchecked accesses
  of Recast rely on; and what the map extractor writes is what the builder reads.
\<close>

section \<open>Loops that append\<close>

definition appends :: "nat \<Rightarrow> 'a set \<Rightarrow> ('a list \<Rightarrow> 'a list result) \<Rightarrow> bool" where
  "appends k A f \<longleftrightarrow> (\<forall>s. \<exists>ys. f s = Inr (s @ ys) \<and> length ys = k \<and> set ys \<subseteq> A)"

lemma appendsD: "appends k A f \<Longrightarrow> \<exists>ys. f s = Inr (s @ ys) \<and> length ys = k \<and> set ys \<subseteq> A"
  by (simp add: appends_def)

lemma appends_bind: "appends k A f \<Longrightarrow> appends n A g \<Longrightarrow> appends (k + n) A (\<lambda>s. bind_result (f s) g)"
  unfolding appends_def by (metis append_assoc bind_result_simps(2) le_sup_iff length_append set_append)

lemma appends_for_each:
  assumes "\<And>x. x \<in> set xs \<Longrightarrow> appends k A (f x)"
  shows "appends (k * length xs) A (for_each f xs)"
  using assms
proof (induction xs)
  case (Cons x xs)
  have "appends (k + k * length xs) A (\<lambda>s. bind_result (f x s) (for_each f xs))"
    using Cons by (intro appends_bind) simp_all
  then show ?case by (simp add: appends_def)
qed (simp add: appends_def)

section \<open>Indices of the triangles\<close>

lemmas terrain_sizes = V9_SIZE_SQ_def V8_SIZE_SQ_def V9_SIZE_def V8_SIZE_def

lemma loop_squares_less: "i \<in> set (loop_squares portion) \<Longrightarrow> i < 16384"
  by (cases portion) (simp_all add: loop_squares_def get_loop_vars_def terrain_sizes del: upt_rec_numeral)

lemma get_height_triangle_less:
  assumes "get_height_triangle i j liquid = (a, b, c)" "i < 16384"
  shows "a < (if liquid then 16641 else 33025) \<and> b < (if liquid then 16641 else 33025) \<and> c < (if liquid then 16641 else 33025)"
proof -
  have "i div 128 \<le> 127" using assms(2) by linarith
  with assms show ?thesis
    by (cases j; cases liquid) (auto simp: get_height_triangle_def terrain_sizes Let_def)
qed

lemma push_triangle_appends:
  assumes "0 \<le> count" "count + int n < 2 ^ 31" "a < n" "b < n" "c < n"
  shows "appends 3 {count..<count + int n} (push_triangle count (a, b, c))"
proof -
  have "add_i32 (int k) count = Inr (int k + count)" if "k < n" for k
    using that assms(1,2) by (simp add: add_i32_def)
  then show ?thesis using assms by (simp add: appends_def push_triangle_def)
qed

lemma square_triangles_total:
  fixes count :: int and liquid :: bool
  defines "n \<equiv> if liquid then 16641 else 33025 :: nat"
  assumes "0 \<le> count" "count + int n < 2 ^ 31"
  shows "\<exists>ts. square_triangles count liquid spots portion = Inr ts \<and>
    length ts = 3 * length spots * length (loop_squares portion) \<and> set ts \<subseteq> {count..<count + int n}"
proof -
  have "appends 3 {count..<count + int n} (push_triangle count (get_height_triangle i j liquid))"
    if "i \<in> set (loop_squares portion)" for i j
  proof -
    obtain a b c where t: "get_height_triangle i j liquid = (a, b, c)" by (cases "get_height_triangle i j liquid")
    show ?thesis
      unfolding t using get_height_triangle_less [OF t loop_squares_less [OF that]] assms
      by (intro push_triangle_appends) (simp_all add: n_def)
  qed
  then have "appends (3 * length spots * length (loop_squares portion)) {count..<count + int n}
    (for_each (\<lambda>i. for_each (\<lambda>j. push_triangle count (get_height_triangle i j liquid)) spots) (loop_squares portion))"
    by (intro appends_for_each)
  from appendsD [OF this, of "[]"] show ?thesis by (simp add: square_triangles_def)
qed

lemma as_i32_small: "n < 2 ^ 31 \<Longrightarrow> as_i32 n = int n"
  unfolding as_i32_def by (simp add: signed_of_nat signed_take_bit_int_eq_self)

section \<open>Vertices\<close>

lemma push_terrain_verts_total:
  assumes "length v9 = 16641" "length v8 = 16384"
  shows "\<exists>ys. push_terrain_verts xo yo v9 v8 verts = Inr (verts @ ys) \<and> length ys = 99075"
proof -
  have "appends 3 UNIV (push_coord (get_height_coord i g xo yo v))" if "i < length v" for i g v
    using that by (cases g) (simp_all add: appends_def push_coord_def get_height_coord_def)
  then have "appends (3 * 16641 + 3 * 16384) UNIV (push_terrain_verts xo yo v9 v8)"
    unfolding push_terrain_verts_def [abs_def]
    using appends_for_each [of "[0..<16641]" 3 UNIV "\<lambda>i. push_coord (get_height_coord i V9 xo yo v9)"]
      appends_for_each [of "[0..<16384]" 3 UNIV "\<lambda>i. push_coord (get_height_coord i V8 xo yo v8)"] assms
    by (intro appends_bind) (simp_all add: terrain_sizes del: upt_rec_numeral)
  from appendsD [OF this, of verts] show ?thesis by simp
qed

lemma lr_many_length [simp]: "length (fst (lr_many n m bs)) = n"
  by (induction n arbitrary: bs) (simp_all add: split_beta Let_def)

lemma lr_buf_length [simp]: "length (fst (lr_buf n bs)) = n"
  by (simp add: lr_buf_def)

lemma read_heights_length:
  "length (fst (read_heights B h bs)) = 16641" "length (snd (read_heights B h bs)) = 16384"
  by (simp_all add: read_heights_def Let_def split_beta terrain_sizes)

text \<open>The rectangle of liquid has no more vertices inside the grid than heights in the file.\<close>

definition liquid_cells :: "grid_map_liquid_header \<Rightarrow> nat \<Rightarrow> nat set" where
  "liquid_cells h n = {i. i < n \<and> \<not> outside_liquid h (i div V9_SIZE) (i mod V9_SIZE)}"

lemma liquid_cells_card: "card (liquid_cells h n) \<le> unat (lh_width h) * unat (lh_height h)"
proof -
  let ?f = "\<lambda>i. (i mod V9_SIZE - unat (lh_offset_x h), i div V9_SIZE - unat (lh_offset_y h))"
  have "inj_on ?f (liquid_cells h n)"
  proof (rule inj_onI)
    fix i k assume ik: "i \<in> liquid_cells h n" "k \<in> liquid_cells h n" and eq: "?f i = ?f k"
    have "i mod V9_SIZE = k mod V9_SIZE" "i div V9_SIZE = k div V9_SIZE"
      using ik eq by (auto simp: liquid_cells_def outside_liquid_def)
    then show "i = k" by (metis div_mult_mod_eq)
  qed
  moreover have "?f ` liquid_cells h n \<subseteq> {..<unat (lh_width h)} \<times> {..<unat (lh_height h)}"
    by (auto simp: liquid_cells_def outside_liquid_def)
  ultimately have "card (liquid_cells h n) \<le> card ({..<unat (lh_width h)} \<times> {..<unat (lh_height h)})"
    by (intro card_inj_on_le) simp_all
  then show ?thesis by (simp add: card_cartesian_product)
qed

lemma liquid_cells_Suc:
  "liquid_cells h (Suc n) =
     (if outside_liquid h (n div V9_SIZE) (n mod V9_SIZE) then liquid_cells h n else insert n (liquid_cells h n))"
  by (auto simp: liquid_cells_def less_Suc_eq)

lemma liquid_cells_finite: "finite (liquid_cells h n)" "n \<notin> liquid_cells h n"
  by (simp_all add: liquid_cells_def)

lemma push_liquid_verts_total:
  assumes "\<And>l. lmap = Some l \<Longrightarrow> length l = unat (lh_width h) * unat (lh_height h)"
  shows "\<exists>ys. for_each (push_liquid_vert h lmap xo yo) [0..<n] (verts, 0) =
    Inr (verts @ ys, if lmap = None then 0 else card (liquid_cells h n)) \<and> length ys = 3 * n"
proof (induction n)
  case 0
  then show ?case by (simp add: liquid_cells_def)
next
  case (Suc n)
  then obtain ys where ys: "for_each (push_liquid_vert h lmap xo yo) [0..<n] (verts, 0) =
    Inr (verts @ ys, if lmap = None then 0 else card (liquid_cells h n))" "length ys = 3 * n" by blast
  have "\<exists>zs. push_liquid_vert h lmap xo yo n (verts @ ys, if lmap = None then 0 else card (liquid_cells h n)) =
    Inr (verts @ ys @ zs, if lmap = None then 0 else card (liquid_cells h (Suc n))) \<and> length zs = 3"
  proof (cases lmap)
    case (Some l)
    have "card (liquid_cells h n) < length l" if "\<not> outside_liquid h (n div V9_SIZE) (n mod V9_SIZE)"
      using liquid_cells_card [of h "Suc n"] liquid_cells_finite that assms [OF Some]
      by (simp add: liquid_cells_Suc)
    then show ?thesis
      using Some liquid_cells_finite
      by (simp add: push_liquid_vert_def Let_def push_coord_def get_liquid_coord_def liquid_cells_Suc)
  qed (simp add: push_liquid_vert_def Let_def)
  then obtain zs where "push_liquid_vert h lmap xo yo n (verts @ ys, if lmap = None then 0 else card (liquid_cells h n)) =
    Inr (verts @ ys @ zs, if lmap = None then 0 else card (liquid_cells h (Suc n)))" "length zs = 3" by blast
  with ys show ?case by (intro exI [of _ "ys @ zs"]) (simp add: for_each_append)
qed

lemma read_liquid_part_map:
  "lp_map (read_liquid_part B bs) = Some l \<Longrightarrow>
    length l = unat (lh_width (lp_header (read_liquid_part B bs))) * unat (lh_height (lp_header (read_liquid_part B bs)))"
  by (auto simp: read_liquid_part_def Let_def split_beta split: if_splits)

section \<open>The mesh\<close>

text \<open>Every index of a triangle names a vertex of three coordinates.\<close>

definition tris_in :: "int list \<Rightarrow> f32 list \<Rightarrow> bool" where
  "tris_in ts vs \<longleftrightarrow> (\<forall>t \<in> set ts. 0 \<le> t \<and> 3 * t + 2 < int (length vs))"

definition wf_mesh :: "mesh_data \<Rightarrow> bool" where
  "wf_mesh m \<longleftrightarrow> 3 dvd length (solid_verts m) \<and> 3 dvd length (liquid_verts m) \<and> 3 dvd length (solid_tris m) \<and>
     tris_in (solid_tris m) (solid_verts m) \<and> tris_in (liquid_tris m) (liquid_verts m) \<and>
     length (liquid_tris m) = 3 * length (liquid_type m) \<and> set (liquid_type m) \<subseteq> {NAV_AREA_WATER, NAV_AREA_MAGMA_SLIME} \<and>
     length (off_mesh_connections m) = 6 * length (off_mesh_connection_rads m) \<and>
     length (off_mesh_connection_dirs m) = length (off_mesh_connection_rads m) \<and>
     length (off_mesh_connections_areas m) = length (off_mesh_connection_rads m) \<and>
     length (off_mesh_connections_flags m) = length (off_mesh_connection_rads m)"

lemma tris_in_sub: "tris_in ts vs \<Longrightarrow> set us \<subseteq> set ts \<Longrightarrow> length vs \<le> length ws \<Longrightarrow> tris_in us ws"
  unfolding tris_in_def by fastforce

lemma tris_in_Nil [simp]: "tris_in [] vs"
  by (simp add: tris_in_def)

lemma tris_in_append: "tris_in (ts @ us) vs \<longleftrightarrow> tris_in ts vs \<and> tris_in us vs"
  by (auto simp: tris_in_def)

lemma set_take_drop: "set (take k (drop n xs)) \<subseteq> set xs"
  by (meson set_drop_subset set_take_subset subset_trans)

lemma height_slot_in:
  assumes "tris_in ts vs" "v \<in> set ts" "length vs < 2 ^ 40"
  shows "height_slot v = Inr (nat v * 3 + 1)"
proof -
  have v: "0 \<le> v" "v < 2 ^ 40" using assms by (auto simp: tris_in_def)
  then have "as_usize v = nat v" by (simp add: as_usize_def)
  then show ?thesis using v by (simp add: height_slot_def Let_def)
qed

lemma for_each_inv:
  assumes "\<And>x s. x \<in> set xs \<Longrightarrow> P s \<Longrightarrow> \<exists>t. f x s = Inr t \<and> P t" "P s"
  shows "\<exists>t. for_each f xs s = Inr t \<and> P t"
proof -
  have loc: "safe_state P s" using assms(2) by unfold_locales
  have "safe_state.safe P (for_each f xs)"
    using assms(1) by (intro safe_state.safe_for_each [OF loc]) (simp add: safe_state.safe_def [OF loc])
  then show ?thesis by (rule safe_state.safe_run [OF loc])
qed

lemma patch_liquid_total:
  assumes "tris_in ltri verts" "length verts < 2 ^ 40"
  shows "\<exists>b verts'. patch_liquid copy ltri verts = Inr (b, verts') \<and> length verts' = length verts"
proof -
  note slot = height_slot_in [OF assms(1) _ assms(2)]
  have "\<exists>t. for_each (quad_step copy) ltri (0, 0) = Inr t \<and> True"
    by (rule for_each_inv) (auto simp: quad_step_def slot split: option.split)
  then obtain q n where q: "for_each (quad_step copy) ltri (0, 0) = Inr (q, n)" by fastforce
  have "\<exists>t. for_each (patch_step h) ltri verts = Inr t \<and> length t = length verts" for h
    by (rule for_each_inv) (auto simp: patch_step_def slot nth_opt_def split: option.split)
  then show ?thesis by (simp add: patch_liquid_def q split_beta)
qed

lemma ground_above_total:
  assumes "tris_in ltri (liquid_verts m)" "tris_in ttri (solid_verts m)"
    "length (liquid_verts m) < 2 ^ 40" "length (solid_verts m) < 2 ^ 40"
  shows "\<exists>b. ground_above m ltri ttri = Inr b"
proof -
  have "\<exists>t. for_each (level_step better verts) tri l = Inr t \<and> True"
    if "tris_in tri verts" "length verts < 2 ^ 40" for tri verts better l
    by (rule for_each_inv) (auto simp: level_step_def height_slot_in [OF that(1) _ that(2)] split: option.split)
  from this [OF assms(1,3), of f32_lt INVALID_MAP_LIQ_HEIGHT] this [OF assms(2,4), of "\<lambda>a b. f32_lt b a" INVALID_MAP_LIQ_HEIGHT_MAX]
  show ?thesis unfolding ground_above_def by auto
qed

lemma choose_liquid_type: "choose_liquid f = (a, True, v) \<Longrightarrow> v \<in> {NAV_AREA_WATER, NAV_AREA_MAGMA_SLIME}"
  by (auto simp: choose_liquid_def split: if_splits)

section \<open>Resolving ground and liquid\<close>

definition input_for :: "nat \<Rightarrow> terrain_input \<Rightarrow> mesh_data \<Rightarrow> bool" where
  "input_for n t m \<longleftrightarrow> (ti_ltris t = [] \<or> length (ti_ltris t) = 3 * n) \<and> (ti_ttris t = [] \<or> length (ti_ttris t) = 6 * n) \<and>
     tris_in (ti_ltris t) (liquid_verts m) \<and> tris_in (ti_ttris t) (solid_verts m) \<and>
     length (liquid_verts m) < 2 ^ 40 \<and> length (solid_verts m) < 2 ^ 40"

definition resolving :: "nat \<Rightarrow> mesh_data \<Rightarrow> nat \<Rightarrow> resolve \<Rightarrow> bool" where
  "resolving n m k s \<longleftrightarrow> rs_lt s = 3 * k \<and> rs_tt s = 6 * k \<and> wf_mesh (rs_mesh s) \<and>
     solid_verts (rs_mesh s) = solid_verts m \<and> length (liquid_verts (rs_mesh s)) = length (liquid_verts m)"

lemma store_half_wf:
  assumes "wf_mesh m" "3 dvd length ttri" "tris_in ttri (solid_verts m)" "tris_in ltri (liquid_verts m)"
    and "b \<Longrightarrow> length ltri = 3 \<and> v \<in> {NAV_AREA_WATER, NAV_AREA_MAGMA_SLIME}"
  shows "wf_mesh (store_half b c v ltri ttri m)"
    "solid_verts (store_half b c v ltri ttri m) = solid_verts m"
    "liquid_verts (store_half b c v ltri ttri m) = liquid_verts m"
  using assms by (cases b; cases c; simp add: store_half_def Let_def wf_mesh_def tris_in_append dvd_add)+

lemma resolve_half_total:
  assumes "input_for n t m" "resolving n m k s" "k < n"
  shows "\<exists>s'. resolve_half t i s = Inr s' \<and> resolving n m (Suc k) s'"
proof -
  let ?m = "rs_mesh s"
  define ltri where "ltri = take 3 (drop (rs_lt s) (ti_ltris t))"
  define ttri where "ttri = take 6 (drop (rs_tt s) (ti_ttris t))"
  have len: "ti_ltris t \<noteq> [] \<Longrightarrow> length ltri = 3" "3 dvd length ttri"
    using assms by (auto simp: ltri_def ttri_def input_for_def resolving_def)
  have inm: "tris_in ltri (liquid_verts ?m)" "tris_in ttri (solid_verts ?m)" "length (liquid_verts ?m) < 2 ^ 40" "length (solid_verts ?m) < 2 ^ 40"
    using assms(1,2) tris_in_sub [OF _ set_take_drop] by (auto simp: ltri_def ttri_def input_for_def resolving_def)
  obtain ut ul v where u: "(if \<not> ti_type_loaded t \<or> liquid_verts ?m = [] \<or> ti_ltris t = [] then (True, False, MAP_LIQUID_TYPE_NO_WATER)
             else choose_liquid (get_liquid_type i (ti_flags t))) = (ut, ul, v)" by (metis prod_cases3)
  then have v: "ti_ltris t \<noteq> [] \<and> v \<in> {NAV_AREA_WATER, NAV_AREA_MAGMA_SLIME}" if ul
    using that choose_liquid_type [of "get_liquid_type i (ti_flags t)" ut v]
    by (cases "\<not> ti_type_loaded t \<or> liquid_verts ?m = [] \<or> ti_ltris t = []") simp_all
  obtain ul' lverts where p: "(if ul \<and> rs_lt s + 2 < length (ti_ltris t) then patch_liquid (ti_lverts t) ltri (liquid_verts ?m)
         else Inr (ul, liquid_verts ?m)) = Inr (ul', lverts)" "length lverts = length (liquid_verts ?m)" "ul' \<Longrightarrow> ul"
    using patch_liquid_total [OF inm(1,3), of "ti_lverts t"] by (cases "ul \<and> rs_lt s + 2 < length (ti_ltris t)") auto
  let ?m' = "?m\<lparr>liquid_verts := lverts\<rparr>" and ?ut = "(ut \<and> ti_ttris t \<noteq> []) \<and> \<not> is_hole i (ti_holes t)"
  have inm': "tris_in ltri (liquid_verts ?m')" "tris_in ttri (solid_verts ?m')"
    using inm p(2) by (simp_all add: tris_in_def)
  have "wf_mesh ?m" using assms(2) by (simp add: resolving_def)
  then have wf: "wf_mesh ?m'" using p(2) by (simp add: wf_mesh_def tris_in_def)
  obtain ul'' where g: "(if ?ut \<and> ul' then bind_result (ground_above ?m' ltri ttri) (\<lambda>above. Inr (\<not> above)) else Inr ul') = Inr ul''"
      "ul'' \<Longrightarrow> ul'"
    using ground_above_total [OF inm'] inm(3,4) p(2) by (cases "?ut \<and> ul'") auto
  have "resolve_half t i s = Inr \<lparr>rs_mesh = store_half ul'' ?ut v ltri ttri ?m', rs_lt = rs_lt s + 3, rs_tt = rs_tt s + 6\<rparr>"
    unfolding resolve_half_def Let_def ltri_def [symmetric] ttri_def [symmetric] u prod.case p(1) bind_result_simps g(1) by simp
  moreover have "b \<longrightarrow> length ltri = 3 \<and> v \<in> {NAV_AREA_WATER, NAV_AREA_MAGMA_SLIME}" if "b = ul''" for b
    using v len(1) p(3) g(2) that by blast
  ultimately show ?thesis
    using store_half_wf [OF wf len(2) inm'(2,1), of ul'' v ?ut] assms(2) p(2) by (simp add: resolving_def)
qed

lemma resolve_square_total:
  assumes "input_for n t m" "resolving n m k s" "k + 1 < n"
  shows "\<exists>s'. resolve_square t i s = Inr s' \<and> resolving n m (k + 2) s'"
proof -
  obtain s1 where s1: "resolve_half t i s = Inr s1" "resolving n m (Suc k) s1"
    using resolve_half_total [OF assms(1,2)] assms(3) by auto
  show ?thesis using resolve_half_total [OF assms(1) s1(2)] assms(3) s1(1) by (simp add: resolve_square_def)
qed

lemma resolve_squares_total:
  assumes "input_for n t m" "resolving n m k s" "k + 2 * length is \<le> n"
  shows "\<exists>s'. for_each (resolve_square t) is s = Inr s' \<and> resolving n m (k + 2 * length is) s'"
  using assms(2,3)
proof (induction "is" arbitrary: k s)
  case (Cons i "is")
  obtain s1 where s1: "resolve_square t i s = Inr s1" "resolving n m (k + 2) s1"
    using resolve_square_total [OF assms(1) Cons.prems(1)] Cons.prems(2) by auto
  show ?case using Cons.IH [OF s1(2)] Cons.prems(2) s1(1) by simp
qed simp

lemma resolve_portion_total:
  assumes "input_for (2 * length (loop_squares portion)) t m" "wf_mesh m"
  shows "\<exists>b m'. resolve_portion t portion m = Inr (b, m') \<and> wf_mesh m' \<and> solid_verts m' = solid_verts m \<and>
    length (liquid_verts m') = length (liquid_verts m)"
  using resolve_squares_total [OF assms(1), of 0 "\<lparr>rs_mesh = m, rs_lt = 0, rs_tt = 0\<rparr>" "loop_squares portion"] assms(2)
  by (auto simp: resolve_portion_def resolving_def Let_def)

section \<open>Loading a tile\<close>

text \<open>After \<open>k\<close> of the five portions of a tile.\<close>

definition loaded_portions :: "nat \<Rightarrow> mesh_data \<Rightarrow> bool" where
  "loaded_portions k m \<longleftrightarrow> wf_mesh m \<and> length (solid_verts m) \<le> k * 99075 \<and> length (liquid_verts m) \<le> k * 49923"

lemma fresh_tris_in:
  assumes "set ts \<subseteq> {int (length vs div 3)..<int (length vs div 3) + int n}" "3 dvd length vs" "length ys = 3 * n"
  shows "tris_in ts (vs @ ys)"
  using assms by (fastforce simp: tris_in_def)

lemma load_terrain_total:
  assumes "loaded_portions k m" "k \<le> 5"
  shows "\<exists>ys holes ts. load_terrain B file x y portion m = Inr (m\<lparr>solid_verts := solid_verts m @ ys\<rparr>, holes, ts) \<and>
    length ys = 99075 \<and> length ts = 6 * (2 * length (loop_squares portion)) \<and> tris_in ts (solid_verts m @ ys)"
proof -
  let ?n = "length (solid_verts m) div 3"
  have n: "?n < 300000" using assms unfolding loaded_portions_def by (elim conjE) linarith
  obtain hh rest where hh: "read_height_header B (drop (unat (fh_height_map_offset (read_file_header B file))) file) = (hh, rest)"
    by fastforce
  obtain v9 v8 where v: "read_heights B hh rest = (v9, v8)" by fastforce
  then have "length v9 = 16641" "length v8 = 16384" using read_heights_length [of B hh rest] by simp_all
  from push_terrain_verts_total [OF this, of "tile_offset x" "tile_offset y" "solid_verts m"] obtain ys
    where ys: "push_terrain_verts (tile_offset x) (tile_offset y) v9 v8 (solid_verts m) = Inr (solid_verts m @ ys)" "length ys = 99075"
    by blast
  obtain ts where ts: "square_triangles (int ?n) False [Top, Right, Left, Bottom] portion = Inr ts"
      "length ts = 6 * (2 * length (loop_squares portion))" "set ts \<subseteq> {int ?n..<int ?n + int 33025}"
    using square_triangles_total [of "int ?n" False "[Top, Right, Left, Bottom]" portion] n by auto
  have "tris_in ts (solid_verts m @ ys)"
    using assms(1) ts(3) ys(2) by (intro fresh_tris_in) (simp_all add: loaded_portions_def wf_mesh_def)
  moreover have "load_terrain B file x y portion m =
      Inr (m\<lparr>solid_verts := solid_verts m @ ys\<rparr>, read_holes B (read_file_header B file) file, ts)"
    using ys(1) ts(1) n by (simp add: load_terrain_def hh v Let_def as_i32_small)
  ultimately show ?thesis using ys(2) ts(2) by blast
qed

lemma load_liquid_total:
  assumes "loaded_portions k m" "k \<le> 5"
  shows "\<exists>ys part ts. load_liquid B file x y portion m = Inr (m\<lparr>liquid_verts := liquid_verts m @ ys\<rparr>, part, ts) \<and>
    length ys = 49923 \<and> length ts = 3 * (2 * length (loop_squares portion)) \<and> tris_in ts (liquid_verts m @ ys)"
proof -
  let ?n = "length (liquid_verts m) div 3"
  have n: "?n < 300000" using assms unfolding loaded_portions_def by (elim conjE) linarith
  define part where "part = read_liquid_part B (drop (unat (fh_liquid_map_offset (read_file_header B file))) file)"
  obtain ys j where ys: "for_each (push_liquid_vert (lp_header part) (lp_map part) (tile_offset x) (tile_offset y))
      [0..<V9_SIZE_SQ] (liquid_verts m, 0) = Inr (liquid_verts m @ ys, j)" "length ys = 49923"
    using push_liquid_verts_total [of "lp_map part" "lp_header part" "tile_offset x" "tile_offset y" V9_SIZE_SQ "liquid_verts m"]
      read_liquid_part_map unfolding part_def by (auto simp: terrain_sizes simp del: upt_rec_numeral)
  obtain ts where ts: "square_triangles (int ?n) True [Top, Bottom] portion = Inr ts"
      "length ts = 3 * (2 * length (loop_squares portion))" "set ts \<subseteq> {int ?n..<int ?n + int 16641}"
    using square_triangles_total [of "int ?n" True "[Top, Bottom]" portion] n by auto
  have "tris_in ts (liquid_verts m @ ys)"
    using assms(1) ts(3) ys(2) by (intro fresh_tris_in) (simp_all add: loaded_portions_def wf_mesh_def)
  moreover have "load_liquid B file x y portion m = Inr (m\<lparr>liquid_verts := liquid_verts m @ ys\<rparr>, part, ts)"
    using ys(1) ts(1) n by (simp add: load_liquid_def part_def [symmetric] Let_def as_i32_small)
  ultimately show ?thesis using ys(2) ts(2) by blast
qed

lemma loaded_portions_grow:
  assumes "loaded_portions k m" "length ys = 99075 \<or> ys = []" "length zs = 49923 \<or> zs = []"
  shows "loaded_portions (Suc k) (m\<lparr>solid_verts := solid_verts m @ ys, liquid_verts := liquid_verts m @ zs\<rparr>)"
proof -
  have "3 dvd length (vs @ ws)" if "3 dvd length vs" "length ws = 99075 \<or> length ws = 49923 \<or> ws = []" for vs ws :: "f32 list"
    using that by (auto intro: dvd_add)
  then show ?thesis
    using assms tris_in_sub [OF _ subset_refl] by (auto simp: loaded_portions_def wf_mesh_def)
qed

lemma load_map_file_total:
  assumes "loaded_portions k m" "k < 5"
  shows "\<exists>b m'. load_map_file B skip_liquid file x y portion m = Inr (b, m') \<and> loaded_portions (Suc k) m'"
proof -
  define h where "h = read_file_header B file"
  let ?terrain = "hh_flags (fst (read_height_header B (drop (unat (fh_height_map_offset h)) file))) AND MAP_HEIGHT_NO_HEIGHT = 0"
    and ?liquid = "fh_liquid_map_offset h \<noteq> 0 \<and> \<not> skip_liquid" and ?n = "2 * length (loop_squares portion)"
  have "\<exists>ys holes ts. (if ?terrain then load_terrain B file x y portion m else Inr (m, replicate 256 0, [])) =
      Inr (m\<lparr>solid_verts := solid_verts m @ ys\<rparr>, holes, ts) \<and> (length ys = 99075 \<or> ys = []) \<and>
      (ts = [] \<or> length ts = 6 * ?n) \<and> tris_in ts (solid_verts m @ ys)"
  proof (cases ?terrain)
    case True
    show ?thesis unfolding if_P [OF True] using load_terrain_total [OF assms(1)] assms(2) less_imp_le by blast
  qed (rule exI [of _ "[]"], simp)
  then obtain ys holes ts where t: "(if ?terrain then load_terrain B file x y portion m else Inr (m, replicate 256 0, [])) =
      Inr (m\<lparr>solid_verts := solid_verts m @ ys\<rparr>, holes, ts)" "length ys = 99075 \<or> ys = []"
      "ts = [] \<or> length ts = 6 * ?n" "tris_in ts (solid_verts m @ ys)" by blast
  let ?m1 = "m\<lparr>solid_verts := solid_verts m @ ys\<rparr>"
  have m1: "loaded_portions (Suc k) ?m1" using loaded_portions_grow [OF assms(1) t(2), of "[]"] by simp
  let ?l = "if ?liquid then bind_result (load_liquid B file x y portion ?m1) (\<lambda>(m, part, ltriangles).
             Inr (m, lp_type_loaded part, lp_flags part, ltriangles)) else Inr (?m1, False, replicate 256 0, [])"
  have "\<exists>zs loaded flags ls. ?l = Inr (?m1\<lparr>liquid_verts := liquid_verts m @ zs\<rparr>, loaded, flags, ls) \<and>
      (length zs = 49923 \<or> zs = []) \<and> (ls = [] \<or> length ls = 3 * ?n) \<and> tris_in ls (liquid_verts m @ zs)"
  proof (cases ?liquid)
    case True
    obtain zs part ls where "load_liquid B file x y portion ?m1 = Inr (?m1\<lparr>liquid_verts := liquid_verts ?m1 @ zs\<rparr>, part, ls)"
        "length zs = 49923" "length ls = 3 * ?n" "tris_in ls (liquid_verts ?m1 @ zs)"
      using load_liquid_total [OF m1, of B "file" x y portion] assms(2) by auto
    then show ?thesis unfolding if_P [OF True] by (intro exI [of _ zs]) simp
  qed (rule exI [of _ "[]"], auto)
  then obtain zs loaded flags ls where l: "?l = Inr (?m1\<lparr>liquid_verts := liquid_verts m @ zs\<rparr>, loaded, flags, ls)"
      "length zs = 49923 \<or> zs = []" "ls = [] \<or> length ls = 3 * ?n" "tris_in ls (liquid_verts m @ zs)" by blast
  let ?m2 = "?m1\<lparr>liquid_verts := liquid_verts m @ zs\<rparr>"
  let ?t = "\<lparr>ti_type_loaded = loaded, ti_flags = flags, ti_holes = holes, ti_lverts = liquid_verts ?m2, ti_ltris = ls, ti_ttris = ts\<rparr>"
  have m2: "loaded_portions (Suc k) ?m2" using loaded_portions_grow [OF assms(1) t(2) l(2)] by simp
  have "input_for ?n ?t ?m2"
    using t(3,4) l(3,4) m2 assms(2) by (auto simp: input_for_def loaded_portions_def)
  from resolve_portion_total [OF this] m2 obtain b m' where "resolve_portion ?t portion ?m2 = Inr (b, m')" "loaded_portions (Suc k) m'"
    by (auto simp: loaded_portions_def)
  moreover have "loaded_portions (Suc k) m" using loaded_portions_grow [OF assms(1), of "[]" "[]"] by simp
  ultimately show ?thesis
    unfolding load_map_file_def Let_def h_def [symmetric] t(1) bind_result_simps prod.case l(1) by auto
qed

lemma load_map_portion_total:
  assumes "loaded_portions k m" "k < 5"
  shows "\<exists>b m'. load_map_portion B skip_liquid maps map_id x y portion m = Inr (b, m') \<and> loaded_portions (Suc k) m'"
  using load_map_file_total [OF assms] loaded_portions_grow [OF assms(1), of "[]" "[]"]
  unfolding load_map_portion_def by (cases "maps (fmt0 3 map_id @ fmt0 2 y @ fmt0 2 x @ ''.map'')") auto

lemma load_border_total:
  assumes "loaded_portions k m" "k + length ps \<le> 5"
  shows "\<exists>m'. for_each (load_border B skip_liquid maps map_id) ps m = Inr m' \<and> loaded_portions (k + length ps) m'"
  using assms
proof (induction ps arbitrary: k m)
  case (Cons p ps)
  obtain x y portion where p: "p = (x, y, portion)" by (metis prod_cases3)
  obtain b m1 where m1: "load_map_portion B skip_liquid maps map_id x y portion m = Inr (b, m1)" "loaded_portions (Suc k) m1"
    using load_map_portion_total [OF Cons.prems(1)] Cons.prems(2) by fastforce
  show ?case using Cons.IH [OF m1(2)] Cons.prems(2) m1(1) by (simp add: p load_border_def)
qed simp

lemma load_map_total:
  "\<exists>m. load_map B skip_liquid maps map_id x y mesh_data_default = Inr m \<and> loaded_portions 5 m"
proof -
  have "loaded_portions 0 mesh_data_default"
    by (simp add: loaded_portions_def wf_mesh_def mesh_data_default_def)
  from load_map_portion_total [OF this, of B skip_liquid maps map_id x y Entire] obtain b m
    where m: "load_map_portion B skip_liquid maps map_id x y Entire mesh_data_default = Inr (b, m)" "loaded_portions (Suc 0) m" by auto
  have "loaded_portions 5 m" using m(2) by (simp add: loaded_portions_def)
  with m load_border_total [OF m(2), of "[(x + 1, y, Left), (x - 1, y, Right), (x, y + 1, Top), (x, y - 1, Bottom)]" B skip_liquid maps map_id]
  show ?thesis by (simp add: load_map_def eval_nat_numeral del: for_each.simps)
qed

text \<open>C36: whatever the map files of a tile and its neighbours hold, truncated or corrupted
  included, loading the terrain of the tile does not panic, and the mesh it gives to the
  unchecked code of Recast is in bounds: every index of a ground or liquid triangle names
  a vertex, triangles are complete, and there is one area, water or magma, per liquid triangle.\<close>

theorem load_map_memory_safe:
  "\<exists>m. load_map B skip_liquid maps map_id tile_x tile_y mesh_data_default = Inr m \<and>
     (\<forall>t \<in> set (solid_tris m). 0 \<le> t \<and> 3 * t + 2 < int (length (solid_verts m))) \<and>
     (\<forall>t \<in> set (liquid_tris m). 0 \<le> t \<and> 3 * t + 2 < int (length (liquid_verts m))) \<and>
     3 dvd length (solid_tris m) \<and> length (liquid_tris m) = 3 * length (liquid_type m) \<and>
     set (liquid_type m) \<subseteq> {NAV_AREA_WATER, NAV_AREA_MAGMA_SLIME}"
  using load_map_total [of B skip_liquid maps map_id tile_x tile_y]
  by (auto simp: loaded_portions_def wf_mesh_def tris_in_def)

theorem load_map_memory_safe_witness:
  "\<exists>m. load_map std_byteorder False (\<lambda>f. if f = ''0003248.map'' then Some [] else None) 0 48 32 mesh_data_default = Inr m \<and>
     (\<forall>t \<in> set (solid_tris m). 0 \<le> t \<and> 3 * t + 2 < int (length (solid_verts m)))"
  using load_map_memory_safe [of std_byteorder False "\<lambda>f. if f = ''0003248.map'' then Some [] else None" 0 48 32] by blast

end
