(* ===== verification/Terrain_Roundtrip.thy ===== *)
theory Terrain_Roundtrip
  imports Terrain_Correct
begin

text \<open>
  The map extractor and the movement map generator agree on the map file: the sections that
  \<^verbatim>\<open>map_dbc.rs\<close> writes for a grid of terrain are what \<^verbatim>\<open>movemap_gen.rs\<close> reads back.
\<close>

section \<open>Readers against writers\<close>

context little_endian
begin

lemma lr_enc [simp]:
  "lr_u32 B (enc_u32 B v @ r) = (v, r)" "lr_u16 B (enc_u16 B w @ r) = (w, r)" "lr_u8 (b # r) = (b, r)"
  by (simp_all add: lr_u32_def lr_u16_def lr_u8_def or_zero_def bind_rd_def take_rd_def)

lemma lr_enc_end [simp]: "lr_u32 B (enc_u32 B v) = (v, [])"
  using lr_enc(1) [of v "[]"] by simp

lemma lr_many_enc:
  assumes "\<And>x r. m (enc x @ r) = (x, r)" "n = length xs"
  shows "lr_many n m (concat (map enc xs) @ r) = (xs, r)"
  unfolding assms(2) by (induction xs) (simp_all add: assms(1))

lemmas lr_many_words =
  lr_many_enc [where m = "lr_u32 B" and enc = "enc_u32 B", OF lr_enc(1)]
  lr_many_enc [where m = "lr_u16 B" and enc = "enc_u16 B", OF lr_enc(2)]

lemma lr_many_u8: "n = length xs \<Longrightarrow> lr_many n lr_u8 (xs @ r) = (xs, r)"
  by (induction xs arbitrary: n) simp_all

lemma read_file_header_write: "read_file_header B (write_map_file B h s) = h"
proof -
  let ?vs = "[fh_map_magic h, fh_version_magic h, fh_area_map_offset h, fh_area_map_size h, fh_height_map_offset h,
    fh_height_map_size h, fh_liquid_map_offset h, fh_liquid_map_size h, fh_holes_offset h, fh_holes_size h]"
  have "lr_many 10 (lr_u32 B) (concat (map (enc_u32 B) ?vs) @ r) = (?vs, r)" for r
    by (rule lr_many_words(1)) simp
  then show ?thesis unfolding read_file_header_def write_map_file_def Let_def by (simp only: fst_conv) simp
qed

lemma read_height_header_section: "read_height_header B (height_section B hh payload @ r) = (hh, payload @ r)"
  by (simp add: read_height_header_def height_section_def)

lemma read_liquid_header_section:
  "read_liquid_header B (liquid_section B (Some lh) payload @ r) = (lh, payload @ r)"
  by (simp add: read_liquid_header_def liquid_section_def)

lemma read_holes_write:
  assumes "small_sections s" "map_file_header s = Inr h"
  shows "read_holes B h (write_map_file B h s) = ms_holes s"
proof -
  have t: "unat (fh_holes_offset h) = holes_at s" "unat (fh_holes_size h) = 512" using map_file_header_total [OF assms(1)] assms(2) by auto
  have "fh_holes_size h > 0" using t(2) by (simp add: word_greater_zero_iff unat_eq_zero [symmetric] del: unat_eq_zero)
  moreover have "lr_many 256 (lr_u16 B) (concat (map (enc_u16 B) (ms_holes s)) @ []) = (ms_holes s, [])"
    using assms(1) by (intro lr_many_words(2)) (simp add: small_sections_def)
  ultimately show ?thesis by (simp add: read_holes_def t(1) sections_at)
qed

text \<open>Without packing the heights come back bit by bit, unless the tile is flat.\<close>

lemma read_heights_build:
  assumes "build_height_header B v8 v9 lo hi config = (hh, payload)" "\<not> allow_float_to_int config"
    and "length v9 = 16641" "length v8 = 16384" "hh_flags hh AND MAP_HEIGHT_NO_HEIGHT = 0"
  shows "read_heights B hh (payload @ r) = (v9, v8)"
proof -
  have f: "hh_flags hh = 0" "payload = concat (map (enc_u32 B) (v9 @ v8))"
    using assms(1,2,5) by (auto simp: build_height_header_def Let_def MAP_HEIGHT_NO_HEIGHT_def split: if_splits)
  have "lr_many V9_SIZE_SQ (lr_u32 B) (concat (map (enc_u32 B) v9) @ s) = (v9, s)"
    "lr_many V8_SIZE_SQ (lr_u32 B) (concat (map (enc_u32 B) v8) @ s) = (v8, s)" for s
    using assms(3,4) by (simp_all add: lr_many_words terrain_sizes)
  then show ?thesis by (simp add: read_heights_def f(1)) (simp add: f(2))
qed

lemma uniform_flags:
  assumes "\<not> list_ex (\<lambda>(entry, flag). entry \<noteq> e \<or> flag \<noteq> f) (zip entries flags)" "length entries = length flags"
  shows "flags = replicate (length flags) f"
proof -
  have "flags ! i = f" if "i < length flags" for i
  proof -
    have "(entries ! i, flags ! i) \<in> set (zip entries flags)" using that assms(2) by (auto simp: in_set_zip)
    then show ?thesis using assms(1) by (fastforce simp: list_ex_iff)
  qed
  then show ?thesis by (intro nth_equalityI) simp_all
qed

lemma scanned_flags:
  "lh_flags (scanned_header s nh full ff fe) AND MAP_LIQUID_NO_TYPE = (if full then 0 else MAP_LIQUID_NO_TYPE)"
  "lh_flags (scanned_header s nh full ff fe) AND MAP_LIQUID_NO_HEIGHT = (if nh then MAP_LIQUID_NO_HEIGHT else 0)"
  by (simp_all add: scanned_header_def MAP_LIQUID_NO_TYPE_def MAP_LIQUID_NO_HEIGHT_def)

lemma liquid_rows_exact:
  assumes "wf_range s"
  defines "w \<equiv> sc_max_x s - sc_min_x s + 2" and "n \<equiv> sc_max_y s - sc_min_y s + 2"
  shows "length (liquid_rows (sc_min_x s) (sc_min_y s) w n (sc_liquid_height s)) = w * n"
proof -
  have "length (take w (drop (idx_v9 (y + sc_min_y s) (sc_min_x s)) (sc_liquid_height s))) = w" if "y < n" for y
  proof -
    have "y + sc_min_y s \<le> 128" "sc_min_x s + w \<le> 129" "length (sc_liquid_height s) = 16641"
      using that assms(1) unfolding wf_range_def w_def n_def by linarith+
    then have "idx_v9 (y + sc_min_y s) (sc_min_x s) + w \<le> length (sc_liquid_height s)"
      by (simp add: idx_v9_def adt_sizes)
    then show ?thesis by simp
  qed
  then have "map (\<lambda>y. length (take w (drop (idx_v9 (y + sc_min_y s) (sc_min_x s)) (sc_liquid_height s)))) [0..<n] = replicate n w"
    by (intro nth_equalityI) simp_all
  then have "sum_list (map (\<lambda>y. length (take w (drop (idx_v9 (y + sc_min_y s) (sc_min_x s)) (sc_liquid_height s)))) [0..<n]) = n * w"
    by (simp only: sum_list_replicate) simp
  then show ?thesis by (simp add: liquid_rows_def length_concat comp_def)
qed

lemma read_liquid_part_scanned:
  fixes s nh full ff fe entries flags r
  defines "lh \<equiv> scanned_header s nh full ff fe"
  defines "part \<equiv> read_liquid_part B (liquid_section B (Some lh) (scanned_payload B s nh full entries flags) @ r)"
  assumes "wf_range s" "length entries = 256" "length flags = 256"
  shows "lp_header part = lh" "lp_type_loaded part = full" "lp_flags part = (if full then flags else replicate 256 ff)"
    "lp_map part = (if nh then None else Some (liquid_rows (sc_min_x s) (sc_min_y s) (sc_max_x s - sc_min_x s + 2)
        (sc_max_y s - sc_min_y s + 2) (sc_liquid_height s)))"
proof -
  have types: "lr_many 256 (lr_u16 B) (concat (map (enc_u16 B) entries) @ flags @ q) = (entries, flags @ q)"
    "lr_many 256 lr_u8 (flags @ q) = (flags, q)" for q
    using assms(4,5) by (simp_all add: lr_many_words(2) lr_many_u8)
  let ?rows = "liquid_rows (sc_min_x s) (sc_min_y s) (sc_max_x s - sc_min_x s + 2) (sc_max_y s - sc_min_y s + 2) (sc_liquid_height s)"
  have rows: "lr_many (unat (lh_width lh) * unat (lh_height lh)) (lr_u32 B) (concat (map (enc_u32 B) ?rows) @ q) = (?rows, q)" for q
    using liquid_rows_exact [OF assms(3)] unat_scanned [OF assms(3)] unfolding lh_def by (intro lr_many_words(1)) simp
  note flags = scanned_flags [of s nh full ff fe, folded lh_def]
  have no: "MAP_LIQUID_NO_TYPE \<noteq> 0" "MAP_LIQUID_NO_HEIGHT \<noteq> 0" by (simp_all add: MAP_LIQUID_NO_TYPE_def MAP_LIQUID_NO_HEIGHT_def)
  have read: "read_liquid_header B (liquid_section B (Some lh) payload @ r) = (lh, payload @ r)" for payload
    by (rule read_liquid_header_section)
  have "part = \<lparr>lp_header = lh, lp_flags = if full then flags else replicate 256 ff, lp_type_loaded = full,
      lp_map = if nh then None else Some ?rows\<rparr>"
  proof (cases full)
    case True
    show ?thesis
      unfolding part_def read_liquid_part_def read Let_def flags prod.case scanned_payload_def if_P [OF True]
      by (cases nh) (simp_all only: if_True if_False refl append_assoc types rows prod.case fst_conv no append_Nil True)
  next
    case False
    have ff: "lh_liquid_flags lh = ff" using False by (simp add: lh_def scanned_header_def)
    show ?thesis
      unfolding part_def read_liquid_part_def read Let_def flags prod.case scanned_payload_def if_not_P [OF False] ff
      by (cases nh) (simp_all only: if_True if_False refl append_assoc types rows prod.case fst_conv no append_Nil False)
  qed
  then show "lp_header part = lh" "lp_type_loaded part = full" "lp_flags part = (if full then flags else replicate 256 ff)"
    "lp_map part = (if nh then None else Some ?rows)" by simp_all
qed

lemma uniform_liquid_flags:
  assumes "\<not> mixed_liquid entries flags" "length entries = 256" "length flags = 256"
  shows "replicate 256 (case flags of f # _ \<Rightarrow> f | [] \<Rightarrow> 0) = flags"
  using uniform_flags [OF assms(1) [unfolded mixed_liquid_def]] assms(2,3) by metis

lemma limit_heights_keeps:
  "limit_heights config g = (g', lo, hi) \<Longrightarrow> g_holes g' = g_holes g \<and> g_liquid_flags g' = g_liquid_flags g \<and>
     g_liquid_entry g' = g_liquid_entry g \<and> g_liquid_show g' = g_liquid_show g \<and> g_liquid_height g' = g_liquid_height g"
  by (auto simp: limit_heights_def Let_def split_beta split: if_splits)

lemma liquid_roundtrip:
  assumes "wf_grid g" "build_liquid_header B (g_liquid_show g) (g_liquid_height g) (g_liquid_entry g) (g_liquid_flags g) config = Inr (lq, lp)"
  shows "case lq of None \<Rightarrow> g_liquid_flags g = replicate 256 0
    | Some lh \<Rightarrow> lp_flags (read_liquid_part B (liquid_section B lq lp @ r)) = g_liquid_flags g \<and>
        lp_type_loaded (read_liquid_part B (liquid_section B lq lp @ r)) = mixed_liquid (g_liquid_entry g) (g_liquid_flags g)"
proof -
  have len: "length (g_liquid_entry g) = 256" "length (g_liquid_flags g) = 256" "length (g_liquid_show g) = 16384"
    "length (g_liquid_height g) = 16641" using assms(1) by (simp_all add: wf_grid_def)
  let ?ff = "case g_liquid_flags g of f # _ \<Rightarrow> f | [] \<Rightarrow> 0" and ?fe = "case g_liquid_entry g of e # _ \<Rightarrow> e | [] \<Rightarrow> 0"
    and ?mixed = "mixed_liquid (g_liquid_entry g) (g_liquid_flags g)"
  note uniform = uniform_liquid_flags [OF _ len(1,2)]
  have "?ff = 0 \<and> \<not> ?mixed \<and> (lq, lp) = (None, []) \<or> (\<exists>s nh. wf_range s \<and> (lq, lp) =
      (Some (scanned_header s nh ?mixed ?ff ?fe), scanned_payload B s nh ?mixed (g_liquid_entry g) (g_liquid_flags g)))"
    using build_liquid_shape [OF len(3,4), of "g_liquid_flags g" "g_liquid_entry g" B config]
    unfolding assms(2) sum.inject by simp
  then consider (none) "?ff = 0" "\<not> ?mixed" "lq = None"
    | (some) s nh where "wf_range s" "lq = Some (scanned_header s nh ?mixed ?ff ?fe)"
        "lp = scanned_payload B s nh ?mixed (g_liquid_entry g) (g_liquid_flags g)"
    by blast
  then show ?thesis
  proof cases
    case none
    then show ?thesis using uniform by simp
  next
    case some
    note part = read_liquid_part_scanned [OF some(1) len(1,2), of nh ?mixed ?ff ?fe r]
    show ?thesis unfolding some(2,3) option.case part(2,3) using uniform by simp
  qed
qed

lemma grid_roundtrip:
  assumes "wf_grid g" "grid_sections B config g = Inr s" "map_file_header s = Inr h" "small_sections s" "\<not> allow_float_to_int config"
  defines "bs \<equiv> write_map_file B h s"
  defines "hx \<equiv> read_height_header B (drop (unat (fh_height_map_offset h)) bs)"
    and "part \<equiv> read_liquid_part B (drop (unat (fh_liquid_map_offset h)) bs)" and "g' \<equiv> fst (limit_heights config g)"
  shows "read_file_header B bs = h" "fh_version_magic h = MAP_VERSION_MAGIC" "read_holes B h bs = g_holes g"
    "hh_flags (fst hx) AND MAP_HEIGHT_NO_HEIGHT = 0 \<longrightarrow> read_heights B (fst hx) (snd hx) = (g_v9 g', g_v8 g')"
    "if fh_liquid_map_offset h = 0 then g_liquid_flags g = replicate 256 0
     else lp_flags part = g_liquid_flags g \<and> lp_type_loaded part = mixed_liquid (g_liquid_entry g) (g_liquid_flags g)"
proof -
  obtain lo hi where lim: "limit_heights config g = (g', lo, hi)" unfolding g'_def by (metis prod.collapse)
  note keep = limit_heights_keeps [OF lim]
  have wf: "wf_grid g'" using limit_heights_wf [OF assms(1), of config] by (simp add: g'_def)
  obtain hh hp where hh: "build_height_header B (g_v8 g') (g_v9 g') lo hi config = (hh, hp)" by fastforce
  obtain lq lp where lq: "build_liquid_header B (g_liquid_show g') (g_liquid_height g') (g_liquid_entry g') (g_liquid_flags g') config = Inr (lq, lp)"
      "ms_liquid_header s = lq" "ms_liquid_payload s = lp" "ms_holes s = g_holes g'" "ms_height_header s = hh" "ms_height_payload s = hp"
    using assms(2) by (auto simp: grid_sections_def lim hh split_beta Let_def)
  have t: "fh_version_magic h = MAP_VERSION_MAGIC" "unat (fh_height_map_offset h) = height_at s"
    "unat (fh_liquid_map_offset h) = (if ms_liquid_header s = None then 0 else liquid_at s)"
    using map_file_header_total [OF assms(4)] assms(3) by auto
  show "read_file_header B bs = h" unfolding bs_def by (rule read_file_header_write)
  show "fh_version_magic h = MAP_VERSION_MAGIC" by (rule t)
  show "read_holes B h bs = g_holes g" unfolding bs_def using read_holes_write [OF assms(4,3)] lq(4) keep by simp
  have hx: "hx = (hh, hp @ liquid_section B lq lp @ concat (map (enc_u16 B) (ms_holes s)))"
    unfolding hx_def bs_def t(2) sections_at(2) lq(2,3,5,6) by (rule read_height_header_section)
  show "hh_flags (fst hx) AND MAP_HEIGHT_NO_HEIGHT = 0 \<longrightarrow> read_heights B (fst hx) (snd hx) = (g_v9 g', g_v8 g')"
    unfolding hx fst_conv snd_conv using read_heights_build [OF hh assms(5)] wf unfolding wf_grid_def by blast
  have zero: "fh_liquid_map_offset h = 0 \<longleftrightarrow> lq = None"
  proof -
    have "fh_liquid_map_offset h = 0 \<longleftrightarrow> unat (fh_liquid_map_offset h) = 0" by (simp add: unat_eq_0)
    also have "\<dots> \<longleftrightarrow> lq = None" unfolding t(3) lq(2) by (simp add: liquid_at_def)
    finally show ?thesis .
  qed
  have "part = read_liquid_part B (liquid_section B lq lp @ concat (map (enc_u16 B) (ms_holes s)))" if "lq \<noteq> None"
  proof -
    have at: "unat (fh_liquid_map_offset h) = liquid_at s" using that unfolding t(3) lq(2) by (rule if_not_P)
    show ?thesis unfolding part_def bs_def at sections_at(3) lq(2,3) ..
  qed
  with liquid_roundtrip [OF wf lq(1), of "concat (map (enc_u16 B) (ms_holes s))"] keep
  show "if fh_liquid_map_offset h = 0 then g_liquid_flags g = replicate 256 0
     else lp_flags part = g_liquid_flags g \<and> lp_type_loaded part = mixed_liquid (g_liquid_entry g) (g_liquid_flags g)"
    unfolding zero by (cases lq) simp_all
qed

end



section \<open>Uniform liquids\<close>

text \<open>A tile whose cells all have the same liquid is written without the types of its cells;
  the generator then has the flags but not the mark that they are loaded, and makes no
  liquid triangle of the tile at all.\<close>

lemma resolve_half_no_liquid:
  assumes "\<not> ti_type_loaded t" "resolve_half t i s = Inr s'"
  shows "liquid_tris (rs_mesh s') = liquid_tris (rs_mesh s)"
  using assms by (auto simp: resolve_half_def Let_def store_half_def split: if_splits)

lemma resolve_portion_no_liquid:
  assumes "\<not> ti_type_loaded t" "resolve_portion t portion m = Inr (b, m')"
  shows "liquid_tris m' = liquid_tris m"
proof -
  have "liquid_tris (rs_mesh s') = liquid_tris (rs_mesh s)" if "for_each (resolve_square t) is s = Inr s'" for "is" s s'
    using that
  proof (induction "is" arbitrary: s)
    case (Cons i "is")
    then show ?case by (auto simp: resolve_square_def dest!: resolve_half_no_liquid [OF assms(1)])
  qed simp
  from this [of "loop_squares portion"] show ?thesis
    using assms(2) by (fastforce simp: resolve_portion_def Let_def split: if_splits)
qed

lemma load_keeps_liquid_tris:
  "load_terrain B file x y portion m = Inr (m1, holes, ts) \<Longrightarrow> liquid_tris m1 = liquid_tris m"
  "load_liquid B file x y portion m = Inr (m2, part, ls) \<Longrightarrow> liquid_tris m2 = liquid_tris m \<and>
     part = read_liquid_part B (drop (unat (fh_liquid_map_offset (read_file_header B file))) file)"
  by (auto simp: load_terrain_def load_liquid_def Let_def split_beta)

theorem uniform_liquid_ignored:
  assumes "load_map_file B skip_liquid file x y portion m = Inr (b, m')"
    and "\<not> lp_type_loaded (read_liquid_part B (drop (unat (fh_liquid_map_offset (read_file_header B file))) file))"
  shows "liquid_tris m' = liquid_tris m"
proof (cases "m' = m")
  case False
  have "\<exists>t m2. resolve_portion t portion m2 = Inr (b, m') \<and> \<not> ti_type_loaded t \<and> liquid_tris m2 = liquid_tris m"
    using assms False
    by (auto simp: load_map_file_def Let_def split: if_splits dest!: load_keeps_liquid_tris)
      (intro exI conjI, assumption, simp, simp)+
  then show ?thesis using resolve_portion_no_liquid by metis
qed simp

end
