(* ===== verification/Vmap_Load.thy ===== *)
theory Vmap_Load
  imports Terrain_Mesh
begin

text \<open>
  The model side of the movement map generator, \<^verbatim>\<open>crates/extractors/src/movemap_gen.rs\<close>: reading
  the tree of a map and the models it names, and adding their triangles and liquids to
  the mesh.  A reader takes the bytes still to come; a failed read of a \<^verbatim>\<open>Cursor\<close> leaves it at
  the end, and a position past the end reads as the end.  The directory \<open>vmaps\<close> gives the
  contents of the files that can be read; the sine and cosine, whose precision Rust leaves
  open, are the parameter \<open>sin_cos\<close>.
\<close>

section \<open>Models\<close>

type_synonym f3 = "f32 \<times> f32 \<times> f32"

record vmap_liquid_data =
  vl_tiles_x :: u32
  vl_tiles_y :: u32
  vl_corner :: f3
  vl_liq_type :: u32
  vl_heights :: "f32 list"
  vl_flags :: "u8 list"

record model_spawn_data =
  sd_name :: string
  sd_pos :: f3
  sd_rot :: f3
  sd_scale :: f32
  sd_flags :: u32

record group_data =
  gd_vertices :: "f3 list"
  gd_triangles :: "(u32 \<times> u32 \<times> u32) list"
  gd_liquid :: "vmap_liquid_data option"

section \<open>Readers\<close>

definition lr_f3 :: "byteorder \<Rightarrow> f3 lenient" where
  "lr_f3 B bs = (let (x, bs) = lr_u32 B bs; (y, bs) = lr_u32 B bs; (z, bs) = lr_u32 B bs in ((x, y, z), bs))"

text \<open>Bounds, tree and objects are skipped.\<close>

definition skip_bih :: "byteorder \<Rightarrow> bytes \<Rightarrow> bytes" where
  "skip_bih B bs =
     (let (bounds, bs) = lr_many 6 (lr_u32 B) bs;
          (tree_size, bs) = lr_u32 B bs; bs = drop (unat tree_size * 4) bs;
          (obj_count, bs) = lr_u32 B bs in drop (unat obj_count * 4) bs)"

definition read_exact :: "nat \<Rightarrow> bytes \<Rightarrow> (bytes \<times> bytes) option" where
  "read_exact n bs = (if n \<le> length bs then Some (take n bs, drop n bs) else None)"

definition trim_end_nul :: "string \<Rightarrow> string" where
  "trim_end_nul s = rev (dropWhile (\<lambda>c. c = CHR 0x00) (rev s))"

definition read_model_spawn :: "byteorder \<Rightarrow> bytes \<Rightarrow> (model_spawn_data \<times> bytes) option" where
  "read_model_spawn B bs =
     (let (flags, bs) = lr_u32 B bs; (adt_id, bs) = lr_u16 B bs; (id, bs) = lr_u32 B bs;
          (pos, bs) = lr_f3 B bs; (rot, bs) = lr_f3 B bs; (scale, bs) = lr_u32 B bs;
          bs = (if flags AND 4 \<noteq> 0 then snd (lr_many 6 (lr_u32 B) bs) else bs);
          (name_len, bs) = lr_u32 B bs in
      case read_exact (unat name_len) bs of
        None \<Rightarrow> None
      | Some (name_bytes, bs) \<Rightarrow>
          Some (\<lparr>sd_name = trim_end_nul (from_utf8_lossy name_bytes), sd_pos = pos, sd_rot = rot,
                 sd_scale = scale, sd_flags = flags\<rparr>, bs))"

text \<open>The products of the liquid sizes are checked; too few flags fail the model.\<close>

definition read_group_liquid :: "byteorder \<Rightarrow> bytes \<Rightarrow> (vmap_liquid_data \<times> bytes) option result" where
  "read_group_liquid B bs =
     (let (tiles_x, bs) = lr_u32 B bs; (tiles_y, bs) = lr_u32 B bs; (corner, bs) = lr_f3 B bs;
          (liq_type, bs) = lr_u32 B bs in
      bind_result (add_u32 tiles_x 1) (\<lambda>verts_x.
      bind_result (add_u32 tiles_y 1) (\<lambda>verts_y.
      bind_result (mul_u32 verts_x verts_y) (\<lambda>data_size.
      let (heights, bs) = lr_many (unat data_size) (lr_u32 B) bs in
      bind_result (mul_u32 tiles_x tiles_y) (\<lambda>flags_size.
      Inr (case read_exact (unat flags_size) bs of
        None \<Rightarrow> None
      | Some (flags, bs) \<Rightarrow>
          Some (\<lparr>vl_tiles_x = tiles_x, vl_tiles_y = tiles_y, vl_corner = corner, vl_liq_type = liq_type,
                 vl_heights = heights, vl_flags = flags\<rparr>, bs)))))))"

definition read_group_rest :: "byteorder \<Rightarrow> f3 list \<Rightarrow> (u32 \<times> u32 \<times> u32) list \<Rightarrow> bytes \<Rightarrow> (group_data \<times> bytes) option result" where
  "read_group_rest B vertices triangles bs =
     (let bs = skip_bih B bs; (has_liquid, bs) = lr_u32 B bs in
      if has_liquid = 0 then
        Inr (Some (\<lparr>gd_vertices = vertices, gd_triangles = triangles, gd_liquid = None\<rparr>, bs))
      else
        bind_result (read_group_liquid B bs) (\<lambda>r. case r of
          None \<Rightarrow> Inr None
        | Some (l, bs) \<Rightarrow> Inr (Some (\<lparr>gd_vertices = vertices, gd_triangles = triangles, gd_liquid = Some l\<rparr>, bs))))"

definition read_group_model :: "byteorder \<Rightarrow> bytes \<Rightarrow> (group_data \<times> bytes) option result" where
  "read_group_model B bs =
     (let (mogp_flags, bs) = lr_u32 B bs; (group_wmo_id, bs) = lr_u32 B bs;
          (bounds, bs) = lr_many 6 (lr_u32 B) bs; bs = skip_bih B bs in
      case read_exact 4 bs of
        None \<Rightarrow> Inr None
      | Some (chunk_magic, bs) \<Rightarrow>
          let (n_verts, bs) = lr_u32 B bs; (vertices, bs) = lr_many (unat n_verts) (lr_f3 B) bs in
          case read_exact 4 bs of
            None \<Rightarrow> Inr None
          | Some (chunk_magic, bs) \<Rightarrow>
              let (n_tris, bs) = lr_u32 B bs; (triangles, bs) = lr_many (unat n_tris) (lr_f3 B) bs in
              read_group_rest B vertices triangles bs)"

primrec read_groups :: "byteorder \<Rightarrow> nat \<Rightarrow> bytes \<Rightarrow> group_data list option result" where
  "read_groups B 0 bs = Inr (Some [])"
| "read_groups B (Suc n) bs =
     bind_result (read_group_model B bs) (\<lambda>r. case r of
       None \<Rightarrow> Inr None
     | Some (g, bs) \<Rightarrow> bind_result (read_groups B n bs) (\<lambda>gs. Inr (map_option (\<lambda>gs. g # gs) gs)))"

definition load_world_model :: "byteorder \<Rightarrow> (string \<Rightarrow> bytes option) \<Rightarrow> string \<Rightarrow> group_data list option result" where
  "load_world_model B vmaps name =
     (case vmaps name of
        None \<Rightarrow> Inr None
      | Some data \<Rightarrow>
          if length data < 12 then Inr None
          else
            let bs = drop 8 data;
                (root_wmo_id, bs) = lr_u32 B bs; (n_groups, bs) = lr_u32 B bs; (model_flags, bs) = lr_u32 B bs
            in read_groups B (unat n_groups) (skip_bih B bs))"

section \<open>Transformation\<close>

definition matrix3_from_euler_xyz :: "(f32 \<Rightarrow> f32 \<times> f32) \<Rightarrow> f32 \<Rightarrow> f32 \<Rightarrow> f32 \<Rightarrow> f3 \<times> f3 \<times> f3" where
  "matrix3_from_euler_xyz sin_cos x y z =
     (let (sx, cx) = sin_cos x; (sy, cy) = sin_cos y; (sz, cz) = sin_cos z in
      ((f32_mul cy cz, f32_mul (f32_neg cy) sz, sy),
       (f32_add (f32_mul (f32_mul cz sx) sy) (f32_mul cx sz),
        f32_sub (f32_mul cx cz) (f32_mul (f32_mul sx sy) sz), f32_mul (f32_neg cy) sx),
       (f32_add (f32_mul (f32_mul (f32_neg cx) cz) sy) (f32_mul sx sz),
        f32_add (f32_mul cz sx) (f32_mul (f32_mul cx sy) sz), f32_mul cx cy)))"

definition dot3 :: "f3 \<Rightarrow> f3 \<Rightarrow> f32" where
  "dot3 r v = (case (r, v) of ((a, b, c), (x, y, z)) \<Rightarrow> f32_add (f32_add (f32_mul a x) (f32_mul b y)) (f32_mul c z))"

definition mat3_mul_vec3 :: "f3 \<times> f3 \<times> f3 \<Rightarrow> f3 \<Rightarrow> f3" where
  "mat3_mul_vec3 m v = (case m of (r0, r1, r2) \<Rightarrow> (dot3 r0 v, dot3 r1 v, dot3 r2 v))"

text \<open>\<^verbatim>\<open>PI * angle / -180.0\<close>\<close>

definition euler_angle :: "f32 \<Rightarrow> f32" where
  "euler_angle a = f32_div (f32_mul 0x40490FDB a) 0xC3340000"

record placement =
  pl_rotation :: "f3 \<times> f3 \<times> f3"
  pl_scale :: f32
  pl_position :: f3

definition spawn_placement :: "(f32 \<Rightarrow> f32 \<times> f32) \<Rightarrow> model_spawn_data \<Rightarrow> placement" where
  "spawn_placement sin_cos s =
     (case (sd_rot s, sd_pos s) of ((r0, r1, r2), (x, y, z)) \<Rightarrow>
        let half = f32_mul 0x42000000 GRID_SIZE in
        \<lparr>pl_rotation = matrix3_from_euler_xyz sin_cos (euler_angle r2) (euler_angle r0) (euler_angle r1),
         pl_scale = sd_scale s, pl_position = (f32_sub x half, f32_sub y half, z)\<rparr>)"

definition transform :: "placement \<Rightarrow> f3 \<Rightarrow> f3" where
  "transform p v =
     (case (mat3_mul_vec3 (pl_rotation p) v, pl_position p) of ((x, y, z), (px, py, pz)) \<Rightarrow>
        (f32_mul (f32_add (f32_mul x (pl_scale p)) px) 0xBF800000,
         f32_mul (f32_add (f32_mul y (pl_scale p)) py) 0xBF800000,
         f32_add (f32_mul z (pl_scale p)) pz))"

text \<open>The vertex as it is pushed, in the order y, z, x.\<close>

definition recast_order :: "f3 \<Rightarrow> f32 list" where
  "recast_order v = (case v of (x, y, z) \<Rightarrow> [y, z, x])"

section \<open>Adding models to the mesh\<close>

primrec add_indices :: "int \<Rightarrow> int list \<Rightarrow> int list result" where
  "add_indices offset [] = Inr []"
| "add_indices offset (i # is) =
     bind_result (add_i32 i offset) (\<lambda>a. bind_result (add_indices offset is) (\<lambda>as. Inr (a # as)))"

definition triangle_order :: "bool \<Rightarrow> u32 \<times> u32 \<times> u32 \<Rightarrow> int list" where
  "triangle_order is_m2 t =
     (case t of (a, b, c) \<Rightarrow>
        if is_m2 then [sint c, sint b, sint a] else [sint a, sint b, sint c])"

definition add_solid :: "bool \<Rightarrow> (f3 \<Rightarrow> f3) \<Rightarrow> group_data \<Rightarrow> mesh_data \<Rightarrow> mesh_data result" where
  "add_solid is_m2 place g m =
     (let offset = as_i32 (length (solid_verts m) div 3);
          verts = concat (map (\<lambda>v. recast_order (place v)) (gd_vertices g)) in
      bind_result (add_indices offset (concat (map (triangle_order is_m2) (gd_triangles g)))) (\<lambda>tris.
      Inr (m\<lparr>solid_verts := solid_verts m @ verts, solid_tris := solid_tris m @ tris\<rparr>)))"

definition group_liquid_type :: "u32 \<Rightarrow> u8" where
  "group_liquid_type t = (if t AND 3 = 0 \<or> t AND 3 = 1 then NAV_AREA_WATER else NAV_AREA_MAGMA_SLIME)"

definition u32_nat :: "nat \<Rightarrow> nat result" where
  "u32_nat n = (if n < 2 ^ 32 then Inr n else Inl overflow)"

definition liquid_vertex :: "vmap_liquid_data \<Rightarrow> nat \<Rightarrow> (f3 \<Rightarrow> f3) \<Rightarrow> nat \<times> nat \<Rightarrow> f32 list \<Rightarrow> f32 list result" where
  "liquid_vertex l verts_x place p verts =
     (case (p, vl_corner l) of ((x, y), (cx, cy, cz)) \<Rightarrow>
        bind_result (u32_nat (y * verts_x + x)) (\<lambda>k.
        bind_result (vec_get (vl_heights l) k) (\<lambda>h.
        Inr (verts @ recast_order (place (f32_add cx (f32_mul (f32_of_nat x) GRID_PART_SIZE),
          f32_add cy (f32_mul (f32_of_nat y) GRID_PART_SIZE), h))))))"

text \<open>The two triangles of a liquid tile, in the order they reach the mesh.\<close>

definition liquid_square :: "vmap_liquid_data \<Rightarrow> nat \<times> nat \<Rightarrow> int list \<Rightarrow> int list result" where
  "liquid_square l p tris =
     (case p of (x, y) \<Rightarrow>
        let tiles_x = unat (vl_tiles_x l); tiles_y = unat (vl_tiles_y l) in
        bind_result (u32_nat (x + y * tiles_x)) (\<lambda>flag_idx.
        case nth_opt (vl_flags l) flag_idx of
          None \<Rightarrow> Inr tris
        | Some f \<Rightarrow>
            if f AND 0x0F = 0x0F then Inr tris
            else
              let square = x * tiles_y + y in
              bind_result (u32_nat (square + tiles_y + 2 + x)) (\<lambda>top.
              let idx1 = as_i32 (square + x); idx2 = as_i32 (square + 1 + x);
                  idx3 = as_i32 top; idx4 = as_i32 (square + tiles_y + 1 + x)
              in Inr (tris @ [idx2, idx1, idx3, idx3, idx1, idx4]))))"

definition add_liquid :: "(f3 \<Rightarrow> f3) \<Rightarrow> vmap_liquid_data \<Rightarrow> mesh_data \<Rightarrow> mesh_data result" where
  "add_liquid place l m =
     bind_result (add_u32 (vl_tiles_x l) 1) (\<lambda>verts_x.
     bind_result (add_u32 (vl_tiles_y l) 1) (\<lambda>verts_y.
     bind_result (for_each (liquid_vertex l (unat verts_x) place) (pairs (unat verts_x) (unat verts_y)) []) (\<lambda>liq_verts.
     bind_result (for_each (liquid_square l) (pairs (unat (vl_tiles_x l)) (unat (vl_tiles_y l))) []) (\<lambda>liq_tris.
     bind_result (add_indices (as_i32 (length (liquid_verts m) div 3)) liq_tris) (\<lambda>tris.
     Inr (m\<lparr>liquid_verts := liquid_verts m @ liq_verts, liquid_tris := liquid_tris m @ tris,
            liquid_type := liquid_type m @ replicate (length tris div 3) (group_liquid_type (vl_liq_type l))\<rparr>))))))"

definition add_group :: "bool \<Rightarrow> placement \<Rightarrow> group_data \<Rightarrow> mesh_data \<Rightarrow> mesh_data result" where
  "add_group is_m2 p g m =
     bind_result (add_solid is_m2 (transform p) g m) (\<lambda>m.
     case gd_liquid g of None \<Rightarrow> Inr m | Some l \<Rightarrow> add_liquid (transform p) l m)"

definition is_m2_name :: "string \<Rightarrow> bool" where
  "is_m2_name name \<longleftrightarrow> contains ''.m2'' name \<or> contains ''.M2'' name"

definition add_spawn_model ::
    "byteorder \<Rightarrow> (string \<Rightarrow> bytes option) \<Rightarrow> (f32 \<Rightarrow> f32 \<times> f32) \<Rightarrow> model_spawn_data \<Rightarrow> bool \<times> mesh_data \<Rightarrow> (bool \<times> mesh_data) result" where
  "add_spawn_model B vmaps sin_cos s r =
     (case r of (retval, m) \<Rightarrow>
        bind_result (load_world_model B vmaps (sd_name s)) (\<lambda>model. case model of
          None \<Rightarrow> Inr (retval, m)
        | Some groups \<Rightarrow>
            bind_result (for_each (add_group (is_m2_name (sd_name s)) (spawn_placement sin_cos s)) groups m) (\<lambda>m.
            Inr (True, m))))"

primrec read_spawns :: "byteorder \<Rightarrow> nat \<Rightarrow> bytes \<Rightarrow> model_spawn_data list" where
  "read_spawns B 0 bs = []"
| "read_spawns B (Suc n) bs =
     (case read_model_spawn B bs of None \<Rightarrow> [] | Some (s, bs) \<Rightarrow> s # read_spawns B n bs)"

text \<open>The tile is not used: every model of the tree is added.\<close>

definition load_vmap ::
    "byteorder \<Rightarrow> (string \<Rightarrow> bytes option) \<Rightarrow> (f32 \<Rightarrow> f32 \<times> f32) \<Rightarrow> u32 \<Rightarrow> u32 \<Rightarrow> u32 \<Rightarrow> mesh_data \<Rightarrow> (bool \<times> mesh_data) result" where
  "load_vmap B vmaps sin_cos map_id tile_x tile_y m =
     (case vmaps (fmt0 3 map_id @ ''.vmtree'') of
        None \<Rightarrow> Inr (False, m)
      | Some data \<Rightarrow>
          if length data < 12 then Inr (False, m)
          else
            let (is_tiled, bs) = lr_u32 B (drop 8 data); (n_values, bs) = lr_u32 B (skip_bih B bs)
            in for_each (add_spawn_model B vmaps sin_cos) (read_spawns B (unat n_values) bs) (False, m))"

end
