(* ===== verification/Mesh_Build.thy ===== *)
theory Mesh_Build
  imports Vmap_Load Ordered_Map
begin

text \<open>
  Preparing one tile for Recast, from \<^verbatim>\<open>crates/extractors/src/movemap_gen.rs\<close>: removal of unused
  vertices, the bounds of the tile, the off-mesh connections and the worker that puts
  terrain, models and connections together.  The decimal-to-float conversion of the
  standard library is the parameter \<open>parse_f32\<close>.
\<close>

section \<open>Unused vertices\<close>

text \<open>\<^verbatim>\<open>idx * 3 + 2 < verts.len()\<close>, with \<open>idx\<close> cast to \<^verbatim>\<open>usize\<close>.\<close>

definition push_vertex :: "f32 list \<Rightarrow> int \<Rightarrow> f32 list \<Rightarrow> f32 list result" where
  "push_vertex verts index clean =
     (let idx = as_usize index in
      if idx * 3 + 2 < 2 ^ 64 then
        Inr (if idx * 3 + 2 < length verts
             then clean @ [verts ! (idx * 3), verts ! (idx * 3 + 1), verts ! (idx * 3 + 2)] else clean)
      else Inl overflow)"

definition vert_map :: "int list \<Rightarrow> (int \<times> int) list" where
  "vert_map tris = fold (\<lambda>t. btm_or_insert t 0) tris []"

text \<open>The vertices get their numbers in the order of the map.\<close>

definition renumber :: "(int \<times> int) list \<Rightarrow> (int \<times> int) list" where
  "renumber m = map (\<lambda>(count, index, _). (index, as_i32 count)) (enumerate 0 m)"

definition clean_vertices :: "f32 list \<Rightarrow> int list \<Rightarrow> (f32 list \<times> int list) result" where
  "clean_vertices verts tris =
     (if tris = [] then Inr (verts, tris)
      else
        let m = renumber (vert_map tris) in
        bind_result (for_each (push_vertex verts) (map fst m) []) (\<lambda>clean_verts.
        Inr (clean_verts, map (\<lambda>t. case btm_get m t of None \<Rightarrow> t | Some new_idx \<Rightarrow> new_idx) tris)))"

section \<open>Bounds of a tile\<close>

definition f32_MAX :: f32 where "f32_MAX = 0x7F7FFFFF"
definition f32_MIN :: f32 where "f32_MIN = 0xFF7FFFFF"

definition grow_bounds :: "f32 list \<Rightarrow> nat \<Rightarrow> f3 \<times> f3 \<Rightarrow> (f3 \<times> f3) result" where
  "grow_bounds verts i b =
     (case b of ((x0, y0, z0), (x1, y1, z1)) \<Rightarrow>
        bind_result (vec_get verts (i * 3)) (\<lambda>x.
        bind_result (vec_get verts (i * 3 + 1)) (\<lambda>y.
        bind_result (vec_get verts (i * 3 + 2)) (\<lambda>z.
        Inr ((f32_min x0 x, f32_min y0 y, f32_min z0 z), (f32_max x1 x, f32_max y1 y, f32_max z1 z))))))"

text \<open>\<^verbatim>\<open>(32 - tile as i32) as f32 * GRID_SIZE\<close>\<close>

definition tile_edge :: "u32 \<Rightarrow> f32 result" where
  "tile_edge tile =
     bind_result (add_i32 32 (- sint tile)) (\<lambda>d. Inr (f32_mul (f32_of_int d) GRID_SIZE))"

definition get_tile_bounds :: "u32 \<Rightarrow> u32 \<Rightarrow> f32 list \<Rightarrow> nat \<Rightarrow> (f3 \<times> f3) result" where
  "get_tile_bounds tile_x tile_y verts vert_count =
     bind_result
       (if vert_count > 0
        then for_each (grow_bounds verts) [0..<vert_count]
               ((f32_MAX, f32_MAX, f32_MAX), (f32_MIN, f32_MIN, f32_MIN))
        else Inr ((0, f32_MIN, 0), (0, f32_MAX, 0))) (\<lambda>((x0, y0, z0), (x1, y1, z1)).
     bind_result (tile_edge tile_x) (\<lambda>ex.
     bind_result (tile_edge tile_y) (\<lambda>ez.
     Inr ((f32_sub ex GRID_SIZE, y0, f32_sub ez GRID_SIZE), (ex, y1, ez)))))"

section \<open>Off-mesh connections\<close>

text \<open>Lines up to the first that is not UTF-8.\<close>

definition valid_lines :: "bytes \<Rightarrow> string list" where
  "valid_lines content = takeWhile (\<lambda>l. from_utf8_lossy (as_bytes l) = l) (lines (str_of_bytes content))"

record connection =
  cn_map :: u32
  cn_tile :: "u32 \<times> u32"
  cn_from :: f3
  cn_to :: f3
  cn_size :: f32

definition parse_connection :: "(string \<Rightarrow> f32 option) \<Rightarrow> string \<Rightarrow> connection option" where
  "parse_connection parse_f32 line =
     (let parts = split_whitespace line;
          clean_parts = split_whitespace (filter (\<lambda>c. c \<notin> {CHR ''('', CHR '')''}) line);
          num = (\<lambda>i. case parse_f32 (clean_parts ! i) of Some x \<Rightarrow> x | None \<Rightarrow> 0) in
      if length parts < 10 then None
      else case parse_u32 (parts ! 0) of
        None \<Rightarrow> None
      | Some mid \<Rightarrow>
          (case split_on (CHR '','') (parts ! 1) of
             [sx, sy] \<Rightarrow>
               (case (parse_u32 sx, parse_u32 sy) of
                  (Some tx, Some ty) \<Rightarrow>
                    if length clean_parts < 10 then None
                    else Some \<lparr>cn_map = mid, cn_tile = (tx, ty), cn_from = (num 2, num 3, num 4),
                           cn_to = (num 5, num 6, num 7), cn_size = num 8\<rparr>
                | _ \<Rightarrow> None)
           | _ \<Rightarrow> None))"

definition add_connection :: "u32 \<Rightarrow> u32 \<Rightarrow> u32 \<Rightarrow> connection \<Rightarrow> mesh_data \<Rightarrow> mesh_data" where
  "add_connection map_id tile_x tile_y c m =
     (if cn_map c = map_id \<and> cn_tile c = (tile_x, tile_y)
      then m\<lparr>off_mesh_connections := off_mesh_connections m @ recast_order (cn_from c) @ recast_order (cn_to c),
             off_mesh_connection_dirs := off_mesh_connection_dirs m @ [1],
             off_mesh_connection_rads := off_mesh_connection_rads m @ [cn_size c],
             off_mesh_connections_areas := off_mesh_connections_areas m @ [0xFF],
             off_mesh_connections_flags := off_mesh_connections_flags m @ [0xFF]\<rparr>
      else m)"

text \<open>\<open>content\<close> is \<^verbatim>\<open>None\<close> without a path or when the file cannot be opened.\<close>

definition load_off_mesh_connections ::
    "(string \<Rightarrow> f32 option) \<Rightarrow> bytes option \<Rightarrow> u32 \<Rightarrow> u32 \<Rightarrow> u32 \<Rightarrow> mesh_data \<Rightarrow> mesh_data" where
  "load_off_mesh_connections parse_f32 content map_id tile_x tile_y m =
     (case content of
        None \<Rightarrow> m
      | Some bs \<Rightarrow>
          fold (\<lambda>line m. case parse_connection parse_f32 line of
                  None \<Rightarrow> m | Some c \<Rightarrow> add_connection map_id tile_x tile_y c m) (valid_lines bs) m)"

section \<open>The worker of a tile\<close>

text \<open>The files and library functions the generator reads; \<open>file_name\<close> gives what can be opened.\<close>

record mesh_sources =
  src_order :: byteorder
  src_sin_cos :: "f32 \<Rightarrow> f32 \<times> f32"
  src_parse_f32 :: "string \<Rightarrow> f32 option"
  src_skip_liquid :: bool
  src_maps :: "string \<Rightarrow> bytes option"
  src_vmaps :: "string \<Rightarrow> bytes option"
  src_off_mesh :: "bytes option"

text \<open>What is handed to \<^verbatim>\<open>build_move_map_tile\<close>, if anything: the mesh and its bounds.\<close>

definition clean_mesh :: "mesh_data \<Rightarrow> mesh_data result" where
  "clean_mesh m =
     bind_result (clean_vertices (solid_verts m) (solid_tris m)) (\<lambda>(sv, st).
     bind_result (clean_vertices (liquid_verts m) (liquid_tris m)) (\<lambda>(lv, lt).
     Inr (m\<lparr>solid_verts := sv, solid_tris := st, liquid_verts := lv, liquid_tris := lt\<rparr>)))"

definition build_tile_worker ::
    "mesh_sources \<Rightarrow> u32 \<Rightarrow> u32 \<Rightarrow> u32 \<Rightarrow> (mesh_data \<times> f3 \<times> f3) option result" where
  "build_tile_worker src map_id tile_x tile_y =
     bind_result (load_map (src_order src) (src_skip_liquid src) (src_maps src) map_id tile_x tile_y mesh_data_default) (\<lambda>m.
     bind_result (load_vmap (src_order src) (src_vmaps src) (src_sin_cos src) map_id tile_y tile_x m) (\<lambda>(loaded, m).
     if solid_verts m = [] \<and> liquid_verts m = [] then Inr None
     else
       bind_result (clean_mesh m) (\<lambda>m.
       let all_verts = liquid_verts m @ solid_verts m in
       if all_verts = [] then Inr None
       else
         bind_result (get_tile_bounds tile_x tile_y all_verts (length all_verts div 3)) (\<lambda>(bmin, bmax).
         Inr (Some (load_off_mesh_connections (src_parse_f32 src) (src_off_mesh src) map_id tile_x tile_y m, bmin, bmax))))))"

end
