(* ===== verification/Move_Map.thy ===== *)
theory Move_Map
  imports Mesh_Build
begin

text \<open>
  The map builder of \<^verbatim>\<open>crates/extractors/src/movemap_gen.rs\<close>: its configuration, the discovery of
  maps and tiles from the names in the map directories, the parameters of a navigation mesh,
  the choice of maps and tiles, and the entry point.  The builds of tiles are independent
  of each other: a run is modelled by the list of what it does, a thread pool runs the
  tiles of a map in some order.  Files are named relative to their directory.
\<close>

section \<open>Constants\<close>

definition BASE_UNIT_DIM :: f32 where "BASE_UNIT_DIM = 0x3E888886" \<comment> \<open>\<^verbatim>\<open>0.266_666_6\<close>\<close>
definition VERTEX_PER_TILE :: i32 where "VERTEX_PER_TILE = 80"
definition MMAP_MAGIC :: u32 where "MMAP_MAGIC = 0x4D4D4150"
definition MMAP_VERSION :: u32 where "MMAP_VERSION = 8"
definition DT_VERTS_PER_POLYGON :: i32 where "DT_VERTS_PER_POLYGON = 6"
definition DT_NAVMESH_VERSION_CONST :: u32 where "DT_NAVMESH_VERSION_CONST = 7"
definition DT_POLY_BITS :: nat where "DT_POLY_BITS = 20"

text \<open>\<^verbatim>\<open>as i32\<close> of an \<^verbatim>\<open>f32\<close>: truncated, saturated, zero for a NaN.\<close>

definition f32_to_i32 :: "f32 \<Rightarrow> i32" where
  "f32_to_i32 x =
     (if f32_neg_bit x then - word_of_nat (f32_to_nat (2 ^ 31) (f32_abs x))
      else word_of_nat (f32_to_nat (2 ^ 31 - 1) x))"

section \<open>Configuration\<close>

record mmap_config =
  mc_border_size :: i32
  mc_walkable_slope_angle :: f32
  mc_walkable_height :: i32
  mc_walkable_climb :: i32
  mc_walkable_radius :: i32
  mc_max_edge_len :: i32
  mc_max_simplification_error :: f32
  mc_min_region_area :: i32
  mc_merge_region_area :: i32
  mc_detail_sample_dist :: f32
  mc_detail_sample_max_error :: f32
  mc_liquid_flag_merge_threshold :: f32

definition mmap_config_default :: mmap_config where
  "mmap_config_default =
     \<lparr>mc_border_size = 5, mc_walkable_slope_angle = 0x42700000, mc_walkable_height = 6, mc_walkable_climb = 4,
      mc_walkable_radius = 2, mc_max_edge_len = VERTEX_PER_TILE + 1, mc_max_simplification_error = 0x3FE66666,
      mc_min_region_area = 60, mc_merge_region_area = 50, mc_detail_sample_dist = f32_mul BASE_UNIT_DIM 0x41800000,
      mc_detail_sample_max_error = BASE_UNIT_DIM, mc_liquid_flag_merge_threshold = 0\<rparr>"

record rc_config =
  rc_width :: i32
  rc_height :: i32
  rc_tile_size :: i32
  rc_border_size :: i32
  rc_cs :: f32
  rc_ch :: f32
  rc_bmin :: f3
  rc_bmax :: f3
  rc_walkable_slope_angle :: f32
  rc_walkable_height :: i32
  rc_walkable_climb :: i32
  rc_walkable_radius :: i32
  rc_max_edge_len :: i32
  rc_max_simplification_error :: f32
  rc_min_region_area :: i32
  rc_merge_region_area :: i32
  rc_max_verts_per_poly :: i32
  rc_detail_sample_dist :: f32
  rc_detail_sample_max_error :: f32

definition to_rc_config :: "mmap_config \<Rightarrow> rc_config result" where
  "to_rc_config c =
     bind_result (mul_i32 (mc_min_region_area c) (mc_min_region_area c)) (\<lambda>min_area.
     bind_result (mul_i32 (mc_merge_region_area c) (mc_merge_region_area c)) (\<lambda>merge_area.
     Inr \<lparr>rc_width = 0, rc_height = 0, rc_tile_size = VERTEX_PER_TILE, rc_border_size = mc_border_size c,
          rc_cs = BASE_UNIT_DIM, rc_ch = BASE_UNIT_DIM, rc_bmin = (0, 0, 0), rc_bmax = (0, 0, 0),
          rc_walkable_slope_angle = mc_walkable_slope_angle c, rc_walkable_height = mc_walkable_height c,
          rc_walkable_climb = mc_walkable_climb c, rc_walkable_radius = mc_walkable_radius c,
          rc_max_edge_len = mc_max_edge_len c, rc_max_simplification_error = mc_max_simplification_error c,
          rc_min_region_area = min_area, rc_merge_region_area = merge_area,
          rc_max_verts_per_poly = DT_VERTS_PER_POLYGON, rc_detail_sample_dist = mc_detail_sample_dist c,
          rc_detail_sample_max_error = mc_detail_sample_max_error c\<rparr>))"

text \<open>\<open>overrides\<close> is the JSON configuration: the entry of a map, if there is one that can be read.\<close>

definition get_tile_config :: "(u32 \<Rightarrow> mmap_config option) \<Rightarrow> u32 \<Rightarrow> u32 \<Rightarrow> u32 \<Rightarrow> mmap_config" where
  "get_tile_config overrides map_id tile_x tile_y =
     (case overrides map_id of None \<Rightarrow> mmap_config_default | Some c \<Rightarrow> c)"

text \<open>The configuration of a tile, with the size of its grid in cells.\<close>

definition tile_rc_config :: "(u32 \<Rightarrow> mmap_config option) \<Rightarrow> u32 \<Rightarrow> u32 \<Rightarrow> u32 \<Rightarrow> f3 \<Rightarrow> f3 \<Rightarrow> rc_config result" where
  "tile_rc_config overrides map_id tile_x tile_y bmin bmax =
     bind_result (to_rc_config (get_tile_config overrides map_id tile_x tile_y)) (\<lambda>c.
     let cells = (\<lambda>hi lo. f32_to_i32 (f32_add (f32_div (f32_sub hi lo) (rc_cs c)) f32_half)) in
     Inr (c\<lparr>rc_bmin := bmin, rc_bmax := bmax, rc_width := cells (fst bmax) (fst bmin),
            rc_height := cells (snd (snd bmax)) (snd (snd bmin))\<rparr>))"

section \<open>Tiles\<close>

definition is_transport_map :: "u32 \<Rightarrow> bool" where
  "is_transport_map map_id \<longleftrightarrow> map_id \<in> {582, 584, 586, 587, 588, 589, 590, 591, 593}"

definition pack_tile_id :: "u32 \<Rightarrow> u32 \<Rightarrow> u32" where
  "pack_tile_id x y = push_bit 16 x OR y"

definition unpack_tile_id :: "u32 \<Rightarrow> u32 \<times> u32" where
  "unpack_tile_id packed = (drop_bit 16 packed, packed AND 0xFFFF)"

definition starts_with :: "string \<Rightarrow> string \<Rightarrow> bool" where
  "starts_with s p \<longleftrightarrow> take (length p) s = p"

definition name_ends_with :: "string \<Rightarrow> string \<Rightarrow> bool" where
  "name_ends_with s p \<longleftrightarrow> length p \<le> length s \<and> drop (length s - length p) s = p"

type_synonym tile_map = "(u32 \<times> u32 list) list"

definition discover_map :: "(string \<Rightarrow> bool) \<Rightarrow> string \<Rightarrow> tile_map \<Rightarrow> tile_map result" where
  "discover_map wanted name tiles =
     (if wanted name \<and> length name \<ge> 3 then
        bind_result (str_slice 0 3 name) (\<lambda>s.
        case parse_u32 s of
          None \<Rightarrow> Inr tiles
        | Some map_id \<Rightarrow> Inr (btm_or_insert map_id [] tiles))
      else Inr tiles)"

definition parse_pair :: "string \<Rightarrow> nat \<Rightarrow> nat \<Rightarrow> nat \<Rightarrow> nat \<Rightarrow> (u32 \<times> u32) option result" where
  "parse_pair name a b c d =
     bind_result (str_slice a b name) (\<lambda>s.
     bind_result (str_slice c d name) (\<lambda>t.
     case (parse_u32 s, parse_u32 t) of
       (Some tile_y, Some tile_x) \<Rightarrow> Inr (Some (tile_y, tile_x))
     | _ \<Rightarrow> Inr None))"

definition vmtile_of :: "u32 \<Rightarrow> string \<Rightarrow> u32 option result" where
  "vmtile_of map_id name =
     (if starts_with name (fmt0 3 map_id) \<and> name_ends_with name ''.vmtile'' \<and> length name \<ge> 9
      then bind_result (parse_pair name 3 5 6 8) (\<lambda>p.
           Inr (map_option (\<lambda>(tile_y, tile_x). pack_tile_id tile_y tile_x) p))
      else Inr None)"

definition map_tile_of :: "u32 \<Rightarrow> string \<Rightarrow> u32 option result" where
  "map_tile_of map_id name =
     (if starts_with name (fmt0 3 map_id) \<and> name_ends_with name ''.map'' \<and> length name \<ge> 7
      then bind_result (parse_pair name 3 5 5 7) (\<lambda>p.
           Inr (map_option (\<lambda>(tile_y, tile_x). pack_tile_id tile_x tile_y) p))
      else Inr None)"

definition discover_tile :: "(u32 \<Rightarrow> string \<Rightarrow> u32 option result) \<Rightarrow> u32 \<Rightarrow> string \<Rightarrow> tile_map \<Rightarrow> tile_map result" where
  "discover_tile tile_of map_id name tiles =
     bind_result (tile_of map_id name) (\<lambda>t. case t of
       None \<Rightarrow> Inr tiles
     | Some tile \<Rightarrow>
         (case btm_get tiles map_id of
            None \<Rightarrow> Inl (Panic ''called unwrap on a None value'')
          | Some known \<Rightarrow> Inr (btm_insert map_id (bts_insert tile known) tiles)))"

text \<open>The names of the two directories, empty for one that cannot be read.\<close>

definition discover_tiles :: "string list \<Rightarrow> string list \<Rightarrow> tile_map result" where
  "discover_tiles maps vmaps =
     bind_result (for_each (discover_map (\<lambda>_. True)) maps []) (\<lambda>tiles.
     bind_result (for_each (discover_map (\<lambda>n. name_ends_with n ''.vmtree'')) vmaps tiles) (\<lambda>tiles.
     for_each (\<lambda>map_id tiles.
         bind_result (for_each (discover_tile vmtile_of map_id) vmaps tiles) (for_each (discover_tile map_tile_of map_id) maps))
       (map fst tiles) tiles))"

section \<open>The builder\<close>

record map_builder =
  mb_tiles :: tile_map
  mb_skip_continents :: bool
  mb_skip_junk_maps :: bool
  mb_skip_battlegrounds :: bool
  mb_map_done :: "u32 list"

record nav_mesh_params =
  np_orig :: f3
  np_tile_width :: f32
  np_tile_height :: f32
  np_max_tiles :: i32
  np_max_polys :: i32

definition nav_mesh_params_bytes :: "byteorder \<Rightarrow> nav_mesh_params \<Rightarrow> bytes" where
  "nav_mesh_params_bytes B p =
     (case np_orig p of (x, y, z) \<Rightarrow>
        concat (map (enc_u32 B) [x, y, z, np_tile_width p, np_tile_height p, np_max_tiles p, np_max_polys p]))"

text \<open>What a run does; \<open>can_write\<close> says which files can be created.\<close>

datatype build_event =
  WriteParams string bytes
| BuildTile u32 u32 u32 nav_mesh_params
| BuildObject string u32

definition tile_max :: "u32 list \<Rightarrow> u32 \<times> u32" where
  "tile_max tiles =
     fold (\<lambda>t (tx_max, ty_max). case unpack_tile_id t of (tx, ty) \<Rightarrow>
        (if tx > tx_max then tx else tx_max, if ty > ty_max then ty else ty_max)) tiles (0, 0)"

definition build_nav_mesh ::
    "byteorder \<Rightarrow> (string \<Rightarrow> bool) \<Rightarrow> map_builder \<Rightarrow> u32 \<Rightarrow> (nav_mesh_params \<times> build_event list) option result" where
  "build_nav_mesh B can_write b map_id =
     (case btm_get (mb_tiles b) map_id of
        None \<Rightarrow> Inr None
      | Some tiles \<Rightarrow>
          if tiles = [] then Inr None
          else
            (case tile_max tiles of (tile_x_max, tile_y_max) \<Rightarrow>
               bind_result (get_tile_bounds tile_x_max tile_y_max [] 0) (\<lambda>(bmin, bmax).
               let params = \<lparr>np_orig = bmin, np_tile_width = GRID_SIZE, np_tile_height = GRID_SIZE,
                     np_max_tiles = word_of_nat (length tiles), np_max_polys = push_bit DT_POLY_BITS 1\<rparr>;
                   file_name = fmt0 3 map_id @ ''.mmap''
               in Inr (if can_write file_name
                       then Some (params, [WriteParams file_name (nav_mesh_params_bytes B params)]) else None))))"

definition should_skip_map :: "map_builder \<Rightarrow> u32 \<Rightarrow> bool" where
  "should_skip_map b map_id \<longleftrightarrow>
     mb_skip_continents b \<and> map_id \<in> {0, 1, 530} \<or>
     mb_skip_junk_maps b \<and> (map_id \<in> {13, 25, 29, 42, 169, 451} \<or> is_transport_map map_id) \<or>
     mb_skip_battlegrounds b \<and> map_id \<in> {30, 37, 489, 529, 566}"

text \<open>A tile file of this version needs no new build.\<close>

definition should_skip_tile :: "byteorder \<Rightarrow> (string \<Rightarrow> bytes option) \<Rightarrow> u32 \<Rightarrow> u32 \<Rightarrow> u32 \<Rightarrow> bool" where
  "should_skip_tile B mmaps map_id tile_x tile_y =
     (case mmaps (fmt0 3 map_id @ fmt0 2 tile_y @ fmt0 2 tile_x @ ''.mmtile'') of
        None \<Rightarrow> False
      | Some file \<Rightarrow>
          let v = fst (lr_many 5 (lr_u32 B) file) in
          v ! 0 = MMAP_MAGIC \<and> v ! 1 = DT_NAVMESH_VERSION_CONST \<and> v ! 2 = MMAP_VERSION)"

definition build_map :: "byteorder \<Rightarrow> (string \<Rightarrow> bool) \<Rightarrow> map_builder \<Rightarrow> u32 \<Rightarrow> build_event list result" where
  "build_map B can_write b map_id =
     (let tiles = (case btm_get (mb_tiles b) map_id of None \<Rightarrow> [] | Some t \<Rightarrow> t) in
      if tiles = [] then Inr []
      else
        bind_result (build_nav_mesh B can_write b map_id) (\<lambda>r. case r of
          None \<Rightarrow> Inr []
        | Some (params, written) \<Rightarrow>
            Inr (written @ map (\<lambda>t. case unpack_tile_id t of (tile_x, tile_y) \<Rightarrow> BuildTile map_id tile_x tile_y params) tiles)))"

definition build_maps_step ::
    "byteorder \<Rightarrow> (string \<Rightarrow> bool) \<Rightarrow> u32 \<Rightarrow> map_builder \<times> build_event list \<Rightarrow> (map_builder \<times> build_event list) result" where
  "build_maps_step B can_write map_id s =
     (case s of (b, es) \<Rightarrow>
        bind_result (if should_skip_map b map_id then Inr [] else build_map B can_write b map_id) (\<lambda>new.
        Inr (b\<lparr>mb_map_done := bts_insert map_id (mb_map_done b)\<rparr>, es @ new)))"

definition build_maps ::
    "byteorder \<Rightarrow> (string \<Rightarrow> bool) \<Rightarrow> u32 list \<Rightarrow> map_builder \<Rightarrow> (map_builder \<times> build_event list) result" where
  "build_maps B can_write ids b =
     for_each (build_maps_step B can_write) (if ids = [] then map fst (mb_tiles b) else ids) (b, [])"

definition build_single_tile ::
    "byteorder \<Rightarrow> (string \<Rightarrow> bool) \<Rightarrow> u32 \<Rightarrow> u32 \<Rightarrow> u32 \<Rightarrow> map_builder \<Rightarrow> build_event list result" where
  "build_single_tile B can_write map_id tile_x tile_y b =
     bind_result (build_nav_mesh B can_write b map_id) (\<lambda>r. case r of
       None \<Rightarrow> Inr []
     | Some (params, written) \<Rightarrow> Inr (written @ [BuildTile map_id tile_x tile_y params]))"

definition transport_models :: "(string \<times> u32) list" where
  "transport_models =
     [(''Transportship.wmo.vmo'', 3015), (''Transport_Zeppelin.wmo.vmo'', 3031), (''Transportship_Ne.wmo.vmo'', 7087),
      (''Elevatorcar.m2.vmo'', 360), (''Undeadelevator.m2.vmo'', 455), (''Ironforgeelevator.m2.vmo'', 561),
      (''Gnomeelevatorcar01.m2.vmo'', 807), (''Gnomeelevatorcar02.m2.vmo'', 808), (''Gnomeelevatorcar03.m2.vmo'', 827),
      (''Gnomeelevatorcar03.m2.vmo'', 852), (''Gnomehutelevator.m2.vmo'', 1587), (''Burningsteppselevator.m2.vmo'', 2454),
      (''Subwaycar.m2.vmo'', 3831), (''Ancdrae_Elevatorpiece.m2.vmo'', 7026), (''Mushroombase_Elevator.m2.vmo'', 7028),
      (''Cf_Elevatorplatform.m2.vmo'', 7043), (''Cf_Elevatorplatform_Small.m2.vmo'', 7060),
      (''Factoryelevator.m2.vmo'', 7077), (''Ancdrae_Elevatorpiece_Netherstorm.m2.vmo'', 7163)]"

definition build_transports :: "build_event list" where
  "build_transports = map (\<lambda>(name, display_id). BuildObject name display_id) transport_models"

text \<open>The mesh of a game object; nothing is built of it yet.\<close>

definition build_game_object ::
    "byteorder \<Rightarrow> (string \<Rightarrow> bytes option) \<Rightarrow> string \<Rightarrow> u32 \<Rightarrow> mesh_data option result" where
  "build_game_object B vmaps model_name display_id =
     bind_result (load_world_model B vmaps model_name) (\<lambda>model. case model of
       None \<Rightarrow> Inr None
     | Some groups \<Rightarrow>
         bind_result (for_each (add_solid (is_m2_name model_name) (\<lambda>v. v)) groups mesh_data_default) (\<lambda>m.
         if solid_verts m = [] then Inr None
         else
           bind_result (clean_vertices (solid_verts m) (solid_tris m)) (\<lambda>(verts, tris).
           Inr (Some (m\<lparr>solid_verts := verts, solid_tris := tris\<rparr>)))))"

section \<open>Entry point\<close>

text \<open>The value of \<^verbatim>\<open>--tile\<close>: two numbers with a comma between them, more is ignored.\<close>

definition parse_tile :: "string \<Rightarrow> string + i32 \<times> i32" where
  "parse_tile input =
     (case split_on (CHR '','') input of
        [] \<Rightarrow> Inl ''Missing tile X''
      | x # rest \<Rightarrow>
          (case parse_i32 x of
             None \<Rightarrow> Inl ''Invalid tile X''
           | Some tx \<Rightarrow>
               (case rest of
                  [] \<Rightarrow> Inl ''Missing tile Y''
                | y # _ \<Rightarrow> (case parse_i32 y of None \<Rightarrow> Inl ''Invalid tile Y'' | Some ty \<Rightarrow> Inr (tx, ty)))))"

record move_map_args =
  ma_map_ids :: "u32 list"
  ma_tile :: "(i32 \<times> i32) option"
  ma_skip_continents :: bool
  ma_skip_junk_maps :: bool
  ma_skip_battlegrounds :: bool
  ma_build_game_objects :: bool
  ma_workdir :: string
  ma_maps_dir :: "string option"
  ma_vmaps_dir :: "string option"
  ma_mmaps_dir :: "string option"

definition resolve_dir :: "string \<Rightarrow> string option \<Rightarrow> string \<Rightarrow> string list" where
  "resolve_dir workdir custom name = (case custom of Some p \<Rightarrow> [p] | None \<Rightarrow> [workdir, name])"

text \<open>The names in a directory, \<open>None\<close> when it does not exist, and whether one can be created.\<close>

record directories =
  ds_names :: "string list \<Rightarrow> string list option"
  ds_create :: "string list \<Rightarrow> bool"

definition new_builder :: "move_map_args \<Rightarrow> string list \<Rightarrow> string list \<Rightarrow> map_builder result" where
  "new_builder args maps vmaps =
     bind_result (discover_tiles maps vmaps) (\<lambda>tiles.
     Inr \<lparr>mb_tiles = tiles, mb_skip_continents = ma_skip_continents args, mb_skip_junk_maps = ma_skip_junk_maps args,
          mb_skip_battlegrounds = ma_skip_battlegrounds args, mb_map_done = []\<rparr>)"

definition run_builder :: "byteorder \<Rightarrow> (string \<Rightarrow> bool) \<Rightarrow> move_map_args \<Rightarrow> map_builder \<Rightarrow> build_event list result" where
  "run_builder B can_write args b =
     (case ma_tile args of
        Some (x, y) \<Rightarrow>
          (case ma_map_ids args of
             map_id # _ \<Rightarrow> build_single_tile B can_write map_id x y b
           | [] \<Rightarrow> Inl (Err ''Map ID required for --tile option''))
      | None \<Rightarrow> bind_result (build_maps B can_write (ma_map_ids args) b) (\<lambda>(b, es). Inr es))"

definition run_movemap_gen ::
    "byteorder \<Rightarrow> (string \<Rightarrow> bool) \<Rightarrow> directories \<Rightarrow> move_map_args \<Rightarrow> build_event list result" where
  "run_movemap_gen B can_write ds args =
     (let maps_dir = resolve_dir (ma_workdir args) (ma_maps_dir args) ''maps'';
          vmaps_dir = resolve_dir (ma_workdir args) (ma_vmaps_dir args) ''vmaps'';
          mmaps_dir = resolve_dir (ma_workdir args) (ma_mmaps_dir args) ''mmaps'' in
      case ds_names ds maps_dir of
        None \<Rightarrow> Inl (Err ''Maps directory does not exist'')
      | Some maps \<Rightarrow>
          (case ds_names ds vmaps_dir of
             None \<Rightarrow> Inl (Err ''VMaps directory does not exist'')
           | Some vmaps \<Rightarrow>
               if \<not> ds_create ds mmaps_dir then Inl (Err ''Failed to create mmaps directory'')
               else
                 bind_result (new_builder args maps vmaps) (\<lambda>b.
                 bind_result (run_builder B can_write args b) (\<lambda>es.
                 Inr (es @ (if ma_build_game_objects args then build_transports else []))))))"

end
