(* ===== verification/Move_Map_Correct.thy ===== *)
theory Move_Map_Correct
  imports Move_Map Map_Dbc
begin

text \<open>
  Properties of the map builder: the discovery of tiles from the names the other extractors
  write, and what a run builds of them.
\<close>

section \<open>Numbers in names\<close>

lemma dec_str_length: "n < 10 ^ k \<Longrightarrow> 0 < k \<Longrightarrow> length (dec_str n) \<le> k"
proof (induction k arbitrary: n)
  case (Suc k)
  show ?case
  proof (cases "n < 10")
    case False
    then have "0 < k" using Suc.prems(1) by (cases k) auto
    moreover have "n div 10 < 10 ^ k" using Suc.prems(1) by (simp add: div_less_iff_less_mult mult.commute)
    moreover note Suc.IH [of "n div 10"]
    ultimately have "length (dec_str (n div 10)) \<le> k" by blast
    then show ?thesis using False by (subst dec_str.simps) simp
  qed (subst dec_str.simps, simp)
qed simp

lemma fmt0_length: "unat n < 10 ^ k \<Longrightarrow> 0 < k \<Longrightarrow> length (fmt0 k n) = k"
  using dec_str_length [of "unat n" k] by (simp add: fmt0_def Let_def)

lemma digit_zero: "CHR ''0'' = digit_char 0"
  by (simp add: digit_char_def) code_simp

lemma fmt0_digits: "c \<in> set (fmt0 k n) \<Longrightarrow> \<exists>d < 10. c = digit_char d"
  using set_dec_str by (auto simp: fmt0_def Let_def digit_zero intro: exI [of _ 0])

lemma digit_char_ascii: "d < 10 \<Longrightarrow> (of_char (digit_char d) :: nat) = 48 + d"
  by (simp add: digit_char_def)

lemma parse_digits_zeros: "parse_digits 0 (replicate k (CHR ''0'') @ s) = parse_digits 0 s"
  by (induction k) (simp_all add: digit_zero)

lemma parse_u32_fmt0 [simp]: "parse_u32 (fmt0 k n) = Some n"
proof -
  have ne: "fmt0 k n \<noteq> []" by (simp add: fmt0_def Let_def)
  then obtain d where "d < 10" "hd (fmt0 k n) = digit_char d" using fmt0_digits hd_in_set by blast
  then have "hd (fmt0 k n) \<noteq> CHR ''+''" using digit_char_ascii [of d] by auto
  then have "parse_u32 (fmt0 k n) = (case parse_digits 0 (fmt0 k n) of None \<Rightarrow> None
      | Some i \<Rightarrow> if i < 2 ^ 32 then Some (word_of_nat i) else None)"
    using ne by (simp add: parse_u32_def parse_nat_def)
  also have "parse_digits 0 (fmt0 k n) = Some (unat n)" by (simp add: fmt0_def Let_def parse_digits_zeros)
  finally show ?thesis by simp
qed

lemma fmt0_inj: "fmt0 k m = fmt0 k n \<Longrightarrow> m = n"
  by (metis parse_u32_fmt0 option.inject)

lemma fmt0_ascii: "is_ascii (fmt0 k n)"
  unfolding is_ascii_def using fmt0_digits digit_char_ascii by fastforce

lemma is_ascii_append: "is_ascii (s @ t) \<longleftrightarrow> is_ascii s \<and> is_ascii t"
  by (auto simp: is_ascii_def)

lemma ascii_boundary:
  assumes "is_ascii s" "i \<le> length s"
  shows "char_boundary s i"
proof (cases "i < length s")
  case True
  then have "(of_char (s ! i) :: nat) < 128" using assms(1) by (simp add: is_ascii_def)
  then have "unat (char_byte (s ! i)) < 128" by (simp add: char_byte_def unat_of_nat)
  then have "\<not> cont (char_byte (s ! i))" by (simp add: cont_def word_le_nat_alt)
  with True show ?thesis by (simp add: char_boundary_def)
qed (use assms(2) in \<open>simp add: char_boundary_def\<close>)

lemma ascii_slice: "is_ascii s \<Longrightarrow> a \<le> b \<Longrightarrow> b \<le> length s \<Longrightarrow> str_slice a b s = Inr (take (b - a) (drop a s))"
  by (simp add: str_slice_def ascii_boundary)

section \<open>Names of map tiles\<close>

lemma pack_tile_roundtrip:
  assumes "x < 2 ^ 16" "y < 2 ^ 16"
  shows "unpack_tile_id (pack_tile_id x y) = (x, y)"
proof -
  have x: "bit x n \<Longrightarrow> n < 16" and y: "bit y n \<Longrightarrow> n < 16" for n
    using word_less_bit [OF assms(1)] word_less_bit [OF assms(2)] by blast+
  have "drop_bit 16 (push_bit 16 x OR y) = x"
    by (rule bit_word_eqI) (use x y in \<open>force simp: bit_simps\<close>)
  moreover have "take_bit 16 (push_bit 16 x OR y) = y"
    by (rule bit_word_eqI) (use y in \<open>force simp: bit_simps\<close>)
  then have "(push_bit 16 x OR y) AND 0xFFFF = y" by (simp add: take_bit_eq_mask mask_eq_exp_minus_1)
  ultimately show ?thesis by (simp add: unpack_tile_id_def pack_tile_id_def)
qed

lemma starts_with_append: "length a = length b \<Longrightarrow> starts_with (a @ s) b \<longleftrightarrow> a = b"
  by (simp add: starts_with_def)

lemma name_slices:
  assumes "length a = 3" "length b = 2" "length c = 2" "is_ascii a" "is_ascii b" "is_ascii c" "is_ascii s"
  shows "str_slice 0 3 (a @ s) = Inr a" "str_slice 3 5 (a @ b @ s) = Inr b" "str_slice 5 7 (a @ b @ c @ s) = Inr c"
  using assms by (simp_all add: ascii_slice is_ascii_append)

lemma map_tile_of_name:
  assumes "unat m < 1000" "unat m' < 1000" "y < 100" "x < 100"
  shows "map_tile_of m' (tile_name m y x) = Inr (if m = m' then Some (pack_tile_id (word_of_nat x) (word_of_nat y)) else None)"
proof -
  let ?b = "fmt0 2 (word_of_nat y :: u32)" and ?c = "fmt0 2 (word_of_nat x :: u32)"
  have n: "unat (word_of_nat y :: u32) < 10 ^ 2" "unat (word_of_nat x :: u32) < 10 ^ 2" using assms by (simp_all add: unat_of_nat)
  have len: "length (fmt0 3 m) = 3" "length (fmt0 3 m') = 3" "length ?b = 2" "length ?c = 2"
    using assms(1,2) n by (simp_all add: fmt0_length)
  have "parse_pair (tile_name m y x) 3 5 5 7 = Inr (Some (word_of_nat y, word_of_nat x))"
    unfolding tile_name_def parse_pair_def using name_slices [OF len(1,3,4)] by (simp add: fmt0_ascii is_ascii_append)
  moreover have "starts_with (tile_name m y x) (fmt0 3 m') \<longleftrightarrow> m = m'"
    using starts_with_append [of "fmt0 3 m" "fmt0 3 m'"] len fmt0_inj by (auto simp: tile_name_def)
  moreover have "name_ends_with (tile_name m y x) ''.map''" "7 \<le> length (tile_name m y x)"
    using len by (simp_all add: name_ends_with_def tile_name_def)
  ultimately show ?thesis by (auto simp: map_tile_of_def)
qed

text \<open>The names the assembler writes into the directory of models.\<close>

definition vmtree_name :: "u32 \<Rightarrow> string" where
  "vmtree_name m = fmt0 3 m @ ''.vmtree''"

definition vmtile_name :: "u32 \<Rightarrow> u32 \<Rightarrow> u32 \<Rightarrow> string" where
  "vmtile_name m x y = fmt0 3 m @ ''_'' @ fmt0 2 x @ ''_'' @ fmt0 2 y @ ''.vmtile''"

definition assembler_name :: "string \<Rightarrow> bool" where
  "assembler_name v \<longleftrightarrow> (\<exists>m. unat m < 1000 \<and>
     (v = vmtree_name m \<or> (\<exists>x y. unat x < 100 \<and> unat y < 100 \<and> v = vmtile_name m x y)))"

lemma parse_u32_underscore: "parse_u32 (CHR ''_'' # s) = None"
  by (simp add: parse_u32_def parse_nat_def digit_val_def)

text \<open>No tile is read from the names of the assembler: where the first number is expected
  they have a separator.\<close>

lemma vmtile_of_assembler_name:
  assumes "assembler_name v" "unat m' < 1000"
  shows "vmtile_of m' v = Inr None"
proof -
  obtain m where m: "unat m < 1000" and v: "v = vmtree_name m \<or> (\<exists>x y. unat x < 100 \<and> unat y < 100 \<and> v = vmtile_name m x y)"
    using assms(1) unfolding assembler_name_def by blast
  have len3: "length (fmt0 3 m) = 3" using m by (simp add: fmt0_length)
  from v show ?thesis
  proof (elim disjE exE conjE)
    assume "v = vmtree_name m"
    then show ?thesis using len3 by (simp add: vmtile_of_def name_ends_with_def vmtree_name_def)
  next
    fix x y assume xy: "unat x < 100" "unat y < 100" and v: "v = vmtile_name m x y"
    have len: "length (fmt0 2 x) = 2" using xy by (simp add: fmt0_length)
    then obtain c d where cd: "fmt0 2 x = [c, d]" by (metis One_nat_def Suc_1 length_0_conv length_Suc_conv)
    have "is_ascii v" by (simp add: v vmtile_name_def is_ascii_append fmt0_ascii)
    moreover have "8 \<le> length v" "take 2 (drop 3 v) = [CHR ''_'', c]" using len3 cd by (simp_all add: v vmtile_name_def)
    ultimately have "parse_pair v 3 5 6 8 = Inr None"
      by (simp add: parse_pair_def ascii_slice parse_u32_underscore)
    then show ?thesis by (simp add: vmtile_of_def)
  qed
qed

section \<open>Discovery\<close>

lemma for_each_same:
  assumes "\<And>x. x \<in> set xs \<Longrightarrow> f x s = Inr s"
  shows "for_each f xs s = Inr s"
  using assms by (induction xs) simp_all

text \<open>The maps found so far: a set of known numbers below a thousand, without tiles.\<close>

definition fresh_maps :: "u32 set \<Rightarrow> tile_map \<Rightarrow> bool" where
  "fresh_maps K tiles \<longleftrightarrow> btm_sorted tiles \<and> btm_get tiles = (\<lambda>m. if m \<in> K then Some [] else None)"

lemma fresh_maps_insert: "fresh_maps K tiles \<Longrightarrow> fresh_maps (insert m K) (btm_or_insert m [] tiles)"
  by (auto simp: fresh_maps_def btm_sorted_or_insert btm_get_or_insert fun_eq_iff)

lemma fresh_maps_loop:
  assumes "\<And>n tiles. n \<in> set names \<Longrightarrow> discover_map P n tiles = Inr (case f n of None \<Rightarrow> tiles | Some m \<Rightarrow> btm_or_insert m [] tiles)"
    and "fresh_maps K tiles"
  shows "\<exists>tiles'. for_each (discover_map P) names tiles = Inr tiles' \<and> fresh_maps (K \<union> {m. \<exists>n \<in> set names. f n = Some m}) tiles'"
  using assms
proof (induction names arbitrary: K tiles)
  case (Cons n names)
  let ?K = "K \<union> {m. f n = Some m}" and ?t = "case f n of None \<Rightarrow> tiles | Some m \<Rightarrow> btm_or_insert m [] tiles"
  have "fresh_maps ?K ?t" using fresh_maps_insert [OF Cons.prems(2)] Cons.prems(2) by (cases "f n") auto
  moreover have "?K \<union> {m. \<exists>n \<in> set names. f n = Some m} = K \<union> {m. \<exists>n \<in> set (n # names). f n = Some m}" by auto
  moreover have "discover_map P n tiles = Inr ?t" by (rule Cons.prems(1)) simp
  ultimately show ?case using Cons.IH [of ?K ?t] Cons.prems(1) by simp
qed simp

lemma discover_map_name:
  assumes "length a = 3" "is_ascii a" "is_ascii s" "parse_u32 a = Some m"
  shows "discover_map P (a @ s) tiles = Inr (if P (a @ s) then btm_or_insert m [] tiles else tiles)"
  using name_slices(1) [OF assms(1) _ _ assms(2), of "''00''" "''00''" s] assms(1,3,4) by (simp add: discover_map_def)

definition tiles_of :: "tile_map \<Rightarrow> u32 \<Rightarrow> u32 set" where
  "tiles_of tiles m = (case btm_get tiles m of None \<Rightarrow> {} | Some s \<Rightarrow> set s)"

text \<open>A step of the discovery that keeps the known maps.\<close>

definition same_maps :: "tile_map \<Rightarrow> tile_map \<Rightarrow> bool" where
  "same_maps tiles tiles' \<longleftrightarrow> btm_sorted tiles' \<and> (\<forall>m. btm_get tiles' m = None \<longleftrightarrow> btm_get tiles m = None)"

lemma discover_tile_step:
  assumes "tile_of m n = Inr t" "btm_sorted tiles" "btm_get tiles m \<noteq> None"
  shows "\<exists>tiles'. discover_tile tile_of m n tiles = Inr tiles' \<and> same_maps tiles tiles' \<and>
    tiles_of tiles' = (tiles_of tiles)(m := tiles_of tiles m \<union> set_option t)"
proof (cases t)
  case (Some u)
  obtain known where "btm_get tiles m = Some known" using assms(3) by auto
  then show ?thesis
    using assms(1,2) Some
    by (auto simp: discover_tile_def same_maps_def tiles_of_def fun_eq_iff btm_sorted_insert btm_get_insert bts_insert_def set_insort_insert)
qed (use assms in \<open>simp add: discover_tile_def same_maps_def\<close>)

lemma discover_tile_loop:
  assumes "\<And>n. n \<in> set names \<Longrightarrow> tile_of m n = Inr (f n)" "btm_sorted tiles" "btm_get tiles m \<noteq> None"
  shows "\<exists>tiles'. for_each (discover_tile tile_of m) names tiles = Inr tiles' \<and> same_maps tiles tiles' \<and>
    tiles_of tiles' = (tiles_of tiles)(m := tiles_of tiles m \<union> {t. \<exists>n \<in> set names. f n = Some t})"
  using assms
proof (induction names arbitrary: tiles)
  case Nil
  then show ?case by (simp add: same_maps_def)
next
  case (Cons n names)
  from discover_tile_step [where tile_of = tile_of and n = n and t = "f n", OF _ Cons.prems(2,3)] Cons.prems(1) [of n] obtain t1 where
    t1: "discover_tile tile_of m n tiles = Inr t1" "same_maps tiles t1"
      "tiles_of t1 = (tiles_of tiles)(m := tiles_of tiles m \<union> set_option (f n))" by auto
  have "btm_sorted t1" "btm_get t1 m \<noteq> None" using t1(2) Cons.prems(3) by (simp_all add: same_maps_def)
  moreover have "n \<in> set names \<Longrightarrow> tile_of m n = Inr (f n)" for n using Cons.prems(1) by simp
  ultimately obtain t2 where t2: "for_each (discover_tile tile_of m) names t1 = Inr t2" "same_maps t1 t2"
      "tiles_of t2 = (tiles_of t1)(m := tiles_of t1 m \<union> {t. \<exists>n \<in> set names. f n = Some t})" using Cons.IH by blast
  have "same_maps tiles t2" using t1(2) t2(2) by (simp add: same_maps_def)
  moreover have "tiles_of t2 = (tiles_of tiles)(m := tiles_of tiles m \<union> {t. \<exists>n \<in> set (n # names). f n = Some t})"
    unfolding t2(3) t1(3) by (auto simp: fun_eq_iff)
  moreover have "for_each (discover_tile tile_of m) (n # names) tiles = Inr t2" using t1(1) t2(1) by simp
  ultimately show ?case by blast
qed

lemma discover_maps_loop:
  assumes "\<And>m v. m \<in> set ids \<Longrightarrow> v \<in> set vmaps \<Longrightarrow> vmtile_of m v = Inr None"
    and "\<And>m n. m \<in> set ids \<Longrightarrow> n \<in> set maps \<Longrightarrow> map_tile_of m n = Inr (g m n)"
    and "btm_sorted tiles" "\<forall>m \<in> set ids. btm_get tiles m \<noteq> None"
  shows "\<exists>tiles'. for_each (\<lambda>map_id tiles. bind_result (for_each (discover_tile vmtile_of map_id) vmaps tiles)
      (for_each (discover_tile map_tile_of map_id) maps)) ids tiles = Inr tiles' \<and> same_maps tiles tiles' \<and>
    (\<forall>m. tiles_of tiles' m = tiles_of tiles m \<union> (if m \<in> set ids then {t. \<exists>n \<in> set maps. g m n = Some t} else {}))"
  using assms
proof (induction ids arbitrary: tiles)
  case Nil
  then show ?case by (simp add: same_maps_def)
next
  case (Cons m ids)
  have m: "btm_get tiles m \<noteq> None" using Cons.prems(4) by simp
  have id: "for_each (discover_tile vmtile_of m) vmaps tiles = Inr tiles"
    by (rule for_each_same) (simp add: discover_tile_def Cons.prems(1))
  from discover_tile_loop [of maps map_tile_of m "g m", OF _ Cons.prems(3) m] Cons.prems(2) obtain t1 where
    t1: "for_each (discover_tile map_tile_of m) maps tiles = Inr t1" "same_maps tiles t1"
      "tiles_of t1 = (tiles_of tiles)(m := tiles_of tiles m \<union> {t. \<exists>n \<in> set maps. g m n = Some t})" by auto
  have "btm_sorted t1" "\<forall>m \<in> set ids. btm_get t1 m \<noteq> None" using t1(2) Cons.prems(4) by (simp_all add: same_maps_def)
  from Cons.IH [OF Cons.prems(1,2) this] obtain t2 where
    t2: "for_each (\<lambda>map_id tiles. bind_result (for_each (discover_tile vmtile_of map_id) vmaps tiles)
      (for_each (discover_tile map_tile_of map_id) maps)) ids t1 = Inr t2" "same_maps t1 t2"
      "\<forall>m. tiles_of t2 m = tiles_of t1 m \<union> (if m \<in> set ids then {t. \<exists>n \<in> set maps. g m n = Some t} else {})" by auto
  have "same_maps tiles t2" using t1(2) t2(2) by (simp add: same_maps_def)
  moreover have "tiles_of t2 k = tiles_of tiles k \<union> (if k \<in> set (m # ids) then {t. \<exists>n \<in> set maps. g k n = Some t} else {})" for k
    using t2(3) [rule_format, of k] by (auto simp: t1(3))
  ultimately show ?case using id t1(1) t2(1) by simp
qed

lemma discover_names:
  assumes "\<forall>(m, y, x) \<in> set L. unat m < 1000 \<and> y < 100 \<and> x < 100" "\<forall>v \<in> set vmaps. assembler_name v"
  defines "maps \<equiv> map (\<lambda>(m, y, x). tile_name m y x) L"
  shows "\<exists>tiles. discover_tiles maps vmaps = Inr tiles \<and>
    (\<forall>m. tiles_of tiles m = {pack_tile_id (word_of_nat x) (word_of_nat y) | x y. (m, y, x) \<in> set L})"
proof -
  have name: "n \<in> set maps \<Longrightarrow> \<exists>m y x. (m, y, x) \<in> set L \<and> n = tile_name m y x \<and> unat m < 1000 \<and> y < 100 \<and> x < 100" for n
    using assms(1) by (force simp: maps_def)
  define id_of where "id_of n = parse_u32 (take 3 n)" for n :: string
  have id_name: "id_of (fmt0 3 m @ s) = Some m" if "unat m < 1000" for m s
    using that by (simp add: id_of_def fmt0_length)
  have d1: "discover_map (\<lambda>_. True) n tiles = Inr (case id_of n of None \<Rightarrow> tiles | Some m \<Rightarrow> btm_or_insert m [] tiles)"
    if "n \<in> set maps" for n tiles
  proof -
    from name [OF that] obtain m y x where n: "n = tile_name m y x" "unat m < 1000" by blast
    show ?thesis unfolding n(1) tile_name_def
      by (subst discover_map_name [where m = m]) (simp_all add: n(2) fmt0_length fmt0_ascii is_ascii_append id_name)
  qed
  define tree_of where "tree_of v = (if name_ends_with v ''.vmtree'' then id_of v else None)" for v
  have d2: "discover_map (\<lambda>n. name_ends_with n ''.vmtree'') v tiles = Inr (case tree_of v of None \<Rightarrow> tiles | Some m \<Rightarrow> btm_or_insert m [] tiles)"
    if "v \<in> set vmaps" for v tiles
  proof -
    have "assembler_name v" using that assms(2) by blast
    then obtain m s where v: "v = fmt0 3 m @ s" "unat m < 1000" "is_ascii s"
      unfolding assembler_name_def vmtree_name_def vmtile_name_def by (auto simp: is_ascii_append fmt0_ascii)
    show ?thesis unfolding v(1)
      by (subst discover_map_name [where m = m]) (simp_all add: v(2,3) fmt0_length fmt0_ascii id_name tree_of_def)
  qed
  have "fresh_maps {} []" by (simp add: fresh_maps_def fun_eq_iff)
  from fresh_maps_loop [of maps, OF d1 this] obtain t1 where
    t1: "for_each (discover_map (\<lambda>_. True)) maps [] = Inr t1" "fresh_maps {m. \<exists>n \<in> set maps. id_of n = Some m} t1" by auto
  define K where "K = {m. \<exists>n \<in> set maps. id_of n = Some m} \<union> {m. \<exists>v \<in> set vmaps. tree_of v = Some m}"
  from fresh_maps_loop [of vmaps, OF d2 t1(2)] obtain t2 where
    t2: "for_each (discover_map (\<lambda>n. name_ends_with n ''.vmtree'')) vmaps t1 = Inr t2" "fresh_maps K t2" by (auto simp: K_def)
  have K: "unat m < 1000" if "m \<in> K" for m
  proof -
    have "\<exists>s. unat m' < 1000 \<and> n = fmt0 3 m' @ s" if "n \<in> set maps \<union> set vmaps" "id_of n = Some m'" for n m'
    proof -
      have "\<exists>k s. unat k < 1000 \<and> n = fmt0 3 k @ s"
        using that(1) name [of n] assms(2) unfolding assembler_name_def vmtree_name_def vmtile_name_def tile_name_def by blast
      then show ?thesis using that(2) id_name by auto
    qed
    then show ?thesis using that by (auto simp: K_def tree_of_def split: if_splits)
  qed
  have t2': "btm_sorted t2" "btm_get t2 = (\<lambda>m. if m \<in> K then Some [] else None)" using t2(2) by (simp_all add: fresh_maps_def)
  have keys: "set (map fst t2) = K"
  proof -
    have "m \<in> set (map fst t2) \<longleftrightarrow> btm_get t2 m \<noteq> None" for m by (simp add: btm_get_def map_of_eq_None_iff)
    also have "btm_get t2 m \<noteq> None \<longleftrightarrow> m \<in> K" for m by (simp add: t2'(2))
    finally show ?thesis by blast
  qed
  define g where "g m n = projr (map_tile_of m n)" for m n
  have g: "map_tile_of m (tile_name k y x) = Inr (g m (tile_name k y x)) \<and>
      g m (tile_name k y x) = (if k = m then Some (pack_tile_id (word_of_nat x) (word_of_nat y)) else None)"
    if "m \<in> K" "unat k < 1000" "y < 100" "x < 100" for m k y x
    using map_tile_of_name [OF that(2) K [OF that(1)] that(3,4)] by (simp add: g_def)
  have 1: "vmtile_of m v = Inr None" if "m \<in> set (map fst t2)" "v \<in> set vmaps" for m v
    using that assms(2) K unfolding keys by (intro vmtile_of_assembler_name) blast+
  have 2: "map_tile_of m n = Inr (g m n)" if "m \<in> set (map fst t2)" "n \<in> set maps" for m n
    using name [OF that(2)] g that(1) unfolding keys by blast
  have 3: "\<forall>m \<in> set (map fst t2). btm_get t2 m \<noteq> None" unfolding keys t2'(2) by simp
  from discover_maps_loop [of "map fst t2" vmaps maps g t2, OF 1 2 t2'(1) 3] obtain t3 where t3: "discover_tiles maps vmaps = Inr t3"
      "\<forall>m. tiles_of t3 m = tiles_of t2 m \<union> (if m \<in> K then {t. \<exists>n \<in> set maps. g m n = Some t} else {})"
    unfolding keys by (auto simp: discover_tiles_def t1(1) t2(1))
  have "tiles_of t3 m = {pack_tile_id (word_of_nat x) (word_of_nat y) | x y. (m, y, x) \<in> set L}" for m
  proof -
    have "tiles_of t2 m = {}" using t2'(2) by (simp add: tiles_of_def)
    moreover have "m \<in> K" if "(m, y, x) \<in> set L" for y x
    proof -
      have "tile_name m y x \<in> set maps" "unat m < 1000" using that assms(1) by (auto simp: maps_def intro: rev_image_eqI)
      then have "id_of (tile_name m y x) = Some m" unfolding tile_name_def using id_name by blast
      then show ?thesis unfolding K_def using \<open>tile_name m y x \<in> set maps\<close> by blast
    qed
    moreover have "{t. \<exists>n \<in> set maps. g m n = Some t} = {pack_tile_id (word_of_nat x) (word_of_nat y) | x y. (m, y, x) \<in> set L}" if "m \<in> K"
    proof (intro set_eqI iffI)
      fix t assume "t \<in> {t. \<exists>n \<in> set maps. g m n = Some t}"
      then obtain k y x where L: "(k, y, x) \<in> set L" "g m (tile_name k y x) = Some t" by (auto simp: maps_def)
      then have "unat k < 1000" "y < 100" "x < 100" using assms(1) by auto
      from g [OF that this] L show "t \<in> {pack_tile_id (word_of_nat x) (word_of_nat y) | x y. (m, y, x) \<in> set L}"
        by (auto split: if_splits)
    next
      fix t assume "t \<in> {pack_tile_id (word_of_nat x) (word_of_nat y) | x y. (m, y, x) \<in> set L}"
      then obtain x y where L: "(m, y, x) \<in> set L" "t = pack_tile_id (word_of_nat x) (word_of_nat y)" by blast
      then have "unat m < 1000" "y < 100" "x < 100" "tile_name m y x \<in> set maps"
        using assms(1) by (auto simp: maps_def intro: rev_image_eqI)
      then have "g m (tile_name m y x) = Some t" using g [OF that, of m y x] L(2) by simp
      then show "t \<in> {t. \<exists>n \<in> set maps. g m n = Some t}" using \<open>tile_name m y x \<in> set maps\<close> by blast
    qed
    ultimately show ?thesis using t3(2) [rule_format, of m] by (cases "m \<in> K") auto
  qed
  with t3(1) show ?thesis by blast
qed

text \<open>C40: the generator finds exactly the tiles the map extractor wrote.  With a map directory
  that holds the files of the extractor and a model directory that holds those of the
  assembler, the tiles of every map are the coordinates of its map files: each is unpacked to
  the coordinates it was written for, and the file opened for it is the file it was found by.
  The tile files of the assembler add none.\<close>

theorem discover_finds_map_tiles:
  assumes "\<forall>(m, y, x) \<in> set L. unat m < 1000 \<and> y < 64 \<and> x < 64" "\<forall>v \<in> set vmaps. assembler_name v"
  shows "\<exists>tiles. discover_tiles (map (\<lambda>(m, y, x). tile_name m y x) L) vmaps = Inr tiles \<and>
    (\<forall>m. unpack_tile_id ` tiles_of tiles m = {(word_of_nat x, word_of_nat y) | x y. (m, y, x) \<in> set L}) \<and>
    (\<forall>m y x. (m, y, x) \<in> set L \<longrightarrow>
       load_map_portion B skip_liquid maps m (word_of_nat x) (word_of_nat y) portion mesh =
       (case maps (tile_name m y x) of None \<Rightarrow> Inr (False, mesh)
        | Some file \<Rightarrow> load_map_file B skip_liquid file (word_of_nat x) (word_of_nat y) portion mesh))"
proof -
  have "\<forall>(m, y, x) \<in> set L. unat m < 1000 \<and> y < 100 \<and> x < 100" using assms(1) by fastforce
  from discover_names [OF this assms(2)] obtain tiles where t: "discover_tiles (map (\<lambda>(m, y, x). tile_name m y x) L) vmaps = Inr tiles"
      "\<forall>m. tiles_of tiles m = {pack_tile_id (word_of_nat x) (word_of_nat y) | x y. (m, y, x) \<in> set L}" by blast
  have unpack: "unpack_tile_id (pack_tile_id (word_of_nat x) (word_of_nat y)) = (word_of_nat x, word_of_nat y)"
    if "(m, y, x) \<in> set L" for m y x
  proof -
    have "x < 64" "y < 64" using assms(1) that by auto
    then show ?thesis by (intro pack_tile_roundtrip) (simp_all add: word_less_nat_alt unat_of_nat)
  qed
  have "unpack_tile_id ` tiles_of tiles m = {(word_of_nat x, word_of_nat y) | x y. (m, y, x) \<in> set L}" for m
    unfolding t(2) [rule_format] using unpack by (fastforce simp: image_iff)
  moreover have "load_map_portion B skip_liquid maps m (word_of_nat x) (word_of_nat y) portion mesh =
       (case maps (tile_name m y x) of None \<Rightarrow> Inr (False, mesh)
        | Some file \<Rightarrow> load_map_file B skip_liquid file (word_of_nat x) (word_of_nat y) portion mesh)" for m y x
    by (simp add: load_map_portion_def tile_name_def)
  ultimately show ?thesis using t(1) by blast
qed

theorem discover_finds_map_tiles_witness:
  "\<exists>tiles. discover_tiles [tile_name 530 27 36] [vmtile_name 530 36 27] = Inr tiles \<and> unpack_tile_id ` tiles_of tiles 530 = {(36, 27)}"
proof -
  have "assembler_name (vmtile_name 530 36 27)"
    unfolding assembler_name_def
    by (rule exI [of _ 530], rule conjI, simp, rule disjI2, rule exI [of _ 36], rule exI [of _ 27], simp)
  then show ?thesis
    using discover_finds_map_tiles [of "[(530, 27, 36)]" "[vmtile_name 530 36 27]" std_byteorder False "\<lambda>_. None" Entire mesh_data_default]
    by auto
qed

end
