(* ===== verification/Recast.thy ===== *)
theory Recast
  imports Move_Map "HOL-Library.State_Monad"
begin

text \<open>
  The unsafe part of \<^verbatim>\<open>crates/extractors/src/movemap_gen.rs\<close>: the calls into the C++ library
  Recast and Detour that build a tile.  What the library computes is foreign: the outcome of
  its \<open>n\<close>-th call (a null pointer, a failure) and the data it returns are fields of
  \<open>rc_library\<close>.  The state is the heap of the library, the objects that are allocated with
  their kind; the calls made so far with their arguments; and whether an object was used or
  freed that is not allocated, or memory read outside a vector.  As the library documents,
  freeing a null pointer does nothing.
\<close>

section \<open>Reads through raw pointers\<close>

text \<open>A read outside the vector has no defined result.\<close>

definition out_of_allocation :: rust_error where
  "out_of_allocation = Panic ''read outside the allocation''"

definition raw_read :: "'a list \<Rightarrow> nat \<Rightarrow> 'a result" where
  "raw_read xs i = (if i < length xs then Inr (xs ! i) else Inl out_of_allocation)"

definition raw_write :: "'a list \<Rightarrow> nat \<Rightarrow> 'a \<Rightarrow> 'a list result" where
  "raw_write xs i x = (if i < length xs then Inr (xs[i := x]) else Inl out_of_allocation)"

section \<open>Steep triangles\<close>

definition raw_vertex :: "f32 list \<Rightarrow> int list \<Rightarrow> nat \<Rightarrow> f3 result" where
  "raw_vertex verts tris t =
     bind_result (raw_read tris t) (\<lambda>v.
     let i = as_usize v in
     bind_result (raw_read verts (i * 3)) (\<lambda>x.
     bind_result (raw_read verts (i * 3 + 1)) (\<lambda>y.
     bind_result (raw_read verts (i * 3 + 2)) (\<lambda>z. Inr (x, y, z)))))"

definition f3_sub :: "f3 \<Rightarrow> f3 \<Rightarrow> f3" where
  "f3_sub a b = (case (a, b) of ((x, y, z), (u, v, w)) \<Rightarrow> (f32_sub x u, f32_sub y v, f32_sub z w))"

text \<open>The vertical part of the unit normal of a triangle.\<close>

definition normal_y :: "f3 \<Rightarrow> f3 \<Rightarrow> f3 \<Rightarrow> f32" where
  "normal_y v0 v1 v2 =
     (case (f3_sub v1 v0, f3_sub v2 v0) of ((a0, a1, a2), (b0, b1, b2)) \<Rightarrow>
        let n0 = f32_sub (f32_mul a1 b2) (f32_mul a2 b1);
            n1 = f32_sub (f32_mul a2 b0) (f32_mul a0 b2);
            n2 = f32_sub (f32_mul a0 b1) (f32_mul a1 b0);
            len = f32_sqrt (f32_add (f32_add (f32_mul n0 n0) (f32_mul n1 n1)) (f32_mul n2 n2))
        in if f32_lt 0 len then f32_div n1 len else n1)"

definition NAV_AREA_GROUND_STEEP :: u8 where "NAV_AREA_GROUND_STEEP = 10"

definition steep_step :: "f32 \<Rightarrow> f32 list \<Rightarrow> int list \<Rightarrow> nat \<Rightarrow> u8 list \<Rightarrow> u8 list result" where
  "steep_step walkable_thr verts tris i areas =
     (if areas ! i AND 0x3F = 0 then Inr areas
      else
        bind_result (raw_vertex verts tris (i * 3)) (\<lambda>v0.
        bind_result (raw_vertex verts tris (i * 3 + 1)) (\<lambda>v1.
        bind_result (raw_vertex verts tris (i * 3 + 2)) (\<lambda>v2.
        Inr (if f32_le (normal_y v0 v1 v2) walkable_thr then areas[i := NAV_AREA_GROUND_STEEP] else areas)))))"

definition rc_mod_almost_unwalkable_triangles ::
    "(f32 \<Rightarrow> f32 \<times> f32) \<Rightarrow> f32 \<Rightarrow> f32 list \<Rightarrow> int list \<Rightarrow> nat \<Rightarrow> u8 list \<Rightarrow> u8 list result" where
  "rc_mod_almost_unwalkable_triangles sin_cos walkable_slope_angle verts tris tri_count areas =
     (let walkable_thr = snd (sin_cos (f32_mul (f32_div walkable_slope_angle 0x43340000) 0x40490FDB)) in
      for_each (steep_step walkable_thr verts tris) [0..<min tri_count (length areas)] areas)"

definition NAV_AREA_GROUND :: u8 where "NAV_AREA_GROUND = 11"

section \<open>Configuration of a sub-tile\<close>

record rc_config_c = rc_config +
  rcc_liquid_flag_merge_threshold :: f32

definition create_rc_config_c :: "rc_config \<Rightarrow> rc_config_c" where
  "create_rc_config_c c = rc_config.extend c (rc_config_c.fields 0)"

definition tile_width_cells :: "rc_config \<Rightarrow> i32 result" where
  "tile_width_cells c =
     bind_result (mul_i32 (rc_border_size c) 2) (\<lambda>borders.
     bind_result (add_i32 (sint (rc_tile_size c)) (sint borders)) (\<lambda>tile_w. Inr (word_of_int tile_w)))"

definition sub_tile_config :: "rc_config \<Rightarrow> i32 \<Rightarrow> nat \<Rightarrow> nat \<Rightarrow> rc_config_c" where
  "sub_tile_config c tile_w x y =
     (case (rc_bmin c, rc_bmax c) of ((x0, y0, z0), (x1, y1, z1)) \<Rightarrow>
       let step = f32_mul (f32_of_int (sint (rc_tile_size c))) (rc_cs c);
           pad = f32_mul (f32_of_int (sint (rc_border_size c))) (rc_cs c);
           low = (\<lambda>origin k. f32_sub (f32_add origin (f32_mul (f32_of_nat k) step)) pad);
           high = (\<lambda>origin k. f32_add (f32_add origin (f32_mul (f32_of_nat (k + 1)) step)) pad)
       in (create_rc_config_c c)\<lparr>rc_width := tile_w, rc_height := tile_w,
            rc_bmin := (low x0 x, y0, low z0 y), rc_bmax := (high x0 x, y1, high z0 y)\<rparr>)"

section \<open>Calls\<close>

text \<open>The parameters of \<^verbatim>\<open>dt_create_nav_mesh_data\<close>; vectors of the library that may be null are
  flags.\<close>

record dt_params =
  dp_vert_count :: int
  dp_has_verts :: bool
  dp_poly_count :: int
  dp_has_polys :: bool
  dp_poly_areas :: "u8 list"
  dp_poly_flags :: "u16 list"
  dp_nvp :: int
  dp_has_detail :: bool
  dp_off_mesh_con_verts :: "f32 list"
  dp_off_mesh_con_count :: int
  dp_off_mesh_con_rad :: "f32 list"
  dp_off_mesh_con_dir :: "u8 list"
  dp_off_mesh_con_areas :: "u8 list"
  dp_off_mesh_con_flags :: "u16 list"
  dp_walkable_height :: f32
  dp_walkable_radius :: f32
  dp_walkable_climb :: f32
  dp_tile_x :: i32
  dp_tile_y :: i32
  dp_bmin :: f3
  dp_bmax :: f3
  dp_cs :: f32
  dp_ch :: f32
  dp_tile_layer :: i32
  dp_build_bv_tree :: bool

text \<open>The functions of the library with the arguments that are not objects of its heap.\<close>

datatype rc_op =
  CreateHeightfield i32 i32 f3 f3 f32 f32
| ClearUnwalkableTriangles f32 "f32 list" int "int list" int "u8 list"
| RasterizeTriangles "f32 list" int "int list" "u8 list" int i32
| FilterLowHangingWalkableObstacles i32
| FilterLedgeSpans i32 i32
| FilterWalkableLowHeightSpans i32
| BuildCompactHeightfield i32 i32
| ErodeWalkableArea i32
| MedianFilterWalkableArea
| BuildDistanceField
| BuildRegions i32 i32 i32
| BuildContours f32 i32
| BuildPolyMesh i32
| BuildPolyMeshDetail f32 f32
| MergePolyMeshes int
| MergePolyMeshDetails int
| GetPolyMeshData
| GetPolyMeshDetailData
| CreateNavMeshData dt_params

text \<open>What the library reads through the pointers it is given: the corners of each of the
  triangles with their areas, and so many off-mesh connections.\<close>

definition mesh_readable :: "f32 list \<Rightarrow> int list \<Rightarrow> u8 list \<Rightarrow> int \<Rightarrow> bool" where
  "mesh_readable verts tris areas tri_count \<longleftrightarrow>
     3 * nat tri_count \<le> length tris \<and> nat tri_count \<le> length areas \<and>
     list_all (\<lambda>t. 0 \<le> t \<and> 3 * t + 2 < int (length verts)) (take (3 * nat tri_count) tris)"

definition connections_readable :: "dt_params \<Rightarrow> bool" where
  "connections_readable p \<longleftrightarrow>
     (let n = nat (dp_off_mesh_con_count p) in
      6 * n \<le> length (dp_off_mesh_con_verts p) \<and> n \<le> length (dp_off_mesh_con_rad p) \<and>
      n \<le> length (dp_off_mesh_con_dir p) \<and> n \<le> length (dp_off_mesh_con_areas p) \<and>
      n \<le> length (dp_off_mesh_con_flags p))"

fun in_bounds :: "rc_op \<Rightarrow> bool" where
  "in_bounds (ClearUnwalkableTriangles angle verts vert_count tris tri_count areas) = mesh_readable verts tris areas tri_count"
| "in_bounds (RasterizeTriangles verts vert_count tris areas tri_count climb) = mesh_readable verts tris areas tri_count"
| "in_bounds (CreateNavMeshData p) = connections_readable p"
| "in_bounds _ = True"

text \<open>What the merged meshes hold, as the library returns it.\<close>

record merged_data =
  md_nverts :: int
  md_npolys :: int
  md_nvp :: int
  md_areas :: "u8 list"
  md_flags :: "u16 list"
  md_has_verts :: bool
  md_has_polys :: bool
  md_has_detail :: bool

record rc_library =
  lib_ok :: "nat \<Rightarrow> bool"
  lib_clear_unwalkable :: "f32 \<Rightarrow> f32 list \<Rightarrow> int list \<Rightarrow> u8 list \<Rightarrow> u8 list"
  lib_sin_cos :: "f32 \<Rightarrow> f32 \<times> f32"
  lib_merged :: merged_data
  lib_nav_data :: "dt_params \<Rightarrow> bytes"

section \<open>The heap of the library\<close>

datatype rc_kind = Context | Heightfield | CompactHeightfield | ContourSet | PolyMesh | PolyMeshDetail | NavData

type_synonym rc_ptr = "nat option"

record rc_world =
  rw_calls :: nat
  rw_live :: "(nat \<times> rc_kind) set"
  rw_trace :: "rc_op list"
  rw_fault :: bool

definition rc_start :: rc_world where
  "rc_start = \<lparr>rw_calls = 0, rw_live = {}, rw_trace = [], rw_fault = False\<rparr>"

type_synonym 'a rc = "(rc_world, 'a) state"

definition rc_alloc :: "(nat \<Rightarrow> bool) \<Rightarrow> rc_kind \<Rightarrow> rc_ptr rc" where
  "rc_alloc ok k = State (\<lambda>w.
     let n = rw_calls w; w = w\<lparr>rw_calls := n + 1\<rparr> in
     if ok n then (Some n, w\<lparr>rw_live := insert (n, k) (rw_live w)\<rparr>) else (None, w))"

definition rc_free :: "rc_kind \<Rightarrow> rc_ptr \<Rightarrow> unit rc" where
  "rc_free k p = State (\<lambda>w. ((),
     case p of
       None \<Rightarrow> w
     | Some n \<Rightarrow>
         if (n, k) \<in> rw_live w then w\<lparr>rw_live := rw_live w - {(n, k)}\<rparr> else w\<lparr>rw_fault := True\<rparr>))"

text \<open>A call that works on the given objects, all of which must be allocated.\<close>

definition rc_call :: "rc_library \<Rightarrow> rc_op \<Rightarrow> (rc_kind \<times> rc_ptr) list \<Rightarrow> bool rc" where
  "rc_call lib op uses = State (\<lambda>w.
     (lib_ok lib (rw_calls w),
      w\<lparr>rw_calls := rw_calls w + 1, rw_trace := rw_trace w @ [op],
        rw_fault := rw_fault w \<or> \<not> in_bounds op \<or>
          \<not> list_all (\<lambda>(k, p). case p of None \<Rightarrow> False | Some n \<Rightarrow> (n, k) \<in> rw_live w) uses\<rparr>))"

text \<open>\<^verbatim>\<open>p.is_null() || !call(p)\<close>, and calls without a result.\<close>

definition rc_failed :: "rc_library \<Rightarrow> rc_op \<Rightarrow> rc_ptr \<Rightarrow> (rc_kind \<times> rc_ptr) list \<Rightarrow> bool rc" where
  "rc_failed lib op p uses =
     (if p = None then State_Monad.return True
      else do { b \<leftarrow> rc_call lib op uses; State_Monad.return (\<not> b) })"

definition rc_do :: "rc_library \<Rightarrow> rc_op \<Rightarrow> (rc_kind \<times> rc_ptr) list \<Rightarrow> unit rc" where
  "rc_do lib op uses = do { b \<leftarrow> rc_call lib op uses; State_Monad.return () }"

text \<open>A computation over raw pointers; an undefined read is a fault, and its value arbitrary.\<close>

definition rc_raw :: "'a result \<Rightarrow> 'a \<Rightarrow> 'a rc" where
  "rc_raw r arbitrary = State (\<lambda>w. case r of Inr x \<Rightarrow> (x, w) | Inl e \<Rightarrow> (arbitrary, w\<lparr>rw_fault := True\<rparr>))"

section \<open>One sub-tile\<close>

text \<open>The last steps, from the contours to the two meshes.\<close>

definition build_meshes :: "rc_library \<Rightarrow> rc_ptr \<Rightarrow> rc_config_c \<Rightarrow> rc_ptr \<Rightarrow> (rc_ptr \<times> rc_ptr) rc" where
  "build_meshes lib ctx tile_cfg chf = do {
     cset \<leftarrow> rc_alloc (lib_ok lib) ContourSet;
     failed \<leftarrow> rc_failed lib (BuildContours (rc_max_simplification_error tile_cfg) (rc_max_edge_len tile_cfg)) cset
       [(Context, ctx), (CompactHeightfield, chf), (ContourSet, cset)];
     if failed then do {
       rc_free CompactHeightfield chf; rc_free ContourSet cset; State_Monad.return (None, None) }
     else do {
       pmesh \<leftarrow> rc_alloc (lib_ok lib) PolyMesh;
       failed \<leftarrow> rc_failed lib (BuildPolyMesh (rc_max_verts_per_poly tile_cfg)) pmesh
         [(Context, ctx), (ContourSet, cset), (PolyMesh, pmesh)];
       if failed then do {
         rc_free CompactHeightfield chf; rc_free ContourSet cset; rc_free PolyMesh pmesh;
         State_Monad.return (None, None) }
       else do {
         dmesh \<leftarrow> rc_alloc (lib_ok lib) PolyMeshDetail;
         failed \<leftarrow> rc_failed lib (BuildPolyMeshDetail (rc_detail_sample_dist tile_cfg) (rc_detail_sample_max_error tile_cfg)) dmesh
           [(Context, ctx), (PolyMesh, pmesh), (CompactHeightfield, chf), (PolyMeshDetail, dmesh)];
         if failed then do {
           rc_free CompactHeightfield chf; rc_free ContourSet cset; rc_free PolyMesh pmesh;
           rc_free PolyMeshDetail dmesh; State_Monad.return (None, None) }
         else do {
           rc_free CompactHeightfield chf; rc_free ContourSet cset;
           State_Monad.return (pmesh, dmesh) } } } }"

text \<open>The steps on the compact height field: erosion, the distance field and the regions.\<close>

definition build_compact :: "rc_library \<Rightarrow> rc_ptr \<Rightarrow> rc_config_c \<Rightarrow> rc_ptr \<Rightarrow> (rc_ptr \<times> rc_ptr) rc" where
  "build_compact lib ctx tile_cfg chf = do {
     eroded \<leftarrow> rc_call lib (ErodeWalkableArea (rc_walkable_radius tile_cfg)) [(Context, ctx), (CompactHeightfield, chf)];
     if \<not> eroded then do { rc_free CompactHeightfield chf; State_Monad.return (None, None) }
     else do {
       rc_do lib MedianFilterWalkableArea [(Context, ctx), (CompactHeightfield, chf)];
       distance \<leftarrow> rc_call lib BuildDistanceField [(Context, ctx), (CompactHeightfield, chf)];
       if \<not> distance then do { rc_free CompactHeightfield chf; State_Monad.return (None, None) }
       else do {
         regions \<leftarrow> rc_call lib
           (BuildRegions (rc_border_size tile_cfg) (rc_min_region_area tile_cfg) (rc_merge_region_area tile_cfg))
           [(Context, ctx), (CompactHeightfield, chf)];
         if \<not> regions then do { rc_free CompactHeightfield chf; State_Monad.return (None, None) }
         else build_meshes lib ctx tile_cfg chf } } }"

definition vec_count :: "'a list \<Rightarrow> int" where
  "vec_count xs = as_i32 (length xs div 3)"

text \<open>The ground: all triangles are walkable, the library clears what is too steep, and what
  is steep but walkable is marked.\<close>

definition rasterize_solid :: "rc_library \<Rightarrow> rc_ptr \<Rightarrow> rc_config_c \<Rightarrow> mesh_data \<Rightarrow> rc_ptr \<Rightarrow> unit rc" where
  "rasterize_solid lib ctx tile_cfg m solid = (
     let t_verts = solid_verts m; t_tris = solid_tris m; t_tri_count = vec_count (solid_tris m);
         walkable = replicate (nat t_tri_count) NAV_AREA_GROUND;
         angle = rc_walkable_slope_angle tile_cfg;
         tri_flags = lib_clear_unwalkable lib angle t_verts t_tris walkable in
     if t_tri_count > 0 then do {
       rc_do lib (ClearUnwalkableTriangles angle t_verts (vec_count t_verts) t_tris t_tri_count walkable) [(Context, ctx)];
       tri_flags \<leftarrow> rc_raw
         (rc_mod_almost_unwalkable_triangles (lib_sin_cos lib) 0x42480000 t_verts t_tris (nat t_tri_count) tri_flags) tri_flags;
       rc_do lib (RasterizeTriangles t_verts (vec_count t_verts) t_tris tri_flags t_tri_count (rc_walkable_climb tile_cfg))
         [(Context, ctx), (Heightfield, solid)] }
     else State_Monad.return ())"

text \<open>The ground is rasterised and filtered, and the liquid rasterised on top; the pointer of a
  vector is never null.\<close>

definition rasterize :: "rc_library \<Rightarrow> rc_ptr \<Rightarrow> rc_config_c \<Rightarrow> mesh_data \<Rightarrow> rc_ptr \<Rightarrow> unit rc" where
  "rasterize lib ctx tile_cfg m solid = do {
     rasterize_solid lib ctx tile_cfg m solid;
     rc_do lib (FilterLowHangingWalkableObstacles (rc_walkable_climb tile_cfg)) [(Context, ctx), (Heightfield, solid)];
     rc_do lib (FilterLedgeSpans (rc_walkable_height tile_cfg) (rc_walkable_climb tile_cfg)) [(Context, ctx), (Heightfield, solid)];
     rc_do lib (FilterWalkableLowHeightSpans (rc_walkable_height tile_cfg)) [(Context, ctx), (Heightfield, solid)];
     (if vec_count (liquid_tris m) > 0
      then rc_do lib (RasterizeTriangles (liquid_verts m) (vec_count (liquid_verts m)) (liquid_tris m) (liquid_type m)
             (vec_count (liquid_tris m)) (rc_walkable_climb tile_cfg)) [(Context, ctx), (Heightfield, solid)]
      else State_Monad.return ()) }"

definition build_common_tile_recast ::
    "rc_library \<Rightarrow> rc_ptr \<Rightarrow> rc_config_c \<Rightarrow> mesh_data \<Rightarrow> (rc_ptr \<times> rc_ptr) rc" where
  "build_common_tile_recast lib ctx tile_cfg m = do {
     solid \<leftarrow> rc_alloc (lib_ok lib) Heightfield;
     failed \<leftarrow> rc_failed lib
       (CreateHeightfield (rc_width tile_cfg) (rc_height tile_cfg) (rc_bmin tile_cfg) (rc_bmax tile_cfg) (rc_cs tile_cfg) (rc_ch tile_cfg))
       solid [(Context, ctx), (Heightfield, solid)];
     if failed then do { rc_free Heightfield solid; State_Monad.return (None, None) }
     else do {
       rasterize lib ctx tile_cfg m solid;
       chf \<leftarrow> rc_alloc (lib_ok lib) CompactHeightfield;
       failed \<leftarrow> rc_failed lib (BuildCompactHeightfield (rc_walkable_height tile_cfg) (rc_walkable_climb tile_cfg)) chf
         [(Context, ctx), (Heightfield, solid), (CompactHeightfield, chf)];
       if failed then do {
         rc_free Heightfield solid; rc_free CompactHeightfield chf; State_Monad.return (None, None) }
       else do {
         rc_free Heightfield solid;
         build_compact lib ctx tile_cfg chf } } }"

section \<open>A tile\<close>

definition VERTEX_PER_MAP :: int where
  "VERTEX_PER_MAP = sint (f32_to_i32 (f32_add (f32_div GRID_SIZE BASE_UNIT_DIM) f32_half))"

definition TILES_PER_MAP :: nat where
  "TILES_PER_MAP = nat (VERTEX_PER_MAP div sint VERTEX_PER_TILE)"

text \<open>The flags of a polygon from its area; \<open>11 - area\<close> of an unknown larger area overflows.\<close>

definition poly_flag :: "u8 \<Rightarrow> u16 \<Rightarrow> u16 result" where
  "poly_flag area flag =
     (let area = area AND 0x3F in
      if area = 0 then Inr flag
      else if area \<ge> NAV_AREA_MAGMA_SLIME then
        (if area \<le> 11 then Inr (push_bit (unat (11 - area)) 1) else Inl overflow)
      else Inr 1)"

definition set_poly_flags :: "merged_data \<Rightarrow> u16 list result" where
  "set_poly_flags d =
     for_each (\<lambda>i flags.
       bind_result (raw_read (md_areas d) i) (\<lambda>area.
       bind_result (raw_read flags i) (\<lambda>flag.
       bind_result (poly_flag area flag) (\<lambda>flag. raw_write flags i flag))))
     [0..<as_usize (md_npolys d)] (md_flags d)"

text \<open>The parameters of the tile.\<close>

definition create_params ::
    "rc_config \<Rightarrow> nav_mesh_params \<Rightarrow> mesh_data \<Rightarrow> f3 \<Rightarrow> f3 \<Rightarrow> merged_data \<Rightarrow> u16 list \<Rightarrow> dt_params" where
  "create_params config nav m bmin bmax d flags =
     (let unit_of = (\<lambda>n. f32_mul BASE_UNIT_DIM (f32_of_int (sint n)));
          place = (\<lambda>lo hi orig. f32_to_i32 (f32_div (f32_sub (f32_div (f32_add lo hi) 0x40000000) orig) GRID_SIZE));
          off = (\<lambda>xs. if off_mesh_connections m = [] then [] else xs) in
      \<lparr>dp_vert_count = md_nverts d, dp_has_verts = md_has_verts d, dp_poly_count = md_npolys d, dp_has_polys = md_has_polys d,
       dp_poly_areas = md_areas d, dp_poly_flags = flags, dp_nvp = md_nvp d, dp_has_detail = md_has_detail d,
       dp_off_mesh_con_verts = off_mesh_connections m,
       dp_off_mesh_con_count = as_i32 (length (off_mesh_connections m) div 6),
       dp_off_mesh_con_rad = (if off_mesh_connections m = [] then [] else off_mesh_connection_rads m),
       dp_off_mesh_con_dir = off (off_mesh_connection_dirs m), dp_off_mesh_con_areas = off (off_mesh_connections_areas m),
       dp_off_mesh_con_flags = (if off_mesh_connections m = [] then [] else off_mesh_connections_flags m),
       dp_walkable_height = unit_of (rc_walkable_height config), dp_walkable_radius = unit_of (rc_walkable_radius config),
       dp_walkable_climb = unit_of (rc_walkable_climb config),
       dp_tile_x = place (fst bmin) (fst bmax) (fst (np_orig nav)),
       dp_tile_y = place (snd (snd bmin)) (snd (snd bmax)) (snd (snd (np_orig nav))),
       dp_bmin = bmin, dp_bmax = bmax, dp_cs = rc_cs config, dp_ch = rc_ch config, dp_tile_layer = 0, dp_build_bv_tree = True\<rparr>)"

datatype refusal = TooManyVertsPerPoly | TooManyVertices | NoVertices | NoPolygons | NoDetail

definition check_params :: "dt_params \<Rightarrow> refusal option" where
  "check_params p =
     (if dp_nvp p > sint DT_VERTS_PER_POLYGON then Some TooManyVertsPerPoly
      else if dp_vert_count p \<ge> 0xFFFF then Some TooManyVertices
      else if dp_vert_count p = 0 \<or> \<not> dp_has_verts p then Some NoVertices
      else if dp_poly_count p = 0 \<or> \<not> dp_has_polys p \<or> dp_poly_count p = int (TILES_PER_MAP * TILES_PER_MAP) then Some NoPolygons
      else if \<not> dp_has_detail p then Some NoDetail
      else None)"

definition mmtile_header :: "byteorder \<Rightarrow> u32 \<Rightarrow> bool \<Rightarrow> bytes" where
  "mmtile_header B data_size uses_liquids =
     concat (map (enc_u32 B) [MMAP_MAGIC, DT_NAVMESH_VERSION_CONST, MMAP_VERSION, data_size, if uses_liquids then 1 else 0])"

definition mmtile_name :: "u32 \<Rightarrow> u32 \<Rightarrow> u32 \<Rightarrow> string" where
  "mmtile_name map_id tile_x tile_y = fmt0 3 map_id @ fmt0 2 tile_y @ fmt0 2 tile_x @ ''.mmtile''"

text \<open>The end of a build, with the file that was written.\<close>

datatype tile_outcome =
  NoContext
| NothingToMerge
| NoMergedMesh
| NoMergedDetail
| Refused refusal
| CreateFailed
| Built "(string \<times> bytes) option"
| Panicked rust_error

text \<open>What identifies a tile; \<open>tj_can_write\<close> says whether its file can be created.\<close>

record tile_job =
  tj_order :: byteorder
  tj_can_write :: "string \<Rightarrow> bool"
  tj_map :: u32
  tj_x :: u32
  tj_y :: u32
  tj_nav :: nav_mesh_params
  tj_config :: rc_config
  tj_bmin :: f3
  tj_bmax :: f3
  tj_uses_liquids :: bool

definition write_tile :: "rc_library \<Rightarrow> tile_job \<Rightarrow> dt_params \<Rightarrow> (rc_kind \<times> rc_ptr) list \<Rightarrow> tile_outcome rc" where
  "write_tile lib j params uses = do {
     created \<leftarrow> rc_call lib (CreateNavMeshData params) uses;
     if \<not> created then State_Monad.return CreateFailed
     else do {
       data \<leftarrow> rc_alloc (\<lambda>_. True) NavData;
       rc_free NavData data;
       let name = mmtile_name (tj_map j) (tj_x j) (tj_y j); nav_data = lib_nav_data lib params in
       State_Monad.return (Built (if tj_can_write j name
         then Some (name, mmtile_header (tj_order j) (word_of_nat (length nav_data)) (tj_uses_liquids j) @ nav_data) else None)) } }"

primrec build_sub_tiles ::
    "rc_library \<Rightarrow> rc_ptr \<Rightarrow> rc_config \<Rightarrow> i32 \<Rightarrow> mesh_data \<Rightarrow> (nat \<times> nat) list \<Rightarrow> (rc_ptr \<times> rc_ptr) list rc" where
  "build_sub_tiles lib ctx config tile_w m [] = State_Monad.return []"
| "build_sub_tiles lib ctx config tile_w m (p # ps) = do {
     r \<leftarrow> build_common_tile_recast lib ctx (sub_tile_config config tile_w (snd p) (fst p)) m;
     rs \<leftarrow> build_sub_tiles lib ctx config tile_w m ps;
     State_Monad.return (r # rs) }"

primrec free_sub_tiles :: "(rc_ptr \<times> rc_ptr) list \<Rightarrow> unit rc" where
  "free_sub_tiles [] = State_Monad.return ()"
| "free_sub_tiles (m # ms) = do {
     rc_free PolyMesh (fst m); rc_free PolyMeshDetail (snd m); free_sub_tiles ms }"

definition merge_uses :: "(rc_ptr \<times> rc_ptr) list \<Rightarrow> (rc_kind \<times> rc_ptr) list" where
  "merge_uses ms = map (\<lambda>m. (PolyMesh, fst m)) (filter (\<lambda>m. fst m \<noteq> None) ms)"

definition merge_detail_uses :: "(rc_ptr \<times> rc_ptr) list \<Rightarrow> (rc_kind \<times> rc_ptr) list" where
  "merge_detail_uses ms = map (\<lambda>m. (PolyMeshDetail, snd m)) (filter (\<lambda>m. fst m \<noteq> None) ms)"

text \<open>A panic leaves the function at once; reading outside an allocation is a fault.\<close>

definition rc_panic :: "rust_error \<Rightarrow> tile_outcome rc" where
  "rc_panic e = State (\<lambda>w. (Panicked e, w\<lparr>rw_fault := rw_fault w \<or> e = out_of_allocation\<rparr>))"

definition finish_tile :: "rc_library \<Rightarrow> tile_job \<Rightarrow> mesh_data \<Rightarrow> rc_ptr \<Rightarrow> rc_ptr \<Rightarrow> rc_ptr \<Rightarrow> tile_outcome rc" where
  "finish_tile lib j m ctx pmesh dmesh = do {
     rc_do lib GetPolyMeshData [(PolyMesh, pmesh)];
     (case set_poly_flags (lib_merged lib) of
        Inl e \<Rightarrow> rc_panic e
      | Inr flags \<Rightarrow> do {
          rc_do lib GetPolyMeshDetailData [(PolyMeshDetail, dmesh)];
          let params = create_params (tj_config j) (tj_nav j) m (tj_bmin j) (tj_bmax j) (lib_merged lib) flags;
          outcome \<leftarrow>
            (case check_params params of
               Some r \<Rightarrow> State_Monad.return (Refused r)
             | None \<Rightarrow> write_tile lib j params [(PolyMesh, pmesh), (PolyMeshDetail, dmesh)]);
          rc_free PolyMesh pmesh; rc_free PolyMeshDetail dmesh; rc_free Context ctx;
          State_Monad.return outcome }) }"

definition merge_tile :: "rc_library \<Rightarrow> tile_job \<Rightarrow> mesh_data \<Rightarrow> rc_ptr \<Rightarrow> (rc_ptr \<times> rc_ptr) list \<Rightarrow> tile_outcome rc" where
  "merge_tile lib j m ctx ms = do {
     merged_pmesh \<leftarrow> rc_alloc (lib_ok lib) PolyMesh;
     if merged_pmesh = None then do { rc_free Context ctx; State_Monad.return NoMergedMesh }
     else do {
       rc_do lib (MergePolyMeshes (as_i32 (length (merge_uses ms)))) ((Context, ctx) # (PolyMesh, merged_pmesh) # merge_uses ms);
       merged_dmesh \<leftarrow> rc_alloc (lib_ok lib) PolyMeshDetail;
       if merged_dmesh = None then do {
         rc_free PolyMesh merged_pmesh; rc_free Context ctx; State_Monad.return NoMergedDetail }
       else do {
         rc_do lib (MergePolyMeshDetails (as_i32 (length (merge_detail_uses ms))))
           ((Context, ctx) # (PolyMeshDetail, merged_dmesh) # merge_detail_uses ms);
         free_sub_tiles ms;
         finish_tile lib j m ctx merged_pmesh merged_dmesh } } }"

definition build_move_map_tile_unsafe :: "rc_library \<Rightarrow> tile_job \<Rightarrow> mesh_data \<Rightarrow> tile_outcome rc" where
  "build_move_map_tile_unsafe lib j m = do {
     ctx \<leftarrow> rc_alloc (lib_ok lib) Context;
     if ctx = None then State_Monad.return NoContext
     else
       (case tile_width_cells (tj_config j) of
          Inl e \<Rightarrow> rc_panic e
        | Inr tile_w \<Rightarrow> do {
            ms \<leftarrow> build_sub_tiles lib ctx (tj_config j) tile_w m (pairs TILES_PER_MAP TILES_PER_MAP);
            if list_all (\<lambda>r. fst r = None) ms then do { rc_free Context ctx; State_Monad.return NothingToMerge }
            else merge_tile lib j m ctx ms }) }"

text \<open>The settings of a tile and its place; without the feature \<^verbatim>\<open>recast\<close> nothing more happens.\<close>

definition build_move_map_tile ::
    "rc_library \<Rightarrow> (u32 \<Rightarrow> mmap_config option) \<Rightarrow> (string \<Rightarrow> bool) \<Rightarrow> mesh_sources \<Rightarrow> nav_mesh_params \<Rightarrow>
     u32 \<Rightarrow> u32 \<Rightarrow> u32 \<Rightarrow> mesh_data \<Rightarrow> f3 \<Rightarrow> f3 \<Rightarrow> tile_outcome rc" where
  "build_move_map_tile lib overrides can_write src nav map_id tile_x tile_y m bmin bmax =
     (case tile_rc_config overrides map_id tile_x tile_y bmin bmax of
        Inl e \<Rightarrow> rc_panic e
      | Inr config \<Rightarrow>
          build_move_map_tile_unsafe lib
            \<lparr>tj_order = src_order src, tj_can_write = can_write, tj_map = map_id, tj_x = tile_x, tj_y = tile_y, tj_nav = nav,
             tj_config = config, tj_bmin = bmin, tj_bmax = bmax, tj_uses_liquids = \<not> src_skip_liquid src\<rparr> m)"

text \<open>The whole of \<^verbatim>\<open>build_tile_worker\<close>: the mesh is gathered and, unless it is empty, built.\<close>

definition build_tile ::
    "rc_library \<Rightarrow> (u32 \<Rightarrow> mmap_config option) \<Rightarrow> (string \<Rightarrow> bool) \<Rightarrow> mesh_sources \<Rightarrow> nav_mesh_params \<Rightarrow>
     u32 \<Rightarrow> u32 \<Rightarrow> u32 \<Rightarrow> tile_outcome option rc" where
  "build_tile lib overrides can_write src nav map_id tile_x tile_y =
     (case build_tile_worker src map_id tile_x tile_y of
        Inl e \<Rightarrow> do { r \<leftarrow> rc_panic e; State_Monad.return (Some r) }
      | Inr None \<Rightarrow> State_Monad.return None
      | Inr (Some (m, bmin, bmax)) \<Rightarrow> do {
          r \<leftarrow> build_move_map_tile lib overrides can_write src nav map_id tile_x tile_y m bmin bmax;
          State_Monad.return (Some r) })"

end
