(* ===== verification/Mesh_Correct.thy ===== *)
theory Mesh_Correct
  imports Mesh_Build Terrain_Correct
begin

text \<open>
  Properties of the preparation of a tile: removing unused vertices keeps the geometry of
  every triangle, models with valid indices keep the mesh in bounds, and so the mesh
  handed to Recast is in bounds.
\<close>

section \<open>Removal of unused vertices\<close>

lemma btm_or_insert_keys: "fst ` set (btm_or_insert k v m) = insert k (fst ` set m)"
  by (auto simp: btm_or_insert_def btm_get_def fst_set_btm_insert split: option.split dest!: map_of_SomeD intro: rev_image_eqI)

lemma vert_map_keys: "btm_sorted (vert_map tris)" "fst ` set (vert_map tris) = set tris"
proof -
  have "btm_sorted (fold (\<lambda>t. btm_or_insert t 0) ts m) \<and>
      fst ` set (fold (\<lambda>t. btm_or_insert t 0) ts m) = fst ` set m \<union> set ts" if "btm_sorted m" for ts and m :: "(int \<times> int) list"
    using that by (induction ts arbitrary: m) (auto simp: btm_sorted_or_insert btm_or_insert_keys)
  from this [of "[]" tris] show "btm_sorted (vert_map tris)" "fst ` set (vert_map tris) = set tris"
    by (simp_all add: vert_map_def)
qed

lemma renumber_zip: "renumber m = zip (map fst m) (map as_i32 [0..<length m])"
  by (intro nth_equalityI) (simp_all add: renumber_def nth_enumerate_eq split_beta)

text \<open>The three coordinates of the vertex an index names.\<close>

definition corner :: "f32 list \<Rightarrow> int \<Rightarrow> f32 list" where
  "corner verts t = take 3 (drop (3 * nat t) verts)"

lemma corner_nth:
  "3 * nat t + 2 < length verts \<Longrightarrow>
    corner verts t = [verts ! (nat t * 3), verts ! (nat t * 3 + 1), verts ! (nat t * 3 + 2)]"
  by (simp add: corner_def numeral_eq_Suc take_Suc_conv_app_nth nth_append mult.commute)

lemma corner_length: "3 * nat t + 2 < length verts \<Longrightarrow> length (corner verts t) = 3"
  by (simp add: corner_def)

lemma drop_concat3:
  assumes "\<And>x. x \<in> set xs \<Longrightarrow> length (f x) = 3" "i < length xs"
  shows "take 3 (drop (3 * i) (concat (map f xs))) = f (xs ! i)"
  using assms
proof (induction xs arbitrary: i)
  case (Cons x xs)
  show ?case
  proof (cases i)
    case (Suc k)
    have "take 3 (drop (3 * k) (concat (map f xs))) = f (xs ! k)" using Cons.prems Suc by (intro Cons.IH) auto
    then show ?thesis using Cons.prems(1) [of x] Suc by simp
  qed (use Cons.prems in simp)
qed simp

lemma push_vertices:
  assumes "tris_in ks verts" "length verts < 2 ^ 32"
  shows "for_each (push_vertex verts) ks clean = Inr (clean @ concat (map (corner verts) ks))"
  using assms(1)
proof (induction ks arbitrary: clean)
  case (Cons k ks)
  have k: "0 \<le> k" "3 * k + 2 < int (length verts)" using Cons.prems by (simp_all add: tris_in_def)
  then have "as_usize k = nat k" using assms(2) by (simp add: as_usize_def)
  moreover have "3 * nat k + 2 < length verts" using k by linarith
  ultimately have "push_vertex verts k clean = Inr (clean @ corner verts k)"
    using assms(2) by (simp add: push_vertex_def corner_nth Let_def mult.commute)
  moreover have "tris_in ks verts" using Cons.prems by (simp add: tris_in_def)
  ultimately show ?case using Cons.IH by simp
qed simp

lemma clean_vertices_ok:
  assumes "tris_in tris verts" "length verts < 2 ^ 32"
  shows "\<exists>verts' tris'. clean_vertices verts tris = Inr (verts', tris') \<and> map (corner verts') tris' = map (corner verts) tris \<and>
    tris_in tris' verts' \<and> (if tris = [] then verts' = verts else length verts' = 3 * card (set tris))"
proof (cases "tris = []")
  case False
  define ks where "ks = map fst (vert_map tris)"
  have ks: "distinct ks" "set ks = set tris"
    using vert_map_keys [of tris] btm_sorted_distinct by (auto simp: ks_def)
  define m where "m = renumber (vert_map tris)"
  have m: "m = zip ks (map as_i32 [0..<length ks])" by (simp add: m_def ks_def renumber_zip)
  have fst_m: "map fst m = ks" by (simp add: m)
  have in_ks: "tris_in ks verts" using assms(1) ks(2) by (simp add: tris_in_def)
  have c3: "length (corner verts k) = 3" if "k \<in> set ks" for k
    using in_ks that by (intro corner_length) (auto simp: tris_in_def)
  let ?verts = "concat (map (corner verts) ks)"
  have len: "length ?verts = 3 * length ks"
  proof -
    have "sum_list (map (\<lambda>k. length (corner verts k)) ks) = sum_list (map (\<lambda>k. 3) ks)" using c3 by (intro arg_cong [of _ _ sum_list] map_cong) auto
    then show ?thesis by (simp add: length_concat comp_def sum_list_triv)
  qed
  have small: "length ks \<le> 2 ^ 31"
  proof -
    have "set ks \<subseteq> {0..<2 ^ 31}"
    proof
      fix k assume "k \<in> set ks"
      then have "0 \<le> k" "3 * k + 2 < int (length verts)" using in_ks by (simp_all add: tris_in_def)
      then show "k \<in> {0..<2 ^ 31}" using assms(2) unfolding atLeastLessThan_iff by simp
    qed
    then have "card (set ks) \<le> card {0..<2 ^ 31 :: int}" by (rule card_mono [OF finite_atLeastLessThan_int])
    then show ?thesis unfolding card_atLeastLessThan_int distinct_card [OF ks(1)] by simp
  qed
  define f where "f = (\<lambda>t. case btm_get m t of None \<Rightarrow> t | Some new_idx \<Rightarrow> new_idx)"
  have f: "\<exists>i < length ks. f t = int i \<and> ks ! i = t" if "t \<in> set tris" for t
  proof -
    have "t \<in> set ks" using that ks(2) by simp
    then obtain i where i: "i < length ks" "ks ! i = t" unfolding in_set_conv_nth by blast
    have "map_of m (ks ! i) = Some (map as_i32 [0..<length ks] ! i)"
      unfolding m by (rule map_of_zip_nth) (use ks(1) i(1) in simp_all)
    then show ?thesis using i small by (auto simp: f_def btm_get_def as_i32_small)
  qed
  have corners: "corner ?verts (f t) = corner verts t" if "t \<in> set tris" for t
  proof -
    from f [OF that] obtain i where i: "i < length ks" "f t = int i" "ks ! i = t" by blast
    then show ?thesis using drop_concat3 [of ks "corner verts" i] c3 by (simp add: corner_def [of ?verts])
  qed
  have "tris_in (map f tris) ?verts" unfolding tris_in_def len
  proof (intro ballI)
    fix u assume "u \<in> set (map f tris)"
    then obtain t where "t \<in> set tris" "u = f t" by auto
    then obtain i where "i < length ks" "u = int i" using f by metis
    then show "0 \<le> u \<and> 3 * u + 2 < int (3 * length ks)" by simp
  qed
  moreover have "clean_vertices verts tris = Inr (?verts, map f tris)"
    using False push_vertices [OF in_ks assms(2), of "[]"]
    by (simp add: clean_vertices_def Let_def m_def [symmetric] fst_m f_def)
  moreover have "length ?verts = 3 * card (set tris)" using len distinct_card [OF ks(1)] ks(2) by simp
  ultimately show ?thesis using corners False by (intro exI [of _ ?verts] exI [of _ "map f tris"]) simp
qed (simp add: clean_vertices_def)

text \<open>C38: removing unused vertices changes no triangle: every corner has the coordinates it had,
  every new index is in range, and what is left is one vertex per index that was used.\<close>

theorem clean_vertices_geometry:
  assumes "\<forall>t \<in> set tris. 0 \<le> t \<and> 3 * t + 2 < int (length verts)" "length verts < 2 ^ 32" "tris \<noteq> []"
  shows "\<exists>verts' tris'. clean_vertices verts tris = Inr (verts', tris') \<and>
    map (corner verts') tris' = map (corner verts) tris \<and>
    (\<forall>t \<in> set tris'. 0 \<le> t \<and> 3 * t + 2 < int (length verts')) \<and> length verts' = 3 * card (set tris)"
  using clean_vertices_ok [of tris verts] assms by (auto simp: tris_in_def)

theorem clean_vertices_geometry_witness:
  "\<exists>verts' tris'. clean_vertices [1, 2, 3, 4, 5, 6, 7, 8, 9, 10, 11, 12] [3, 0, 1] = Inr (verts', tris') \<and>
    map (corner verts') tris' = map (corner [1, 2, 3, 4, 5, 6, 7, 8, 9, 10, 11, 12]) [3, 0, 1] \<and> length verts' = 9"
  using clean_vertices_geometry [of "[3, 0, 1]" "[1, 2, 3, 4, 5, 6, 7, 8, 9, 10, 11, 12]"] by auto

text \<open>An index without a vertex is kept: it is renumbered although nothing is stored for it,
  and the result has an index out of range.\<close>

lemma clean_vertices_keeps_bad_index:
  "clean_vertices [1, 2, 3, 4, 5, 6] [0, 7, 1] = Inr ([1, 2, 3, 4, 5, 6], [0, 2, 1])"
  by (simp add: clean_vertices_def vert_map_def btm_or_insert_def btm_get_def renumber_def push_vertex_def as_usize_def as_i32_small)

section \<open>Models\<close>

definition valid_triangles :: "group_data \<Rightarrow> bool" where
  "valid_triangles g \<longleftrightarrow> (\<forall>(a, b, c) \<in> set (gd_triangles g).
     unat a < length (gd_vertices g) \<and> unat b < length (gd_vertices g) \<and> unat c < length (gd_vertices g))"

text \<open>A liquid as it is read: one height per corner of its tiles.\<close>

definition wf_liquid :: "vmap_liquid_data \<Rightarrow> bool" where
  "wf_liquid l \<longleftrightarrow> length (vl_heights l) = (unat (vl_tiles_x l) + 1) * (unat (vl_tiles_y l) + 1) \<and>
     unat (vl_tiles_x l) + 1 < 2 ^ 32 \<and> unat (vl_tiles_y l) + 1 < 2 ^ 32"

definition liquid_size :: "group_data \<Rightarrow> nat" where
  "liquid_size g = (case gd_liquid g of None \<Rightarrow> 0 | Some l \<Rightarrow> length (vl_heights l))"

lemma add_indices_ok:
  assumes "set is \<subseteq> {0..<int n}" "0 \<le> offset" "offset + int n \<le> 2 ^ 31"
  shows "add_indices offset is = Inr (map (\<lambda>i. i + offset) is)"
  using assms(1) by (induction "is") (use assms(2,3) in \<open>auto simp: add_i32_def\<close>)

lemma tris_in_shift:
  assumes "set is \<subseteq> {0..<int n}" "3 dvd length vs" "length ws = 3 * n"
  shows "tris_in (map (\<lambda>i. i + int (length vs div 3)) is) (vs @ ws)"
  by (rule fresh_tris_in [OF _ assms(2,3)]) (use assms(1) in auto)

lemma sint_small: "unat (w :: u32) < 2 ^ 31 \<Longrightarrow> sint w = int (unat w)"
  using as_i32_small [of "unat w"] by (simp add: as_i32_def)

lemma triangle_order_in:
  assumes "valid_triangles g" "length (gd_vertices g) \<le> 2 ^ 31"
  shows "set (concat (map (triangle_order m2) (gd_triangles g))) \<subseteq> {0..<int (length (gd_vertices g))}"
    "3 dvd length (concat (map (triangle_order m2) (gd_triangles g)))"
proof -
  have "set (triangle_order m2 t) \<subseteq> {0..<int (length (gd_vertices g))}" if "t \<in> set (gd_triangles g)" for t
  proof -
    obtain a b c where t: "t = (a, b, c)" by (metis prod_cases3)
    then have "unat a < length (gd_vertices g)" "unat b < length (gd_vertices g)" "unat c < length (gd_vertices g)"
      using assms(1) that by (auto simp: valid_triangles_def)
    then have "int (unat a) < int (length (gd_vertices g))" "int (unat b) < int (length (gd_vertices g))"
      "int (unat c) < int (length (gd_vertices g))" "unat a < 2 ^ 31" "unat b < 2 ^ 31" "unat c < 2 ^ 31"
      using assms(2) by (simp_all only: of_nat_less_iff)
    then show ?thesis by (simp add: t triangle_order_def sint_small)
  qed
  then show "set (concat (map (triangle_order m2) (gd_triangles g))) \<subseteq> {0..<int (length (gd_vertices g))}" by auto
  have "length (triangle_order m2 t) = 3" for t by (cases t) (simp add: triangle_order_def)
  then show "3 dvd length (concat (map (triangle_order m2) (gd_triangles g)))"
    by (induction "gd_triangles g" rule: list.induct) (simp_all add: length_concat comp_def sum_list_triv)
qed

lemma length_recast: "length (concat (map (\<lambda>v. recast_order (f v)) vs)) = 3 * length vs"
  by (induction vs) (auto simp: recast_order_def split: prod.split)

lemma add_solid_ok:
  assumes "wf_mesh m" "valid_triangles g" "length (solid_verts m) + 3 * length (gd_vertices g) < 2 ^ 32"
  shows "\<exists>m'. add_solid m2 place g m = Inr m' \<and> wf_mesh m' \<and> liquid_verts m' = liquid_verts m \<and>
    length (solid_verts m') = length (solid_verts m) + 3 * length (gd_vertices g)"
proof -
  let ?n = "length (solid_verts m) div 3" and ?ws = "concat (map (\<lambda>v. recast_order (place v)) (gd_vertices g))"
    and ?is = "concat (map (triangle_order m2) (gd_triangles g))"
  have n: "?n < 2 ^ 31" "int ?n + int (length (gd_vertices g)) \<le> 2 ^ 31" "length (gd_vertices g) \<le> 2 ^ 31"
    using assms(3) by auto
  note tri = triangle_order_in [OF assms(2) n(3), of m2]
  have "tris_in (map (\<lambda>i. i + int ?n) ?is) (solid_verts m @ ?ws)"
    using tri(1) assms(1) by (intro tris_in_shift) (simp_all add: length_recast wf_mesh_def)
  moreover have "tris_in (solid_tris m) (solid_verts m @ ?ws)"
    using assms(1) tris_in_sub [OF _ subset_refl, of "solid_tris m" "solid_verts m"] by (simp add: wf_mesh_def)
  moreover have "add_solid m2 place g m =
      Inr (m\<lparr>solid_verts := solid_verts m @ ?ws, solid_tris := solid_tris m @ map (\<lambda>i. i + int ?n) ?is\<rparr>)"
    using add_indices_ok [OF tri(1), of "int ?n"] n by (simp add: add_solid_def Let_def as_i32_small)
  ultimately show ?thesis
    using assms(1) tri(2) by (simp add: wf_mesh_def length_recast tris_in_append)
qed

lemma length_pairs: "length (pairs n m) = n * m"
  by (simp add: pairs_def length_concat comp_def sum_list_triv)

lemma row_index_bound:
  assumes "x < X" "y < (Y :: nat)"
  shows "y * X + x < Y * X"
proof -
  have "y * X + x < Suc y * X" using assms(1) by simp
  also have "\<dots> \<le> Y * X" using assms(2) by (intro mult_le_mono) simp_all
  finally show ?thesis .
qed

lemma liquid_vertices_ok:
  assumes "wf_liquid l" "length (vl_heights l) < 2 ^ 32"
  shows "\<exists>vs. for_each (liquid_vertex l (unat (vl_tiles_x l) + 1) place)
      (pairs (unat (vl_tiles_x l) + 1) (unat (vl_tiles_y l) + 1)) [] = Inr vs \<and> length vs = 3 * length (vl_heights l)"
proof -
  let ?X = "unat (vl_tiles_x l) + 1" and ?Y = "unat (vl_tiles_y l) + 1"
  have "appends 3 UNIV (liquid_vertex l ?X place p)" if "p \<in> set (pairs ?X ?Y)" for p
  proof -
    obtain x y where p: "p = (x, y)" by (cases p)
    obtain cx cy cz where c: "vl_corner l = (cx, cy, cz)" by (metis prod_cases3)
    have xy: "x < ?X" "y < ?Y" using that p by simp_all
    then have "y * ?X + x < ?Y * ?X" by (rule row_index_bound)
    then have "y * ?X + x < length (vl_heights l)" using assms(1) by (simp only: wf_liquid_def mult.commute)
    then show ?thesis using assms(2)
      by (simp add: appends_def liquid_vertex_def p c u32_nat_def recast_order_def split: prod.split)
  qed
  then have "appends (3 * length (pairs ?X ?Y)) UNIV (for_each (liquid_vertex l ?X place) (pairs ?X ?Y))"
    by (rule appends_for_each)
  moreover have "length (vl_heights l) = ?X * ?Y" using assms(1) by (simp only: wf_liquid_def)
  ultimately show ?thesis unfolding length_pairs using appendsD [where s = "[]"] by (metis append_Nil)
qed

lemma liquid_index_bound:
  assumes "x < X" "y < (Y :: nat)"
  shows "x * Y + y + Y + 2 + x < (X + 1) * (Y + 1)"
proof -
  have "x * Y + Y \<le> X * Y" using assms(1) by (metis Suc_leI add.commute mult_Suc mult_le_mono1)
  then show ?thesis using assms by (simp add: algebra_simps)
qed

lemma liquid_squares_ok:
  assumes "wf_liquid l" "length (vl_heights l) \<le> 2 ^ 31"
  shows "\<exists>ts. for_each (liquid_square l) (pairs (unat (vl_tiles_x l)) (unat (vl_tiles_y l))) [] = Inr ts \<and>
    3 dvd length ts \<and> set ts \<subseteq> {0..<int (length (vl_heights l))}"
proof (rule for_each_inv)
  fix p ts assume p: "p \<in> set (pairs (unat (vl_tiles_x l)) (unat (vl_tiles_y l)))"
    and ts: "3 dvd length ts \<and> set ts \<subseteq> {0..<int (length (vl_heights l))}"
  define X Y T where "X = unat (vl_tiles_x l)" and "Y = unat (vl_tiles_y l)" and "T = length (vl_heights l)"
  obtain x y where xy: "p = (x, y)" "x < X" "y < Y" using pairs_in [OF p] by (metis X_def Y_def prod.collapse)
  have T: "T = (X + 1) * (Y + 1)" "T \<le> 2 ^ 31" using assms by (simp_all only: wf_liquid_def T_def X_def Y_def)
  have b: "x * Y + y + Y + 2 + x < T" unfolding T(1) using xy(2,3) by (rule liquid_index_bound)
  have "y * X + x < Y * X" using xy(2,3) by (rule row_index_bound)
  also have "\<dots> \<le> T" by (simp add: T(1))
  finally have i: "u32_nat (x + y * X) = Inr (x + y * X)" using T(2) by (simp add: u32_nat_def)
  have t: "u32_nat (x * Y + y + Y + 2 + x) = Inr (x * Y + y + Y + 2 + x)" using b T(2) by (simp add: u32_nat_def)
  have small: "as_i32 k = int k" if "k \<le> x * Y + y + Y + 2 + x" for k using that b T(2) by (simp add: as_i32_small)
  let ?six = "[int (x * Y + y + 1 + x), int (x * Y + y + x), int (x * Y + y + Y + 2 + x), int (x * Y + y + Y + 2 + x),
    int (x * Y + y + x), int (x * Y + y + Y + 1 + x)]"
  have casts: "as_i32 (x * Y + y + x) = int (x * Y + y + x)" "as_i32 (x * Y + y + 1 + x) = int (x * Y + y + 1 + x)"
    "as_i32 (x * Y + y + Y + 2 + x) = int (x * Y + y + Y + 2 + x)" "as_i32 (x * Y + y + Y + 1 + x) = int (x * Y + y + Y + 1 + x)"
    by (intro small; simp)+
  have "liquid_square l p ts = Inr ts \<or> liquid_square l p ts = Inr (ts @ ?six)"
    unfolding liquid_square_def xy(1) prod.case Let_def X_def [symmetric] Y_def [symmetric] i bind_result_simps t casts
    by (simp split: option.split)
  moreover have "set (ts @ ?six) \<subseteq> {0..<int T}"
  proof -
    have mem: "int k \<in> {0..<int T}" if "k \<le> x * Y + y + Y + 2 + x" for k using that b by simp
    show ?thesis
      unfolding set_append list.set Un_subset_iff insert_subset using ts
      by (intro conjI mem empty_subsetI) (simp_all add: T_def)
  qed
  moreover have "3 dvd length (ts @ ?six)"
  proof -
    have "length (ts @ ?six) = length ts + 6" by simp
    then show ?thesis using ts dvd_add [of 3 "length ts" 6] by (simp only:) simp
  qed
  ultimately show "\<exists>t. liquid_square l p ts = Inr t \<and> 3 dvd length t \<and> set t \<subseteq> {0..<int (length (vl_heights l))}"
    using ts unfolding T_def by blast
qed simp

lemma group_liquid_type_nav: "group_liquid_type t \<in> {NAV_AREA_WATER, NAV_AREA_MAGMA_SLIME}"
  by (simp add: group_liquid_type_def)

lemma add_liquid_ok:
  assumes "wf_mesh m" "wf_liquid l" "length (liquid_verts m) + 3 * length (vl_heights l) < 2 ^ 32"
  shows "\<exists>m'. add_liquid place l m = Inr m' \<and> wf_mesh m' \<and> solid_verts m' = solid_verts m \<and>
    length (liquid_verts m') = length (liquid_verts m) + 3 * length (vl_heights l)"
proof -
  let ?n = "length (liquid_verts m) div 3" and ?h = "length (vl_heights l)"
  have n: "?n < 2 ^ 31" "int ?n + int ?h \<le> 2 ^ 31" "?h \<le> 2 ^ 31" "?h < 2 ^ 32" using assms(3) by auto
  have add: "add_u32 t 1 = Inr (t + 1)" "unat (t + 1) = unat t + 1" if "unat t + 1 < 2 ^ 32" for t :: u32
    using that unat_add_lem [of t 1] by (simp_all add: add_u32_def)
  have tiles: "unat (vl_tiles_x l) + 1 < 2 ^ 32" "unat (vl_tiles_y l) + 1 < 2 ^ 32" using assms(2) by (simp_all only: wf_liquid_def)
  obtain ws where ws: "for_each (liquid_vertex l (unat (vl_tiles_x l) + 1) place)
      (pairs (unat (vl_tiles_x l) + 1) (unat (vl_tiles_y l) + 1)) [] = Inr ws" "length ws = 3 * ?h"
    using liquid_vertices_ok [OF assms(2) n(4)] by blast
  obtain ts where ts: "for_each (liquid_square l) (pairs (unat (vl_tiles_x l)) (unat (vl_tiles_y l))) [] = Inr ts"
      "3 dvd length ts" "set ts \<subseteq> {0..<int ?h}"
    using liquid_squares_ok [OF assms(2) n(3)] by blast
  have idx: "add_indices (int ?n) ts = Inr (map (\<lambda>i. i + int ?n) ts)"
    using add_indices_ok [OF ts(3), of "int ?n"] n(2) by simp
  let ?m = "m\<lparr>liquid_verts := liquid_verts m @ ws, liquid_tris := liquid_tris m @ map (\<lambda>i. i + int ?n) ts,
    liquid_type := liquid_type m @ replicate (length (map (\<lambda>i. i + int ?n) ts) div 3) (group_liquid_type (vl_liq_type l))\<rparr>"
  have "add_liquid place l m = Inr ?m"
    unfolding add_liquid_def add [OF tiles(1)] add [OF tiles(2)] bind_result_simps ws(1) ts(1) as_i32_small [OF n(1)] idx ..
  moreover have "tris_in (map (\<lambda>i. i + int ?n) ts) (liquid_verts m @ ws)"
    using ts(3) assms(1) ws(2) by (intro tris_in_shift) (simp_all add: wf_mesh_def)
  moreover have "tris_in (liquid_tris m) (liquid_verts m @ ws)"
    using assms(1) tris_in_sub [OF _ subset_refl, of "liquid_tris m" "liquid_verts m"] by (simp add: wf_mesh_def)
  ultimately show ?thesis
    using assms(1) ts(2) ws(2) group_liquid_type_nav [of "vl_liq_type l"]
    by (auto simp: wf_mesh_def tris_in_append)
qed

definition valid_group :: "group_data \<Rightarrow> bool" where
  "valid_group g \<longleftrightarrow> valid_triangles g \<and> (\<forall>l. gd_liquid g = Some l \<longrightarrow> wf_liquid l)"

lemma add_group_ok:
  assumes "wf_mesh m" "valid_group g" "length (solid_verts m) + 3 * length (gd_vertices g) < 2 ^ 32"
    "length (liquid_verts m) + 3 * liquid_size g < 2 ^ 32"
  shows "\<exists>m'. add_group m2 p g m = Inr m' \<and> wf_mesh m' \<and>
    length (solid_verts m') = length (solid_verts m) + 3 * length (gd_vertices g) \<and>
    length (liquid_verts m') = length (liquid_verts m) + 3 * liquid_size g"
proof -
  have "valid_triangles g" using assms(2) by (simp add: valid_group_def)
  from add_solid_ok [OF assms(1) this assms(3), of m2 "transform p"] obtain m1 where m1: "add_solid m2 (transform p) g m = Inr m1"
      "wf_mesh m1" "liquid_verts m1 = liquid_verts m" "length (solid_verts m1) = length (solid_verts m) + 3 * length (gd_vertices g)"
    by blast
  show ?thesis
  proof (cases "gd_liquid g")
    case (Some l)
    have "wf_liquid l" "length (liquid_verts m1) + 3 * length (vl_heights l) < 2 ^ 32"
      using Some assms(2,4) m1(3) by (simp_all add: valid_group_def liquid_size_def)
    from add_liquid_ok [OF m1(2) this, of "transform p"] obtain m' where "add_liquid (transform p) l m1 = Inr m'" "wf_mesh m'"
        "solid_verts m' = solid_verts m1" "length (liquid_verts m') = length (liquid_verts m1) + 3 * length (vl_heights l)" by blast
    then show ?thesis using m1 Some by (simp add: add_group_def liquid_size_def)
  qed (use m1 in \<open>simp add: add_group_def liquid_size_def\<close>)
qed

text \<open>The vertices a list of groups adds.\<close>

definition solid_total :: "group_data list \<Rightarrow> nat" where
  "solid_total gs = sum_list (map (\<lambda>g. 3 * length (gd_vertices g)) gs)"

definition liquid_total :: "group_data list \<Rightarrow> nat" where
  "liquid_total gs = sum_list (map (\<lambda>g. 3 * liquid_size g) gs)"

lemma totals_simps [simp]:
  "solid_total [] = 0" "solid_total (g # gs) = 3 * length (gd_vertices g) + solid_total gs"
  "solid_total (gs @ hs) = solid_total gs + solid_total hs"
  "liquid_total [] = 0" "liquid_total (g # gs) = 3 * liquid_size g + liquid_total gs"
  "liquid_total (gs @ hs) = liquid_total gs + liquid_total hs"
  by (simp_all add: solid_total_def liquid_total_def)

text \<open>A mesh in bounds that has room for so many coordinates more.\<close>

definition room :: "nat \<Rightarrow> nat \<Rightarrow> mesh_data \<Rightarrow> bool" where
  "room s l m \<longleftrightarrow> wf_mesh m \<and> length (solid_verts m) + s < 2 ^ 32 \<and> length (liquid_verts m) + l < 2 ^ 32"

lemma add_groups_ok:
  assumes "room (solid_total gs + s) (liquid_total gs + l) m" "\<forall>g \<in> set gs. valid_group g"
  shows "\<exists>m'. for_each (add_group m2 p) gs m = Inr m' \<and> room s l m'"
  using assms
proof (induction gs arbitrary: m)
  case (Cons g gs)
  have "wf_mesh m" "valid_group g" "length (solid_verts m) + 3 * length (gd_vertices g) < 2 ^ 32"
    "length (liquid_verts m) + 3 * liquid_size g < 2 ^ 32" using Cons.prems by (simp_all add: room_def)
  from add_group_ok [OF this, of m2 p] obtain m1 where m1: "add_group m2 p g m = Inr m1" "wf_mesh m1"
      "length (solid_verts m1) = length (solid_verts m) + 3 * length (gd_vertices g)"
      "length (liquid_verts m1) = length (liquid_verts m) + 3 * liquid_size g" by blast
  then have "room (solid_total gs + s) (liquid_total gs + l) m1" using Cons.prems(1) by (simp add: room_def)
  then show ?case using Cons.IH [of m1] Cons.prems(2) m1(1) by simp
qed simp

section \<open>The models of a map\<close>

lemma read_group_liquid_wf: "read_group_liquid B bs = Inr (Some (l, r)) \<Longrightarrow> wf_liquid l"
  by (auto simp: read_group_liquid_def wf_liquid_def Let_def split_beta add_u32_def split: if_splits option.splits
      dest!: checked_u32(2)) (simp_all add: unat_word_ariths)

lemma read_group_wf: "read_group_model B bs = Inr (Some (g, r)) \<Longrightarrow> gd_liquid g = Some l \<Longrightarrow> wf_liquid l"
  by (auto simp: read_group_model_def read_group_rest_def Let_def split_beta split: if_splits option.splits)
    (erule read_group_liquid_wf)

lemma read_groups_wf: "read_groups B n bs = Inr (Some gs) \<Longrightarrow> g \<in> set gs \<Longrightarrow> gd_liquid g = Some l \<Longrightarrow> wf_liquid l"
proof (induction n arbitrary: bs gs)
  case (Suc n)
  from Suc.prems(1) obtain g' r gs' where "read_group_model B bs = Inr (Some (g', r))" "read_groups B n r = Inr (Some gs')" "gs = g' # gs'"
    by (auto split: option.splits)
  then show ?case using Suc.IH Suc.prems(2,3) read_group_wf by auto
qed simp

text \<open>The groups of the model a spawn names, the spawns of a map, and what is asked of them: the
  sizes of a liquid do not overflow and the triangles of a group name its vertices.\<close>

definition model_groups :: "byteorder \<Rightarrow> (string \<Rightarrow> bytes option) \<Rightarrow> string \<Rightarrow> group_data list" where
  "model_groups B vmaps name = (case load_world_model B vmaps name of Inr (Some gs) \<Rightarrow> gs | _ \<Rightarrow> [])"

definition tree_spawns :: "byteorder \<Rightarrow> (string \<Rightarrow> bytes option) \<Rightarrow> u32 \<Rightarrow> model_spawn_data list" where
  "tree_spawns B vmaps map_id =
     (case vmaps (fmt0 3 map_id @ ''.vmtree'') of
        None \<Rightarrow> []
      | Some data \<Rightarrow> if length data < 12 then [] else
          let (is_tiled, bs) = lr_u32 B (drop 8 data); (n_values, bs) = lr_u32 B (skip_bih B bs)
          in read_spawns B (unat n_values) bs)"

definition sane_model :: "byteorder \<Rightarrow> (string \<Rightarrow> bytes option) \<Rightarrow> string \<Rightarrow> bool" where
  "sane_model B vmaps name \<longleftrightarrow> \<not> isl (load_world_model B vmaps name) \<and>
     (\<forall>g \<in> set (model_groups B vmaps name). valid_triangles g)"

lemma load_vmap_spawns:
  "load_vmap B vmaps sin_cos map_id x y m =
     for_each (add_spawn_model B vmaps sin_cos) (tree_spawns B vmaps map_id) (False, m)"
  by (simp add: load_vmap_def tree_spawns_def Let_def split_beta split: option.split)

lemma load_world_model_wf:
  "load_world_model B vmaps name = Inr (Some gs) \<Longrightarrow> g \<in> set gs \<Longrightarrow> gd_liquid g = Some l \<Longrightarrow> wf_liquid l"
  by (auto simp: load_world_model_def Let_def split_beta split: option.splits if_splits intro: read_groups_wf)

lemma sane_model_valid: "sane_model B vmaps name \<Longrightarrow> g \<in> set (model_groups B vmaps name) \<Longrightarrow> valid_group g"
  unfolding sane_model_def valid_group_def
  by (cases "load_world_model B vmaps name"; cases "projr (load_world_model B vmaps name)")
    (auto simp: model_groups_def intro: load_world_model_wf)

lemma add_spawn_model_ok:
  fixes s :: model_spawn_data and B :: byteorder and vmaps :: "string \<Rightarrow> bytes option"
  defines "gs \<equiv> model_groups B vmaps (sd_name s)"
  assumes "sane_model B vmaps (sd_name s)" "room (solid_total gs + k) (liquid_total gs + l) m"
  shows "\<exists>b m'. add_spawn_model B vmaps sin_cos s (r, m) = Inr (b, m') \<and> room k l m'"
proof -
  obtain model where model: "load_world_model B vmaps (sd_name s) = Inr model"
    using assms(2) by (cases "load_world_model B vmaps (sd_name s)") (simp_all add: sane_model_def)
  have "\<forall>g \<in> set gs. valid_group g" using sane_model_valid assms(2) by (auto simp: gs_def)
  from add_groups_ok [OF assms(3) this, of "is_m2_name (sd_name s)" "spawn_placement sin_cos s"] assms(3) model
  show ?thesis by (cases model) (auto simp: add_spawn_model_def gs_def model_groups_def)
qed

lemma add_spawns_ok:
  assumes "\<forall>s \<in> set ss. sane_model B vmaps (sd_name s)"
    and "room (solid_total (concat (map (\<lambda>s. model_groups B vmaps (sd_name s)) ss)))
      (liquid_total (concat (map (\<lambda>s. model_groups B vmaps (sd_name s)) ss))) m"
  shows "\<exists>b m'. for_each (add_spawn_model B vmaps sin_cos) ss (r, m) = Inr (b, m') \<and> room 0 0 m'"
  using assms
proof (induction ss arbitrary: r m)
  case (Cons s ss)
  let ?gs = "concat (map (\<lambda>s. model_groups B vmaps (sd_name s)) ss)"
  have "sane_model B vmaps (sd_name s)" "room (solid_total (model_groups B vmaps (sd_name s)) + solid_total ?gs)
      (liquid_total (model_groups B vmaps (sd_name s)) + liquid_total ?gs) m" using Cons.prems by simp_all
  from add_spawn_model_ok [OF this, of sin_cos r] obtain b m1
    where "add_spawn_model B vmaps sin_cos s (r, m) = Inr (b, m1)" "room (solid_total ?gs) (liquid_total ?gs) m1" by blast
  then show ?case using Cons.IH [of m1 b] Cons.prems(1) by simp
qed simp

section \<open>The mesh handed to Recast\<close>

lemma tris_in_card:
  assumes "tris_in tris verts" "length verts < 2 ^ 32"
  shows "card (set tris) \<le> 2 ^ 32"
proof -
  have "set tris \<subseteq> {0..<2 ^ 32}"
  proof
    fix t assume "t \<in> set tris"
    then have "0 \<le> t" "3 * t + 2 < int (length verts)" using assms(1) by (simp_all add: tris_in_def)
    then show "t \<in> {0..<2 ^ 32}" using assms(2) unfolding atLeastLessThan_iff by simp
  qed
  then have "card (set tris) \<le> card {0..<2 ^ 32 :: int}" by (rule card_mono [OF finite_atLeastLessThan_int])
  then show ?thesis unfolding card_atLeastLessThan_int by simp
qed

lemma clean_mesh_ok:
  assumes "room 0 0 m"
  shows "\<exists>m'. clean_mesh m = Inr m' \<and> wf_mesh m' \<and> length (solid_verts m') < 2 ^ 40"
proof -
  have wf: "wf_mesh m" "length (solid_verts m) < 2 ^ 32" "length (liquid_verts m) < 2 ^ 32" using assms by (simp_all add: room_def)
  have tri: "tris_in (solid_tris m) (solid_verts m)" "tris_in (liquid_tris m) (liquid_verts m)"
    "3 dvd length (solid_verts m)" "3 dvd length (liquid_verts m)" using wf(1) by (simp_all add: wf_mesh_def)
  have clean: "\<exists>vs us. clean_vertices verts tris = Inr (vs, us) \<and> length us = length tris \<and> tris_in us vs \<and> 3 dvd length vs \<and>
      length vs < 2 ^ 40"
    if "tris_in tris verts" "length verts < 2 ^ 32" "3 dvd length verts" for tris verts
  proof -
    from clean_vertices_ok [OF that(1,2)] obtain vs us where v: "clean_vertices verts tris = Inr (vs, us)"
        "map (corner vs) us = map (corner verts) tris" "tris_in us vs"
        "if tris = [] then vs = verts else length vs = 3 * card (set tris)" by blast
    have "length us = length tris" using v(2) by (metis length_map)
    moreover have "3 dvd length vs" using v(4) that(3) by (simp split: if_splits)
    moreover have "length vs < 2 ^ 40" using v(4) that(2) tris_in_card [OF that(1,2)] by (simp split: if_splits)
    ultimately show ?thesis using v(1,3) by blast
  qed
  from clean [OF tri(1) wf(2) tri(3)] obtain sv st where s: "clean_vertices (solid_verts m) (solid_tris m) = Inr (sv, st)"
    "length st = length (solid_tris m)" "tris_in st sv" "3 dvd length sv" "length sv < 2 ^ 40" by blast
  from clean [OF tri(2) wf(3) tri(4)] obtain lv lt where l: "clean_vertices (liquid_verts m) (liquid_tris m) = Inr (lv, lt)"
    "length lt = length (liquid_tris m)" "tris_in lt lv" "3 dvd length lv" by blast
  show ?thesis using s l wf(1) by (simp add: clean_mesh_def wf_mesh_def)
qed

lemma get_tile_bounds_total:
  assumes "unat tile_x < 2 ^ 31" "unat tile_y < 2 ^ 31"
  shows "\<exists>b. get_tile_bounds tile_x tile_y verts (length verts div 3) = Inr b"
proof -
  have edge: "\<exists>e. tile_edge t = Inr e" if "unat t < 2 ^ 31" for t
  proof -
    have "add_i32 32 (- int k) = Inr (32 - int k)" if "k < 2 ^ 31" for k using that by (simp add: add_i32_def)
    then show ?thesis using that by (simp only: tile_edge_def sint_small) simp
  qed
  have "\<exists>b. for_each (grow_bounds verts) [0..<length verts div 3] b0 = Inr b \<and> True" for b0
    by (rule for_each_inv) (auto simp: grow_bounds_def vec_get_def split_beta)
  then have "\<exists>b. (if 0 < length verts div 3 then for_each (grow_bounds verts) [0..<length verts div 3]
      ((f32_MAX, f32_MAX, f32_MAX), (f32_MIN, f32_MIN, f32_MIN)) else Inr ((0, f32_MIN, 0), (0, f32_MAX, 0))) = Inr b" by simp
  then obtain b where "(if 0 < length verts div 3 then for_each (grow_bounds verts) [0..<length verts div 3]
      ((f32_MAX, f32_MAX, f32_MAX), (f32_MIN, f32_MIN, f32_MIN)) else Inr ((0, f32_MIN, 0), (0, f32_MAX, 0))) = Inr b" ..
  then show ?thesis
    using edge [OF assms(1)] edge [OF assms(2)] unfolding get_tile_bounds_def by (auto simp: split_beta)
qed

lemma add_connection_keeps_wf: "wf_mesh m \<Longrightarrow> wf_mesh (add_connection map_id x y c m)"
  by (cases "cn_from c"; cases "cn_to c") (auto simp: add_connection_def wf_mesh_def recast_order_def)

lemma off_mesh_keeps_wf: "wf_mesh m \<Longrightarrow> wf_mesh (load_off_mesh_connections parse_f32 content map_id x y m)"
proof -
  have "wf_mesh (fold (\<lambda>line m. case parse_connection parse_f32 line of
      None \<Rightarrow> m | Some c \<Rightarrow> add_connection map_id x y c m) ls m)" if "wf_mesh m" for ls m
    using that by (induction ls arbitrary: m) (simp_all add: add_connection_keeps_wf split: option.split)
  then show "wf_mesh m \<Longrightarrow> wf_mesh (load_off_mesh_connections parse_f32 content map_id x y m)"
    by (simp add: load_off_mesh_connections_def split: option.split)
qed

lemma off_mesh_keeps_verts: "solid_verts (load_off_mesh_connections parse_f32 content map_id x y m) = solid_verts m"
proof -
  have "solid_verts (fold (\<lambda>line m. case parse_connection parse_f32 line of
      None \<Rightarrow> m | Some c \<Rightarrow> add_connection map_id x y c m) ls m) = solid_verts m" for ls m
    by (induction ls arbitrary: m) (auto simp: add_connection_def split: option.split)
  then show ?thesis by (simp add: load_off_mesh_connections_def split: option.split)
qed

text \<open>The models of a map have triangles over their own vertices and not too many coordinates.\<close>

definition models_sane :: "mesh_sources \<Rightarrow> u32 \<Rightarrow> bool" where
  "models_sane src map_id \<longleftrightarrow>
     (let spawns = tree_spawns (src_order src) (src_vmaps src) map_id;
          groups = concat (map (\<lambda>s. model_groups (src_order src) (src_vmaps src) (sd_name s)) spawns) in
      (\<forall>s \<in> set spawns. sane_model (src_order src) (src_vmaps src) (sd_name s)) \<and>
      solid_total groups < 2 ^ 30 \<and> liquid_total groups < 2 ^ 30)"

lemma worker_ok:
  assumes "models_sane src map_id" "unat tile_x < 2 ^ 31" "unat tile_y < 2 ^ 31"
  shows "\<exists>r. build_tile_worker src map_id tile_x tile_y = Inr r \<and>
    (\<forall>m bmin bmax. r = Some (m, bmin, bmax) \<longrightarrow> wf_mesh m \<and> length (solid_verts m) < 2 ^ 40)"
proof -
  have sane: "\<forall>s \<in> set (tree_spawns (src_order src) (src_vmaps src) map_id). sane_model (src_order src) (src_vmaps src) (sd_name s)"
    "solid_total (concat (map (\<lambda>s. model_groups (src_order src) (src_vmaps src) (sd_name s))
      (tree_spawns (src_order src) (src_vmaps src) map_id))) < 2 ^ 30"
    "liquid_total (concat (map (\<lambda>s. model_groups (src_order src) (src_vmaps src) (sd_name s))
      (tree_spawns (src_order src) (src_vmaps src) map_id))) < 2 ^ 30"
    using assms(1) by (simp_all add: models_sane_def Let_def)
  obtain m where m: "load_map (src_order src) (src_skip_liquid src) (src_maps src) map_id tile_x tile_y mesh_data_default = Inr m"
      "loaded_portions 5 m" using load_map_total by blast
  then have "room (solid_total (concat (map (\<lambda>s. model_groups (src_order src) (src_vmaps src) (sd_name s))
        (tree_spawns (src_order src) (src_vmaps src) map_id))))
      (liquid_total (concat (map (\<lambda>s. model_groups (src_order src) (src_vmaps src) (sd_name s))
        (tree_spawns (src_order src) (src_vmaps src) map_id)))) m"
    using sane(2,3) by (simp add: room_def loaded_portions_def)
  from add_spawns_ok [OF sane(1) this] obtain b m1
    where m1: "load_vmap (src_order src) (src_vmaps src) (src_sin_cos src) map_id tile_y tile_x m = Inr (b, m1)" "room 0 0 m1"
    by (metis load_vmap_spawns)
  obtain m2 where m2: "clean_mesh m1 = Inr m2" "wf_mesh m2" "length (solid_verts m2) < 2 ^ 40" using clean_mesh_ok [OF m1(2)] by blast
  obtain bmin bmax where bounds: "get_tile_bounds tile_x tile_y (liquid_verts m2 @ solid_verts m2)
      (length (liquid_verts m2 @ solid_verts m2) div 3) = Inr (bmin, bmax)"
    using get_tile_bounds_total [OF assms(2,3), of "liquid_verts m2 @ solid_verts m2"] by (metis surj_pair)
  let ?m3 = "load_off_mesh_connections (src_parse_f32 src) (src_off_mesh src) map_id tile_x tile_y m2"
  have "build_tile_worker src map_id tile_x tile_y \<in> {Inr None, Inr (Some (?m3, bmin, bmax))}"
    unfolding build_tile_worker_def m(1) m1(1) bind_result_simps prod.case m2(1) Let_def bounds by simp
  moreover have "wf_mesh ?m3" using m2(2) by (rule off_mesh_keeps_wf)
  moreover have "length (solid_verts ?m3) < 2 ^ 40" using m2(3) by (simp add: off_mesh_keeps_verts)
  ultimately show ?thesis by auto
qed


definition no_files :: mesh_sources where
  "no_files = \<lparr>src_order = std_byteorder, src_sin_cos = (\<lambda>x. (0, 0)), src_parse_f32 = (\<lambda>s. None), src_skip_liquid = False,
     src_maps = (\<lambda>f. Some []), src_vmaps = (\<lambda>f. None), src_off_mesh = None\<rparr>"


end
