(* ===== verification/Recast_Correct.thy ===== *)
theory Recast_Correct
  imports Recast Mesh_Correct
begin

text \<open>
  The discipline of the calls into Recast: for every outcome of every call, no object is
  used or freed that is not allocated, and a build that ends normally frees all it
  allocated.  The proofs are Hoare triples over the heap of the library.
\<close>

section \<open>Steep triangles\<close>

lemma raw_vertex_in:
  assumes "tris_in tris verts" "t < length tris" "length verts < 2 ^ 40"
  shows "\<exists>v. raw_vertex verts tris t = Inr v"
proof -
  have v: "0 \<le> tris ! t" "3 * (tris ! t) + 2 < int (length verts)" using assms(1,2) by (simp_all add: tris_in_def)
  then have "as_usize (tris ! t) = nat (tris ! t)" using assms(3) by (simp add: as_usize_def)
  moreover have "nat (tris ! t) * 3 + 2 < length verts" using v by linarith
  ultimately show ?thesis using assms(2) by (simp add: raw_vertex_def raw_read_def Let_def)
qed

text \<open>On a mesh in bounds the marking of steep triangles stays inside its vectors.\<close>

lemma steep_triangles_in_bounds:
  assumes "tris_in tris verts" "3 * tri_count \<le> length tris" "length verts < 2 ^ 40"
  shows "\<exists>areas'. rc_mod_almost_unwalkable_triangles sin_cos angle verts tris tri_count areas = Inr areas' \<and>
    length areas' = length areas"
  unfolding rc_mod_almost_unwalkable_triangles_def Let_def
proof (rule for_each_inv)
  fix i and s :: "u8 list" assume "i \<in> set [0..<min tri_count (length areas)]" "length s = length areas"
  then have i: "i * 3 < length tris" "i * 3 + 1 < length tris" "i * 3 + 2 < length tris" using assms(2) by auto
  obtain v0 where "raw_vertex verts tris (i * 3) = Inr v0" using raw_vertex_in [OF assms(1) i(1) assms(3)] by blast
  moreover obtain v1 where "raw_vertex verts tris (i * 3 + 1) = Inr v1" using raw_vertex_in [OF assms(1) i(2) assms(3)] by blast
  moreover obtain v2 where "raw_vertex verts tris (i * 3 + 2) = Inr v2" using raw_vertex_in [OF assms(1) i(3) assms(3)] by blast
  ultimately show "\<exists>t. steep_step (snd (sin_cos (f32_mul (f32_div angle 0x43340000) 0x40490FDB))) verts tris i s = Inr t \<and> length t = length areas"
    using \<open>length s = length areas\<close> by (simp add: steep_step_def)
qed simp

section \<open>Triples\<close>

definition triple :: "(rc_world \<Rightarrow> bool) \<Rightarrow> 'a rc \<Rightarrow> ('a \<Rightarrow> rc_world \<Rightarrow> bool) \<Rightarrow> bool" where
  "triple P m Q \<longleftrightarrow> (\<forall>w. P w \<longrightarrow> (case run_state m w of (x, w') \<Rightarrow> Q x w'))"

text \<open>No fault so far, exactly the objects \<open>L\<close> allocated, and numbers to come are fresh.\<close>

definition st :: "(nat \<times> rc_kind) set \<Rightarrow> rc_world \<Rightarrow> bool" where
  "st L w \<longleftrightarrow> \<not> rw_fault w \<and> rw_live w = L \<and> (\<forall>(n, k) \<in> L. n < rw_calls w)"

definition held :: "rc_kind \<Rightarrow> rc_ptr \<Rightarrow> (nat \<times> rc_kind) set" where
  "held k p = (case p of None \<Rightarrow> {} | Some n \<Rightarrow> {(n, k)})"

lemma held_simps [simp]: "held k None = {}" "held k (Some n) = {(n, k)}"
  by (simp_all add: held_def)

definition usable :: "(nat \<times> rc_kind) set \<Rightarrow> (rc_kind \<times> rc_ptr) list \<Rightarrow> bool" where
  "usable L uses \<longleftrightarrow> (\<forall>(k, p) \<in> set uses. p \<noteq> None \<and> held k p \<subseteq> L)"

lemma usable_simps [simp]:
  "usable L []" "usable L ((k, p) # us) \<longleftrightarrow> p \<noteq> None \<and> held k p \<subseteq> L \<and> usable L us"
  by (auto simp: usable_def)

lemma triple_return: "(\<And>w. P w \<Longrightarrow> Q x w) \<Longrightarrow> triple P (State_Monad.return x) Q"
  by (simp add: triple_def)

lemma triple_bind: "triple P m R \<Longrightarrow> (\<And>x. triple (R x) (c x) Q) \<Longrightarrow> triple P (State_Monad.bind m c) Q"
  by (simp add: triple_def split_beta)

lemma triple_if: "(b \<Longrightarrow> triple P m Q) \<Longrightarrow> (\<not> b \<Longrightarrow> triple P n Q) \<Longrightarrow> triple P (if b then m else n) Q"
  by simp

lemma triple_alloc:
  assumes "\<And>p. held k p \<inter> L = {} \<Longrightarrow> (\<forall>n. ok n) \<longrightarrow> p \<noteq> None \<Longrightarrow> triple (st (L \<union> held k p)) (c p) Q"
  shows "triple (st L) (State_Monad.bind (rc_alloc ok k) c) Q"
  unfolding triple_def
proof (intro allI impI)
  fix w assume w: "st L w"
  let ?w = "w\<lparr>rw_calls := rw_calls w + 1\<rparr>"
  show "case run_state (State_Monad.bind (rc_alloc ok k) c) w of (x, w') \<Rightarrow> Q x w'"
  proof (cases "ok (rw_calls w)")
    case True
    let ?p = "Some (rw_calls w)" and ?v = "?w\<lparr>rw_live := insert (rw_calls w, k) (rw_live w)\<rparr>"
    have "held k ?p \<inter> L = {}" "st (L \<union> held k ?p) ?v" using w by (auto simp: st_def)
    then show ?thesis using assms [of ?p] True by (simp add: triple_def rc_alloc_def Let_def)
  next
    case False
    have "triple (st (L \<union> held k None)) (c None) Q" by (rule assms) (use False in auto)
    moreover have "st (L \<union> held k None) ?w" using w by (auto simp: st_def)
    ultimately show ?thesis using False by (simp add: triple_def rc_alloc_def Let_def)
  qed
qed

lemma triple_free:
  assumes "held k p \<subseteq> L" "triple (st (L - held k p)) (c ()) Q"
  shows "triple (st L) (State_Monad.bind (rc_free k p) c) Q"
  using assms by (cases p) (auto simp: triple_def rc_free_def st_def)

lemma triple_call:
  assumes "usable L uses" "in_bounds op" "\<And>b. triple (st L) (c b) Q"
  shows "triple (st L) (State_Monad.bind (rc_call lib op uses) c) Q"
proof -
  have uses: "list_all (\<lambda>(k, p). case p of None \<Rightarrow> False | Some n \<Rightarrow> (n, k) \<in> L) uses"
    using assms(1) by (auto simp: usable_def list_all_iff split: option.split)
  have "case run_state (c (lib_ok lib (rw_calls w))) (w\<lparr>rw_calls := rw_calls w + 1, rw_trace := rw_trace w @ [op], rw_fault := False\<rparr>) of (x, w') \<Rightarrow> Q x w'" if "st L w" for w
  proof -
    have "st L (w\<lparr>rw_calls := rw_calls w + 1, rw_trace := rw_trace w @ [op], rw_fault := False\<rparr>)" using that by (auto simp: st_def)
    then show ?thesis by (rule assms(3) [unfolded triple_def, rule_format])
  qed
  then show ?thesis using uses assms(2) by (simp add: triple_def rc_call_def st_def)
qed

lemma triple_do:
  assumes "usable L uses" "in_bounds op" "triple (st L) (c ()) Q"
  shows "triple (st L) (State_Monad.bind (rc_do lib op uses) c) Q"
  unfolding rc_do_def bind_assoc by (rule triple_call [OF assms(1,2)]) (use assms(3) in simp)

lemma triple_failed:
  assumes "p \<noteq> None \<Longrightarrow> usable L uses" "in_bounds op" "triple (st L) (c True) Q" "p \<noteq> None \<Longrightarrow> triple (st L) (c False) Q"
  shows "triple (st L) (State_Monad.bind (rc_failed lib op p uses) c) Q"
proof (cases "p = None")
  case False
  show ?thesis
    unfolding rc_failed_def if_not_P [OF False] bind_assoc bind_left_identity
    by (rule triple_call [OF assms(1) [OF False] assms(2)]) (use assms(3,4) False in \<open>case_tac b; simp\<close>)
qed (use assms(3) in \<open>simp add: rc_failed_def\<close>)

lemma st_eq: "st L w \<Longrightarrow> L = L' \<Longrightarrow> st L' w"
  by simp

lemmas triple_rules = triple_alloc triple_free triple_call triple_do triple_failed triple_if

section \<open>One sub-tile\<close>

text \<open>Two meshes more than before, or none.\<close>

definition two_meshes :: "(nat \<times> rc_kind) set \<Rightarrow> rc_ptr \<times> rc_ptr \<Rightarrow> rc_world \<Rightarrow> bool" where
  "two_meshes L m w \<longleftrightarrow> st (L \<union> held PolyMesh (fst m) \<union> held PolyMeshDetail (snd m)) w \<and>
     held PolyMesh (fst m) \<inter> L = {} \<and> held PolyMeshDetail (snd m) \<inter> L = {} \<and> (fst m = None \<longleftrightarrow> snd m = None)"

lemma build_meshes_ok:
  assumes "(c, Context) \<in> L" "(h, CompactHeightfield) \<in> L"
  shows "triple (st L) (build_meshes lib (Some c) cfg (Some h)) (two_meshes (L - {(h, CompactHeightfield)}))"
  unfolding build_meshes_def
  by (intro triple_rules triple_return) (use assms in \<open>auto simp: two_meshes_def held_def split: option.splits elim!: st_eq\<close>)

lemma build_compact_ok:
  assumes "(c, Context) \<in> L" "(h, CompactHeightfield) \<in> L"
  shows "triple (st L) (build_compact lib (Some c) cfg (Some h)) (two_meshes (L - {(h, CompactHeightfield)}))"
  unfolding build_compact_def
  by (intro triple_rules triple_return build_meshes_ok) (use assms in \<open>auto simp: two_meshes_def elim!: st_eq\<close>)

section \<open>Reads of the mesh\<close>

lemma vec_count_le: "nat (vec_count xs) \<le> length xs div 3"
proof -
  have "sint (word_of_nat n :: i32) \<le> int n" for n
  proof -
    have "sint (word_of_nat n :: i32) \<le> uint (word_of_nat n :: i32)"
      by (simp add: sint_uint signed_take_bit_int_less_eq_self_iff order_trans [OF _ uint_ge_0])
    also have "\<dots> \<le> int n" by (metis of_nat_le_iff take_bit_nat_less_eq_self uint_nat unat_of_nat unsigned_of_nat)
    finally show ?thesis .
  qed
  from this [of "length xs div 3"] show ?thesis unfolding vec_count_def as_i32_def by linarith
qed

lemma vec_count_triangles: "3 * nat (vec_count xs) \<le> length xs"
  using vec_count_le [of xs] by linarith

lemma mesh_readable_tris:
  assumes "tris_in tris verts" "nat (vec_count tris) \<le> length areas"
  shows "mesh_readable verts tris areas (vec_count tris)"
  using assms vec_count_triangles [of tris] by (auto simp: mesh_readable_def tris_in_def list_all_iff dest: in_set_takeD)

text \<open>What the library promises: the walkable areas keep their number, and the merged mesh has
  an area and a flag per polygon.\<close>

definition library_laws :: "rc_library \<Rightarrow> bool" where
  "library_laws lib \<longleftrightarrow>
     (\<forall>angle verts tris areas. length (lib_clear_unwalkable lib angle verts tris areas) = length areas) \<and>
     0 \<le> md_npolys (lib_merged lib) \<and> md_npolys (lib_merged lib) < 2 ^ 31 \<and>
     md_npolys (lib_merged lib) \<le> int (length (md_areas (lib_merged lib))) \<and>
     md_npolys (lib_merged lib) \<le> int (length (md_flags (lib_merged lib)))"

definition mesh_ready :: "mesh_data \<Rightarrow> bool" where
  "mesh_ready m \<longleftrightarrow> wf_mesh m \<and> length (solid_verts m) < 2 ^ 40"

lemma mesh_readyD:
  assumes "mesh_ready m"
  shows "tris_in (solid_tris m) (solid_verts m)" "length (solid_verts m) < 2 ^ 40" "wf_mesh m"
    "mesh_readable (liquid_verts m) (liquid_tris m) (liquid_type m) (vec_count (liquid_tris m))"
  using assms vec_count_le [of "liquid_tris m"] by (auto simp: mesh_ready_def wf_mesh_def intro!: mesh_readable_tris)

lemma triple_do_last:
  assumes "usable L us" "in_bounds op"
  shows "triple (st L) (rc_do lib op us) (\<lambda>_. st L)"
  using triple_do [OF assms, where c = State_Monad.return] triple_return [of "st L" "\<lambda>_ :: unit. st L"] by simp

lemma triple_raw:
  assumes "r = Inr x" "triple (st L) (c x) Q"
  shows "triple (st L) (State_Monad.bind (rc_raw r a) c) Q"
  using assms by (simp add: triple_def rc_raw_def)

lemma rasterize_solid_ok:
  assumes "(c, Context) \<in> L" "(s, Heightfield) \<in> L" "mesh_ready m" "library_laws lib"
  shows "triple (st L) (rasterize_solid lib (Some c) cfg m (Some s)) (\<lambda>_. st L)"
proof -
  let ?n = "vec_count (solid_tris m)" and ?v = "solid_verts m" and ?t = "solid_tris m"
  let ?flags = "lib_clear_unwalkable lib (rc_walkable_slope_angle cfg) ?v ?t (replicate (nat ?n) NAV_AREA_GROUND)"
  have len: "length ?flags = nat ?n" using assms(4) by (simp add: library_laws_def)
  obtain areas where areas: "rc_mod_almost_unwalkable_triangles (lib_sin_cos lib) 0x42480000 ?v ?t (nat ?n) ?flags = Inr areas"
      "length areas = nat ?n"
    using steep_triangles_in_bounds [OF mesh_readyD(1) [OF assms(3)] vec_count_triangles mesh_readyD(2) [OF assms(3)]] len by metis
  have read: "mesh_readable ?v ?t xs ?n" if "length xs = nat ?n" for xs
    using mesh_readable_tris [OF mesh_readyD(1) [OF assms(3)]] that by simp
  show ?thesis
    unfolding rasterize_solid_def Let_def
    by (intro triple_if triple_return triple_do triple_raw [OF areas(1)] triple_do_last)
      (use assms read areas(2) in simp_all)
qed

lemma rasterize_ok:
  assumes "(c, Context) \<in> L" "(s, Heightfield) \<in> L" "mesh_ready m" "library_laws lib"
  shows "triple (st L) (rasterize lib (Some c) cfg m (Some s)) (\<lambda>_. st L)"
  unfolding rasterize_def
  by (intro triple_bind [OF rasterize_solid_ok [OF assms]] triple_do triple_if triple_do_last triple_return)
    (use assms mesh_readyD(4) [OF assms(3)] in simp_all)

lemma build_common_tile_ok:
  assumes "(c, Context) \<in> L" "mesh_ready m" "library_laws lib"
  shows "triple (st L) (build_common_tile_recast lib (Some c) cfg m) (two_meshes L)"
  unfolding build_common_tile_recast_def
proof (rule triple_alloc, rule triple_failed, goal_cases)
  case (1 s)
  then show ?case using assms(1) by (auto simp: held_def)
next
  case (2 s)
  show ?case by simp
next
  case (3 s)
  then show ?case by simp (intro triple_free triple_return, auto simp: two_meshes_def elim!: st_eq)
next
  case (4 s)
  then obtain n where s: "s = Some n" by auto
  let ?L = "L \<union> held Heightfield s"
  have in_L: "(c, Context) \<in> ?L" "(n, Heightfield) \<in> ?L" "(n, Heightfield) \<notin> L" using assms(1) 4 by (auto simp: s)
  have "triple (st ?L) (State_Monad.bind (rc_alloc (lib_ok lib) CompactHeightfield) (\<lambda>chf.
      State_Monad.bind (rc_failed lib (BuildCompactHeightfield (rc_walkable_height cfg) (rc_walkable_climb cfg)) chf [(Context, Some c), (Heightfield, s), (CompactHeightfield, chf)]) (\<lambda>failed.
      if failed then State_Monad.bind (rc_free Heightfield s) (\<lambda>_. State_Monad.bind (rc_free CompactHeightfield chf) (\<lambda>_.
        State_Monad.return (None, None)))
      else State_Monad.bind (rc_free Heightfield s) (\<lambda>_. build_compact lib (Some c) cfg chf)))) (two_meshes L)"
  proof (rule triple_alloc, rule triple_failed, goal_cases)
    case (1 chf)
    then show ?case using in_L by (auto simp: s held_def)
  next
    case (2 chf)
    show ?case by simp
  next
    case (3 chf)
    then show ?case using in_L
      by simp (intro triple_free triple_return, auto simp: s two_meshes_def held_def split: option.splits elim!: st_eq)
  next
    case (4 chf)
    then obtain h where h: "chf = Some h" by auto
    have "insert (h, CompactHeightfield) (insert (n, Heightfield) L) - {(n, Heightfield)} - {(h, CompactHeightfield)} = L"
      using 4 in_L by (auto simp: s h)
    then show ?case
      using build_compact_ok [of c "insert (h, CompactHeightfield) (insert (n, Heightfield) L) - {(n, Heightfield)}" h lib cfg] assms(1)
      by (simp add: s h) (intro triple_free, auto simp: insert_commute)
  qed
  then show ?case using rasterize_ok [OF in_L(1,2) assms(2,3), of cfg] unfolding s by simp (erule triple_bind, simp)
qed

section \<open>A tile\<close>

definition meshes_of :: "(rc_ptr \<times> rc_ptr) list \<Rightarrow> (nat \<times> rc_kind) set" where
  "meshes_of ms = (\<Union>m \<in> set ms. held PolyMesh (fst m) \<union> held PolyMeshDetail (snd m))"

lemma meshes_of_simps [simp]:
  "meshes_of [] = {}"
  "meshes_of (m # ms) = held PolyMesh (fst m) \<union> held PolyMeshDetail (snd m) \<union> meshes_of ms"
  by (auto simp: meshes_of_def)

text \<open>The sub-tiles hold different meshes, in pairs, apart from the objects \<open>L\<close>.\<close>

primrec separate :: "(nat \<times> rc_kind) set \<Rightarrow> (rc_ptr \<times> rc_ptr) list \<Rightarrow> bool" where
  "separate L [] = True"
| "separate L (m # ms) \<longleftrightarrow> (fst m = None \<longleftrightarrow> snd m = None) \<and>
     (held PolyMesh (fst m) \<union> held PolyMeshDetail (snd m)) \<inter> L = {} \<and>
     separate (L \<union> held PolyMesh (fst m) \<union> held PolyMeshDetail (snd m)) ms"

lemma separate_disjoint: "separate L ms \<Longrightarrow> meshes_of ms \<inter> L = {}"
  by (induction ms arbitrary: L) fastforce+

lemma separate_sub: "separate L ms \<Longrightarrow> L' \<subseteq> L \<Longrightarrow> separate L' ms"
proof (induction ms arbitrary: L L')
  case (Cons m ms)
  have "separate (L' \<union> held PolyMesh (fst m) \<union> held PolyMeshDetail (snd m)) ms"
    by (rule Cons.IH [of "L \<union> held PolyMesh (fst m) \<union> held PolyMeshDetail (snd m)"]) (use Cons.prems in auto)
  then show ?case using Cons.prems by auto
qed simp

lemma separate_pairs: "separate L ms \<Longrightarrow> m \<in> set ms \<Longrightarrow> fst m = None \<longleftrightarrow> snd m = None"
  by (induction ms arbitrary: L) auto

lemma triple_conseq: "triple P m Q \<Longrightarrow> (\<And>x w. Q x w \<Longrightarrow> R x w) \<Longrightarrow> triple P m R"
  by (auto simp: triple_def)

lemma triple_two_meshes:
  assumes "\<And>L'. L' = L \<union> held PolyMesh (fst m) \<union> held PolyMeshDetail (snd m) \<Longrightarrow>
      held PolyMesh (fst m) \<inter> L = {} \<Longrightarrow> held PolyMeshDetail (snd m) \<inter> L = {} \<Longrightarrow> (fst m = None \<longleftrightarrow> snd m = None) \<Longrightarrow>
      triple (st L') c Q"
  shows "triple (two_meshes L m) c Q"
  using assms by (auto simp: triple_def two_meshes_def)

lemma build_sub_tiles_ok:
  assumes "(c, Context) \<in> L" "mesh_ready m" "library_laws lib"
  shows "triple (st L) (build_sub_tiles lib (Some c) config tile_w m ps) (\<lambda>ms w. separate L ms \<and> st (L \<union> meshes_of ms) w)"
  using assms(1)
proof (induction ps arbitrary: L)
  case Nil
  show ?case by (simp add: triple_return)
next
  case (Cons p ps)
  show ?case
    unfolding build_sub_tiles.simps
  proof (rule triple_bind [OF build_common_tile_ok [OF Cons.prems assms(2,3)]], rule triple_two_meshes, goal_cases)
    case (1 m L')
    have "(c, Context) \<in> L'" using 1 Cons.prems by auto
    from Cons.IH [OF this] show ?case
      by (rule triple_bind) (rule triple_return, use 1 in \<open>auto simp: Un_assoc Int_Un_distrib2\<close>)
  qed
qed

lemma free_sub_tiles_ok:
  "separate L ms \<Longrightarrow> triple (st (L \<union> meshes_of ms)) (free_sub_tiles ms) (\<lambda>_. st L)"
proof (induction ms arbitrary: L)
  case Nil
  then show ?case by (simp add: triple_return)
next
  case (Cons m ms)
  let ?m = "held PolyMesh (fst m) \<union> held PolyMeshDetail (snd m)"
  have sep: "separate (L \<union> ?m) ms" "?m \<inter> L = {}" using Cons.prems by (simp_all add: Un_assoc)
  have disj: "meshes_of ms \<inter> (L \<union> ?m) = {}" by (rule separate_disjoint [OF sep(1)])
  have "held PolyMesh (fst m) \<inter> held PolyMeshDetail (snd m) = {}" by (auto simp: held_def split: option.splits)
  then have eq: "L \<union> meshes_of (m # ms) - held PolyMesh (fst m) - held PolyMeshDetail (snd m) = L \<union> meshes_of ms"
    using disj sep(2) by auto
  show ?case
    unfolding free_sub_tiles.simps
    by (intro triple_free, force, force simp: held_def split: option.splits, unfold eq, rule Cons.IH, rule separate_sub [OF sep(1)], simp)
qed

definition finished :: "tile_outcome \<Rightarrow> bool" where
  "finished o' \<longleftrightarrow> o' \<notin> {NoMergedMesh, NoMergedDetail} \<and> (\<forall>e. o' \<noteq> Panicked e)"

lemma write_tile_ok:
  assumes "usable L uses" "connections_readable params"
  shows "triple (st L) (write_tile lib j params uses) (\<lambda>r w. finished r \<and> st L w)"
  unfolding write_tile_def Let_def
proof (rule triple_call [OF assms(1)], goal_cases)
  case (2 b)
  show ?case
  proof (rule triple_if, goal_cases)
    case 1
    show ?case by (rule triple_return) (simp add: finished_def)
  next
    case 2
    show ?case
    proof (rule triple_alloc, rule triple_free)
      fix p assume p: "held NavData p \<inter> L = {}"
      show "held NavData p \<subseteq> L \<union> held NavData p" by simp
      have "L \<union> held NavData p - held NavData p = L" using p by auto
      then show "triple (st (L \<union> held NavData p - held NavData p)) (State_Monad.return (Built (if tj_can_write j (mmtile_name (tj_map j) (tj_x j) (tj_y j))
           then Some (mmtile_name (tj_map j) (tj_x j) (tj_y j), mmtile_header (tj_order j) (word_of_nat (length (lib_nav_data lib params)))
             (tj_uses_liquids j) @ lib_nav_data lib params) else None)))
          (\<lambda>r w. finished r \<and> st L w)" by (intro triple_return) (simp add: finished_def)
    qed
  qed
qed (simp add: assms(2))

text \<open>The flags of the polygons are stored in bounds; the only panic is that of an unknown area.\<close>

lemma for_each_error:
  assumes "for_each f xs s = Inl e" "P s"
    and "\<And>x s t. x \<in> set xs \<Longrightarrow> P s \<Longrightarrow> f x s = Inr t \<Longrightarrow> P t" "\<And>x s e. x \<in> set xs \<Longrightarrow> P s \<Longrightarrow> f x s = Inl e \<Longrightarrow> E e"
  shows "E e"
  using assms
proof (induction xs arbitrary: s)
  case (Cons x xs)
  show ?case
  proof (cases "f x s")
    case (Inr t)
    then have "for_each f xs t = Inl e" "P t" using Cons.prems by auto
    then show ?thesis
    proof (rule Cons.IH)
      show "P t" if "y \<in> set xs" "P s" "f y s = Inr t" for y s t by (rule Cons.prems(3) [of y s]) (use that in simp_all)
      show "E e" if "y \<in> set xs" "P s" "f y s = Inl e" for y s e by (rule Cons.prems(4) [of y s]) (use that in simp_all)
    qed
  next
    case (Inl e')
    then have "f x s = Inl e" using Cons.prems(1) by simp
    then show ?thesis by (rule Cons.prems(4) [rotated 2]) (use Cons.prems(2) in simp_all)
  qed
qed simp

lemma poly_flag_error: "poly_flag area flag = Inl e \<Longrightarrow> e = overflow"
  by (auto simp: poly_flag_def Let_def split: if_splits)

lemma set_poly_flags_error:
  assumes "library_laws lib" "set_poly_flags (lib_merged lib) = Inl e"
  shows "e = overflow"
proof (rule for_each_error [OF assms(2) [unfolded set_poly_flags_def],
      where P = "\<lambda>flags. length flags = length (md_flags (lib_merged lib))"])
  have n: "as_usize (md_npolys (lib_merged lib)) \<le> length (md_areas (lib_merged lib))"
    "as_usize (md_npolys (lib_merged lib)) \<le> length (md_flags (lib_merged lib))"
    using assms(1) unfolding library_laws_def as_usize_def by simp_all linarith+
  fix i and flags :: "u16 list" and e
  assume i: "i \<in> set [0..<as_usize (md_npolys (lib_merged lib))]" "length flags = length (md_flags (lib_merged lib))"
  then have "i < length (md_areas (lib_merged lib))" "i < length flags" using n by auto
  moreover assume "bind_result (raw_read (md_areas (lib_merged lib)) i) (\<lambda>area. bind_result (raw_read flags i) (\<lambda>flag.
      bind_result (poly_flag area flag) (\<lambda>flag. raw_write flags i flag))) = Inl e"
  ultimately have "bind_result (poly_flag (md_areas (lib_merged lib) ! i) (flags ! i)) (raw_write flags i) = Inl e"
    by (simp add: raw_read_def)
  then show "e = overflow" using \<open>i < length flags\<close>
    by (cases "poly_flag (md_areas (lib_merged lib) ! i) (flags ! i)") (auto simp: raw_write_def dest: poly_flag_error)
qed (auto simp: raw_read_def raw_write_def bind_result_def split: sum.splits if_splits)

lemma overflow_is_panic: "overflow \<noteq> out_of_allocation"
  by (simp add: overflow_def out_of_allocation_def)

lemma connections_ok:
  assumes "mesh_ready m"
  shows "connections_readable (create_params config nav m bmin bmax d flags)"
proof -
  let ?c = "length (off_mesh_connections m)"
  have "as_i32 n \<le> int n" for n using vec_count_le [of "replicate (3 * n) ()"] by (simp add: vec_count_def)
  then have "nat (as_i32 (?c div 6)) \<le> ?c div 6" by (metis nat_int nat_mono)
  then show ?thesis using mesh_readyD(3) [OF assms]
    by (auto simp: connections_readable_def create_params_def Let_def wf_mesh_def)
qed

definition safe_end :: "tile_outcome \<Rightarrow> rc_world \<Rightarrow> bool" where
  "safe_end r w \<longleftrightarrow> \<not> rw_fault w \<and> (finished r \<longrightarrow> rw_live w = {}) \<and> (r \<in> {NoMergedMesh, NoMergedDetail} \<longrightarrow> rw_live w \<noteq> {})"

lemma triple_panic: "e \<noteq> out_of_allocation \<Longrightarrow> triple (st L) (rc_panic e) safe_end"
  by (simp add: triple_def rc_panic_def safe_end_def st_def finished_def)

lemma finish_tile_ok:
  fixes c p d :: nat
  defines "L \<equiv> {(c, Context), (p, PolyMesh), (d, PolyMeshDetail)}"
  assumes "mesh_ready m" "library_laws lib"
  shows "triple (st L) (finish_tile lib j m (Some c) (Some p) (Some d)) safe_end"
  unfolding finish_tile_def
proof (rule triple_do, goal_cases)
  case 3
  let ?params = "\<lambda>flags. create_params (tj_config j) (tj_nav j) m (tj_bmin j) (tj_bmax j) (lib_merged lib) flags"
  have checked: "triple (st L) (case check_params (?params flags) of Some r \<Rightarrow> State_Monad.return (Refused r)
        | None \<Rightarrow> write_tile lib j (?params flags) [(PolyMesh, Some p), (PolyMeshDetail, Some d)]) (\<lambda>r w. finished r \<and> st L w)" for flags
  proof (cases "check_params (?params flags)")
    case None
    show ?thesis unfolding None option.case by (rule write_tile_ok [OF _ connections_ok [OF assms(2)]]) (simp add: L_def)
  next
    case (Some r)
    show ?thesis unfolding Some option.case by (rule triple_return) (simp add: finished_def)
  qed
  have freed: "triple (\<lambda>w. finished r \<and> st L w) (State_Monad.bind (rc_free PolyMesh (Some p)) (\<lambda>_.
      State_Monad.bind (rc_free PolyMeshDetail (Some d)) (\<lambda>_. State_Monad.bind (rc_free Context (Some c)) (\<lambda>_.
      State_Monad.return r)))) safe_end" for r
  proof (cases "finished r")
    case True
    then have "triple (st L) (State_Monad.bind (rc_free PolyMesh (Some p)) (\<lambda>_. State_Monad.bind (rc_free PolyMeshDetail (Some d)) (\<lambda>_.
        State_Monad.bind (rc_free Context (Some c)) (\<lambda>_. State_Monad.return r)))) safe_end"
      by (intro triple_free triple_return) (auto simp: L_def st_def safe_end_def finished_def)
    then show ?thesis using True by (simp add: triple_def)
  qed (simp add: triple_def)
  show ?case
  proof (cases "set_poly_flags (lib_merged lib)")
    case (Inl e)
    show ?thesis unfolding Inl sum.case
      using set_poly_flags_error [OF assms(3) Inl] overflow_is_panic by (intro triple_panic) simp
  next
    case (Inr flags)
    show ?thesis unfolding Inr sum.case Let_def
      by (rule triple_do [OF _ _ triple_bind [OF checked freed]]) (simp_all add: L_def)
  qed
qed (simp_all add: L_def)

lemma merge_tile_ok:
  assumes "separate {(c, Context)} ms" "\<exists>m \<in> set ms. fst m \<noteq> None" "mesh_ready m" "library_laws lib"
  shows "triple (st ({(c, Context)} \<union> meshes_of ms)) (merge_tile lib j m (Some c) ms) safe_end"
proof -
  have disj: "meshes_of ms \<inter> {(c, Context)} = {}" using assms(1) by (rule separate_disjoint)
  have ne: "meshes_of ms \<noteq> {}" using assms(2) by (auto simp: meshes_of_def held_def split: option.splits)
  have u1: "usable L (merge_uses ms)" if "meshes_of ms \<subseteq> L" for L
    using that by (fastforce simp: usable_def merge_uses_def meshes_of_def)
  have u2: "usable L (merge_detail_uses ms)" if "meshes_of ms \<subseteq> L" for L
    using that separate_pairs [OF assms(1)] by (fastforce simp: usable_def merge_detail_uses_def meshes_of_def)
  have sep: "separate L ms" if "L \<inter> meshes_of ms = {}" "L = {(c, Context), (p, PolyMesh), (d, PolyMeshDetail)}" for L p d
  proof -
    have "separate L ms" if "separate L0 ms" "L \<inter> meshes_of ms = {}" for L L0
      using that
    proof (induction ms arbitrary: L L0)
      case (Cons m ms)
      have d: "separate (L0 \<union> held PolyMesh (fst m) \<union> held PolyMeshDetail (snd m)) ms" using Cons.prems(1) by simp
      have "(L \<union> held PolyMesh (fst m) \<union> held PolyMeshDetail (snd m)) \<inter> meshes_of ms = {}"
        using separate_disjoint [OF d] Cons.prems(2) by auto
      from Cons.IH [OF d this] show ?case using Cons.prems by auto
    qed simp
    with assms(1) that show ?thesis by blast
  qed
  show ?thesis
    unfolding merge_tile_def
  proof (rule triple_alloc, rule triple_if, goal_cases)
    case (1 p)
    then show ?case using disj ne by (intro triple_free triple_return) (auto simp: st_def safe_end_def finished_def)
  next
    case (2 p)
    then obtain n where p: "p = Some n" by auto
    let ?L = "{(c, Context)} \<union> meshes_of ms \<union> held PolyMesh p"
    show ?case
    proof (rule triple_do, goal_cases)
      case 1
      show ?case using u1 [of ?L] by (auto simp: p)
    next
      case 2
      show ?case by simp
    next
      case 3
      show ?case
      proof (rule triple_alloc, rule triple_if, goal_cases)
        case (1 q)
        then show ?case using disj ne \<open>held PolyMesh p \<inter> _ = {}\<close>
          by (intro triple_free triple_return) (auto simp: st_def safe_end_def finished_def p)
      next
        case (2 q)
        then obtain k where q: "q = Some k" by auto
        let ?T = "{(c, Context), (n, PolyMesh), (k, PolyMeshDetail)}"
        have T: "?L \<union> held PolyMeshDetail q = ?T \<union> meshes_of ms" by (auto simp: p q)
        have "?T \<inter> meshes_of ms = {}" using disj 2(1) \<open>held PolyMesh p \<inter> _ = {}\<close> by (auto simp: p q)
        then have "separate ?T ms" by (rule sep) (rule refl)
        then have "triple (st (?T \<union> meshes_of ms)) (free_sub_tiles ms) (\<lambda>_. st ?T)" by (rule free_sub_tiles_ok)
        moreover have "triple (st ?T) (finish_tile lib j m (Some c) p q) safe_end"
          unfolding p q by (rule finish_tile_ok [OF assms(3,4)])
        moreover have "usable (?T \<union> meshes_of ms) ((Context, Some c) # (PolyMeshDetail, q) # merge_detail_uses ms)"
          using u2 [of "?T \<union> meshes_of ms"] by (auto simp: q)
        ultimately show ?case unfolding T by - (rule triple_do, assumption, simp, rule triple_bind, assumption+)
      qed
    qed
  qed
qed

lemma build_move_map_tile_unsafe_ok:
  assumes "mesh_ready m" "library_laws lib"
  shows "triple (st {}) (build_move_map_tile_unsafe lib j m) safe_end"
  unfolding build_move_map_tile_unsafe_def
proof (rule triple_alloc, rule triple_if, goal_cases)
  case (1 ctx)
  then show ?case by (intro triple_return) (simp add: st_def safe_end_def finished_def)
next
  case (2 ctx)
  then obtain c where ctx: "ctx = Some c" by auto
  have rest: "triple (\<lambda>w. separate {(c, Context)} ms \<and> st ({(c, Context)} \<union> meshes_of ms) w)
      (if list_all (\<lambda>r. fst r = None) ms then State_Monad.bind (rc_free Context (Some c)) (\<lambda>_. State_Monad.return NothingToMerge)
       else merge_tile lib j m (Some c) ms) safe_end" for ms
  proof (cases "separate {(c, Context)} ms")
    case True
    have "triple (st ({(c, Context)} \<union> meshes_of ms)) (if list_all (\<lambda>r. fst r = None) ms
        then State_Monad.bind (rc_free Context (Some c)) (\<lambda>_. State_Monad.return NothingToMerge)
        else merge_tile lib j m (Some c) ms) safe_end"
    proof (rule triple_if)
      assume "list_all (\<lambda>r. fst r = None) ms"
      then have "meshes_of ms = {}" using separate_pairs [OF True] by (auto simp: meshes_of_def list_all_iff)
      then show "triple (st ({(c, Context)} \<union> meshes_of ms)) (State_Monad.bind (rc_free Context (Some c)) (\<lambda>_. State_Monad.return NothingToMerge)) safe_end"
        by (intro triple_free triple_return) (auto simp: st_def safe_end_def finished_def)
    qed (rule merge_tile_ok [OF True _ assms], auto simp: list_all_iff)
    then show ?thesis using True by (simp add: triple_def)
  qed (simp add: triple_def)
  show ?case
  proof (cases "tile_width_cells (tj_config j)")
    case (Inl e)
    then have "e = overflow" by (auto simp: tile_width_cells_def mul_i32_def add_i32_def split: if_splits)
    then show ?thesis unfolding Inl sum.case using overflow_is_panic by (intro triple_panic) simp
  next
    case (Inr tile_w)
    show ?thesis unfolding Inr sum.case ctx held_simps Un_empty_left
      by (rule triple_bind [OF build_sub_tiles_ok [OF _ assms] rest]) simp
  qed
qed

lemma tile_rc_config_error: "tile_rc_config overrides map_id x y bmin bmax = Inl e \<Longrightarrow> e = overflow"
  by (auto simp: tile_rc_config_def to_rc_config_def mul_i32_def Let_def split: if_splits)

lemma build_move_map_tile_ok:
  assumes "mesh_ready m" "library_laws lib"
  shows "triple (st {}) (build_move_map_tile lib overrides can_write src nav map_id x y m bmin bmax) safe_end"
proof (cases "tile_rc_config overrides map_id x y bmin bmax")
  case (Inl e)
  then show ?thesis using tile_rc_config_error [OF Inl] overflow_is_panic by (simp add: build_move_map_tile_def triple_panic)
next
  case (Inr config)
  then show ?thesis using build_move_map_tile_unsafe_ok [OF assms] by (simp add: build_move_map_tile_def)
qed


definition sample_library :: rc_library where
  "sample_library = \<lparr>lib_ok = (\<lambda>_. True), lib_clear_unwalkable = (\<lambda>angle verts tris areas. areas), lib_sin_cos = (\<lambda>x. (0, 0)),
     lib_merged = \<lparr>md_nverts = 4, md_npolys = 2, md_nvp = 6, md_areas = [11, 9], md_flags = [0, 0], md_has_verts = True,
       md_has_polys = True, md_has_detail = True\<rparr>, lib_nav_data = (\<lambda>p. [1, 2, 3])\<rparr>"

definition sample_params :: nav_mesh_params where
  "sample_params = \<lparr>np_orig = (0, 0, 0), np_tile_width = GRID_SIZE, np_tile_height = GRID_SIZE, np_max_tiles = 1, np_max_polys = 1048576\<rparr>"


end
