(* ===== verification/Vmap_Names.thy ===== *)
theory Vmap_Names
  imports Map_Dbc Vmap_Assemble
begin

text \<open>
  The helpers of \<^verbatim>\<open>crates/extractors/src/vmap_extract.rs\<close>: the archives the collision model
  extractor opens, the normalisation of file names, the lookup of a file under several
  spellings of its name, coordinates and rotations, and the chunks of a client file.
  Sine, cosine and their inverses belong to the platform and are parameters.
\<close>

section \<open>Archives\<close>

text \<open>\<open>is_dir\<close> and \<open>exists\<close> tell what is in the data directory.\<close>

definition scan_patches :: "(string \<Rightarrow> bool) \<Rightarrow> string \<Rightarrow> string list" where
  "scan_patches exists stem =
     filter exists (map (\<lambda>idx. if idx = 1 then stem @ ''.MPQ'' else stem @ ''-'' @ dec_str idx @ ''.MPQ'') [1..<100])"

definition build_archive_list :: "(string \<Rightarrow> bool) \<Rightarrow> (string \<Rightarrow> bool) \<Rightarrow> string list" where
  "build_archive_list is_dir exists =
     (let locales = filter is_dir LANGS in
      if locales = [] then []
      else concat (map (\<lambda>l. [l @ ''/locale-'' @ l @ ''.MPQ'', l @ ''/expansion-locale-'' @ l @ ''.MPQ'']) locales) @
        [''common.MPQ'', ''expansion.MPQ''] @ scan_patches exists ''patch'' @
        concat (map (\<lambda>l. scan_patches exists (l @ ''/patch-'' @ l)) locales))"

section \<open>File names\<close>

definition is_sep :: "char \<Rightarrow> bool" where
  "is_sep c \<longleftrightarrow> c = backslash_char \<or> c = CHR ''/''"

definition get_plain_name :: "string \<Rightarrow> string" where
  "get_plain_name path = rev (takeWhile (\<lambda>c. \<not> is_sep c) (rev path))"

text \<open>The extension of a name without separators: none for a name that starts with its only dot.\<close>

definition get_extension :: "string \<Rightarrow> string option" where
  "get_extension name =
     (let ext = rev (takeWhile (\<lambda>c. c \<noteq> CHR ''.'') (rev name)) in
      if CHR ''.'' \<notin> set name \<or> length name = Suc (length ext) \<or> name = ''..'' then None else Some ext)"

definition is_upper :: "char \<Rightarrow> bool" where
  "is_upper c \<longleftrightarrow> 65 \<le> (of_char c :: nat) \<and> (of_char c :: nat) \<le> 90"

definition is_lower :: "char \<Rightarrow> bool" where
  "is_lower c \<longleftrightarrow> 97 \<le> (of_char c :: nat) \<and> (of_char c :: nat) \<le> 122"

definition is_alphabetic :: "char \<Rightarrow> bool" where
  "is_alphabetic c \<longleftrightarrow> is_upper c \<or> is_lower c"

definition eq_ignore_ascii_case :: "string \<Rightarrow> string \<Rightarrow> bool" where
  "eq_ignore_ascii_case s t \<longleftrightarrow> map to_ascii_lowercase s = map to_ascii_lowercase t"

text \<open>The loop of \<^verbatim>\<open>fixnamen\<close>; \<open>after_letter\<close> says whether a letter stands before.\<close>

primrec fix_case :: "bool \<Rightarrow> string \<Rightarrow> string" where
  "fix_case after_letter [] = []"
| "fix_case after_letter (c # cs) =
     (let c' = (if after_letter \<and> is_upper c then to_ascii_lowercase c
                else if \<not> after_letter \<and> is_lower c then to_ascii_uppercase c else c)
      in c' # fix_case (is_alphabetic c') cs)"

definition fixnamen :: "string \<Rightarrow> string" where
  "fixnamen name =
     (if length name < 3 then name
      else fix_case False (take (length name - 3) name) @ map to_ascii_lowercase (drop (length name - 3) name))"

definition fixname2 :: "string \<Rightarrow> string" where
  "fixname2 name = map (\<lambda>c. if c = CHR '' '' then CHR ''_'' else c) name"

text \<open>\<^verbatim>\<open>String::from_utf8_lossy\<close> of the bytes of a string whose bytes were changed.\<close>

definition lossy :: "string \<Rightarrow> string" where
  "lossy s = from_utf8_lossy (as_bytes s)"

definition normalize_filename :: "string \<Rightarrow> string" where
  "normalize_filename name = lossy (fixname2 (get_plain_name (lossy (fixnamen name))))"

section \<open>Files of the archives\<close>

definition forward_slashes :: "string \<Rightarrow> string" where
  "forward_slashes s = replace_char backslash_char ''/'' s"

definition back_slashes :: "string \<Rightarrow> string" where
  "back_slashes s = replace_char (CHR ''/'') [backslash_char] s"

text \<open>\<^verbatim>\<open>MpqFile::open\<close>: the name as it is and with either separator, then the listed names that
  differ only in case; files of a single byte are passed over.\<close>

definition spellings :: "string list \<Rightarrow> string \<Rightarrow> string list" where
  "spellings all_files filename =
     [filename, forward_slashes filename, back_slashes filename] @
     filter (\<lambda>f. eq_ignore_ascii_case f filename \<or> eq_ignore_ascii_case f (forward_slashes filename) \<or>
                 eq_ignore_ascii_case f (back_slashes filename)) all_files"

definition mpq_open :: "mpq_manager \<Rightarrow> string list \<Rightarrow> string \<Rightarrow> bytes option" where
  "mpq_open mpq all_files filename =
     (case List.map_filter (\<lambda>f. case open_file mpq f of
              Some data \<Rightarrow> if length data > 1 then Some data else None | None \<Rightarrow> None) (spellings all_files filename) of
        [] \<Rightarrow> None
      | data # _ \<Rightarrow> Some data)"

text \<open>\<^verbatim>\<open>file_exists_in_mpq\<close>\<close>

definition file_exists_in_mpq :: "string list \<Rightarrow> string \<Rightarrow> bool" where
  "file_exists_in_mpq all_files filename \<longleftrightarrow>
     filename \<in> set all_files \<or> forward_slashes filename \<in> set all_files \<or> back_slashes filename \<in> set all_files \<or>
     list_ex (\<lambda>f. eq_ignore_ascii_case f filename \<or> eq_ignore_ascii_case (forward_slashes f) (forward_slashes filename)) all_files"

section \<open>Readers\<close>

text \<open>What is left of a file; the methods of \<^verbatim>\<open>MpqFile\<close> convert with the standard library.\<close>

definition mf_eof :: rust_error where
  "mf_eof = Err ''Unexpected EOF''"

definition mf_take :: "nat \<Rightarrow> bytes reader" where
  "mf_take n bs = (if n \<le> length bs then Inr (take n bs, drop n bs) else Inl mf_eof)"

definition mf_u32 :: "u32 reader" where
  "mf_u32 = bind_rd (mf_take 4) (\<lambda>b. ret_rd (from_le_bytes b))"

definition mf_u16 :: "u16 reader" where
  "mf_u16 = bind_rd (mf_take 2) (\<lambda>b. ret_rd (from_le_bytes b))"

definition mf_vec3 :: "vec3 reader" where
  "mf_vec3 = bind_rd mf_u32 (\<lambda>x. bind_rd mf_u32 (\<lambda>y. bind_rd mf_u32 (\<lambda>z. ret_rd (vec3_new x y z))))"

text \<open>\<^verbatim>\<open>get_slice\<close>\<close>

definition get_slice :: "bytes \<Rightarrow> nat \<Rightarrow> nat \<Rightarrow> bytes option" where
  "get_slice data offset n = (if offset + n > length data then None else Some (take n (drop offset data)))"

text \<open>The tag is stored backwards; where the chunk ends follows from its size.\<close>

definition read_chunk_header :: "(string \<times> u32) reader" where
  "read_chunk_header =
     bind_rd (mf_take 4) (\<lambda>fcc. bind_rd mf_u32 (\<lambda>n. ret_rd (from_utf8_lossy (rev fcc), n)))"

definition read_cstring :: "bytes \<Rightarrow> nat \<Rightarrow> string option" where
  "read_cstring data offset =
     (if offset \<ge> length data then None
      else Some (from_utf8_lossy (takeWhile (\<lambda>b. b \<noteq> 0) (drop offset data))))"

section \<open>Coordinates and rotations\<close>

record quaternion =
  qx :: f32
  qy :: f32
  qz :: f32
  qw :: f32

definition fix_coords :: "vec3 \<Rightarrow> vec3" where
  "fix_coords v = vec3_new (vz v) (vx v) (vy v)"

definition fix_coord_system :: "vec3 \<Rightarrow> vec3" where
  "fix_coord_system v = vec3_new (vx v) (vz v) (f32_neg (vy v))"

definition rad_to_deg :: "f32 \<Rightarrow> f32" where
  "rad_to_deg value = f32_div (f32_mul value 0x43340000) 0x40490FDB"

definition f32_one :: f32 where "f32_one = 0x3F800000"

definition quat_to_matrix :: "quaternion \<Rightarrow> mat3" where
  "quat_to_matrix q =
     (let x2 = f32_add (qx q) (qx q); y2 = f32_add (qy q) (qy q); z2 = f32_add (qz q) (qz q);
          xx = f32_mul (qx q) x2; yy = f32_mul (qy q) y2; zz = f32_mul (qz q) z2;
          xy = f32_mul (qx q) y2; xz = f32_mul (qx q) z2; yz = f32_mul (qy q) z2;
          wx = f32_mul (qw q) x2; wy = f32_mul (qw q) y2; wz = f32_mul (qw q) z2
      in (vec3_new (f32_sub f32_one (f32_add yy zz)) (f32_sub xy wz) (f32_add xz wy),
          vec3_new (f32_add xy wz) (f32_sub f32_one (f32_add xx zz)) (f32_sub yz wx),
          vec3_new (f32_sub xz wy) (f32_add yz wx) (f32_sub f32_one (f32_add xx yy))))"

definition matrix_mul :: "mat3 \<Rightarrow> mat3 \<Rightarrow> mat3" where
  "matrix_mul a b =
     (case (a, b) of ((r0, r1, r2), (b0, b1, b2)) \<Rightarrow>
        let cx = vec3_new (vx b0) (vx b1) (vx b2); cy = vec3_new (vy b0) (vy b1) (vy b2);
            cz = vec3_new (vz b0) (vz b1) (vz b2);
            out_row = (\<lambda>r. vec3_new (dot_row r cx) (dot_row r cy) (dot_row r cz))
        in (out_row r0, out_row r1, out_row r2))"

record math_lib =
  ml_sin_cos :: "f32 \<Rightarrow> f32 \<times> f32"
  ml_cos :: "f32 \<Rightarrow> f32"
  ml_asin :: "f32 \<Rightarrow> f32"
  ml_atan2 :: "f32 \<Rightarrow> f32 \<Rightarrow> f32"

text \<open>\<^verbatim>\<open>1e-6\<close> is \<open>0x358637BD\<close>.\<close>

definition matrix_to_euler_xyz :: "math_lib \<Rightarrow> mat3 \<Rightarrow> f32 \<times> f32 \<times> f32" where
  "matrix_to_euler_xyz M m =
     (case m of (r0, r1, r2) \<Rightarrow>
        let sy = f32_clamp (f32_neg f32_one) f32_one (vz r0); y = ml_asin M sy; cy = ml_cos M y in
        if f32_lt 0x358637BD (f32_abs cy)
        then (ml_atan2 M (f32_neg (vz r1)) (vz r2), y, ml_atan2 M (f32_neg (vy r0)) (vx r0))
        else if f32_lt (vz r0) 0 then (ml_atan2 M (f32_neg (vx r1)) (vy r1), y, 0)
        else (ml_atan2 M (vx r1) (vy r1), y, 0))"

section \<open>Names that differ in case\<close>

lemma lower_props:
  "is_upper c \<Longrightarrow> is_lower (to_ascii_lowercase c)" "\<not> is_upper c \<Longrightarrow> to_ascii_lowercase c = c"
  "is_lower c \<Longrightarrow> is_upper (to_ascii_uppercase c)" "is_upper c \<Longrightarrow> \<not> is_lower c"
  "is_lower c \<Longrightarrow> to_ascii_lowercase (to_ascii_uppercase c) = c"
  by (auto simp: is_upper_def is_lower_def to_ascii_lowercase_def to_ascii_uppercase_def Let_def)

end
