(* ===== verification/Vmap_Model.thy ===== *)
theory Vmap_Model
  imports Vmap_Names
begin

text \<open>
  The state of the collision model extractor and its extraction of a single model
  (\<^verbatim>\<open>crates/extractors/src/vmap_extract.rs\<close>).  The state has the archives, the files of the output
  directory by name, the identifiers given so far, the doodads of the buildings and the
  paths that were not found.  An error ends the run: what it leaves on the disk is not
  modelled.
\<close>

section \<open>State\<close>

record wmo_doodad_set =
  ds_name :: bytes
  ds_start_index :: u32
  ds_count :: u32

record wmo_doodad_spawn =
  sp_name_index :: u32
  sp_position :: vec3
  sp_rotation :: quaternion
  sp_scale :: f32
  sp_color :: u32

record wmo_doodad_data =
  dd_sets :: "wmo_doodad_set list"
  dd_paths_blob :: bytes
  dd_spawns :: "wmo_doodad_spawn list"
  dd_references :: "u16 list"

definition wmo_doodad_data_default :: wmo_doodad_data where
  "wmo_doodad_data_default = \<lparr>dd_sets = [], dd_paths_blob = [], dd_spawns = [], dd_references = []\<rparr>"

type_synonym unique_ids = "((u32 \<times> u16) \<times> u32) list"

record vmap_context =
  vc_mpq :: mpq_manager
  vc_all_files :: "string list"
  vc_precise :: bool
  vc_files :: "string \<rightharpoonup> bytes"
  vc_unique_ids :: unique_ids
  vc_wmo_doodads :: "string \<rightharpoonup> wmo_doodad_data"
  vc_failed_paths :: "string list"

text \<open>A step of the extractor.\<close>

type_synonym 'a vx = "vmap_context \<Rightarrow> ('a \<times> vmap_context) result"

definition bind_vx :: "'a vx \<Rightarrow> ('a \<Rightarrow> 'b vx) \<Rightarrow> 'b vx" where
  "bind_vx m k c = bind_result (m c) (\<lambda>(x, c). k x c)"

definition ret_vx :: "'a \<Rightarrow> 'a vx" where
  "ret_vx x c = Inr (x, c)"

lemma vx_simps [simp]:
  "ret_vx x c = Inr (x, c)"
  "m c = Inr (x, c') \<Longrightarrow> bind_vx m k c = k x c'"
  "m c = Inl e \<Longrightarrow> bind_vx m k c = Inl e"
  by (simp_all add: ret_vx_def bind_vx_def)

lemma bind_vx_Inr: "bind_vx m k c = Inr (y, c'') \<longleftrightarrow> (\<exists>x c'. m c = Inr (x, c') \<and> k x c' = Inr (y, c''))"
  by (cases "m c") (auto simp: bind_vx_def)

text \<open>\<^verbatim>\<open>for x in xs { f(x)? }\<close>\<close>

primrec for_vx :: "('a \<Rightarrow> unit vx) \<Rightarrow> 'a list \<Rightarrow> unit vx" where
  "for_vx f [] = ret_vx ()"
| "for_vx f (x # xs) = bind_vx (f x) (\<lambda>_. for_vx f xs)"

section \<open>The output directory\<close>

text \<open>What the extractor asks of its surroundings; \<open>en_can_create\<close> says which files can be created
  and \<open>en_order\<close> the order in which a hash set is walked.\<close>

record vmap_env =
  en_order :: byteorder
  en_math :: math_lib
  en_can_create :: "string \<Rightarrow> bool"
  en_hash_order :: "u16 list \<Rightarrow> u16 list"

text \<open>\<^verbatim>\<open>buildings_dir.join(name).exists()\<close>: the directory itself and its parent exist too.\<close>

definition out_exists :: "vmap_context \<Rightarrow> string \<Rightarrow> bool" where
  "out_exists c name \<longleftrightarrow> name \<in> {'''', ''.'', ''..''} \<or> vc_files c name \<noteq> None"

definition create_file :: "vmap_env \<Rightarrow> string \<Rightarrow> bytes \<Rightarrow> unit vx" where
  "create_file E name contents c =
     (if name \<notin> {'''', ''.'', ''..''} \<and> en_can_create E name
      then Inr ((), c\<lparr>vc_files := (vc_files c)(name \<mapsto> contents)\<rparr>) else Inl (Err ''cannot create file''))"

text \<open>The second number of a raw model: the count of its vertices, for a building of its triangles.\<close>

definition read_model_vertex_count :: "vmap_env \<Rightarrow> string \<Rightarrow> vmap_context \<Rightarrow> u32 result" where
  "read_model_vertex_count E name c =
     (case vc_files c name of
        None \<Rightarrow> Inl (Err ''cannot open file'')
      | Some f \<Rightarrow> if length f < 12 then Inl unexpected_eof else Inr (dec_u32 (en_order E) (take 4 (drop 8 f))))"

section \<open>Identifiers\<close>

definition generate :: "u32 \<Rightarrow> u16 \<Rightarrow> u32 vx" where
  "generate client_id doodad_id c =
     (case map_of (vc_unique_ids c) (client_id, doodad_id) of
        Some value \<Rightarrow> Inr (value, c)
      | None \<Rightarrow>
          let next_id = word_of_nat (length (vc_unique_ids c) + 1)
          in Inr (next_id, c\<lparr>vc_unique_ids := vc_unique_ids c @ [((client_id, doodad_id), next_id)]\<rparr>))"

section \<open>Models\<close>

record model_header_info =
  mh_n_bounding_triangles :: u32
  mh_ofs_bounding_triangles :: u32
  mh_n_bounding_vertices :: u32
  mh_ofs_bounding_vertices :: u32

text \<open>Two words, 43 numbers and 14 floats come first.\<close>

definition std_u32 :: "u32 reader" where
  "std_u32 = bind_rd (take_rd 4) (\<lambda>b. ret_rd (from_le_bytes b))"

definition parse_model_header :: "bytes \<Rightarrow> model_header_info result" where
  "parse_model_header data =
     map_sum id fst
       (bind_rd (repeat_rd (2 + 43 + 14) (take_rd 4)) (\<lambda>_.
        bind_rd std_u32 (\<lambda>nt. bind_rd std_u32 (\<lambda>ot. bind_rd std_u32 (\<lambda>nv. bind_rd std_u32 (\<lambda>ov.
        ret_rd \<lparr>mh_n_bounding_triangles = nt, mh_ofs_bounding_triangles = ot,
                mh_n_bounding_vertices = nv, mh_ofs_bounding_vertices = ov\<rparr>))))) data)"

text \<open>The name of a model file: \<^verbatim>\<open>mdx\<close> and \<^verbatim>\<open>mdl\<close> files are stored as \<^verbatim>\<open>m2\<close>.\<close>

definition model_path :: "string \<Rightarrow> string" where
  "model_path orig_path =
     (case get_extension (get_plain_name orig_path) of
        Some ext \<Rightarrow>
          if eq_ignore_ascii_case ext ''mdx'' \<or> eq_ignore_ascii_case ext ''mdl''
          then take (length orig_path - 2) orig_path @ ''2'' else orig_path
      | None \<Rightarrow> orig_path)"

text \<open>\<^verbatim>\<open>indices.swap(i, i + 1)\<close> for every \<open>i\<close> with \<open>i mod 3 = 1\<close> that has a successor.\<close>

fun swap_corners :: "u16 list \<Rightarrow> u16 list" where
  "swap_corners (a # b # c # is) = a # c # b # swap_corners is"
| "swap_corners is = is"

definition read_indices :: "byteorder \<Rightarrow> nat \<Rightarrow> bytes \<Rightarrow> u16 list result" where
  "read_indices B n bs = map_sum id fst (repeat_rd n (rd_u16 B) bs)"

definition read_vertices :: "byteorder \<Rightarrow> nat \<Rightarrow> bytes \<Rightarrow> vec3 list result" where
  "read_vertices B n bs = map_sum id (\<lambda>(vs, _). map fix_coord_system vs) (repeat_rd n (read_vec3 B) bs)"

definition RAW_MAGIC :: bytes where "RAW_MAGIC = as_bytes ''VMAPs05'' @ [0]"

definition model_bytes :: "byteorder \<Rightarrow> u32 \<Rightarrow> u32 \<Rightarrow> u16 list \<Rightarrow> vec3 list \<Rightarrow> bytes result" where
  "model_bytes B n_indexes n_vertices indices vertices =
     bind_result (chunk_size n_indexes 2) (\<lambda>isize.
     bind_result (chunk_size n_vertices 12) (\<lambda>vsize.
     Inr (RAW_MAGIC @ enc_u32 B n_vertices @ enc_u32 B 1 @ replicate 12 0 @ replicate 24 0 @ replicate 4 0 @
          as_bytes ''GRP '' @ enc_u32 B (4 + 4 * 1) @ enc_u32 B 1 @ enc_u32 B n_indexes @
          as_bytes ''INDX'' @ enc_u32 B isize @ enc_u32 B n_indexes @ concat (map (enc_u16 B) (swap_corners indices)) @
          as_bytes ''VERT'' @ enc_u32 B vsize @ enc_u32 B n_vertices @
          concat (map (\<lambda>v. enc_u32 B (vx v) @ enc_u32 B (f32_neg (vz v)) @ enc_u32 B (vy v)) vertices))))"

text \<open>The contents of the output file, if the model has collision data inside its file.\<close>

definition convert_model :: "byteorder \<Rightarrow> bytes \<Rightarrow> bytes option result" where
  "convert_model B data =
     bind_result (parse_model_header data) (\<lambda>header.
     if mh_n_bounding_triangles header = 0 then Inr None
     else
       case get_slice data (unat (mh_ofs_bounding_vertices header)) (unat (mh_n_bounding_vertices header) * 12) of
         None \<Rightarrow> Inr None
       | Some vslice \<Rightarrow>
           (case get_slice data (unat (mh_ofs_bounding_triangles header)) (unat (mh_n_bounding_triangles header) * 2) of
              None \<Rightarrow> Inr None
            | Some islice \<Rightarrow>
                bind_result (read_vertices B (unat (mh_n_bounding_vertices header)) vslice) (\<lambda>vertices.
                bind_result (read_indices B (unat (mh_n_bounding_triangles header)) islice) (\<lambda>indices.
                bind_result (model_bytes B (mh_n_bounding_triangles header) (mh_n_bounding_vertices header) indices vertices)
                  (\<lambda>bytes. Inr (Some bytes))))))"

text \<open>The name of the model in the output directory, if there is a file for it.\<close>

definition extract_single_model :: "vmap_env \<Rightarrow> string \<Rightarrow> string option vx" where
  "extract_single_model E orig_path c =
     (if length orig_path < 4 then Inr (None, c)
      else
        let path = model_path orig_path; fixed_name = get_plain_name path in
        if out_exists c fixed_name then Inr (Some fixed_name, c)
        else
          case mpq_open (vc_mpq c) (vc_all_files c) path of
            None \<Rightarrow> Inr (None, c\<lparr>vc_failed_paths := hs_insert path (vc_failed_paths c)\<rparr>)
          | Some data \<Rightarrow>
              bind_result (convert_model (en_order E) data) (\<lambda>contents. case contents of
                None \<Rightarrow> Inr (None, c)
              | Some bytes \<Rightarrow> bind_vx (create_file E fixed_name bytes) (\<lambda>_. ret_vx (Some fixed_name)) c))"

end
