(* ===== verification/Vmap_Wmo.thy ===== *)
theory Vmap_Wmo
  imports Vmap_Model
begin

text \<open>
  Buildings (\<^verbatim>\<open>crates/extractors/src/vmap_extract.rs\<close>): the chunks of a root file and of its
  groups, the collision mesh of a group, and the file a building becomes.  A file is read chunk
  by chunk; each header takes eight bytes, so the loops end.  Fields of the client's headers that no
  code uses after reading them are read and not kept.
\<close>

section \<open>Chunks\<close>

text \<open>The loop over the chunks of a file from position \<open>pos\<close>: \<open>step\<close> gets the tag, the size and
  what follows the header; \<open>skip\<close> gives where the chunk ends, as a distance from the header.\<close>

function chunk_loop ::
    "(string \<Rightarrow> u32 \<Rightarrow> nat) \<Rightarrow> (string \<Rightarrow> u32 \<Rightarrow> bytes \<Rightarrow> 's \<Rightarrow> 's result) \<Rightarrow> bytes \<Rightarrow> nat \<Rightarrow> 's \<Rightarrow> 's result" where
  "chunk_loop skip step data pos s =
     (if pos \<ge> length data then Inr s
      else
        case read_chunk_header (drop pos data) of
          Inl e \<Rightarrow> Inr s
        | Inr ((tag, n), body) \<Rightarrow>
            bind_result (step tag n body s) (\<lambda>s.
            chunk_loop skip step data (min (pos + 8 + skip tag n) (length data)) s))"
  by pat_completeness auto
termination
  by (relation "measure (\<lambda>(skip, step, data, pos, s). length data - pos)") auto

declare chunk_loop.simps [simp del]

section \<open>The root of a building\<close>

record wmo_root =
  wr_n_groups :: u32
  wr_root_wmo_id :: u32
  wr_flags :: u32
  wr_bbcorn1 :: vec3
  wr_bbcorn2 :: vec3
  wr_doodad_data :: wmo_doodad_data
  wr_valid_doodad_names :: "u32 list"
  wr_group_names :: bytes

definition wmo_root_new :: wmo_root where
  "wmo_root_new =
     \<lparr>wr_n_groups = 0, wr_root_wmo_id = 0, wr_flags = 0, wr_bbcorn1 = vec3_default, wr_bbcorn2 = vec3_default,
      wr_doodad_data = wmo_doodad_data_default, wr_valid_doodad_names = [], wr_group_names = []\<rparr>"

definition read_mohd :: "wmo_root \<Rightarrow> wmo_root reader" where
  "read_mohd r =
     bind_rd mf_u32 (\<lambda>_. bind_rd mf_u32 (\<lambda>n_groups. bind_rd (repeat_rd 6 mf_u32) (\<lambda>_.
     bind_rd mf_u32 (\<lambda>root_wmo_id. bind_rd mf_vec3 (\<lambda>c1. bind_rd mf_vec3 (\<lambda>c2. bind_rd mf_u32 (\<lambda>flags.
     ret_rd (r\<lparr>wr_n_groups := n_groups, wr_root_wmo_id := root_wmo_id, wr_bbcorn1 := c1, wr_bbcorn2 := c2,
               wr_flags := flags\<rparr>))))))))"

definition read_doodad_set :: "wmo_doodad_set reader" where
  "read_doodad_set =
     bind_rd (mf_take 20) (\<lambda>name. bind_rd mf_u32 (\<lambda>start_index. bind_rd mf_u32 (\<lambda>count.
     bind_rd (mf_take 4) (\<lambda>_. ret_rd \<lparr>ds_name = name, ds_start_index = start_index, ds_count = count\<rparr>))))"

definition read_doodad_spawn :: "wmo_doodad_spawn reader" where
  "read_doodad_spawn =
     bind_rd mf_u32 (\<lambda>raw_name. bind_rd mf_vec3 (\<lambda>position.
     bind_rd mf_u32 (\<lambda>x. bind_rd mf_u32 (\<lambda>y. bind_rd mf_u32 (\<lambda>z. bind_rd mf_u32 (\<lambda>w.
     bind_rd mf_u32 (\<lambda>scale. bind_rd mf_u32 (\<lambda>color.
     ret_rd \<lparr>sp_name_index = raw_name AND 0x00FFFFFF, sp_position = position,
             sp_rotation = \<lparr>qx = x, qy = y, qz = z, qw = w\<rparr>, sp_scale = scale, sp_color = color\<rparr>))))))))"

text \<open>The part of a path after its last separator, if it has one and more follows, is normalised
  in place.\<close>

definition fix_blob_name :: "bytes \<Rightarrow> bytes" where
  "fix_blob_name path =
     (let s = str_of_bytes path; plain = get_plain_name s in
      if list_ex is_sep s then as_bytes (take (length s - length plain) s @ fixname2 (fixnamen plain)) else path)"

text \<open>The names of the doodads from position \<open>offset\<close>: every model is extracted, and the offsets of
  those that exist are collected.  What follows the last zero byte is left.\<close>

function doodad_names :: "vmap_env \<Rightarrow> bytes \<Rightarrow> nat \<Rightarrow> u32 list \<Rightarrow> (bytes \<times> u32 list) vx" where
  "doodad_names E data offset valid c =
     (if offset \<ge> length data \<or> 0 \<notin> set (drop offset data) then Inr ((data, valid), c)
      else
        let path = takeWhile (\<lambda>b. b \<noteq> 0) (drop offset data); end_pos = offset + length path in
        bind_result (extract_single_model E (from_utf8_lossy path) c) (\<lambda>(fixed_name, c).
        doodad_names E (take offset data @ fix_blob_name path @ drop end_pos data) (end_pos + 1)
          (if fixed_name \<noteq> None \<and> fixed_name \<noteq> Some [] then hs_insert (word_of_nat offset) valid else valid) c))"
  by pat_completeness auto

lemma length_fixnamen [simp]: "length (fixnamen s) = length s"
proof -
  have "length (fix_case b xs) = length xs" for b xs by (induction xs arbitrary: b) (simp_all add: Let_def)
  then show ?thesis by (simp add: fixnamen_def)
qed

lemma length_get_plain_name: "length (get_plain_name s) \<le> length s"
  using length_takeWhile_le [of "\<lambda>c. \<not> is_sep c" "rev s"] by (simp add: get_plain_name_def)

lemma length_fix_blob_name [simp]: "length (fix_blob_name path) = length path"
  using length_get_plain_name [of "str_of_bytes path"]
  by (simp add: fix_blob_name_def Let_def fixname2_def as_bytes_def str_of_bytes_def)

termination doodad_names
proof (relation "measure (\<lambda>(E, data, offset, valid, c). length data - offset)")
  fix E :: vmap_env and data :: bytes and offset :: nat and valid :: "u32 list" and c c' :: vmap_context and path end_pos x
  assume *: "\<not> (offset \<ge> length data \<or> 0 \<notin> set (drop offset data))"
    "path = takeWhile (\<lambda>b. b \<noteq> 0) (drop offset data)" "end_pos = offset + length path"
  have "length path \<le> length data - offset"
    using length_takeWhile_le [of "\<lambda>b. b \<noteq> 0" "drop offset data"] *(2) by simp
  then show "((E, take offset data @ fix_blob_name path @ drop end_pos data, end_pos + 1,
       if x \<noteq> None \<and> x \<noteq> Some [] then hs_insert (word_of_nat offset) valid else valid, c'),
      E, data, offset, valid, c) \<in> measure (\<lambda>(E, data, offset, valid, c). length data - offset)"
    using *(1,3) by simp linarith
qed simp

declare doodad_names.simps [simp del]

definition root_step :: "vmap_env \<Rightarrow> string \<Rightarrow> u32 \<Rightarrow> bytes \<Rightarrow> wmo_root \<times> vmap_context \<Rightarrow> (wmo_root \<times> vmap_context) result" where
  "root_step E tag n body s =
     (case s of (r, c) \<Rightarrow>
        if tag = ''MOHD'' then map_sum id (\<lambda>(r, _). (r, c)) (read_mohd r body)
        else if tag = ''MODS'' then
          map_sum id (\<lambda>(sets, _). (r\<lparr>wr_doodad_data := (wr_doodad_data r)\<lparr>dd_sets := sets\<rparr>\<rparr>, c))
            (repeat_rd (unat n div 32) read_doodad_set body)
        else if tag = ''MODN'' then
          bind_result (mf_take (unat n) body) (\<lambda>(data, _).
          bind_result (doodad_names E data 0 (wr_valid_doodad_names r) c) (\<lambda>((data, valid), c).
          Inr (r\<lparr>wr_doodad_data := (wr_doodad_data r)\<lparr>dd_paths_blob := data\<rparr>, wr_valid_doodad_names := valid\<rparr>, c)))
        else if tag = ''MODD'' then
          map_sum id (\<lambda>(spawns, _). (r\<lparr>wr_doodad_data := (wr_doodad_data r)\<lparr>dd_spawns := spawns\<rparr>\<rparr>, c))
            (repeat_rd (unat n div 40) read_doodad_spawn body)
        else if tag = ''MOGN'' then
          map_sum id (\<lambda>(names, _). (r\<lparr>wr_group_names := names\<rparr>, c)) (mf_take (unat n) body)
        else Inr (r, c))"

definition wmo_root_open :: "vmap_env \<Rightarrow> string \<Rightarrow> wmo_root option vx" where
  "wmo_root_open E filename c =
     (case mpq_open (vc_mpq c) (vc_all_files c) filename of
        None \<Rightarrow> Inr (None, c)
      | Some data \<Rightarrow>
          bind_result (chunk_loop (\<lambda>_ n. unat n) (root_step E) data 0 (wmo_root_new, c)) (\<lambda>(r, c). Inr (Some r, c)))"

section \<open>The groups of a building\<close>

record wmo_liquid_header =
  lh_xverts :: i32
  lh_yverts :: i32
  lh_xtiles :: i32
  lh_ytiles :: i32
  lh_pos :: vec3
  lh_liquid_type :: u16

record wmo_group =
  wg_group_name :: i32
  wg_mogp_flags :: i32
  wg_bbcorn1 :: vec3
  wg_bbcorn2 :: vec3
  wg_liquid_type :: u32
  wg_group_wmo_id :: u32
  wg_mopy :: bytes
  wg_movi :: "u16 list"
  wg_movt :: "f32 list"
  wg_moba :: "u16 list"
  wg_doodad_refs :: "u16 list"
  wg_liquid_header :: "wmo_liquid_header option"
  wg_liquid_verts :: "f32 list"
  wg_liquid_bytes :: bytes
  wg_liquflags :: u32

definition wmo_group_new :: wmo_group where
  "wmo_group_new =
     \<lparr>wg_group_name = 0, wg_mogp_flags = 0, wg_bbcorn1 = vec3_default, wg_bbcorn2 = vec3_default, wg_liquid_type = 0,
      wg_group_wmo_id = 0, wg_mopy = [], wg_movi = [], wg_movt = [], wg_moba = [], wg_doodad_refs = [],
      wg_liquid_header = None, wg_liquid_verts = [], wg_liquid_bytes = [], wg_liquflags = 0\<rparr>"

text \<open>After the corners come four numbers of 16 bits, three of 32 and the two that are kept.\<close>

definition read_mogp :: "wmo_group \<Rightarrow> wmo_group reader" where
  "read_mogp g =
     bind_rd mf_u32 (\<lambda>group_name. bind_rd mf_u32 (\<lambda>_. bind_rd mf_u32 (\<lambda>mogp_flags.
     bind_rd mf_vec3 (\<lambda>c1. bind_rd mf_vec3 (\<lambda>c2. bind_rd (repeat_rd 4 mf_u16) (\<lambda>_. bind_rd (repeat_rd 2 mf_u32) (\<lambda>_.
     bind_rd mf_u32 (\<lambda>liquid_type. bind_rd mf_u32 (\<lambda>group_wmo_id.
     ret_rd (g\<lparr>wg_group_name := group_name, wg_mogp_flags := mogp_flags, wg_bbcorn1 := c1, wg_bbcorn2 := c2,
               wg_liquid_type := liquid_type, wg_group_wmo_id := group_wmo_id\<rparr>))))))))))"

text \<open>A count of elements as a length: a negative one is a capacity no vector can have.\<close>

definition vec_capacity :: "i32 \<Rightarrow> i32 \<Rightarrow> nat result" where
  "vec_capacity a b =
     bind_result (mul_i32 a b) (\<lambda>n. if sint n < 0 then Inl (Panic ''capacity overflow'') else Inr (nat (sint n)))"

definition read_liquid_vert :: "f32 reader" where
  "read_liquid_vert = bind_rd mf_u16 (\<lambda>_. bind_rd mf_u16 (\<lambda>_. mf_u32))"

definition read_mliq :: "wmo_group \<Rightarrow> wmo_group reader" where
  "read_mliq g =
     bind_rd mf_u32 (\<lambda>xverts. bind_rd mf_u32 (\<lambda>yverts. bind_rd mf_u32 (\<lambda>xtiles. bind_rd mf_u32 (\<lambda>ytiles.
     bind_rd mf_vec3 (\<lambda>pos. bind_rd mf_u16 (\<lambda>liquid_type.
     case vec_capacity xverts yverts of
       Inl e \<Rightarrow> fail_rd e
     | Inr vert_count \<Rightarrow>
         bind_rd (repeat_rd vert_count read_liquid_vert) (\<lambda>verts.
         case vec_capacity xtiles ytiles of
           Inl e \<Rightarrow> fail_rd e
         | Inr byte_count \<Rightarrow>
             bind_rd (mf_take byte_count) (\<lambda>bytes.
             ret_rd (g\<lparr>wg_liquflags := wg_liquflags g OR 1,
                       wg_liquid_header := Some \<lparr>lh_xverts = xverts, lh_yverts = yverts, lh_xtiles = xtiles,
                         lh_ytiles = ytiles, lh_pos = pos, lh_liquid_type = liquid_type\<rparr>,
                       wg_liquid_verts := verts, wg_liquid_bytes := bytes\<rparr>)))))))))"

definition group_step :: "string \<Rightarrow> u32 \<Rightarrow> bytes \<Rightarrow> wmo_group \<Rightarrow> wmo_group result" where
  "group_step tag n body g =
     (if tag = ''MOGP'' then map_sum id fst (read_mogp g body)
      else if tag = ''MOPY'' then map_sum id (\<lambda>(d, _). g\<lparr>wg_mopy := d\<rparr>) (mf_take (unat n) body)
      else if tag = ''MOVI'' then map_sum id (\<lambda>(d, _). g\<lparr>wg_movi := d\<rparr>) (repeat_rd (unat n div 2) mf_u16 body)
      else if tag = ''MOVT'' then map_sum id (\<lambda>(d, _). g\<lparr>wg_movt := d\<rparr>) (repeat_rd (unat n div 4) mf_u32 body)
      else if tag = ''MOBA'' then map_sum id (\<lambda>(d, _). g\<lparr>wg_moba := d\<rparr>) (repeat_rd (unat n div 2) mf_u16 body)
      else if tag = ''MODR'' then map_sum id (\<lambda>(d, _). g\<lparr>wg_doodad_refs := d\<rparr>) (repeat_rd (unat n div 2) mf_u16 body)
      else if tag = ''MLIQ'' then map_sum id fst (read_mliq g body)
      else Inr g)"

text \<open>The chunk \<^verbatim>\<open>MOGP\<close> holds the others: only its first 68 bytes are skipped.\<close>

definition wmo_group_open :: "string \<Rightarrow> vmap_context \<Rightarrow> wmo_group option result" where
  "wmo_group_open filename c =
     (case mpq_open (vc_mpq c) (vc_all_files c) filename of
        None \<Rightarrow> Inr None
      | Some data \<Rightarrow>
          map_sum id Some
            (chunk_loop (\<lambda>tag n. if tag = ''MOGP'' then 68 else unat n) group_step data 0 wmo_group_new))"

definition should_skip :: "wmo_group \<Rightarrow> wmo_root \<Rightarrow> bool" where
  "should_skip g r \<longleftrightarrow>
     wg_mogp_flags g AND 0x80 \<noteq> 0 \<or> wg_mogp_flags g AND 0x4000000 \<noteq> 0 \<or>
     sint (wg_group_name g) \<ge> 0 \<and> read_cstring (wr_group_names r) (nat (sint (wg_group_name g))) = Some ''antiportal''"

end
