(* ===== verification/Vmap_Building.thy ===== *)
theory Vmap_Building
  imports Vmap_Wmo
begin

text \<open>
  The file of a building (\<^verbatim>\<open>crates/extractors/src/vmap_extract.rs\<close>): its header, and for every group
  that is kept the collision mesh and the liquid.  Without the option for precise data only the
  triangles that collide are written, and the vertices they use are renumbered.
\<close>

section \<open>The mesh of a group\<close>

definition WMO_MATERIAL_COLLISION :: u8 where "WMO_MATERIAL_COLLISION = 0x08"
definition WMO_MATERIAL_DETAIL :: u8 where "WMO_MATERIAL_DETAIL = 0x04"
definition WMO_MATERIAL_RENDER :: u8 where "WMO_MATERIAL_RENDER = 0x20"

definition is_collision :: "u8 \<Rightarrow> bool" where
  "is_collision flag \<longleftrightarrow>
     flag AND WMO_MATERIAL_COLLISION \<noteq> 0 \<or> flag AND WMO_MATERIAL_RENDER \<noteq> 0 \<and> flag AND WMO_MATERIAL_DETAIL = 0"

text \<open>The table of renumbered vertices, the indices kept so far and the number of triangles kept.\<close>

record kept_mesh =
  km_renum :: "int list"
  km_movi_ex :: "u16 list"
  km_n_col :: nat

definition keep_corner :: "u16 list \<Rightarrow> nat \<Rightarrow> nat \<Rightarrow> kept_mesh \<Rightarrow> kept_mesh result" where
  "keep_corner movi tri j k =
     bind_result (vec_get movi (3 * tri + j)) (\<lambda>v.
     bind_result (vec_set (unat v) 1 (km_renum k)) (\<lambda>renum.
     bind_result (vec_set (3 * km_n_col k + j) v (km_movi_ex k)) (\<lambda>ex.
     Inr (k\<lparr>km_renum := renum, km_movi_ex := ex\<rparr>))))"

definition keep_triangle :: "wmo_group \<Rightarrow> nat \<Rightarrow> kept_mesh \<Rightarrow> kept_mesh result" where
  "keep_triangle g tri k =
     (if \<not> is_collision (wg_mopy g ! (2 * tri)) then Inr k
      else bind_result (for_each (keep_corner (wg_movi g) tri) [0, 1, 2] k) (\<lambda>k. Inr (k\<lparr>km_n_col := km_n_col k + 1\<rparr>)))"

primrec number_marked :: "int \<Rightarrow> int list \<Rightarrow> int list" where
  "number_marked n [] = []"
| "number_marked n (v # vs) = (if v = 1 then n # number_marked (n + 1) vs else v # number_marked n vs)"

definition renumber_index :: "int list \<Rightarrow> u16 \<Rightarrow> u16 list \<Rightarrow> u16 list result" where
  "renumber_index renum val out = bind_result (vec_get renum (unat val)) (\<lambda>i. Inr (out @ [word_of_int i]))"

text \<open>The indices and vertices of the triangles that collide.\<close>

definition collision_mesh :: "wmo_group \<Rightarrow> (nat \<times> u16 list \<times> f32 list) result" where
  "collision_mesh g =
     (let n_triangles = length (wg_mopy g) div 2; n_vertices = length (wg_movt g) div 3 in
      bind_result (for_each (keep_triangle g) [0..<n_triangles]
        \<lparr>km_renum = replicate n_vertices (- 1), km_movi_ex = replicate (n_triangles * 3) 0, km_n_col = 0\<rparr>) (\<lambda>k.
      let renum = number_marked 0 (km_renum k) in
      bind_result (for_each (renumber_index renum) (take (km_n_col k * 3) (km_movi_ex k)) []) (\<lambda>indices.
      Inr (km_n_col k, indices,
        concat (map (\<lambda>i. [wg_movt g ! (i * 3), wg_movt g ! (i * 3 + 1), wg_movt g ! (i * 3 + 2)])
          (filter (\<lambda>i. renum ! i \<ge> 0) [0..<n_vertices]))))))"

definition mesh_chunks :: "byteorder \<Rightarrow> u32 \<Rightarrow> u32 \<Rightarrow> u16 list \<Rightarrow> u32 \<Rightarrow> u32 \<Rightarrow> f32 list \<Rightarrow> bytes" where
  "mesh_chunks B isize n_indexes indices vsize n_vertices coords =
     as_bytes ''INDX'' @ enc_u32 B isize @ enc_u32 B n_indexes @ concat (map (enc_u16 B) indices) @
     as_bytes ''VERT'' @ enc_u32 B vsize @ enc_u32 B n_vertices @ concat (map (enc_u32 B) coords)"

definition write_precise :: "byteorder \<Rightarrow> wmo_group \<Rightarrow> (u32 \<times> bytes) result" where
  "write_precise B g =
     (let n_triangles = word_of_nat (length (wg_mopy g) div 2); n_vertices = word_of_nat (length (wg_movt g) div 3) in
      bind_result (mul_u32 n_triangles 3) (\<lambda>n_indexes.
      bind_result (chunk_size n_indexes 2) (\<lambda>isize.
      bind_result (chunk_size n_vertices 12) (\<lambda>vsize.
      Inr (n_triangles, mesh_chunks B isize n_indexes (wg_movi g) vsize n_vertices (wg_movt g))))))"

definition write_collision :: "byteorder \<Rightarrow> wmo_group \<Rightarrow> (u32 \<times> bytes) result" where
  "write_collision B g =
     bind_result (collision_mesh g) (\<lambda>(n_col, indices, coords).
     let n_col_triangles = word_of_nat n_col; n_col_vertices = word_of_nat (length coords div 3) in
     bind_result (mul_u32 2 n_col_triangles) (\<lambda>twice.
     bind_result (mul_u32 twice 3) (\<lambda>bytes.
     bind_result (add_u32 4 bytes) (\<lambda>isize.
     bind_result (mul_u32 n_col_triangles 3) (\<lambda>n_indexes.
     bind_result (chunk_size n_col_vertices 12) (\<lambda>vsize.
     Inr (n_col_triangles, mesh_chunks B isize n_indexes indices vsize n_col_vertices coords)))))))"

section \<open>Liquid\<close>

text \<open>The liquid the header and the first used tile name; none is zero.\<close>

definition header_liquid :: "wmo_root \<Rightarrow> u16 \<Rightarrow> bytes \<Rightarrow> u32" where
  "header_liquid r liquid_type liquid_bytes =
     (let entry = (if wr_flags r AND 4 \<noteq> 0 then scast liquid_type
                   else if liquid_type = 15 \<or> sint liquid_type < 0 then 0
                   else scast liquid_type + 1) in
      if entry = 0 then
        (case filter (\<lambda>b. b AND 0xF \<noteq> 15) liquid_bytes of [] \<Rightarrow> 0 | b # _ \<Rightarrow> ucast (b AND 0xF) + 1)
      else entry)"

definition liquid_entry :: "wmo_root \<Rightarrow> wmo_group \<Rightarrow> string \<Rightarrow> u16 \<Rightarrow> u32" where
  "liquid_entry r g filename liquid_type =
     (let entry = header_liquid r liquid_type (wg_liquid_bytes g); kind = (entry - 1) AND 3 in
      if entry = 0 \<or> entry \<ge> 21 then entry
      else if kind = 0 then
        (if wg_mogp_flags g AND 0x80000 \<noteq> 0 then 2 else if contains ''Coilfang_Raid'' filename then 41 else 1)
      else if kind = 1 then 2
      else if kind = 2 then 3
      else if contains ''Stratholme_raid'' filename then 21 else 4)"

text \<open>The size counts eight bytes for a vertex, of which four are written.\<close>

definition write_liquid :: "byteorder \<Rightarrow> wmo_root \<Rightarrow> wmo_group \<Rightarrow> string \<Rightarrow> bytes" where
  "write_liquid B r g filename =
     (case (wg_liquid_verts g, wg_liquid_header g) of
        ([], _) \<Rightarrow> []
      | (_, None) \<Rightarrow> []
      | (verts, Some h) \<Rightarrow>
          as_bytes ''LIQU'' @ enc_u32 B (word_of_nat (32 + length verts * 8 + length (wg_liquid_bytes g))) @
          enc_u32 B (lh_xverts h) @ enc_u32 B (lh_yverts h) @ enc_u32 B (lh_xtiles h) @ enc_u32 B (lh_ytiles h) @
          write_vec3 B (lh_pos h) @ enc_u16 B (ucast (liquid_entry r g filename (lh_liquid_type h))) @ enc_u16 B 0 @
          concat (map (enc_u32 B) verts) @ wg_liquid_bytes g)"

section \<open>A group\<close>

text \<open>The ninth number of every batch.\<close>

definition moba_ex :: "u16 list \<Rightarrow> u32 list" where
  "moba_ex moba = map (\<lambda>i. ucast (moba ! i)) (filter (\<lambda>i. i mod 12 = 8) [0..<length moba])"

definition write_group :: "byteorder \<Rightarrow> bool \<Rightarrow> wmo_root \<Rightarrow> wmo_group \<Rightarrow> string \<Rightarrow> (u32 \<times> bytes) result" where
  "write_group B precise r g filename =
     (let moba_batch = length (wg_moba g) div 12 in
      bind_result (if precise then write_precise B g else write_collision B g) (\<lambda>(n_col_triangles, mesh).
      Inr (n_col_triangles,
        enc_u32 B (wg_mogp_flags g) @ enc_u32 B (wg_group_wmo_id g) @ write_vec3 B (wg_bbcorn1 g) @
        write_vec3 B (wg_bbcorn2 g) @ enc_u32 B (wg_liquflags g) @
        as_bytes ''GRP '' @ enc_u32 B (word_of_nat (moba_batch * 4 + 4)) @ enc_u32 B (word_of_nat moba_batch) @
        concat (map (enc_u32 B) (moba_ex (wg_moba g))) @ mesh @ write_liquid B r g filename)))"

section \<open>A building\<close>

definition write_header :: "byteorder \<Rightarrow> u32 \<Rightarrow> u32 \<Rightarrow> u32 \<Rightarrow> bytes" where
  "write_header B n_triangles n_groups root_wmo_id =
     RAW_MAGIC @ enc_u32 B n_triangles @ enc_u32 B n_groups @ enc_u32 B root_wmo_id"

text \<open>Group files have a name that ends in an underscore and three digits.\<close>

definition is_group_name :: "string \<Rightarrow> bool" where
  "is_group_name name =
     (case rfind ''_'' name of
        None \<Rightarrow> False
      | Some pos \<Rightarrow>
          let t = take 3 (drop (pos + 1) name) in length t = 3 \<and> list_all (\<lambda>c. digit_val c \<noteq> None) t)"

definition group_file_name :: "string \<Rightarrow> nat \<Rightarrow> string result" where
  "group_file_name fname idx =
     bind_result (str_slice 0 (length fname - 4) fname) (\<lambda>stem. Inr (stem @ ''_'' @ fmt0 3 (word_of_nat idx) @ ''.wmo''))"

definition add_reference :: "wmo_root \<Rightarrow> u16 \<Rightarrow> wmo_doodad_data \<Rightarrow> wmo_doodad_data" where
  "add_reference r reference d =
     (case nth_opt (dd_spawns d) (unat reference) of
        None \<Rightarrow> d
      | Some spawn \<Rightarrow>
          if sp_name_index spawn \<in> set (wr_valid_doodad_names r)
          then d\<lparr>dd_references := hs_insert reference (dd_references d)\<rparr> else d)"

record building =
  bl_triangles :: u32
  bl_groups :: u32
  bl_doodads :: wmo_doodad_data
  bl_bytes :: bytes

definition saturating_add :: "u32 \<Rightarrow> u32 \<Rightarrow> u32" where
  "saturating_add a b = (if unat a + unat b < 2 ^ 32 then a + b else - 1)"

definition saturating_pred :: "u32 \<Rightarrow> u32" where
  "saturating_pred a = (if a = 0 then 0 else a - 1)"

definition add_wmo_group :: "vmap_env \<Rightarrow> vmap_context \<Rightarrow> wmo_root \<Rightarrow> string \<Rightarrow> nat \<Rightarrow> building \<Rightarrow> building result" where
  "add_wmo_group E c r fname idx b =
     (if length fname < 4 then Inr b
      else
        bind_result (group_file_name fname idx) (\<lambda>group_name.
        bind_result (wmo_group_open group_name c) (\<lambda>opened. case opened of
          None \<Rightarrow> Inr (b\<lparr>bl_groups := saturating_pred (bl_groups b)\<rparr>)
        | Some g \<Rightarrow>
            if should_skip g r then Inr (b\<lparr>bl_groups := saturating_pred (bl_groups b)\<rparr>)
            else
              bind_result (write_group (en_order E) (vc_precise c) r g group_name) (\<lambda>(n, bytes).
              Inr (b\<lparr>bl_triangles := saturating_add (bl_triangles b) n, bl_bytes := bl_bytes b @ bytes,
                     bl_doodads := fold (add_reference r) (wg_doodad_refs g) (bl_doodads b)\<rparr>)))))"

definition extract_single_wmo :: "vmap_env \<Rightarrow> string \<Rightarrow> bool vx" where
  "extract_single_wmo E fname c =
     (let fixed = normalize_filename (get_plain_name fname) in
      if out_exists c fixed \<or> is_group_name fixed then Inr (True, c)
      else
        bind_vx (wmo_root_open E fname) (\<lambda>opened. case opened of
          None \<Rightarrow> ret_vx True
        | Some r \<Rightarrow>
            bind_vx (create_file E fixed (write_header (en_order E) 0 (wr_n_groups r) (wr_root_wmo_id r))) (\<lambda>_ c.
            bind_result (for_each (add_wmo_group E c r fname) [0..<unat (wr_n_groups r)]
              \<lparr>bl_triangles = 0, bl_groups = wr_n_groups r, bl_doodads = wr_doodad_data r, bl_bytes = []\<rparr>) (\<lambda>b.
            Inr (True, c\<lparr>vc_files := (vc_files c)(fixed \<mapsto>
                write_header (en_order E) (bl_triangles b) (bl_groups b) (wr_root_wmo_id r) @ bl_bytes b),
              vc_wmo_doodads := (vc_wmo_doodads c)(fixed \<mapsto> bl_doodads b)\<rparr>)))) c)"

definition extract_wmos :: "vmap_env \<Rightarrow> unit vx" where
  "extract_wmos E c =
     for_vx (\<lambda>fname. if is_group_name (get_plain_name fname) then ret_vx ()
        else bind_vx (extract_single_wmo E fname) (\<lambda>_. ret_vx ()))
       (sort (filter (\<lambda>name. ends_with ''.wmo'' (map to_ascii_lowercase name)) (list_files (vc_mpq c)))) c"

end
