(* ===== verification/Vmap_Extract.thy ===== *)
theory Vmap_Extract
  imports Vmap_Building
begin

text \<open>
  The placements of models and the run of the collision model extractor
  (\<^verbatim>\<open>crates/extractors/src/vmap_extract.rs\<close>): every placement of a model or building on a map, and
  every doodad of a placed building, becomes a record of the file \<^verbatim>\<open>dir_bin\<close>, which the assembler
  reads.  The parsers of terrain and of tile tables belong to the crates \<^verbatim>\<open>wow_adt\<close> and
  \<^verbatim>\<open>wow_wdt\<close>: they are parameters given by what they return.
\<close>

section \<open>The directory file\<close>

definition DIR_BIN :: string where "DIR_BIN = ''dir_bin''"
definition TEMP_GAMEOBJECT_LIST :: string where "TEMP_GAMEOBJECT_LIST = ''temp_gameobject_models''"

definition file_contents :: "vmap_context \<Rightarrow> string \<Rightarrow> bytes" where
  "file_contents c name = (case vc_files c name of None \<Rightarrow> [] | Some bs \<Rightarrow> bs)"

definition append_file :: "string \<Rightarrow> bytes \<Rightarrow> unit vx" where
  "append_file name bs c = Inr ((), c\<lparr>vc_files := (vc_files c)(name \<mapsto> file_contents c name @ bs)\<rparr>)"

definition open_dir_bin :: "vmap_env \<Rightarrow> unit vx" where
  "open_dir_bin E c = (if en_can_create E DIR_BIN then append_file DIR_BIN [] c else Inl (Err ''cannot open dir_bin''))"

record instance_record =
  ir_map :: u32
  ir_tile_x :: u32
  ir_tile_y :: u32
  ir_flags :: u32
  ir_name_set :: u16
  ir_id :: u32
  ir_pos :: vec3
  ir_rot :: vec3
  ir_scale :: f32
  ir_bounds :: "aabox option"
  ir_name :: string

definition write_aabox :: "byteorder \<Rightarrow> aabox \<Rightarrow> bytes" where
  "write_aabox B b = write_vec3 B (bx_min b) @ write_vec3 B (bx_max b)"

definition instance_bytes :: "byteorder \<Rightarrow> instance_record \<Rightarrow> bytes" where
  "instance_bytes B i =
     enc_u32 B (ir_map i) @ enc_u32 B (ir_tile_x i) @ enc_u32 B (ir_tile_y i) @ enc_u32 B (ir_flags i) @
     enc_u16 B (ir_name_set i) @ enc_u32 B (ir_id i) @ write_vec3 B (ir_pos i) @ write_vec3 B (ir_rot i) @
     enc_u32 B (ir_scale i) @ (case ir_bounds i of None \<Rightarrow> [] | Some b \<Rightarrow> write_aabox B b) @
     enc_u32 B (word_of_nat (length (ir_name i))) @ as_bytes (ir_name i)"

definition write_instance :: "vmap_env \<Rightarrow> instance_record \<Rightarrow> unit vx" where
  "write_instance E i = append_file DIR_BIN (instance_bytes (en_order E) i)"

section \<open>Placements\<close>

record model_instance_data =
  mi_id :: u32
  mi_position :: vec3
  mi_rotation :: vec3
  mi_scale :: u16

record wmo_instance_data =
  wi_unique_id :: u32
  wi_position :: vec3
  wi_rotation :: vec3
  wi_bounds :: aabox
  wi_flags :: u16
  wi_doodad_set :: u16
  wi_name_set :: u16

definition is_world_tile :: "u32 \<Rightarrow> u32 \<Rightarrow> bool" where
  "is_world_tile tile_x tile_y \<longleftrightarrow> tile_x = 65 \<and> tile_y = 65"

definition spawn_flags :: "u32 \<Rightarrow> u32 \<Rightarrow> u32 \<Rightarrow> u32" where
  "spawn_flags flags tile_x tile_y = (if is_world_tile tile_x tile_y then flags OR MOD_WORLDSPAWN else flags)"

definition write_model_instance ::
    "vmap_env \<Rightarrow> u32 \<Rightarrow> u32 \<Rightarrow> u32 \<Rightarrow> string \<Rightarrow> model_instance_data \<Rightarrow> unit vx" where
  "write_model_instance E map_id tile_x tile_y name inst c =
     (if \<not> out_exists c name then Inr ((), c)
      else
        bind_result (read_model_vertex_count E name c) (\<lambda>n_vertices.
        if n_vertices = 0 then Inr ((), c)
        else
          bind_vx (generate (mi_id inst) 0) (\<lambda>unique_id.
          write_instance E
            \<lparr>ir_map = map_id, ir_tile_x = tile_x, ir_tile_y = tile_y, ir_flags = spawn_flags MOD_M2 tile_x tile_y,
             ir_name_set = 0, ir_id = unique_id, ir_pos = fix_coords (mi_position inst), ir_rot = mi_rotation inst,
             ir_scale = f32_div (f32_of_nat (unat (mi_scale inst))) 0x44800000, ir_bounds = None, ir_name = name\<rparr>) c))"

text \<open>A building at the origin is in the middle of the map.\<close>

definition wmo_position :: "vec3 \<Rightarrow> vec3" where
  "wmo_position p =
     (if f32_eq (vx p) 0 \<and> f32_eq (vz p) 0
      then let m = f32_mul 0x44055555 0x42000000 in p\<lparr>vx := m, vz := m\<rparr> else p)"

definition write_wmo_instance ::
    "vmap_env \<Rightarrow> u32 \<Rightarrow> u32 \<Rightarrow> u32 \<Rightarrow> string \<Rightarrow> wmo_instance_data \<Rightarrow> unit vx" where
  "write_wmo_instance E map_id tile_x tile_y name inst c =
     (if wi_flags inst AND 1 \<noteq> 0 \<or> \<not> out_exists c name then Inr ((), c)
      else
        bind_result (read_model_vertex_count E name c) (\<lambda>n_vertices.
        if n_vertices = 0 then Inr ((), c)
        else
          bind_vx (generate (wi_unique_id inst) 0) (\<lambda>unique_id.
          write_instance E
            \<lparr>ir_map = map_id, ir_tile_x = tile_x, ir_tile_y = tile_y, ir_flags = spawn_flags MOD_HAS_BOUND tile_x tile_y,
             ir_name_set = wi_name_set inst, ir_id = unique_id, ir_pos = fix_coords (wmo_position (wi_position inst)),
             ir_rot = wi_rotation inst, ir_scale = f32_one,
             ir_bounds = Some \<lparr>bx_min = fix_coords (bx_min (wi_bounds inst)), bx_max = fix_coords (bx_max (wi_bounds inst))\<rparr>,
             ir_name = name\<rparr>) c))"

section \<open>Doodads\<close>

text \<open>The name under which the model of a doodad is looked for.\<close>

definition doodad_model_name :: "string \<Rightarrow> string result" where
  "doodad_model_name path =
     (let model_name = lossy (fixname2 (fixnamen (get_plain_name path))); n = length model_name in
      if n > 3 then
        bind_result (str_slice (n - 4) n model_name) (\<lambda>ext.
        Inr (if eq_ignore_ascii_case ext ''.mdx'' \<or> eq_ignore_ascii_case ext ''.mdl''
             then take (n - 2) model_name @ ''2'' else model_name))
      else Inr model_name)"

definition in_doodad_set :: "wmo_doodad_set \<Rightarrow> u16 \<Rightarrow> bool result" where
  "in_doodad_set s reference =
     (let ref_idx = ucast reference in
      if ref_idx < ds_start_index s then Inr False
      else bind_result (add_u32 (ds_start_index s) (ds_count s)) (\<lambda>e. Inr (ref_idx < e)))"

definition doodad_instance ::
    "math_lib \<Rightarrow> u32 \<Rightarrow> u32 \<Rightarrow> u32 \<Rightarrow> wmo_instance_data \<Rightarrow> wmo_doodad_spawn \<Rightarrow> string \<Rightarrow> u32 \<Rightarrow> instance_record" where
  "doodad_instance M map_id tile_x tile_y wmo spawn name unique_id =
     (let wmo_rot = matrix_from_euler_zyx (ml_sin_cos M) (deg_to_rad (vy (wi_rotation wmo)))
            (deg_to_rad (vx (wi_rotation wmo))) (deg_to_rad (vz (wi_rotation wmo)));
          position = vec3_add (fix_coords (wi_position wmo)) (mat3_mul_vec3 wmo_rot (sp_position spawn));
          (rx, ry, rz) = matrix_to_euler_xyz M (matrix_mul (quat_to_matrix (sp_rotation spawn)) wmo_rot)
      in \<lparr>ir_map = map_id, ir_tile_x = tile_x, ir_tile_y = tile_y, ir_flags = spawn_flags MOD_M2 tile_x tile_y,
          ir_name_set = 0, ir_id = unique_id, ir_pos = position,
          ir_rot = vec3_new (rad_to_deg ry) (rad_to_deg rz) (rad_to_deg rx), ir_scale = sp_scale spawn,
          ir_bounds = None, ir_name = name\<rparr>)"

text \<open>One reference; the number counts the doodads that are written.\<close>

definition doodad_step ::
    "vmap_env \<Rightarrow> u32 \<Rightarrow> u32 \<Rightarrow> u32 \<Rightarrow> wmo_doodad_data \<Rightarrow> wmo_instance_data \<Rightarrow> wmo_doodad_set \<Rightarrow> u16 \<Rightarrow>
     u16 \<times> vmap_context \<Rightarrow> (u16 \<times> vmap_context) result" where
  "doodad_step E map_id tile_x tile_y d wmo s reference st =
     (case st of (doodad_id, c) \<Rightarrow>
        bind_result (in_doodad_set s reference) (\<lambda>member.
        if \<not> member then Inr (doodad_id, c)
        else
          bind_result (vec_get (dd_spawns d) (unat reference)) (\<lambda>spawn.
          case read_cstring (dd_paths_blob d) (unat (sp_name_index spawn)) of
            None \<Rightarrow> Inr (doodad_id, c)
          | Some path \<Rightarrow>
              bind_result (doodad_model_name path) (\<lambda>name.
              if \<not> out_exists c name then Inr (doodad_id, c)
              else
                bind_result (read_model_vertex_count E name c) (\<lambda>n_vertices.
                if n_vertices = 0 then Inr (doodad_id, c)
                else
                  bind_result (generate (wi_unique_id wmo) (doodad_id + 1) c) (\<lambda>(unique_id, c).
                  bind_result (write_instance E (doodad_instance (en_math E) map_id tile_x tile_y wmo spawn name unique_id) c) (\<lambda>(_, c).
                  Inr (doodad_id + 1, c))))))))"

definition extract_doodad_set ::
    "vmap_env \<Rightarrow> u32 \<Rightarrow> u32 \<Rightarrow> u32 \<Rightarrow> wmo_doodad_data \<Rightarrow> wmo_instance_data \<Rightarrow> unit vx" where
  "extract_doodad_set E map_id tile_x tile_y d wmo c =
     (case nth_opt (dd_sets d) (unat (wi_doodad_set wmo)) of
        None \<Rightarrow> Inr ((), c)
      | Some s \<Rightarrow>
          map_sum id (\<lambda>(_, c). ((), c))
            (for_each (doodad_step E map_id tile_x tile_y d wmo s) (en_hash_order E (dd_references d)) (0, c)))"

text \<open>A building and the doodads of its set.\<close>

definition place_wmo :: "vmap_env \<Rightarrow> u32 \<Rightarrow> u32 \<Rightarrow> u32 \<Rightarrow> string list \<Rightarrow> nat \<times> wmo_instance_data \<Rightarrow> unit vx" where
  "place_wmo E map_id tile_x tile_y wmo_names p =
     (case p of (name_id, inst) \<Rightarrow> case nth_opt wmo_names name_id of
        None \<Rightarrow> ret_vx ()
      | Some name \<Rightarrow>
          bind_vx (write_wmo_instance E map_id tile_x tile_y name inst) (\<lambda>_ c.
          case vc_wmo_doodads c name of
            None \<Rightarrow> Inr ((), c)
          | Some d \<Rightarrow> extract_doodad_set E map_id tile_x tile_y d inst c))"

section \<open>Maps\<close>

text \<open>What the parsers return of a tile table and of a terrain tile; a placement comes with the
  number of its name.\<close>

record wdt_file =
  wd_has_adt :: "nat \<Rightarrow> nat \<Rightarrow> bool option"
  wd_mwmo :: "string list option"
  wd_modf :: "(nat \<times> wmo_instance_data) list option"

record adt_models =
  am_models :: "string list"
  am_wmos :: "string list"
  am_doodad_placements :: "(nat \<times> model_instance_data) list"
  am_wmo_placements :: "(nat \<times> wmo_instance_data) list"

datatype parsed_models = RootAdt adt_models | SplitAdt

datatype wow_version = TBC | WotLK

record vmap_parsers =
  vp_wdt :: "wow_version \<Rightarrow> bytes \<Rightarrow> wdt_file result"
  vp_adt :: "bytes \<Rightarrow> parsed_models result"

definition read_wdt_file :: "vmap_parsers \<Rightarrow> bytes \<Rightarrow> wdt_file result" where
  "read_wdt_file P data =
     (case vp_wdt P TBC data of
        Inr w \<Rightarrow> Inr w
      | Inl e \<Rightarrow> (case vp_wdt P WotLK data of Inr w \<Rightarrow> Inr w | Inl e' \<Rightarrow> vp_wdt P TBC data))"

definition is_missing_mver :: "rust_error \<Rightarrow> bool" where
  "is_missing_mver e = (case e of Err message \<Rightarrow> contains ''Missing required chunk: MVER'' message | Panic _ \<Rightarrow> False)"

definition parse_wdt_global_wmo :: "vmap_env \<Rightarrow> u32 \<Rightarrow> wdt_file \<Rightarrow> unit vx" where
  "parse_wdt_global_wmo E map_id w =
     (let wmo_names = map normalize_filename (case wd_mwmo w of None \<Rightarrow> [] | Some names \<Rightarrow> names) in
      case wd_modf w of
        None \<Rightarrow> ret_vx ()
      | Some entries \<Rightarrow> bind_vx (open_dir_bin E) (\<lambda>_. for_vx (place_wmo E map_id 65 65 wmo_names) entries))"

primrec extract_models :: "vmap_env \<Rightarrow> string list \<Rightarrow> string list vx" where
  "extract_models E [] = ret_vx []"
| "extract_models E (model # models) =
     (let fixed_path = lossy (fixnamen model) in
      bind_vx (extract_single_model E fixed_path) (\<lambda>name.
      bind_vx (extract_models E models) (\<lambda>names.
      ret_vx ((case name of Some n \<Rightarrow> n | None \<Rightarrow> normalize_filename fixed_path) # names))))"

definition place_model :: "vmap_env \<Rightarrow> u32 \<Rightarrow> u32 \<Rightarrow> u32 \<Rightarrow> string list \<Rightarrow> nat \<times> model_instance_data \<Rightarrow> unit vx" where
  "place_model E map_id tile_x tile_y model_names p =
     (case p of (name_id, inst) \<Rightarrow> case nth_opt model_names name_id of
        None \<Rightarrow> ret_vx ()
      | Some name \<Rightarrow> write_model_instance E map_id tile_x tile_y name (inst\<lparr>mi_id := word_of_nat name_id\<rparr>))"

definition parse_adt_tile :: "vmap_env \<Rightarrow> u32 \<Rightarrow> u32 \<Rightarrow> u32 \<Rightarrow> parsed_models \<Rightarrow> unit vx" where
  "parse_adt_tile E map_id tile_x tile_y parsed =
     (case parsed of
        SplitAdt \<Rightarrow> ret_vx ()
      | RootAdt root \<Rightarrow>
          bind_vx (extract_models E (am_models root)) (\<lambda>model_names.
          bind_vx (open_dir_bin E) (\<lambda>_.
          bind_vx (for_vx (place_model E map_id tile_x tile_y model_names) (am_doodad_placements root)) (\<lambda>_.
          for_vx (place_wmo E map_id tile_x tile_y (map normalize_filename (am_wmos root))) (am_wmo_placements root)))))"

definition adt_file_name :: "string \<Rightarrow> nat \<Rightarrow> nat \<Rightarrow> string" where
  "adt_file_name name x y = world_file name (name @ ''_'' @ dec_str x @ ''_'' @ dec_str y @ ''.adt'')"

text \<open>A tile is read when the table says so or, without a table, when its file exists.  The error of
  a missing version chunk comes from the parser, before the tile has any effect.\<close>

definition parse_tile_at :: "vmap_env \<Rightarrow> vmap_parsers \<Rightarrow> map_entry \<Rightarrow> wdt_file option \<Rightarrow> nat \<times> nat \<Rightarrow> unit vx" where
  "parse_tile_at E P m wdt xy c =
     (case xy of (x, y) \<Rightarrow>
        case open_file (vc_mpq c) (adt_file_name (me_name m) x y) of
          None \<Rightarrow> Inr ((), c)
        | Some adt_bytes \<Rightarrow>
            if (case wdt of Some w \<Rightarrow> wd_has_adt w x y \<noteq> Some True | None \<Rightarrow> False) then Inr ((), c)
            else
              case vp_adt P adt_bytes of
                Inl e \<Rightarrow> if is_missing_mver e then Inr ((), c) else Inl e
              | Inr parsed \<Rightarrow> parse_adt_tile E (me_id m) (word_of_nat x) (word_of_nat y) parsed c)"

definition parse_map :: "vmap_env \<Rightarrow> vmap_parsers \<Rightarrow> map_entry \<Rightarrow> unit vx" where
  "parse_map E P m c =
     (let wdt = (case open_file (vc_mpq c) (world_file (me_name m) (me_name m @ ''.wdt'')) of
            None \<Rightarrow> None
          | Some wdt_bytes \<Rightarrow> (case read_wdt_file P wdt_bytes of Inr w \<Rightarrow> Some w | Inl _ \<Rightarrow> None)) in
      bind_vx (case wdt of None \<Rightarrow> ret_vx () | Some w \<Rightarrow> parse_wdt_global_wmo E (me_id m) w) (\<lambda>_.
      for_vx (parse_tile_at E P m wdt) (pairs 64 64)) c)"

definition parse_maps :: "vmap_env \<Rightarrow> vmap_parsers \<Rightarrow> map_entry list \<Rightarrow> unit vx" where
  "parse_maps E P maps = for_vx (parse_map E P) maps"

section \<open>Game objects\<close>

text \<open>The name of the extracted model, if there is one.\<close>

definition gameobject_model :: "vmap_env \<Rightarrow> string \<Rightarrow> string option vx" where
  "gameobject_model E path =
     (let fixed_path = lossy (fixnamen path); name = lossy (fixname2 (get_plain_name fixed_path));
          ext = (case get_extension name of Some e \<Rightarrow> e | None \<Rightarrow> []) in
      if eq_ignore_ascii_case ext ''wmo'' then
        bind_vx (extract_single_wmo E fixed_path) (\<lambda>result. ret_vx (if result then Some name else None))
      else if eq_ignore_ascii_case ext ''mdl'' then ret_vx None
      else extract_single_model E fixed_path)"

definition gameobject_step :: "vmap_env \<Rightarrow> dbc_file \<Rightarrow> nat \<Rightarrow> unit vx" where
  "gameobject_step E dbc idx c =
     bind_result (get_string (row dbc idx) 1) (\<lambda>path.
     let path = unwrap_or [] path in
     if length path < 4 then Inr ((), c)
     else
       bind_vx (gameobject_model E path) (\<lambda>name c. case name of
         None \<Rightarrow> Inr ((), c)
       | Some name \<Rightarrow>
           bind_result (get_u32 (row dbc idx) 0) (\<lambda>display_id.
           append_file TEMP_GAMEOBJECT_LIST
             (enc_u32 (en_order E) (unwrap_or 0 display_id) @ enc_u32 (en_order E) (word_of_nat (length name)) @ as_bytes name) c)) c)"

definition extract_gameobject_models :: "vmap_env \<Rightarrow> unit vx" where
  "extract_gameobject_models E c =
     bind_result (load_table (vc_mpq c) ''GameObjectDisplayInfo.dbc'') (\<lambda>dbc.
     bind_vx (create_file E TEMP_GAMEOBJECT_LIST []) (\<lambda>_.
     for_vx (gameobject_step E dbc) [0..<unat (dbc_record_count dbc)]) c)"

section \<open>The whole run\<close>

record vmap_extract_args =
  va_data_path :: path
  va_large :: bool
  va_small :: bool

text \<open>The data directory, and the output directory as it is before the run.\<close>

record vmap_dirs =
  vd_data_exists :: bool
  vd_is_dir :: "string \<Rightarrow> bool"
  vd_exists :: "string \<Rightarrow> bool"
  vd_output :: "string \<rightharpoonup> bytes"

definition run_vmap_extract ::
    "vmap_env \<Rightarrow> vmap_parsers \<Rightarrow> archives_on_disk \<Rightarrow> vmap_dirs \<Rightarrow> vmap_extract_args \<Rightarrow> vmap_context result" where
  "run_vmap_extract E P disk D args =
     (if \<not> vd_data_exists D then Inl (Err ''Data path does not exist'')
      else if vd_output D ''dir'' \<noteq> None \<or> vd_output D DIR_BIN \<noteq> None then
        Inl (Err ''Your output directory seems to be polluted, please use an empty directory!'')
      else
        bind_result (open_archives disk
          (map (\<lambda>a. build_path (va_data_path args) [a]) (build_archive_list (vd_is_dir D) (vd_exists D))) mpq_new) (\<lambda>mpq.
        if list_files mpq = [] then Inl (Err ''FATAL ERROR: None MPQ archive found'')
        else
          map_sum id snd
            (bind_vx (extract_wmos E) (\<lambda>_ c.
             bind_result (read_map_dbc mpq) (\<lambda>maps.
             bind_vx (parse_maps E P maps) (\<lambda>_. extract_gameobject_models E) c))
             \<lparr>vc_mpq = mpq, vc_all_files = list_files mpq, vc_precise = va_large args \<and> \<not> va_small args,
              vc_files = vd_output D, vc_unique_ids = [], vc_wmo_doodads = Map.empty, vc_failed_paths = []\<rparr>)))"

end
