(* ===== verification/Vmap_Model_Correct.thy ===== *)
theory Vmap_Model_Correct
  imports Vmap_Extract Vmap_Correct
begin

text \<open>
  The extractor and the assembler of collision models agree on the format of a model: what
  the one writes the other reads, with the vertices of the client's file.
\<close>

section \<open>Floats and bytes\<close>

lemma f32_neg_neg [simp]: "f32_neg (f32_neg x) = x"
  by (simp add: f32_neg_def)

text \<open>A reader of fixed size turns bytes into the items they encode.\<close>

lemma repeat_rd_decode:
  assumes "\<And>b r. length b = k \<Longrightarrow> \<exists>x. m (b @ r) = Inr (x, r) \<and> enc x = b" "length bs = n * k"
  shows "\<exists>xs. repeat_rd n m bs = Inr (xs, []) \<and> length xs = n \<and> concat (map enc xs) = bs"
  using assms(2)
proof (induction n arbitrary: bs)
  case (Suc n)
  obtain xs where xs: "repeat_rd n m (drop k bs) = Inr (xs, [])" "length xs = n" "concat (map enc xs) = drop k bs"
    using Suc.IH [of "drop k bs"] Suc.prems by auto
  obtain x where "m bs = Inr (x, drop k bs)" "enc x = take k bs"
    using assms(1) [of "take k bs" "drop k bs"] Suc.prems by auto
  then show ?case using xs by (intro exI [of _ "x # xs"]) simp
qed simp

lemma to_le_bytes_0: "to_le_bytes (0 :: u32) = replicate 4 0"
  by (rule le_val_inj) (simp_all add: to_le_bytes_def le_val_le_bytes del: replicate.simps)

section \<open>What the assembler reads\<close>

context little_endian
begin

lemma decode_u16: "length b = 2 \<Longrightarrow> \<exists>x. rd_u16 B (b @ r) = Inr (x, r) \<and> enc_u16 B x = b"
  by (simp add: rd_u16_def enc16 dec16 to_from_le_bytes)

lemma decode_u32: "length b = 4 \<Longrightarrow> \<exists>x. rd_u32 B (b @ r) = Inr (x, r) \<and> enc_u32 B x = b"
  by (simp add: rd_u32_def enc32 dec32 to_from_le_bytes)

lemma decode_vec3:
  assumes "length b = 12"
  shows "\<exists>v. read_vec3 B (b @ r) = Inr (v, r) \<and> write_vec3 B v = b"
proof -
  obtain x y z where "b = x @ y @ z" "length x = 4" "length y = 4" "length z = 4"
    using assms by (intro that [of "take 4 b" "take 4 (drop 4 b)" "drop 8 b"]) (simp_all flip: append_assoc take_add)
  then obtain x' y' z' where "b = enc_u32 B x' @ enc_u32 B y' @ enc_u32 B z'"
    using decode_u32 [of x] decode_u32 [of y] decode_u32 [of z] by metis
  then have "b = write_vec3 B (vec3_new x' y' z')" by (simp add: write_vec3_def vec3_new_def)
  then show ?thesis by auto
qed

lemma zero_word: "replicate 4 0 = enc_u32 B 0"
  by (simp only: enc32 to_le_bytes_0)

lemma zero_vec3: "replicate 12 0 = write_vec3 B vec3_default"
proof -
  have "write_vec3 B vec3_default = replicate 4 0 @ replicate 4 0 @ replicate 4 0"
    by (simp only: zero_word write_vec3_def vec3_default_def vec3_new_def vec3.select_convs)
  then show ?thesis by (simp only: replicate_add [symmetric]) simp
qed

lemma read_chunk_tag [simp]: "length tag = 4 \<Longrightarrow> read_chunk tag (tag @ r) = Inr ((), r)"
  by (simp add: read_chunk_def)

text \<open>A group without liquid.\<close>

lemma read_dry_group:
  assumes "length branches = unat nb" "length indices = unat ni" "length vertices = unat nv" "lq AND 1 = 0"
  shows "read_raw_group B
    (enc_u32 B flags @ enc_u32 B wid @ write_vec3 B lo @ write_vec3 B hi @ enc_u32 B lq @
     as_bytes ''GRP '' @ enc_u32 B s1 @ enc_u32 B nb @ concat (map (enc_u32 B) branches) @
     as_bytes ''INDX'' @ enc_u32 B s2 @ enc_u32 B ni @ concat (map (enc_u16 B) indices) @
     as_bytes ''VERT'' @ enc_u32 B s3 @ enc_u32 B nv @ concat (map (write_vec3 B) vertices) @ r) =
   Inr (\<lparr>rg_mogp_flags = flags, rg_group_wmo_id = wid, rg_bounds = \<lparr>bx_min = lo, bx_max = hi\<rparr>, rg_liquid_flags = lq,
     rg_triangles = triangles_of (map ucast indices), rg_vertices = vertices, rg_liquid = None\<rparr>, r)"
proof -
  have b: "repeat_rd (unat nb) (rd_u32 B) (concat (map (enc_u32 B) branches) @ r') = Inr (branches, r')" for r'
    using repeat_rd_enc [of branches "rd_u32 B" "enc_u32 B" r'] assms(1) by simp
  have i: "repeat_rd (unat ni) (rd_u16 B) (concat (map (enc_u16 B) indices) @ r') = Inr (indices, r')" for r'
    using repeat_rd_enc [of indices "rd_u16 B" "enc_u16 B" r'] assms(2) by simp
  have v: "repeat_rd (unat nv) (read_vec3 B) (concat (map (write_vec3 B) vertices) @ r') = Inr (vertices, r')" for r'
    using repeat_rd_enc [of vertices "read_vec3 B" "write_vec3 B" r'] assms(3) by simp
  have tags: "length (as_bytes ''GRP '') = 4" "length (as_bytes ''INDX'') = 4" "length (as_bytes ''VERT'') = 4" by simp_all
  show ?thesis unfolding read_raw_group_def using assms(4) by (simp add: b i v tags del: as_bytes_simps)
qed

text \<open>A file of the extractor has the longer of the two headers.\<close>

lemma parse_extracted:
  assumes "repeat_rd (unat n) (read_raw_group B) body = Inr (groups, r)"
  shows "parse_raw_model B (RAW_MAGIC @ enc_u32 B t @ enc_u32 B n @ enc_u32 B wid @ body) =
    Inr \<lparr>rm_root_wmo_id = wid, rm_groups = groups\<rparr>"
proof -
  have magic: "take 7 RAW_MAGIC = as_bytes RAW_VMAP_MAGIC" "length RAW_MAGIC = 8" "RAW_MAGIC ! 7 = 0"
    by (simp_all add: RAW_MAGIC_def RAW_VMAP_MAGIC_def nth_append)
  have "parse_raw_model_with_header B (RAW_MAGIC @ enc_u32 B t @ enc_u32 B n @ enc_u32 B wid @ body) 8 =
      Inr \<lparr>rm_root_wmo_id = wid, rm_groups = groups\<rparr>"
    using assms magic by (simp add: parse_raw_model_with_header_def)
  then show ?thesis using magic by (simp add: parse_raw_model_def nth_append)
qed

end

section \<open>Models\<close>

lemma swap_corners_length [simp]: "length (swap_corners is) = length is"
  by (induction "is" rule: swap_corners.induct) simp_all

text \<open>The triangles of a list of indices, with the last two corners exchanged.\<close>

fun flipped_triangles :: "u16 list \<Rightarrow> mesh_triangle list" where
  "flipped_triangles (a # b # c # is) = \<lparr>idx0 = ucast a, idx1 = ucast c, idx2 = ucast b\<rparr> # flipped_triangles is"
| "flipped_triangles is = []"

lemma triangles_swapped: "triangles_of (map ucast (swap_corners is)) = flipped_triangles is"
  by (induction "is" rule: swap_corners.induct) simp_all

definition client_vertices :: "bytes \<Rightarrow> model_header_info \<Rightarrow> bytes" where
  "client_vertices data h = take (unat (mh_n_bounding_vertices h) * 12) (drop (unat (mh_ofs_bounding_vertices h)) data)"

definition client_indices :: "bytes \<Rightarrow> model_header_info \<Rightarrow> bytes" where
  "client_indices data h = take (unat (mh_n_bounding_triangles h) * 2) (drop (unat (mh_ofs_bounding_triangles h)) data)"

lemma convert_model_Some:
  assumes "convert_model B data = Inr (Some bytes)" "parse_model_header data = Inr h"
  shows "\<exists>vs is. read_vertices B (unat (mh_n_bounding_vertices h)) (client_vertices data h) = Inr vs \<and>
    read_indices B (unat (mh_n_bounding_triangles h)) (client_indices data h) = Inr is \<and>
    length (client_vertices data h) = unat (mh_n_bounding_vertices h) * 12 \<and>
    length (client_indices data h) = unat (mh_n_bounding_triangles h) * 2 \<and>
    model_bytes B (mh_n_bounding_triangles h) (mh_n_bounding_vertices h) is vs = Inr bytes"
  using assms by (auto simp: convert_model_def get_slice_def client_vertices_def client_indices_def split: if_splits)

lemma model_bytes_Inr:
  assumes "model_bytes B ni nv is vs = Inr bytes"
  obtains isize vsize where "bytes = RAW_MAGIC @ enc_u32 B nv @ enc_u32 B 1 @ replicate 12 0 @ replicate 24 0 @ replicate 4 0 @
          as_bytes ''GRP '' @ enc_u32 B (4 + 4 * 1) @ enc_u32 B 1 @ enc_u32 B ni @
          as_bytes ''INDX'' @ enc_u32 B isize @ enc_u32 B ni @ concat (map (enc_u16 B) (swap_corners is)) @
          as_bytes ''VERT'' @ enc_u32 B vsize @ enc_u32 B nv @
          concat (map (\<lambda>v. enc_u32 B (vx v) @ enc_u32 B (f32_neg (vz v)) @ enc_u32 B (vy v)) vs)"
  using assms unfolding model_bytes_def by (auto simp del: as_bytes_simps replicate.simps append_assoc)

lemma fix_coords_undone:
  "enc_u32 B (vx (fix_coord_system v)) @ enc_u32 B (f32_neg (vz (fix_coord_system v))) @ enc_u32 B (vy (fix_coord_system v)) =
   write_vec3 B v"
  by (simp add: fix_coord_system_def vec3_new_def write_vec3_def)

context little_endian
begin

text \<open>The zeros of the file are the words the assembler reads there.\<close>

lemma zero_header:
  "replicate 12 0 @ replicate 24 0 @ replicate 4 0 @ r =
   enc_u32 B 0 @ enc_u32 B 0 @ enc_u32 B 0 @ write_vec3 B vec3_default @ write_vec3 B vec3_default @ enc_u32 B 0 @ r"
  by (simp only: zero_word [symmetric] zero_vec3 [symmetric] append_assoc [symmetric] replicate_add [symmetric]) simp

lemma parse_model_bytes:
  assumes "model_bytes B ni nv is (map fix_coord_system vs) = Inr bytes" "length is = unat ni" "length vs = unat nv"
  shows "parse_raw_model B bytes = Inr \<lparr>rm_root_wmo_id = 0, rm_groups =
        [\<lparr>rg_mogp_flags = 0, rg_group_wmo_id = 0, rg_bounds = aabox_default, rg_liquid_flags = 0,
          rg_triangles = flipped_triangles is, rg_vertices = vs, rg_liquid = None\<rparr>]\<rparr>"
proof -
  obtain isize vsize where bytes: "bytes = RAW_MAGIC @ enc_u32 B nv @ enc_u32 B 1 @ enc_u32 B 0 @
      (enc_u32 B 0 @ enc_u32 B 0 @ write_vec3 B vec3_default @ write_vec3 B vec3_default @ enc_u32 B 0 @
       as_bytes ''GRP '' @ enc_u32 B (4 + 4 * 1) @ enc_u32 B 1 @ concat (map (enc_u32 B) [ni]) @
       as_bytes ''INDX'' @ enc_u32 B isize @ enc_u32 B ni @ concat (map (enc_u16 B) (swap_corners is)) @
       as_bytes ''VERT'' @ enc_u32 B vsize @ enc_u32 B nv @ concat (map (write_vec3 B) vs) @ [])"
    (is "_ = _ @ _ @ _ @ _ @ ?group")
    by (rule model_bytes_Inr [OF assms(1)], simp only: zero_header map_map comp_def fix_coords_undone) simp
  have one: "unat (1 :: u32) = Suc 0" by simp
  show ?thesis unfolding bytes
  proof (rule parse_extracted)
    show "repeat_rd (unat (1 :: u32)) (read_raw_group B) ?group = Inr ([\<lparr>rg_mogp_flags = 0, rg_group_wmo_id = 0,
        rg_bounds = aabox_default, rg_liquid_flags = 0, rg_triangles = flipped_triangles is, rg_vertices = vs,
        rg_liquid = None\<rparr>], [])"
      unfolding one repeat_rd.simps
      by (subst reader_simps(4) [where m = "read_raw_group B"], rule read_dry_group)
        (simp_all add: assms(2,3) triangles_swapped aabox_default_def del: as_bytes_simps)
  qed
qed

end

text \<open>C26: a model is not changed on its way from the client's file through the extractor to the
  assembler.  The assembler reads the file the extractor writes; it finds one group, the collision
  vertices of the client's file bit for bit (the two changes of coordinates cancel), and its
  triangles with the last two corners exchanged.\<close>

theorem model_reaches_assembler:
  assumes "little_endian B" "parse_model_header data = Inr h" "convert_model B data = Inr (Some bytes)"
  shows "\<exists>is vs. concat (map (enc_u16 B) is) = client_indices data h \<and>
      concat (map (write_vec3 B) vs) = client_vertices data h \<and>
      parse_raw_model B bytes = Inr \<lparr>rm_root_wmo_id = 0, rm_groups =
        [\<lparr>rg_mogp_flags = 0, rg_group_wmo_id = 0, rg_bounds = aabox_default, rg_liquid_flags = 0,
          rg_triangles = flipped_triangles is, rg_vertices = vs, rg_liquid = None\<rparr>]\<rparr>"
proof -
  obtain vs' is' where c: "read_vertices B (unat (mh_n_bounding_vertices h)) (client_vertices data h) = Inr vs'"
    "read_indices B (unat (mh_n_bounding_triangles h)) (client_indices data h) = Inr is'"
    "length (client_vertices data h) = unat (mh_n_bounding_vertices h) * 12"
    "length (client_indices data h) = unat (mh_n_bounding_triangles h) * 2"
    "model_bytes B (mh_n_bounding_triangles h) (mh_n_bounding_vertices h) is' vs' = Inr bytes"
    using convert_model_Some [OF assms(3,2)] by blast
  obtain vs where vs: "repeat_rd (unat (mh_n_bounding_vertices h)) (read_vec3 B) (client_vertices data h) = Inr (vs, [])"
    "length vs = unat (mh_n_bounding_vertices h)" "concat (map (write_vec3 B) vs) = client_vertices data h"
    using repeat_rd_decode [OF little_endian.decode_vec3 [OF assms(1)] c(3)] by blast
  obtain "is" where "is": "repeat_rd (unat (mh_n_bounding_triangles h)) (rd_u16 B) (client_indices data h) = Inr (is, [])"
    "length is = unat (mh_n_bounding_triangles h)" "concat (map (enc_u16 B) is) = client_indices data h"
    using repeat_rd_decode [OF little_endian.decode_u16 [OF assms(1)] c(4)] by blast
  have same: "vs' = map fix_coord_system vs" "is' = is" using c(1,2) vs(1) "is"(1) by (simp_all add: read_vertices_def read_indices_def)
  show ?thesis using little_endian.parse_model_bytes [OF assms(1) c(5) [unfolded same] "is"(2) vs(2)] vs(3) "is"(3) by blast
qed

text \<open>A model with one triangle.\<close>

definition sample_header :: model_header_info where
  "sample_header = \<lparr>mh_n_bounding_triangles = 3, mh_ofs_bounding_triangles = 288,
     mh_n_bounding_vertices = 3, mh_ofs_bounding_vertices = 252\<rparr>"

definition sample_model :: bytes where
  "sample_model = concat (replicate 59 (replicate 4 0)) @ concat (map to_le_bytes [3, 288, 3, 252 :: u32]) @
     concat (map to_le_bytes [0, 0, 0, 0x3F800000, 0, 0, 0, 0xBF800000, 0 :: u32]) @
     concat (map to_le_bytes [0, 1, 2 :: u16])"

lemma std_u32_enc: "std_u32 (to_le_bytes v @ r) = Inr (v, r)"
  by (simp add: std_u32_def)

lemma sample_header_read: "parse_model_header sample_model = Inr sample_header"
proof -
  have "repeat_rd 59 (take_rd 4) (concat (replicate 59 (replicate 4 0)) @ r) = Inr (replicate 59 (replicate 4 0), r)" for r
    using std_le.repeat_rd_enc [of "replicate 59 (replicate 4 0)" "take_rd 4" id r] by simp
  then show ?thesis by (simp add: parse_model_header_def sample_model_def sample_header_def std_u32_enc)
qed

lemma sample_client_bytes:
  "length (client_vertices sample_model sample_header) = 3 * 12" "length (client_indices sample_model sample_header) = 3 * 2"
  by (simp_all add: client_vertices_def client_indices_def sample_model_def sample_header_def length_concat sum_list_replicate)

lemma sample_model_converted: "\<exists>bytes. convert_model std_byteorder sample_model = Inr (Some bytes)"
proof -
  obtain vs where "repeat_rd 3 (read_vec3 std_byteorder) (client_vertices sample_model sample_header) = Inr (vs, [])"
    using repeat_rd_decode [OF std_le.decode_vec3 sample_client_bytes(1)] by blast
  moreover obtain "is" where "repeat_rd 3 (rd_u16 std_byteorder) (client_indices sample_model sample_header) = Inr (is, [])"
    using repeat_rd_decode [OF std_le.decode_u16 sample_client_bytes(2)] by blast
  moreover have "length sample_model = 294" by (simp add: sample_model_def length_concat sum_list_replicate)
  ultimately show ?thesis
    by (simp add: convert_model_def sample_header_read sample_header_def get_slice_def read_vertices_def read_indices_def
      model_bytes_def chunk_size_def mul_u32_def add_u32_def client_vertices_def client_indices_def)
qed

theorem model_reaches_assembler_witness:
  "\<exists>is vs bytes. convert_model std_byteorder sample_model = Inr (Some bytes) \<and>
      concat (map (enc_u16 std_byteorder) is) = client_indices sample_model sample_header \<and>
      concat (map (write_vec3 std_byteorder) vs) = client_vertices sample_model sample_header \<and>
      parse_raw_model std_byteorder bytes = Inr \<lparr>rm_root_wmo_id = 0, rm_groups =
        [\<lparr>rg_mogp_flags = 0, rg_group_wmo_id = 0, rg_bounds = aabox_default, rg_liquid_flags = 0,
          rg_triangles = flipped_triangles is, rg_vertices = vs, rg_liquid = None\<rparr>]\<rparr>"
proof -
  obtain bytes where "convert_model std_byteorder sample_model = Inr (Some bytes)"
    using sample_model_converted by blast
  moreover have "little_endian std_byteorder" by unfold_locales
  ultimately show ?thesis using model_reaches_assembler [OF _ sample_header_read] by blast
qed

end
