(* ===== verification/Vmap_Placements.thy ===== *)
theory Vmap_Placements
  imports Vmap_Model_Correct
begin

text \<open>
  What the extractor leaves in the directory file.  Every step of a run only adds: it keeps
  the archives, removes no file, appends whole records to \<^verbatim>\<open>dir_bin\<close>, and hands out identifiers in
  order.  The steps of the extractor form a calculus: what holds of the basic steps and is
  reflexive and transitive holds of every composition of them.  The assembler reads back
  exactly the records.
\<close>

section \<open>Compositions of steps\<close>

definition obeys :: "(vmap_context \<Rightarrow> bool) \<Rightarrow> (vmap_context \<Rightarrow> vmap_context \<Rightarrow> bool) \<Rightarrow> 'a vx \<Rightarrow> bool" where
  "obeys I R m \<longleftrightarrow> (\<forall>c x c'. I c \<longrightarrow> m c = Inr (x, c') \<longrightarrow> R c c')"

lemma obeysI: "(\<And>c x c'. I c \<Longrightarrow> m c = Inr (x, c') \<Longrightarrow> R c c') \<Longrightarrow> obeys I R m"
  by (simp add: obeys_def)

lemma obeysD: "obeys I R m \<Longrightarrow> I c \<Longrightarrow> m c = Inr (x, c') \<Longrightarrow> R c c'"
  by (simp add: obeys_def)

locale step_order =
  fixes I :: "vmap_context \<Rightarrow> bool" and R :: "vmap_context \<Rightarrow> vmap_context \<Rightarrow> bool"
  assumes refl: "R c c"
    and trans: "R a b \<Longrightarrow> R b c \<Longrightarrow> R a c"
    and stable: "I c \<Longrightarrow> R c c' \<Longrightarrow> I c'"
begin

lemma ret: "obeys I R (ret_vx x)"
  by (simp add: obeys_def refl)

lemma bind: "obeys I R m \<Longrightarrow> (\<And>x. obeys I R (k x)) \<Longrightarrow> obeys I R (bind_vx m k)"
  unfolding obeys_def bind_vx_Inr by (metis trans stable)

lemma for_loop: "(\<And>x. obeys I R (f x)) \<Longrightarrow> obeys I R (for_vx f xs)"
  by (induction xs) (simp_all add: ret bind)

text \<open>A loop whose state has the context as its second part.\<close>

lemma for_each_state:
  assumes "\<And>x s c s' c'. I c \<Longrightarrow> f x (s, c) = Inr (s', c') \<Longrightarrow> R c c'"
  shows "I c \<Longrightarrow> for_each f xs (s, c) = Inr (s', c') \<Longrightarrow> R c c'"
proof (induction xs arbitrary: s c)
  case (Cons x xs)
  then obtain s1 c1 where "f x (s, c) = Inr (s1, c1)" "for_each f xs (s1, c1) = Inr (s', c')" by auto
  then show ?case using Cons assms trans stable by blast
qed (simp add: refl)

lemma chunk_loop_state:
  assumes "\<And>tag n body s c s' c'. I c \<Longrightarrow> step tag n body (s, c) = Inr (s', c') \<Longrightarrow> R c c'"
  shows "I (snd s) \<Longrightarrow> chunk_loop skip step data pos s = Inr s' \<Longrightarrow> R (snd s) (snd s')"
proof (induction skip step' \<equiv> step data pos s rule: chunk_loop.induct)
  case (1 skip data pos s)
  consider "s' = s" | tag n body s1 where "\<not> pos \<ge> length data" "read_chunk_header (drop pos data) = Inr ((tag, n), body)"
    "step tag n body s = Inr s1" "chunk_loop skip step data (min (pos + 8 + skip tag n) (length data)) s1 = Inr s'"
    using 1(3) by (subst (asm) chunk_loop.simps) (auto split: if_splits sum.splits)
  then show ?case
  proof cases
    case 2
    then have s1: "R (snd s) (snd s1)" using assms [of "snd s" tag n body "fst s" "fst s1" "snd s1"] 1(2) by simp
    have "R (snd s1) (snd s')" by (rule 1(1) [OF 2(1,2) HOL.refl HOL.refl stable [OF 1(2) s1] 2(4)])
    with s1 show ?thesis by (rule trans)
  qed (simp add: refl)
qed

end

section \<open>What a run adds\<close>

text \<open>The identifiers are the numbers from one, one for each pair.\<close>

definition numbered :: "unique_ids \<Rightarrow> bool" where
  "numbered us \<longleftrightarrow> distinct (map fst us) \<and> map snd us = map (\<lambda>i. word_of_nat (i + 1)) [0..<length us]"

text \<open>A record of a file that exists, with an identifier that was given, and bounds if its flags say so.\<close>

definition placed :: "vmap_context \<Rightarrow> instance_record \<Rightarrow> bool" where
  "placed c i \<longleftrightarrow> vc_files c (ir_name i) \<noteq> None \<and> ir_id i \<in> snd ` set (vc_unique_ids c) \<and>
     (ir_bounds i = None \<longleftrightarrow> ir_flags i AND MOD_HAS_BOUND = 0)"

definition kept :: "vmap_context \<Rightarrow> vmap_context \<Rightarrow> bool" where
  "kept c c' \<longleftrightarrow> vc_mpq c' = vc_mpq c \<and> vc_all_files c' = vc_all_files c \<and> dom (vc_files c) \<subseteq> dom (vc_files c') \<and>
     set (vc_unique_ids c) \<subseteq> set (vc_unique_ids c') \<and> (numbered (vc_unique_ids c) \<longrightarrow> numbered (vc_unique_ids c'))"

definition grows :: "vmap_env \<Rightarrow> vmap_context \<Rightarrow> vmap_context \<Rightarrow> bool" where
  "grows E c c' \<longleftrightarrow> kept c c' \<and>
     (\<exists>is. file_contents c' DIR_BIN = file_contents c DIR_BIN @ concat (map (instance_bytes (en_order E)) is) \<and>
       (\<forall>i \<in> set is. placed c' i))"

text \<open>The archives hold no file that would be stored under the name of the directory file.\<close>

definition hides_dir_bin :: "mpq_manager \<Rightarrow> bool" where
  "hides_dir_bin M \<longleftrightarrow> (\<forall>p. DIR_BIN = get_plain_name p \<or> DIR_BIN = normalize_filename (get_plain_name p) \<longrightarrow>
     mpq_open M (list_files M) p = None)"

definition opened_on :: "mpq_manager \<Rightarrow> vmap_context \<Rightarrow> bool" where
  "opened_on M c \<longleftrightarrow> hides_dir_bin M \<and> vc_mpq c = M \<and> vc_all_files c = list_files M"

lemma placed_mono: "placed c i \<Longrightarrow> kept c c' \<Longrightarrow> placed c' i"
  by (force simp: placed_def kept_def)

lemma kept_refl: "kept c c"
  by (simp add: kept_def)

lemma kept_trans: "kept a b \<Longrightarrow> kept b c \<Longrightarrow> kept a c"
  unfolding kept_def by (elim conjE, intro conjI impI) (simp, simp, erule (1) subset_trans, erule (1) subset_trans, simp)

lemma growsI:
  "kept c c' \<Longrightarrow> file_contents c' DIR_BIN = file_contents c DIR_BIN @ concat (map (instance_bytes (en_order E)) rs) \<Longrightarrow>
   (\<And>i. i \<in> set rs \<Longrightarrow> placed c' i) \<Longrightarrow> grows E c c'"
  by (auto simp: grows_def)

lemma grows_refl: "grows E c c"
  by (rule growsI [where rs = "[]"]) (simp_all add: kept_refl)

lemma grows_trans:
  assumes "grows E a b" "grows E b c"
  shows "grows E a c"
proof -
  obtain "is" js where ij: "file_contents b DIR_BIN = file_contents a DIR_BIN @ concat (map (instance_bytes (en_order E)) is)"
    "file_contents c DIR_BIN = file_contents b DIR_BIN @ concat (map (instance_bytes (en_order E)) js)"
    "\<forall>i \<in> set is. placed b i" "\<forall>i \<in> set js. placed c i" and k: "kept a b" "kept b c"
    using assms by (auto simp: grows_def)
  show ?thesis using ij placed_mono [OF _ k(2)] by (intro growsI [OF kept_trans [OF k], where rs = "is @ js"]) auto
qed

interpretation gr: step_order "opened_on M" "grows E" for M E
proof unfold_locales
  show "grows E a b \<Longrightarrow> grows E b c \<Longrightarrow> grows E a c" for a b c by (rule grows_trans)
qed (simp_all add: grows_refl opened_on_def grows_def kept_def)

section \<open>Basic steps\<close>

lemma numbered_add:
  assumes "numbered us" "map_of us k = None"
  shows "numbered (us @ [(k, word_of_nat (length us + 1))])"
  using assms by (auto simp: numbered_def map_of_eq_None_iff)

lemma file_contents_upd: "file_contents (c\<lparr>vc_files := (vc_files c)(name \<mapsto> bs)\<rparr>) name' =
  (if name' = name then bs else file_contents c name')"
  by (simp add: file_contents_def)

lemma grows_upd:
  "name \<noteq> DIR_BIN \<Longrightarrow> grows E c (c\<lparr>vc_files := (vc_files c)(name \<mapsto> bs)\<rparr>)"
  "grows E c (c\<lparr>vc_files := (vc_files c)(DIR_BIN \<mapsto> file_contents c DIR_BIN)\<rparr>)"
  "grows E c (c\<lparr>vc_failed_paths := f\<rparr>)" "grows E c (c\<lparr>vc_wmo_doodads := d\<rparr>)"
  by (auto simp: kept_def file_contents_def intro!: growsI [where rs = "[]"])

lemma grows_create: "create_file E' name bs c = Inr (u, c') \<Longrightarrow> name \<noteq> DIR_BIN \<Longrightarrow> grows E c c'"
  by (auto simp: create_file_def grows_upd split: if_splits)

lemma grows_append: "append_file name bs c = Inr (u, c') \<Longrightarrow> name \<noteq> DIR_BIN \<Longrightarrow> grows E c c'"
  by (auto simp: append_file_def grows_upd)

lemma grows_open_dir: "open_dir_bin E' c = Inr (u, c') \<Longrightarrow> grows E c c'"
  by (auto simp: open_dir_bin_def append_file_def grows_upd split: if_splits)

lemma generate_Inr:
  assumes "generate k d c = Inr (n, c')"
  shows "vc_files c' = vc_files c" "vc_mpq c' = vc_mpq c" "vc_all_files c' = vc_all_files c"
    "map_of (vc_unique_ids c') (k, d) = Some n" "set (vc_unique_ids c) \<subseteq> set (vc_unique_ids c')"
    "numbered (vc_unique_ids c) \<Longrightarrow> numbered (vc_unique_ids c')"
  using assms numbered_add [of "vc_unique_ids c" "(k, d)"]
  by (auto simp: generate_def Let_def map_add_def split: option.splits)

text \<open>An instance whose file exists, under the identifier generated for it.\<close>

lemma grows_write:
  assumes "vc_files c (ir_name i) \<noteq> None" "generate k d c = Inr (ir_id i, c1)" "write_instance E i c1 = Inr (u, c')"
    "ir_bounds i = None \<longleftrightarrow> ir_flags i AND MOD_HAS_BOUND = 0"
  shows "grows E c c'"
proof -
  note g = generate_Inr [OF assms(2)]
  have "(((k, d), ir_id i)) \<in> set (vc_unique_ids c1)" using g(4) by (rule map_of_SomeD)
  then have "ir_id i \<in> snd ` set (vc_unique_ids c1)" by force
  moreover have c': "c' = c1\<lparr>vc_files := (vc_files c1)(DIR_BIN \<mapsto> file_contents c1 DIR_BIN @ instance_bytes (en_order E) i)\<rparr>"
    using assms(3) by (simp add: write_instance_def append_file_def)
  moreover have "kept c c'" using g unfolding c' by (auto simp: kept_def)
  ultimately show ?thesis using assms(1,4) g(1)
    by (intro growsI [where rs = "[i]"]) (auto simp: file_contents_def placed_def)
qed

section \<open>The operations\<close>

abbreviation adds :: "mpq_manager \<Rightarrow> vmap_env \<Rightarrow> 'a vx \<Rightarrow> bool" where
  "adds M E \<equiv> obeys (opened_on M) (grows E)"

lemma adds_model: "adds M E (extract_single_model E orig_path)"
proof (rule obeysI)
  fix c x c' assume "opened_on M c" "extract_single_model E orig_path c = Inr (x, c')"
  then show "grows E c c'"
    by (auto simp: extract_single_model_def Let_def opened_on_def hides_dir_bin_def grows_refl grows_upd bind_vx_Inr
      split: if_splits option.splits dest!: grows_create)
qed

lemma doodad_names_step:
  assumes "doodad_names E data offset valid c = Inr (x, c')"
  obtains "c' = c" | y c1 where "\<not> (offset \<ge> length data \<or> 0 \<notin> set (drop offset data))"
    "extract_single_model E (from_utf8_lossy (takeWhile (\<lambda>b. b \<noteq> 0) (drop offset data))) c = Inr (y, c1)"
    "doodad_names E (take offset data @ fix_blob_name (takeWhile (\<lambda>b. b \<noteq> 0) (drop offset data)) @
       drop (offset + length (takeWhile (\<lambda>b. b \<noteq> 0) (drop offset data))) data)
       (offset + length (takeWhile (\<lambda>b. b \<noteq> 0) (drop offset data)) + 1)
       (if y \<noteq> None \<and> y \<noteq> Some [] then hs_insert (word_of_nat offset) valid else valid) c1 = Inr (x, c')"
proof (cases "offset \<ge> length data \<or> 0 \<notin> set (drop offset data)")
  case True
  then show ?thesis using assms that(1) by (subst (asm) doodad_names.simps) simp
next
  case False
  show ?thesis
    using assms that(2) [OF False] unfolding doodad_names.simps [of E data offset valid c] Let_def if_not_P [OF False]
      bind_result_Inr split_paired_Ex prod.case by blast
qed

lemma adds_doodad_names: "opened_on M c \<Longrightarrow> doodad_names E data offset valid c = Inr (x, c') \<Longrightarrow> grows E c c'"
proof (induction E data offset valid c rule: doodad_names.induct)
  case (1 E data offset valid c)
  from 1(3) show ?case
  proof (cases rule: doodad_names_step)
    case (2 y c1)
    from obeysD [OF adds_model 1(2) 2(2)] have "grows E c c1" .
    from gr.stable [OF 1(2) this] have "opened_on M c1" .
    from 1(1) [OF 2(1) HOL.refl HOL.refl this 2(3)] have "grows E c1 c'" .
    with \<open>grows E c c1\<close> show ?thesis by (rule grows_trans)
  qed (simp add: grows_refl)
qed

lemma adds_root_step:
  assumes "opened_on M c" "root_step E tag n body (r, c) = Inr (r', c')"
  shows "grows E c c'"
proof (cases "tag = ''MODN''")
  case True
  then show ?thesis using assms adds_doodad_names [OF assms(1)] by (auto simp: root_step_def)
next
  case False
  then have "c' = c" using assms(2) by (auto simp: root_step_def split: if_splits prod.splits)
  then show ?thesis by (simp add: grows_refl)
qed

lemma adds_root_open: "adds M E (wmo_root_open E filename)"
proof (rule obeysI)
  fix c x c' assume "opened_on M c" "wmo_root_open E filename c = Inr (x, c')"
  then show "grows E c c'"
    using gr.chunk_loop_state [where s = "(wmo_root_new, c)", OF adds_root_step]
    by (fastforce simp: wmo_root_open_def grows_refl split: option.splits)
qed

lemma root_open_hidden:
  "opened_on M c \<Longrightarrow> normalize_filename (get_plain_name fname) = DIR_BIN \<Longrightarrow> wmo_root_open E fname c = Inr (None, c)"
  by (simp add: wmo_root_open_def opened_on_def hides_dir_bin_def)

lemma adds_wmo: "adds M E (extract_single_wmo E fname)"
proof (rule obeysI)
  fix c x c' assume *: "opened_on M c" "extract_single_wmo E fname c = Inr (x, c')"
  let ?fixed = "normalize_filename (get_plain_name fname)"
  show "grows E c c'"
  proof (cases "?fixed = DIR_BIN \<or> out_exists c ?fixed \<or> is_group_name ?fixed")
    case True
    then have "c' = c" using * root_open_hidden [OF *(1), of fname E] unfolding extract_single_wmo_def Let_def
      by (cases "out_exists c ?fixed \<or> is_group_name ?fixed") simp_all
    then show ?thesis by (simp add: grows_refl)
  next
    case False
    then have "\<not> (out_exists c ?fixed \<or> is_group_name ?fixed)" by blast
    from *(2) [unfolded extract_single_wmo_def Let_def if_not_P [OF this] bind_vx_Inr]
    obtain opened c1 where o: "wmo_root_open E fname c = Inr (opened, c1)" and
      rest: "(case opened of None \<Rightarrow> ret_vx True | Some r \<Rightarrow>
            bind_vx (create_file E ?fixed (write_header (en_order E) 0 (wr_n_groups r) (wr_root_wmo_id r))) (\<lambda>_ c.
            bind_result (for_each (add_wmo_group E c r fname) [0..<unat (wr_n_groups r)]
              \<lparr>bl_triangles = 0, bl_groups = wr_n_groups r, bl_doodads = wr_doodad_data r, bl_bytes = []\<rparr>) (\<lambda>b.
            Inr (True, c\<lparr>vc_files := (vc_files c)(?fixed \<mapsto>
                write_header (en_order E) (bl_triangles b) (bl_groups b) (wr_root_wmo_id r) @ bl_bytes b),
              vc_wmo_doodads := (vc_wmo_doodads c)(?fixed \<mapsto> bl_doodads b)\<rparr>)))) c1 = Inr (x, c')" by blast
    from obeysD [OF adds_root_open *(1) o] have c1: "grows E c c1" .
    show ?thesis
    proof (cases opened)
      case None
      then show ?thesis using rest c1 by simp
    next
      case (Some r)
      then obtain h c2 b d where c2: "create_file E ?fixed h c1 = Inr ((), c2)" and
        c': "c' = c2\<lparr>vc_files := (vc_files c2)(?fixed \<mapsto> b), vc_wmo_doodads := d\<rparr>"
        using rest by (auto simp: bind_vx_Inr)
      have "grows E c1 c2" using grows_create [OF c2] False by simp
      moreover have "grows E c2 c'" unfolding c' using False by (intro grows_trans [OF grows_upd(1) grows_upd(4)]) simp
      ultimately show ?thesis using grows_trans [OF grows_trans [OF c1]] by simp
    qed
  qed
qed

lemma adds_wmos: "adds M E (extract_wmos E)"
proof (rule obeysI)
  fix c x c' assume *: "opened_on M c" "extract_wmos E c = Inr (x, c')"
  have "adds M E (for_vx (\<lambda>fname. if is_group_name (get_plain_name fname) then ret_vx ()
        else bind_vx (extract_single_wmo E fname) (\<lambda>_. ret_vx ())) names)" for names
    by (intro gr.for_loop) (simp add: gr.ret gr.bind adds_wmo)
  from obeysD [OF this *(1) *(2) [unfolded extract_wmos_def]] show "grows E c c'" .
qed

section \<open>Placements\<close>

lemma vertex_count_exists: "read_model_vertex_count E name c = Inr n \<Longrightarrow> vc_files c name \<noteq> None"
  by (auto simp: read_model_vertex_count_def split: option.splits)

lemma spawn_flags_bound:
  "spawn_flags MOD_M2 x y AND MOD_HAS_BOUND = 0" "spawn_flags MOD_HAS_BOUND x y AND MOD_HAS_BOUND \<noteq> 0"
  by (simp_all add: spawn_flags_def MOD_M2_def MOD_HAS_BOUND_def MOD_WORLDSPAWN_def)

lemma adds_model_instance: "adds M E (write_model_instance E m x y name inst)"
proof (rule obeysI)
  fix c u c' assume "write_model_instance E m x y name inst c = Inr (u, c')"
  then consider "c' = c" | n n_id c1 i where "read_model_vertex_count E name c = Inr n" "generate (mi_id inst) 0 c = Inr (n_id, c1)"
    "write_instance E i c1 = Inr (u, c')" "ir_name i = name" "ir_id i = n_id" "ir_bounds i = None"
    "ir_flags i = spawn_flags MOD_M2 x y"
    by (force simp: write_model_instance_def bind_vx_Inr split: if_splits)
  then show "grows E c c'"
  proof cases
    case 2
    then show ?thesis using grows_write [of c i] vertex_count_exists [OF 2(1)] spawn_flags_bound(1) by simp
  qed (simp add: grows_refl)
qed

lemma adds_wmo_instance: "adds M E (write_wmo_instance E m x y name inst)"
proof (rule obeysI)
  fix c u c' assume "write_wmo_instance E m x y name inst c = Inr (u, c')"
  then consider "c' = c" | n n_id c1 i b where "read_model_vertex_count E name c = Inr n"
    "generate (wi_unique_id inst) 0 c = Inr (n_id, c1)"
    "write_instance E i c1 = Inr (u, c')" "ir_name i = name" "ir_id i = n_id" "ir_bounds i = Some b"
    "ir_flags i = spawn_flags MOD_HAS_BOUND x y"
    by (force simp: write_wmo_instance_def bind_vx_Inr split: if_splits)
  then show "grows E c c'"
  proof cases
    case 2
    then show ?thesis using grows_write [of c i] vertex_count_exists [OF 2(1)] spawn_flags_bound(2) by simp
  qed (simp add: grows_refl)
qed

lemma doodad_instance_fields:
  "ir_name (doodad_instance X m x y wmo spawn name n) = name" "ir_id (doodad_instance X m x y wmo spawn name n) = n"
  "ir_bounds (doodad_instance X m x y wmo spawn name n) = None"
  "ir_flags (doodad_instance X m x y wmo spawn name n) = spawn_flags MOD_M2 x y"
  by (simp_all add: doodad_instance_def Let_def split: prod.split)

lemma adds_doodad:
  assumes "doodad_step E m x y d wmo s reference (k, c) = Inr (k', c')"
  shows "grows E c c'"
proof -
  consider "c' = c" | n n_id c1 spawn name u where "read_model_vertex_count E name c = Inr n"
    "generate (wi_unique_id wmo) (k + 1) c = Inr (n_id, c1)"
    "write_instance E (doodad_instance (en_math E) m x y wmo spawn name n_id) c1 = Inr (u, c')"
    using assms by (fastforce simp: doodad_step_def split: if_splits option.splits)
  then show "grows E c c'"
  proof cases
    case 2
    then show ?thesis
      using grows_write [of c "doodad_instance (en_math E) m x y wmo spawn name n_id"] vertex_count_exists [OF 2(1)]
        spawn_flags_bound(1) by (simp add: doodad_instance_fields)
  qed (simp add: grows_refl)
qed

lemma adds_doodad_set: "adds M E (extract_doodad_set E m x y d wmo)"
proof (rule obeysI)
  fix c u c' assume *: "opened_on M c" "extract_doodad_set E m x y d wmo c = Inr (u, c')"
  show "grows E c c'"
  proof (cases "nth_opt (dd_sets d) (unat (wi_doodad_set wmo))")
    case None
    then show ?thesis using *(2) by (simp add: extract_doodad_set_def grows_refl)
  next
    case (Some s)
    then obtain k' where "for_each (doodad_step E m x y d wmo s) (en_hash_order E (dd_references d)) (0, c) = Inr (k', c')"
      using *(2) by (auto simp: extract_doodad_set_def)
    then show ?thesis by (rule gr.for_each_state [OF adds_doodad *(1), rotated -1])
  qed
qed

lemma adds_place_wmo: "adds M E (place_wmo E m x y names p)"
proof -
  have "adds M E (\<lambda>c. case vc_wmo_doodads c name of None \<Rightarrow> Inr ((), c) | Some d \<Rightarrow> extract_doodad_set E m x y d inst c)"
    for name inst
    using adds_doodad_set by (auto simp: obeys_def grows_refl split: option.splits)
  then show ?thesis unfolding place_wmo_def
    by (cases p) (simp add: gr.ret gr.bind adds_wmo_instance split: option.split)
qed

lemma adds_open_dir: "adds M E (open_dir_bin E)"
  using grows_open_dir by (auto simp: obeys_def)

lemma adds_global_wmo: "adds M E (parse_wdt_global_wmo E m w)"
  unfolding parse_wdt_global_wmo_def
  by (auto simp: Let_def intro!: gr.ret gr.bind gr.for_loop adds_open_dir adds_place_wmo split: option.splits)

lemma adds_models: "adds M E (extract_models E models)"
proof (induction models)
  case (Cons model models)
  then show ?case unfolding extract_models.simps Let_def by (intro gr.bind gr.ret adds_model)
qed (simp only: extract_models.simps gr.ret)

lemma adds_place_model: "adds M E (place_model E m x y names p)"
  unfolding place_model_def by (cases p) (simp add: gr.ret adds_model_instance split: option.split)

lemma adds_adt_tile: "adds M E (parse_adt_tile E m x y parsed)"
  unfolding parse_adt_tile_def
  by (auto intro!: gr.ret gr.bind gr.for_loop adds_models adds_open_dir adds_place_model adds_place_wmo split: parsed_models.splits)

lemma adds_tile_at: "adds M E (parse_tile_at E P m wdt xy)"
  using adds_adt_tile [unfolded obeys_def]
  by (auto simp: obeys_def parse_tile_at_def grows_refl split: option.splits sum.splits if_splits prod.splits)

lemma adds_map: "adds M E (parse_map E P m)"
proof -
  have "adds M E (bind_vx (case wdt of None \<Rightarrow> ret_vx () | Some w \<Rightarrow> parse_wdt_global_wmo E (me_id m) w) (\<lambda>_.
      for_vx (parse_tile_at E P m wdt) (pairs 64 64)))" for wdt
    by (intro gr.bind gr.for_loop adds_tile_at) (simp add: gr.ret adds_global_wmo split: option.split)
  then show ?thesis unfolding parse_map_def obeys_def Let_def by blast
qed

lemma adds_maps: "adds M E (parse_maps E P maps)"
  by (simp add: parse_maps_def gr.for_loop adds_map)

lemma adds_gameobject_model: "adds M E (gameobject_model E path)"
  by (auto simp: gameobject_model_def Let_def intro!: gr.ret gr.bind adds_wmo adds_model)

lemma adds_gameobject: "adds M E (gameobject_step E dbc idx)"
proof -
  have "adds M E (append_file TEMP_GAMEOBJECT_LIST bs)" for bs
    using grows_append [of TEMP_GAMEOBJECT_LIST] by (auto simp: obeys_def TEMP_GAMEOBJECT_LIST_def DIR_BIN_def)
  then have "adds M E (\<lambda>c. case name of None \<Rightarrow> Inr ((), c) | Some name \<Rightarrow> bind_result (get_u32 (row dbc idx) 0) (\<lambda>display_id.
           append_file TEMP_GAMEOBJECT_LIST
             (enc_u32 (en_order E) (unwrap_or 0 display_id) @ enc_u32 (en_order E) (word_of_nat (length name)) @ as_bytes name) c))"
    for name by (auto simp: obeys_def grows_refl split: option.splits)
  then have "adds M E (bind_vx (gameobject_model E path) (\<lambda>name c. case name of None \<Rightarrow> Inr ((), c) | Some name \<Rightarrow>
        bind_result (get_u32 (row dbc idx) 0) (\<lambda>display_id. append_file TEMP_GAMEOBJECT_LIST
             (enc_u32 (en_order E) (unwrap_or 0 display_id) @ enc_u32 (en_order E) (word_of_nat (length name)) @ as_bytes name) c)))"
    for path by (intro gr.bind adds_gameobject_model)
  then show ?thesis by (auto simp: obeys_def gameobject_step_def Let_def grows_refl split: if_splits)
qed

lemma adds_gameobjects: "adds M E (extract_gameobject_models E)"
proof -
  have "adds M E (create_file E TEMP_GAMEOBJECT_LIST [])"
    using grows_create [of E TEMP_GAMEOBJECT_LIST] by (auto simp: obeys_def TEMP_GAMEOBJECT_LIST_def DIR_BIN_def)
  then have "adds M E (bind_vx (create_file E TEMP_GAMEOBJECT_LIST []) (\<lambda>_. for_vx (gameobject_step E dbc) rows))" for dbc rows
    by (intro gr.bind gr.for_loop adds_gameobject)
  then show ?thesis by (auto simp: obeys_def extract_gameobject_models_def)
qed

section \<open>What the assembler reads back\<close>

definition spawn_of :: "instance_record \<Rightarrow> model_spawn" where
  "spawn_of i = \<lparr>ms_flags = ir_flags i, ms_adt_id = ir_name_set i, ms_id = ir_id i, ms_pos = ir_pos i, ms_rot = ir_rot i,
     ms_scale = ir_scale i, ms_bound = ir_bounds i, ms_name = ir_name i\<rparr>"

definition add_instance :: "instance_record \<Rightarrow> map_data \<Rightarrow> map_data" where
  "add_instance i = add_spawn (ir_map i) (ir_tile_x i) (ir_tile_y i) (spawn_of i)"

text \<open>A name of at most 500 bytes of valid UTF-8.\<close>

definition short_name :: "string \<Rightarrow> bool" where
  "short_name name \<longleftrightarrow> length name \<le> 500 \<and> from_utf8_lossy (as_bytes name) = name"

lemma instance_bytes_spawn:
  "instance_bytes B i = enc_u32 B (ir_map i) @ enc_u32 B (ir_tile_x i) @ enc_u32 B (ir_tile_y i) @
     model_spawn_write_to B (spawn_of i)"
  by (simp add: instance_bytes_def model_spawn_write_to_def spawn_of_def write_aabox_def split: option.split)

context little_endian
begin

lemma read_instances:
  "\<forall>i \<in> set rs. wf_spawn (spawn_of i) \<Longrightarrow>
   read_map_spawns B (concat (map (instance_bytes B) rs)) md = Inr (fold add_instance rs md)"
proof (induction rs arbitrary: md)
  case Nil
  show ?case by (subst read_map_spawns.simps) (simp add: rd_u32_def take_rd_def bind_rd_def)
next
  case (Cons i rs)
  have t: "read_tile B (enc_u32 B x @ enc_u32 B y @ r) = Inr ((x, y), r)" for x y r by (simp add: read_tile_def)
  show ?case using Cons
    by (subst read_map_spawns.simps) (simp add: instance_bytes_spawn [of B i] t rd_model_spawn add_instance_def [of i])
qed

end

definition vmap_archives :: "vmap_dirs \<Rightarrow> vmap_extract_args \<Rightarrow> path list" where
  "vmap_archives D args =
     map (\<lambda>a. build_path (va_data_path args) [a]) (build_archive_list (vd_is_dir D) (vd_exists D))"

lemma run_grows:
  assumes "open_archives disk (vmap_archives D args) mpq_new = Inr M" "hides_dir_bin M" "run_vmap_extract E P disk D args = Inr c"
  shows "\<exists>c0. vc_unique_ids c0 = [] \<and> file_contents c0 DIR_BIN = [] \<and> grows E c0 c"
proof -
  let ?c0 = "\<lparr>vc_mpq = M, vc_all_files = list_files M, vc_precise = va_large args \<and> \<not> va_small args,
              vc_files = vd_output D, vc_unique_ids = [], vc_wmo_doodads = Map.empty, vc_failed_paths = []\<rparr>"
  have "adds M E (bind_vx (parse_maps E P maps) (\<lambda>_. extract_gameobject_models E))" for maps
    by (intro gr.bind adds_maps adds_gameobjects)
  then have "adds M E (\<lambda>c. bind_result (read_map_dbc M) (\<lambda>maps. bind_vx (parse_maps E P maps) (\<lambda>_. extract_gameobject_models E) c))"
    by (auto simp: obeys_def)
  then have run: "adds M E (bind_vx (extract_wmos E) (\<lambda>_ c. bind_result (read_map_dbc M) (\<lambda>maps.
      bind_vx (parse_maps E P maps) (\<lambda>_. extract_gameobject_models E) c)))"
    by (intro gr.bind adds_wmos)
  obtain u where "bind_vx (extract_wmos E) (\<lambda>_ c. bind_result (read_map_dbc M) (\<lambda>maps.
      bind_vx (parse_maps E P maps) (\<lambda>_. extract_gameobject_models E) c)) ?c0 = Inr (u, c)" "vd_output D DIR_BIN = None"
    using assms(1,3) unfolding run_vmap_extract_def vmap_archives_def by (auto split: if_splits)
  moreover have "opened_on M ?c0" using assms(2) by (simp add: opened_on_def)
  ultimately show ?thesis using obeysD [OF run] by (intro exI [of _ ?c0]) (simp add: file_contents_def)
qed

text \<open>C24: every placement the extractor records reaches the assembler.  After a run of the
  extractor the directory file is a sequence of whole records; each names an extracted model and
  has an identifier the run has given, and the identifiers are the numbers from one, one for each
  pair of a client's number and a doodad.  The assembler's reader accepts the file and adds
  exactly these records, in their order.  The archives are assumed to hold no file that is stored
  as \<^verbatim>\<open>dir_bin\<close>, and the file names of the output directory to be short.\<close>

theorem placements_reach_assembler:
  assumes "little_endian (en_order E)" "open_archives disk (vmap_archives D args) mpq_new = Inr M" "hides_dir_bin M"
    and "run_vmap_extract E P disk D args = Inr c" "\<forall>name \<in> dom (vc_files c). short_name name"
  shows "\<exists>rs. file_contents c DIR_BIN = concat (map (instance_bytes (en_order E)) rs) \<and> list_all (placed c) rs \<and>
    numbered (vc_unique_ids c) \<and> read_map_spawns (en_order E) (file_contents c DIR_BIN) [] = Inr (fold add_instance rs [])"
proof -
  obtain c0 where c0: "vc_unique_ids c0 = []" "file_contents c0 DIR_BIN = []" "grows E c0 c"
    using run_grows [OF assms(2-4)] by blast
  then obtain rs where rs: "file_contents c DIR_BIN = concat (map (instance_bytes (en_order E)) rs)" "\<forall>i \<in> set rs. placed c i"
    "numbered (vc_unique_ids c)" by (auto simp: grows_def kept_def numbered_def)
  have "\<forall>i \<in> set rs. wf_spawn (spawn_of i)"
    using rs(2) assms(5) by (auto simp: placed_def wf_spawn_def spawn_of_def short_name_def)
  with rs show ?thesis using little_endian.read_instances [OF assms(1)] by (auto simp: list_all_iff)
qed

section \<open>A run\<close>

text \<open>A client with one map, whose table places one building that has been extracted before.\<close>

definition sample_files :: "(string \<times> bytes) list" where
  "sample_files = [(''(listfile)'', as_bytes ''a''),
     (client_file ''Map.dbc'', as_bytes ''WDBC'' @ [1,0,0,0, 2,0,0,0, 8,0,0,0, 2,0,0,0] @ [18,2,0,0, 0,0,0,0] @ [66, 0]),
     (client_file ''GameObjectDisplayInfo.dbc'', as_bytes ''WDBC'' @ [0,0,0,0, 1,0,0,0, 4,0,0,0, 0,0,0,0]),
     (world_file ''B'' ''B.wdt'', [1, 1])]"

definition sample_archive :: archive where
  "sample_archive = \<lparr>ar_open_file =
     (\<lambda>f. map_option (\<lambda>data. \<lparr>mf_size = length data, mf_read = (\<lambda>n. Some data)\<rparr>) (map_of sample_files f))\<rparr>"

definition sample_data :: archives_on_disk where
  "sample_data p = (if p = [''Data'', ''common.MPQ''] then Some (Inr sample_archive) else None)"

definition sample_env :: vmap_env where
  "sample_env = \<lparr>en_order = std_byteorder, en_math = \<lparr>ml_sin_cos = (\<lambda>x. (x, x)), ml_cos = id, ml_asin = id, ml_atan2 = (\<lambda>x y. x)\<rparr>,
     en_can_create = (\<lambda>_. True), en_hash_order = id\<rparr>"

definition sample_house :: wmo_instance_data where
  "sample_house = \<lparr>wi_unique_id = 7, wi_position = vec3_new 0x3F800000 0 0, wi_rotation = vec3_default,
     wi_bounds = aabox_default, wi_flags = 0, wi_doodad_set = 0, wi_name_set = 0\<rparr>"

definition sample_wdt :: wdt_file where
  "sample_wdt = \<lparr>wd_has_adt = (\<lambda>x y. None), wd_mwmo = Some [''House.wmo''], wd_modf = Some [(0, sample_house)]\<rparr>"

definition sample_client :: vmap_parsers where
  "sample_client = \<lparr>vp_wdt = (\<lambda>v b. Inr sample_wdt), vp_adt = (\<lambda>b. Inl (Err ''no terrain''))\<rparr>"

definition sample_building :: bytes where
  "sample_building = [0, 0, 0, 0, 0, 0, 0, 0, 1, 0, 0, 0]"

definition sample_dirs :: vmap_dirs where
  "sample_dirs = \<lparr>vd_data_exists = True, vd_is_dir = (\<lambda>d. d = ''enUS''), vd_exists = (\<lambda>f. False),
     vd_output = [''House.wmo'' \<mapsto> sample_building]\<rparr>"

definition sample_args :: vmap_extract_args where
  "sample_args = \<lparr>va_data_path = [''Data''], va_large = False, va_small = True\<rparr>"

lemma sample_opened: "open_archives sample_data (vmap_archives sample_dirs sample_args) mpq_new = Inr [sample_archive]"
  by (simp add: vmap_archives_def sample_dirs_def sample_args_def build_archive_list_def scan_patches_def LANGS_def
    build_path_def open_archive_def sample_data_def mpq_new_def)

lemma sample_listed: "list_files [sample_archive] = [''a'']"
  by (simp add: list_files_def listed_def sample_archive_def sample_files_def) code_simp

lemma sample_open_file: "open_file [sample_archive] f = map_of sample_files f"
  by (auto simp: sample_archive_def sample_files_def)

lemmas dbc_eval = dbc_from_bytes_def dbc_body_def dbc_tables_def dbc_read_u32_def bind_rd_def take_rd_def from_le_bytes_def
  dbc_validate_def mul_u32_def

lemma sample_maps: "read_map_dbc [sample_archive] = Inr [\<lparr>me_id = 530, me_name = ''B''\<rparr>]"
proof -
  have t: "load_table [sample_archive] ''Map.dbc'' = Inr \<lparr>dbc_record_count = 1, dbc_field_count = 2, dbc_record_size = 8,
      dbc_data = [18,2,0,0, 0,0,0,0], dbc_string_table = [66, 0]\<rparr>"
    by (simp add: load_table_def sample_open_file sample_files_def client_file_def world_file_def dbc_eval del: open_file.simps)
  show ?thesis by (simp add: read_map_dbc_def t row_def get_string_def get_u32_def unwrap_or_def from_le_bytes_def) code_simp
qed

lemma sample_objects: "load_table [sample_archive] ''GameObjectDisplayInfo.dbc'' =
  Inr \<lparr>dbc_record_count = 0, dbc_field_count = 1, dbc_record_size = 4, dbc_data = [], dbc_string_table = []\<rparr>"
  by (simp add: load_table_def sample_open_file sample_files_def client_file_def world_file_def dbc_eval del: open_file.simps)

text \<open>The plain name of a path does not depend on its separators.\<close>

lemma plain_name_slashes:
  "get_plain_name (forward_slashes p) = get_plain_name p" "get_plain_name (back_slashes p) = get_plain_name p"
proof -
  have m: "get_plain_name (map g p) = get_plain_name p" if "\<And>x. is_sep (g x) = is_sep x" "\<And>x. \<not> is_sep x \<Longrightarrow> g x = x" for g
  proof -
    have "takeWhile (\<lambda>c. \<not> is_sep c) (map g xs) = takeWhile (\<lambda>c. \<not> is_sep c) xs" for xs
      using that by (induction xs) auto
    then show ?thesis by (simp add: get_plain_name_def rev_map)
  qed
  have r: "replace_char a [b] s = map (\<lambda>x. if x = a then b else x) s" for a b s
    by (induction s) (simp_all add: replace_char_def)
  show "get_plain_name (forward_slashes p) = get_plain_name p" unfolding forward_slashes_def r by (rule m) (auto simp: is_sep_def)
  show "get_plain_name (back_slashes p) = get_plain_name p" unfolding back_slashes_def r by (rule m) (auto simp: is_sep_def)
qed

lemma sample_plain_names:
  "map get_plain_name (map fst sample_files) = [''(listfile)'', ''Map.dbc'', ''GameObjectDisplayInfo.dbc'', ''B.wdt'']"
  by code_simp

lemma sample_normal_names:
  "map normalize_filename [''(listfile)'', ''Map.dbc'', ''GameObjectDisplayInfo.dbc'', ''B.wdt''] =
    [''(Listfile)'', ''Map.dbc'', ''Gameobjectdisplayinfo.dbc'', ''B.wdt'']"
  by code_simp

lemma sample_hides: "hides_dir_bin [sample_archive]"
proof -
  have "mpq_open [sample_archive] [''a''] p = None" if "DIR_BIN = get_plain_name p \<or> DIR_BIN = normalize_filename (get_plain_name p)" for p
  proof -
    have n: "get_plain_name p \<notin> {''(listfile)'', ''Map.dbc'', ''GameObjectDisplayInfo.dbc'', ''B.wdt''}"
      using that sample_normal_names by (auto simp: DIR_BIN_def)
    have "f \<notin> fst ` set sample_files" if "f \<in> set (spellings [''a''] p)" for f
    proof
      assume f: "f \<in> fst ` set sample_files"
      then have "get_plain_name f \<in> set (map get_plain_name (map fst sample_files))" unfolding set_map by (rule imageI)
      then have plain: "get_plain_name f \<in> {''(listfile)'', ''Map.dbc'', ''GameObjectDisplayInfo.dbc'', ''B.wdt''}"
        unfolding sample_plain_names by simp
      have "f \<noteq> ''a''" using f by (auto simp: sample_files_def client_file_def world_file_def)
      then have "get_plain_name f = get_plain_name p" using that plain_name_slashes by (auto simp: spellings_def split: if_splits)
      with plain n show False by simp
    qed
    then have "List.map_filter (\<lambda>f. case open_file [sample_archive] f of
              Some data \<Rightarrow> if length data > 1 then Some data else None | None \<Rightarrow> None) (spellings [''a''] p) = []"
      unfolding sample_open_file by (auto simp: List.map_filter_def filter_empty_conv map_of_eq_None_iff [THEN iffD2])
    then show ?thesis by (simp add: mpq_open_def del: open_file.simps)
  qed
  then show ?thesis by (simp add: hides_dir_bin_def sample_listed)
qed

text \<open>No terrain: all tiles are passed over.\<close>

lemma for_vx_idle: "(\<And>x. x \<in> set xs \<Longrightarrow> f x c = Inr ((), c)) \<Longrightarrow> for_vx f xs c = Inr ((), c)"
  by (induction xs) simp_all

lemma sample_no_terrain: "map_of sample_files (adt_file_name name x y) = None"
proof -
  have "take 4 (rev (adt_file_name name x y)) = ''tda.''" by (simp add: adt_file_name_def world_file_def)
  then have "adt_file_name name x y \<notin> fst ` set sample_files" by (auto simp: sample_files_def client_file_def world_file_def)
  then show ?thesis by (simp add: map_of_eq_None_iff)
qed

definition sample_start :: vmap_context where
  "sample_start = \<lparr>vc_mpq = [sample_archive], vc_all_files = [''a''], vc_precise = False,
     vc_files = [''House.wmo'' \<mapsto> sample_building], vc_unique_ids = [], vc_wmo_doodads = Map.empty, vc_failed_paths = []\<rparr>"

lemma sample_global:
  "\<exists>bs. bs \<noteq> [] \<and> parse_wdt_global_wmo sample_env 530 sample_wdt sample_start =
    Inr ((), sample_start\<lparr>vc_unique_ids := [((7, 0), 1)], vc_files := [''House.wmo'' \<mapsto> sample_building, DIR_BIN \<mapsto> bs]\<rparr>)"
proof -
  have name: "normalize_filename ''House.wmo'' = ''House.wmo''" by code_simp
  have count: "read_model_vertex_count sample_env ''House.wmo'' c = Inr 1" if "vc_files c ''House.wmo'' = Some sample_building" for c
    using that by (simp add: read_model_vertex_count_def sample_env_def std_byteorder_def from_le_bytes_def sample_building_def)
  let ?c1 = "sample_start\<lparr>vc_files := [''House.wmo'' \<mapsto> sample_building, DIR_BIN \<mapsto> []]\<rparr>"
  have "open_dir_bin sample_env sample_start = Inr ((), ?c1)"
    by (simp add: open_dir_bin_def append_file_def file_contents_def sample_env_def sample_start_def DIR_BIN_def)
  moreover obtain i where
    "write_wmo_instance sample_env 530 65 65 ''House.wmo'' sample_house ?c1 =
      Inr ((), sample_start\<lparr>vc_unique_ids := [((7, 0), 1)],
        vc_files := [''House.wmo'' \<mapsto> sample_building, DIR_BIN \<mapsto> instance_bytes (en_order sample_env) i]\<rparr>)"
  proof -
    have "generate (wi_unique_id sample_house) 0 ?c1 = Inr (1, ?c1\<lparr>vc_unique_ids := [((7, 0), 1)]\<rparr>)"
      by (simp add: generate_def sample_house_def sample_start_def)
    moreover have "out_exists ?c1 ''House.wmo''" "wi_flags sample_house AND 1 = 0"
      by (simp_all add: out_exists_def DIR_BIN_def sample_house_def)
    moreover have "read_model_vertex_count sample_env ''House.wmo'' ?c1 = Inr 1" by (rule count) (simp add: DIR_BIN_def)
    ultimately show ?thesis
      by (intro that) (simp add: write_wmo_instance_def write_instance_def append_file_def file_contents_def)
  qed
  moreover have "instance_bytes (en_order sample_env) i \<noteq> []" for i
    using std_le.length_enc(2) [of "ir_map i"] by (auto simp: instance_bytes_def sample_env_def simp del: std_le.length_enc(2))
  moreover have "vc_wmo_doodads sample_start = Map.empty" by (simp add: sample_start_def)
  ultimately show ?thesis
    by (intro exI [of _ "instance_bytes (en_order sample_env) i"])
      (simp add: parse_wdt_global_wmo_def sample_wdt_def name place_wmo_def nth_opt_def)
qed

lemma sample_extraction:
  "\<exists>bs c. bs \<noteq> [] \<and> run_vmap_extract sample_env sample_client sample_data sample_dirs sample_args = Inr c \<and>
     vc_files c = [''House.wmo'' \<mapsto> sample_building, DIR_BIN \<mapsto> bs, TEMP_GAMEOBJECT_LIST \<mapsto> []]"
proof -
  obtain bs c1 where bs: "bs \<noteq> []" "parse_wdt_global_wmo sample_env 530 sample_wdt sample_start = Inr ((), c1)"
    and c1: "c1 = sample_start\<lparr>vc_unique_ids := [((7, 0), 1)], vc_files := [''House.wmo'' \<mapsto> sample_building, DIR_BIN \<mapsto> bs]\<rparr>"
    using sample_global by auto
  have mpq: "vc_mpq sample_start = [sample_archive]" "vc_mpq c1 = [sample_archive]" by (simp_all add: sample_start_def c1)
  let ?B = "\<lparr>me_id = 530, me_name = ''B''\<rparr>"
  have "map_of sample_files (world_file ''B'' ''B.wdt'') = Some [1, 1]" by (simp add: sample_files_def client_file_def world_file_def)
  moreover have "for_vx (parse_tile_at sample_env sample_client ?B wdt) xys c1 = Inr ((), c1)" for wdt xys
    by (rule for_vx_idle) (auto simp: parse_tile_at_def mpq sample_open_file sample_no_terrain simp del: open_file.simps)
  ultimately have maps: "parse_maps sample_env sample_client [?B] sample_start = Inr ((), c1)"
    using bs(2) by (simp add: parse_maps_def parse_map_def mpq sample_open_file read_wdt_file_def sample_client_def del: open_file.simps)
  have objects: "extract_gameobject_models sample_env c1 =
      Inr ((), c1\<lparr>vc_files := (vc_files c1)(TEMP_GAMEOBJECT_LIST \<mapsto> [])\<rparr>)"
    by (simp add: extract_gameobject_models_def mpq sample_objects create_file_def sample_env_def TEMP_GAMEOBJECT_LIST_def)
  have wmos: "extract_wmos sample_env sample_start = Inr ((), sample_start)"
    by (simp add: extract_wmos_def mpq sample_listed ends_with_def)
  have "run_vmap_extract sample_env sample_client sample_data sample_dirs sample_args =
      Inr (c1\<lparr>vc_files := (vc_files c1)(TEMP_GAMEOBJECT_LIST \<mapsto> [])\<rparr>)"
    using sample_opened maps objects wmos
    by (simp add: run_vmap_extract_def vmap_archives_def sample_dirs_def sample_args_def sample_listed sample_maps DIR_BIN_def
      flip: sample_start_def)
  then show ?thesis using bs(1) 
    by (intro exI [of _ bs] exI [of _ "c1\<lparr>vc_files := (vc_files c1)(TEMP_GAMEOBJECT_LIST \<mapsto> [])\<rparr>"]) (simp add: c1)
qed

theorem placements_reach_assembler_witness:
  "\<exists>c rs. run_vmap_extract sample_env sample_client sample_data sample_dirs sample_args = Inr c \<and> rs \<noteq> [] \<and>
     file_contents c DIR_BIN = concat (map (instance_bytes std_byteorder) rs) \<and> list_all (placed c) rs \<and>
     numbered (vc_unique_ids c) \<and> read_map_spawns std_byteorder (file_contents c DIR_BIN) [] = Inr (fold add_instance rs [])"
proof -
  obtain bs c where c: "bs \<noteq> []" "run_vmap_extract sample_env sample_client sample_data sample_dirs sample_args = Inr c"
    "vc_files c = [''House.wmo'' \<mapsto> sample_building, DIR_BIN \<mapsto> bs, TEMP_GAMEOBJECT_LIST \<mapsto> []]"
    using sample_extraction by blast
  have order: "en_order sample_env = std_byteorder" by (simp add: sample_env_def)
  have "short_name ''House.wmo''" "short_name DIR_BIN" "short_name TEMP_GAMEOBJECT_LIST"
    unfolding short_name_def by code_simp+
  then have "\<forall>name \<in> dom (vc_files c). short_name name" by (simp add: c(3))
  moreover have "little_endian (en_order sample_env)" unfolding order by unfold_locales
  moreover have contents: "file_contents c DIR_BIN = bs" by (simp add: file_contents_def c(3) DIR_BIN_def TEMP_GAMEOBJECT_LIST_def)
  ultimately obtain rs where rs: "bs = concat (map (instance_bytes std_byteorder) rs)" "list_all (placed c) rs"
    "numbered (vc_unique_ids c)" "read_map_spawns std_byteorder bs [] = Inr (fold add_instance rs [])"
    using placements_reach_assembler [OF _ sample_opened sample_hides c(2)] unfolding order by auto
  then have "rs \<noteq> []" using c(1) by auto
  with rs(2-4) c(2) show ?thesis
    by (intro exI [of _ c] exI [of _ rs]) (simp only: contents rs(1) simp_thms)
qed

end
