(* ===== verification/Vmap_Extract_Correct.thy ===== *)
theory Vmap_Extract_Correct
  imports Vmap_Placements
begin

text \<open>
  Further properties of the collision model extractor: the identifiers of models are those
  of their names' numbers, so that placements of one number are one spawn for the
  assembler.
\<close>

section \<open>Identifiers of models\<close>

definition model_record :: "u32 \<Rightarrow> u32 \<Rightarrow> u32 \<Rightarrow> string \<Rightarrow> u32 \<Rightarrow> model_instance_data \<Rightarrow> instance_record" where
  "model_record m x y name n inst =
     \<lparr>ir_map = m, ir_tile_x = x, ir_tile_y = y, ir_flags = spawn_flags MOD_M2 x y, ir_name_set = 0, ir_id = n,
      ir_pos = fix_coords (mi_position inst), ir_rot = mi_rotation inst,
      ir_scale = f32_div (f32_of_nat (unat (mi_scale inst))) 0x44800000, ir_bounds = None, ir_name = name\<rparr>"

text \<open>A model that has been extracted, with vertices.\<close>

definition extracted :: "vmap_env \<Rightarrow> vmap_context \<Rightarrow> string \<Rightarrow> bool" where
  "extracted E c name \<longleftrightarrow> name \<noteq> DIR_BIN \<and> (\<exists>n. read_model_vertex_count E name c = Inr n \<and> n \<noteq> 0)"

lemma generate_total: "\<exists>n c1. generate k d c = Inr (n, c1)"
  by (auto simp: generate_def Let_def split: option.split)

lemma generate_again: "map_of (vc_unique_ids c) (k, d) = Some n \<Longrightarrow> generate k d c = Inr (n, c)"
  by (simp add: generate_def)

text \<open>The placement of an extracted model appends one record.\<close>

lemma place_model_extracted:
  assumes "nth_opt names k = Some name" "extracted E c name"
  shows "\<exists>n c1. generate (word_of_nat k) 0 c = Inr (n, c1) \<and>
    place_model E m x y names (k, inst) c = append_file DIR_BIN (instance_bytes (en_order E) (model_record m x y name n inst)) c1"
proof -
  obtain n c1 where g: "generate (word_of_nat k) 0 c = Inr (n, c1)" using generate_total by blast
  obtain v where v: "read_model_vertex_count E name c = Inr v" "v \<noteq> 0" using assms(2) by (auto simp: extracted_def)
  then have "out_exists c name" using vertex_count_exists by (simp add: out_exists_def)
  with v assms(1) g show ?thesis by (simp add: place_model_def write_model_instance_def write_instance_def model_record_def)
qed

text \<open>C27: placements with the same number of a name share their identifier, on whatever tile they
  stand and whatever model the number names there, and the assembler keeps the first of them only:
  the other tile refers to the first model at the first place.\<close>

theorem shared_index_loses_placement:
  assumes "nth_opt names k = Some name" "nth_opt names' k = Some name'" "extracted E c name" "extracted E c name'"
  shows "\<exists>c1 c2 i j. place_model E m x y names (k, inst) c = Inr ((), c1) \<and> place_model E m x' y' names' (k, inst') c1 = Inr ((), c2) \<and>
    file_contents c2 DIR_BIN = file_contents c DIR_BIN @ instance_bytes (en_order E) i @ instance_bytes (en_order E) j \<and>
    (ir_name i, ir_pos i) = (name, fix_coords (mi_position inst)) \<and> (ir_name j, ir_pos j) = (name', fix_coords (mi_position inst')) \<and>
    fold add_instance [i, j] [] = [(m, \<lparr>unique_entries = [(ir_id i, spawn_of i)],
      tile_entries = [(pack_tile_id x y, ir_id i), (pack_tile_id x' y', ir_id i)]\<rparr>)]"
proof -
  obtain n c0 where g: "generate (word_of_nat k) 0 c = Inr (n, c0)" and
    p: "place_model E m x y names (k, inst) c = append_file DIR_BIN (instance_bytes (en_order E) (model_record m x y name n inst)) c0"
    using place_model_extracted [OF assms(1,3)] by blast
  note g = generate_Inr [OF g]
  let ?i = "model_record m x y name n inst" and ?j = "model_record m x' y' name' n inst'"
  let ?c1 = "c0\<lparr>vc_files := (vc_files c0)(DIR_BIN \<mapsto> file_contents c0 DIR_BIN @ instance_bytes (en_order E) ?i)\<rparr>"
  have "extracted E ?c1 name'" using assms(4) g(1) by (simp add: extracted_def read_model_vertex_count_def)
  moreover have "generate (word_of_nat k) 0 ?c1 = Inr (n, ?c1)" using g(4) by (intro generate_again) simp
  ultimately have q: "place_model E m x' y' names' (k, inst') ?c1 = append_file DIR_BIN (instance_bytes (en_order E) ?j) ?c1"
    using place_model_extracted [OF assms(2)] by fastforce
  have "fold add_instance [?i, ?j] [] = [(m, \<lparr>unique_entries = [(n, spawn_of ?i)],
      tile_entries = [(pack_tile_id x y, n), (pack_tile_id x' y', n)]\<rparr>)]"
    by (simp add: add_instance_def add_spawn_def model_record_def spawn_of_def map_spawns_default_def btm_or_insert_def btm_get_def)
  then show ?thesis using p q g(1)
    by (intro exI [of _ ?c1] exI [of _ "?c1\<lparr>vc_files := (vc_files ?c1)(DIR_BIN \<mapsto> file_contents ?c1 DIR_BIN @ instance_bytes (en_order E) ?j)\<rparr>"]
      exI [of _ ?i] exI [of _ ?j]) (simp add: append_file_def file_contents_def model_record_def)
qed

definition two_models :: vmap_context where
  "two_models = sample_start\<lparr>vc_files := [''Tree.m2'' \<mapsto> sample_building, ''Rock.m2'' \<mapsto> sample_building]\<rparr>"

definition sample_model_at :: "f32 \<Rightarrow> model_instance_data" where
  "sample_model_at p = \<lparr>mi_id = 0, mi_position = vec3_new p 0 p, mi_rotation = vec3_default, mi_scale = 1024\<rparr>"

theorem shared_index_loses_placement_witness:
  "\<exists>c1 c2 i j. place_model sample_env 0 31 31 [''Tree.m2''] (0, sample_model_at 0x3F800000) two_models = Inr ((), c1) \<and>
    place_model sample_env 0 32 32 [''Rock.m2''] (0, sample_model_at 0x40000000) c1 = Inr ((), c2) \<and>
    file_contents c2 DIR_BIN = file_contents two_models DIR_BIN @ instance_bytes (en_order sample_env) i @ instance_bytes (en_order sample_env) j \<and>
    (ir_name i, ir_pos i) = (''Tree.m2'', fix_coords (mi_position (sample_model_at 0x3F800000))) \<and>
    (ir_name j, ir_pos j) = (''Rock.m2'', fix_coords (mi_position (sample_model_at 0x40000000))) \<and>
    fold add_instance [i, j] [] = [(0, \<lparr>unique_entries = [(ir_id i, spawn_of i)],
      tile_entries = [(pack_tile_id 31 31, ir_id i), (pack_tile_id 32 32, ir_id i)]\<rparr>)]"
proof (rule shared_index_loses_placement)
  have "extracted sample_env two_models name" if "name \<in> {''Tree.m2'', ''Rock.m2''}" for name
    using that by (auto simp: extracted_def DIR_BIN_def read_model_vertex_count_def two_models_def sample_env_def std_byteorder_def
      from_le_bytes_def sample_building_def)
  then show "extracted sample_env two_models ''Tree.m2''" "extracted sample_env two_models ''Rock.m2''" by simp_all
qed (simp_all add: nth_opt_def)

end
