(* ===== verification/Vmap_Mesh_Correct.thy ===== *)
theory Vmap_Mesh_Correct
  imports Vmap_Model_Correct
begin

text \<open>
  The mesh of a group of a building.  The extractor keeps the triangles that collide and
  renumbers the vertices they use; the assembler reads back the same triangles, corner for
  corner with the coordinates of the client's file.
\<close>

section \<open>What is kept\<close>

definition client_vertex :: "wmo_group \<Rightarrow> nat \<Rightarrow> vec3" where
  "client_vertex g v = vec3_new (wg_movt g ! (v * 3)) (wg_movt g ! (v * 3 + 1)) (wg_movt g ! (v * 3 + 2))"

definition corners :: "wmo_group \<Rightarrow> nat \<Rightarrow> u16 list" where
  "corners g t = [wg_movi g ! (3 * t), wg_movi g ! (3 * t + 1), wg_movi g ! (3 * t + 2)]"

definition colliding :: "wmo_group \<Rightarrow> nat list" where
  "colliding g = filter (\<lambda>t. is_collision (wg_mopy g ! (2 * t))) [0..<length (wg_mopy g) div 2]"

text \<open>Every triangle has its three corners, and they are vertices.\<close>

definition mesh_ok :: "wmo_group \<Rightarrow> bool" where
  "mesh_ok g \<longleftrightarrow> 3 * (length (wg_mopy g) div 2) \<le> length (wg_movi g) \<and>
     (\<forall>v \<in> set (wg_movi g). unat v < length (wg_movt g) div 3)"

section \<open>Marking\<close>

definition marks :: "nat \<Rightarrow> u16 list \<Rightarrow> int list" where
  "marks n C = map (\<lambda>i. if i \<in> unat ` set C then 1 else - 1) [0..<n]"

text \<open>The state after the corners \<open>C\<close> have been kept, of \<open>n\<close> triangles in all.\<close>

definition kept_corners :: "wmo_group \<Rightarrow> u16 list \<Rightarrow> nat \<Rightarrow> kept_mesh" where
  "kept_corners g C m = \<lparr>km_renum = marks (length (wg_movt g) div 3) C,
     km_movi_ex = C @ replicate (length (wg_mopy g) div 2 * 3 - length C) 0, km_n_col = m\<rparr>"

lemma marks_upd: "unat v < n \<Longrightarrow> (marks n C)[unat v := 1] = marks n (C @ [v])"
  by (rule nth_equalityI) (auto simp: marks_def nth_list_update)

lemma keep_corner_kept:
  assumes "mesh_ok g" "3 * t + j < length (wg_movi g)" "length C = 3 * m + j" "length C < length (wg_mopy g) div 2 * 3"
  shows "keep_corner (wg_movi g) t j (kept_corners g C m) = Inr (kept_corners g (C @ [wg_movi g ! (3 * t + j)]) m)"
proof -
  let ?v = "wg_movi g ! (3 * t + j)" and ?n = "length (wg_mopy g) div 2 * 3"
  have v: "unat ?v < length (wg_movt g) div 3" using assms(1,2) nth_mem by (auto simp: mesh_ok_def)
  obtain k where k: "?n - length C = Suc k" using assms(4) by (metis Suc_diff_Suc)
  have "(C @ replicate (Suc k) 0)[length C := ?v] = (C @ [?v]) @ replicate k 0" by (simp add: list_update_append)
  moreover have "?n - length (C @ [?v]) = k" using k by simp
  moreover have "length (marks (length (wg_movt g) div 3) C) = length (wg_movt g) div 3" by (simp add: marks_def)
  ultimately show ?thesis
    using assms(2-4) v k by (simp add: keep_corner_def kept_corners_def marks_upd)
qed

lemma keep_triangle_kept:
  assumes "mesh_ok g" "t < length (wg_mopy g) div 2" "length C = 3 * m" "m \<le> t" "is_collision (wg_mopy g ! (2 * t))"
  shows "keep_triangle g t (kept_corners g C m) = Inr (kept_corners g (C @ corners g t) (m + 1))"
proof -
  have t: "3 * t + 2 < length (wg_movi g)" "3 * m + 2 < length (wg_mopy g) div 2 * 3" using assms(1,2,4) by (auto simp: mesh_ok_def)
  have k: "for_each (keep_corner (wg_movi g) t) [0, 1, 2] (kept_corners g C m) = Inr (kept_corners g (C @ corners g t) m)"
    using t assms(3) keep_corner_kept [OF assms(1), of t 0 C m] keep_corner_kept [OF assms(1), of t 1 "C @ [wg_movi g ! (3 * t)]" m]
      keep_corner_kept [OF assms(1), of t 2 "C @ [wg_movi g ! (3 * t), wg_movi g ! (3 * t + 1)]" m]
    by (simp add: corners_def)
  show ?thesis unfolding keep_triangle_def k using assms(5) by (simp add: kept_corners_def)
qed

lemma keep_triangles:
  assumes "mesh_ok g" "n \<le> length (wg_mopy g) div 2"
  shows "for_each (keep_triangle g) [0..<n] (kept_corners g [] 0) =
    (let ts = filter (\<lambda>t. is_collision (wg_mopy g ! (2 * t))) [0..<n] in
     Inr (kept_corners g (concat (map (corners g) ts)) (length ts)))"
  using assms(2)
proof (induction n)
  case (Suc n)
  let ?ts = "filter (\<lambda>t. is_collision (wg_mopy g ! (2 * t))) [0..<n]"
  have len: "length (concat (map (corners g) ts)) = 3 * length ts" for ts by (induction ts) (simp_all add: corners_def)
  have "length ?ts \<le> n" using length_filter_le [of _ "[0..<n]"] by simp
  with Suc keep_triangle_kept [OF assms(1), of n "concat (map (corners g) ?ts)" "length ?ts"]
  show ?case by (auto simp: for_each_append Let_def len keep_triangle_def)
qed simp

section \<open>Renumbering\<close>

lemma length_number_marked [simp]: "length (number_marked n vs) = length vs"
  by (induction vs arbitrary: n) simp_all

lemma number_marked_nth:
  "i < length vs \<Longrightarrow> number_marked n vs ! i = (if vs ! i = 1 then n + int (length (filter (\<lambda>v. v = 1) (take i vs))) else vs ! i)"
proof (induction vs arbitrary: n i)
  case (Cons v vs)
  then show ?case by (cases i) auto
qed simp

lemma renumbered:
  assumes "i < n"
  shows "number_marked 0 (marks n C) ! i =
    (if i \<in> unat ` set C then int (length (filter (\<lambda>j. j \<in> unat ` set C) [0..<i])) else - 1)"
proof -
  have "take i (marks n C) = marks i C" using assms by (simp add: marks_def take_map)
  moreover have "filter (\<lambda>v. v = 1) (marks i C) = map (\<lambda>_. 1) (filter (\<lambda>j. j \<in> unat ` set C) [0..<i])"
    unfolding marks_def by (induction i) auto
  moreover have "marks n C ! i = (if i \<in> unat ` set C then 1 else - 1)" "i < length (marks n C)" using assms by (simp_all add: marks_def)
  ultimately show ?thesis by (simp add: number_marked_nth)
qed

text \<open>The vertices in use, in the order of the file.\<close>

definition used :: "nat \<Rightarrow> u16 list \<Rightarrow> nat list" where
  "used n C = filter (\<lambda>j. j \<in> unat ` set C) [0..<n]"

lemma used_nth: "i \<in> unat ` set C \<Longrightarrow> i < n \<Longrightarrow> length (used i C) < length (used n C) \<and> used n C ! length (used i C) = i"
proof -
  assume i: "i \<in> unat ` set C" "i < n"
  then have "[0..<n] = [0..<i] @ i # [Suc i..<n]" using upt_add_eq_append [of 0 i "n - i"] upt_conv_Cons [of i n] by simp
  with i have "used n C = used i C @ i # filter (\<lambda>j. j \<in> unat ` set C) [Suc i..<n]" by (simp add: used_def)
  then show ?thesis by simp
qed

lemma unat_u16: "unat (v :: u16) < 2 ^ 16"
  using unsigned_less [of v] by simp

lemma length_used: "length (used n C) \<le> 2 ^ 16"
proof -
  have "set (used n C) \<subseteq> {0..<2 ^ 16}" using unat_u16 by (force simp: used_def)
  moreover have "distinct (used n C)" by (simp add: used_def)
  ultimately show ?thesis by (metis card_atLeastLessThan card_mono distinct_card finite_atLeastLessThan diff_zero)
qed

definition new_index :: "u16 list \<Rightarrow> u16 \<Rightarrow> u16" where
  "new_index C v = word_of_nat (length (used (unat v) C))"

lemma unat_new_index: "unat (new_index C v) = length (used (unat v) C)"
proof -
  have "length (used (unat v) C) \<le> unat v" using length_filter_le [of _ "[0..<unat v]"] by (simp add: used_def)
  then have "length (used (unat v) C) < 2 ^ 16" using unat_u16 [of v] by (meson le_less_trans)
  then show ?thesis by (simp add: new_index_def unat_of_nat)
qed

lemma renumber_indices:
  assumes "\<forall>v \<in> set vs. unat v < n" "set vs \<subseteq> set C"
  shows "for_each (renumber_index (number_marked 0 (marks n C))) vs out = Inr (out @ map (new_index C) vs)"
  using assms
proof (induction vs arbitrary: out)
  case (Cons v vs)
  have "number_marked 0 (marks n C) ! unat v = int (length (used (unat v) C))"
    using Cons.prems renumbered [of "unat v" n C] by (auto simp: used_def)
  moreover have "unat v < length (number_marked 0 (marks n C))" using Cons.prems by (simp add: marks_def)
  ultimately have "renumber_index (number_marked 0 (marks n C)) v out = Inr (out @ [new_index C v])"
    by (simp add: renumber_index_def new_index_def)
  then show ?case using Cons by simp
qed simp

lemma collision_mesh_kept:
  assumes "mesh_ok g"
  defines "C \<equiv> concat (map (corners g) (colliding g))"
  shows "collision_mesh g = Inr (length (colliding g), map (new_index C) C,
    concat (map (\<lambda>i. [wg_movt g ! (i * 3), wg_movt g ! (i * 3 + 1), wg_movt g ! (i * 3 + 2)]) (used (length (wg_movt g) div 3) C)))"
proof -
  let ?n = "length (wg_mopy g) div 2" and ?v = "length (wg_movt g) div 3"
  have k: "for_each (keep_triangle g) [0..<?n] (kept_corners g [] 0) = Inr (kept_corners g C (length (colliding g)))"
    using keep_triangles [OF assms(1), of ?n] by (simp add: C_def colliding_def Let_def)
  have "marks ?v [] = replicate ?v (- 1)" by (rule nth_equalityI) (simp_all add: marks_def)
  then have start: "\<lparr>km_renum = replicate ?v (- 1), km_movi_ex = replicate (?n * 3) 0, km_n_col = 0\<rparr> = kept_corners g [] 0"
    by (simp add: kept_corners_def)
  have len: "length (concat (map (corners g) ts)) = 3 * length ts" for ts by (induction ts) (simp_all add: corners_def)
  have "set C \<subseteq> set (wg_movi g)" using assms(1) by (auto simp: C_def corners_def colliding_def mesh_ok_def)
  then have "\<forall>v \<in> set C. unat v < ?v" using assms(1) by (auto simp: mesh_ok_def)
  then have r: "for_each (renumber_index (number_marked 0 (marks ?v C))) C [] = Inr (map (new_index C) C)"
    using renumber_indices [of C ?v C "[]"] by simp
  have f: "filter (\<lambda>i. number_marked 0 (marks ?v C) ! i \<ge> 0) [0..<?v] = used ?v C"
    unfolding used_def by (rule filter_cong) (auto simp: renumbered)
  have t: "length C = length (colliding g) * 3" using len [of "colliding g"] by (simp add: C_def)
  show ?thesis unfolding collision_mesh_def Let_def start k bind_result_simps
    by (simp add: kept_corners_def r f t [symmetric])
qed

section \<open>What the assembler reads\<close>

text \<open>The corners of a triangle among vertices.\<close>

definition triangle_at :: "vec3 list \<Rightarrow> mesh_triangle \<Rightarrow> vec3 list" where
  "triangle_at vs t = [vs ! unat (idx0 t), vs ! unat (idx1 t), vs ! unat (idx2 t)]"

lemma unat_ucast_u16: "unat (ucast (v :: u16) :: u32) = unat v"
  using less_trans [OF unat_u16 [of v], of "2 ^ 32"] by (simp add: unsigned_ucast_eq take_bit_nat_eq_self_iff)

lemma triangles_of_corners:
  "map (triangle_at vs) (triangles_of (map ucast (map f (concat (map (corners g) ts))))) =
   map (\<lambda>t. map (\<lambda>v. vs ! unat (f v :: u16)) (corners g t)) ts"
  by (induction ts) (simp_all add: corners_def triangle_at_def unat_ucast_u16)

lemma kept_vertex:
  "v \<in> set C \<Longrightarrow> unat v < n \<Longrightarrow> map (client_vertex g) (used n C) ! unat (new_index C v) = client_vertex g (unat v)"
  using used_nth [of "unat v" C n] by (simp add: unat_new_index)

lemma coords_vertices:
  "concat (map (enc_u32 B) (concat (map (\<lambda>i. [wg_movt g ! (i * 3), wg_movt g ! (i * 3 + 1), wg_movt g ! (i * 3 + 2)]) is))) =
   concat (map (write_vec3 B) (map (client_vertex g) is))"
  by (induction "is") (simp_all add: client_vertex_def vec3_new_def write_vec3_def)

lemma length_moba_ex: "12 dvd length moba \<Longrightarrow> length (moba_ex moba) = length moba div 12"
proof -
  have one: "length (filter (\<lambda>j. j mod 12 = 8) [0..<12 :: nat]) = 1" by code_simp
  have "length (filter (\<lambda>i. i mod 12 = 8) [0..<k * 12]) = k" for k :: nat
  proof (induction k)
    case (Suc k)
    have upt: "[0..<Suc k * 12] = [0..<k * 12] @ map (\<lambda>j. k * 12 + j) [0..<12]"
      using upt_add_eq_append [of 0 "k * 12" 12] map_add_upt [of "k * 12" 12] by (simp add: add.commute)
    have "(\<lambda>j. (k * 12 + j) mod 12 = 8) = (\<lambda>j. j mod 12 = 8)" by (simp add: fun_eq_iff)
    then show ?case unfolding upt filter_append filter_map comp_def length_append length_map using Suc one by simp
  qed simp
  moreover assume "12 dvd length moba"
  then obtain k where "length moba = k * 12" by (metis dvd_def mult.commute)
  ultimately show ?thesis by (simp add: moba_ex_def)
qed

lemma write_collision_kept:
  assumes "mesh_ok g" "length (wg_mopy g) < 2 ^ 29"
  defines "C \<equiv> concat (map (corners g) (colliding g))"
  defines "vs \<equiv> map (client_vertex g) (used (length (wg_movt g) div 3) C)"
  shows "\<exists>isize vsize. write_collision B g = Inr (word_of_nat (length (colliding g)),
    as_bytes ''INDX'' @ enc_u32 B isize @ enc_u32 B (word_of_nat (length C)) @ concat (map (enc_u16 B) (map (new_index C) C)) @
    as_bytes ''VERT'' @ enc_u32 B vsize @ enc_u32 B (word_of_nat (length vs)) @ concat (map (write_vec3 B) vs))"
proof -
  let ?t = "length (colliding g)" and ?v = "length (used (length (wg_movt g) div 3) C)"
  have "?t \<le> length (wg_mopy g) div 2" using length_filter_le [of _ "[0..<length (wg_mopy g) div 2]"] by (simp add: colliding_def)
  then have t: "?t < 2 ^ 28" using assms(2) by simp
  have len: "length (concat (map (corners g) ts)) = length ts * 3" for ts by (induction ts) (simp_all add: corners_def)
  have C: "length C = ?t * 3" by (simp add: C_def len)
  have l3: "length (concat (map (\<lambda>i. [f i, h i, k i]) is)) div 3 = length is" for f h k :: "nat \<Rightarrow> f32" and "is" by (induction "is") simp_all
  have u: "unat (word_of_nat ?t :: u32) = ?t" "unat (word_of_nat ?v :: u32) = ?v"
    using t length_used [of "length (wg_movt g) div 3" C] by (simp_all add: unat_of_nat)
  have m: "mul_u32 2 (word_of_nat ?t) = Inr (word_of_nat (2 * ?t))" "mul_u32 (word_of_nat ?t) 3 = Inr (word_of_nat (?t * 3))"
    using t by (simp_all add: mul_u32_def u(1))
  have u2: "unat (word_of_nat (2 * ?t) :: u32) = 2 * ?t" "unat (word_of_nat (?t * 6) :: u32) = ?t * 6"
    using t by (subst unat_of_nat, simp)+
  have m2: "mul_u32 (word_of_nat (2 * ?t)) 3 = Inr (word_of_nat (?t * 6))" unfolding mul_u32_def u2 using t by simp
  have a: "add_u32 4 (word_of_nat (?t * 6)) = Inr (word_of_nat (4 + ?t * 6))" unfolding add_u32_def u2 using t by simp
  have v: "?v \<le> 2 ^ 16" by (rule length_used)
  have v12: "unat (word_of_nat (?v * 12) :: u32) = ?v * 12" using v by (subst unat_of_nat) simp
  have mv: "mul_u32 (word_of_nat ?v) 12 = Inr (word_of_nat (?v * 12))" unfolding mul_u32_def u using v by simp
  have c: "chunk_size (word_of_nat ?v) 12 = Inr (word_of_nat (4 + ?v * 12))"
    unfolding chunk_size_def mv bind_result_simps add_u32_def v12 using v by simp
  show ?thesis
    unfolding write_collision_def collision_mesh_kept [OF assms(1), folded C_def] bind_result_simps prod.case Let_def l3 m m2 a c
      mesh_chunks_def coords_vertices C vs_def length_map by blast
qed

text \<open>C25: the collision mesh of a group of a building reaches the assembler.  Without precise data the
  extractor writes the triangles that collide with their vertices renumbered, and what the
  assembler reads has, in the same order, exactly these triangles with the corners of the client's
  file, and the group's flags and bounds.  The indices of the client's file are assumed to be in
  range, the batches to be whole, and the group to have no liquid.\<close>

theorem collision_mesh_reaches_assembler:
  assumes "little_endian B" "mesh_ok g" "length (wg_mopy g) < 2 ^ 29" "12 dvd length (wg_moba g)" "length (wg_moba g) < 2 ^ 32"
    and "wg_liquflags g AND 1 = 0" "wg_liquid_verts g = []"
  shows "\<exists>n bytes group. write_group B False r g filename = Inr (n, bytes) \<and> unat n = length (colliding g) \<and>
    read_raw_group B (bytes @ rest) = Inr (group, rest) \<and>
    rg_mogp_flags group = wg_mogp_flags g \<and> rg_group_wmo_id group = wg_group_wmo_id g \<and>
    rg_bounds group = \<lparr>bx_min = wg_bbcorn1 g, bx_max = wg_bbcorn2 g\<rparr> \<and>
    map (triangle_at (rg_vertices group)) (rg_triangles group) = map (\<lambda>t. map (client_vertex g \<circ> unat) (corners g t)) (colliding g)"
proof -
  let ?C = "concat (map (corners g) (colliding g))" and ?n = "length (wg_movt g) div 3"
  let ?vs = "map (client_vertex g) (used ?n ?C)"
  obtain isize vsize where w: "write_collision B g = Inr (word_of_nat (length (colliding g)),
    as_bytes ''INDX'' @ enc_u32 B isize @ enc_u32 B (word_of_nat (length ?C)) @ concat (map (enc_u16 B) (map (new_index ?C) ?C)) @
    as_bytes ''VERT'' @ enc_u32 B vsize @ enc_u32 B (word_of_nat (length ?vs)) @ concat (map (write_vec3 B) ?vs))"
    using write_collision_kept [OF assms(2,3)] by blast
  have t: "length (colliding g) < 2 ^ 28"
    using assms(3) length_filter_le [of _ "[0..<length (wg_mopy g) div 2]"] by (simp add: colliding_def le_less_trans [where y = "length (wg_mopy g) div 2"])
  have "length (concat (map (corners g) ts)) = length ts * 3" for ts by (induction ts) (simp_all add: corners_def)
  then have C: "unat (word_of_nat (length ?C) :: u32) = length ?C" using t by (subst unat_of_nat) simp
  have V: "unat (word_of_nat (length ?vs) :: u32) = length ?vs" using length_used [of ?n ?C] by (subst unat_of_nat) simp
  have M: "unat (word_of_nat (length (wg_moba g) div 12) :: u32) = length (moba_ex (wg_moba g))"
    using assms(4,5) by (subst unat_of_nat) (simp add: length_moba_ex)
  have ok: "v \<in> set ?C \<Longrightarrow> unat v < ?n" for v using assms(2) by (auto simp: mesh_ok_def corners_def colliding_def)
  let ?bytes = "\<lambda>rest. enc_u32 B (wg_mogp_flags g) @ enc_u32 B (wg_group_wmo_id g) @ write_vec3 B (wg_bbcorn1 g) @
    write_vec3 B (wg_bbcorn2 g) @ enc_u32 B (wg_liquflags g) @ as_bytes ''GRP '' @
    enc_u32 B (word_of_nat (length (wg_moba g) div 12 * 4 + 4)) @ enc_u32 B (word_of_nat (length (wg_moba g) div 12)) @
    concat (map (enc_u32 B) (moba_ex (wg_moba g))) @
    as_bytes ''INDX'' @ enc_u32 B isize @ enc_u32 B (word_of_nat (length ?C)) @ concat (map (enc_u16 B) (map (new_index ?C) ?C)) @
    as_bytes ''VERT'' @ enc_u32 B vsize @ enc_u32 B (word_of_nat (length ?vs)) @ concat (map (write_vec3 B) ?vs) @ rest"
  have "write_group B False r g filename = Inr (word_of_nat (length (colliding g)), ?bytes [])"
    unfolding write_group_def Let_def if_False w bind_result_simps prod.case append_assoc by (simp add: write_liquid_def assms(7))
  moreover have "unat (word_of_nat (length (colliding g)) :: u32) = length (colliding g)" using t by (subst unat_of_nat) simp
  moreover have "read_raw_group B (?bytes rest) = Inr (\<lparr>rg_mogp_flags = wg_mogp_flags g, rg_group_wmo_id = wg_group_wmo_id g,
      rg_bounds = \<lparr>bx_min = wg_bbcorn1 g, bx_max = wg_bbcorn2 g\<rparr>, rg_liquid_flags = wg_liquflags g,
      rg_triangles = triangles_of (map ucast (map (new_index ?C) ?C)), rg_vertices = ?vs, rg_liquid = None\<rparr>, rest)"
    (is "_ = Inr (?group, rest)")
    by (rule little_endian.read_dry_group [OF assms(1)]) (simp_all only: C V [unfolded length_map] M assms(6) length_map)
  moreover have "map (triangle_at ?vs) (triangles_of (map ucast (map (new_index ?C) ?C))) =
      map (\<lambda>t. map (client_vertex g \<circ> unat) (corners g t)) (colliding g)"
    unfolding triangles_of_corners using kept_vertex [OF _ ok, where C = ?C] by (auto intro!: map_cong)
  moreover have "?bytes [] @ rest = ?bytes rest" by (simp only: append_assoc append_Nil)
  ultimately show ?thesis
    by (intro exI [of _ "word_of_nat (length (colliding g))"] exI [of _ "?bytes []"] exI [of _ ?group])
      (simp only: raw_group.select_convs simp_thms)
qed

text \<open>Two triangles, of which the second collides.\<close>

definition sample_group :: wmo_group where
  "sample_group = wmo_group_new\<lparr>wg_mopy := [0, 0, 8, 0], wg_movi := [0, 1, 2, 2, 1, 3],
     wg_movt := [0, 0, 0, 0x3F800000, 0, 0, 0, 0x3F800000, 0, 0, 0, 0x3F800000]\<rparr>"

theorem collision_mesh_reaches_assembler_witness:
  "\<exists>n bytes group. write_group std_byteorder False wmo_root_new sample_group ''Hut.wmo'' = Inr (n, bytes) \<and> unat n = 1 \<and>
    read_raw_group std_byteorder bytes = Inr (group, []) \<and>
    map (triangle_at (rg_vertices group)) (rg_triangles group) =
      [[vec3_new 0 0x3F800000 0, vec3_new 0x3F800000 0 0, vec3_new 0 0 0x3F800000]]"
proof -
  have "colliding sample_group = [1]" by code_simp
  moreover have "corners sample_group 1 = [2, 1, 3]" by code_simp
  moreover have "map (client_vertex sample_group) [2, 1, 3] =
      [vec3_new 0 0x3F800000 0, vec3_new 0x3F800000 0 0, vec3_new 0 0 0x3F800000]"
    by (simp add: client_vertex_def sample_group_def)
  moreover have "mesh_ok sample_group" by (simp add: mesh_ok_def sample_group_def)
  moreover have "little_endian std_byteorder" by unfold_locales
  moreover have "wg_moba sample_group = []" "wg_liquflags sample_group = 0" "wg_liquid_verts sample_group = []"
    "length (wg_mopy sample_group) = 4" by (simp_all add: sample_group_def wmo_group_new_def)
  ultimately show ?thesis
    using collision_mesh_reaches_assembler [of std_byteorder sample_group wmo_root_new "''Hut.wmo''" "[]"] by auto
qed

end
