(* ===== verification/Spec2Isabelle.thy ===== *)
theory Spec2Isabelle
  imports Auth_Logon Auth_Statements Server Byte_Queue Vmap_Correct Map_Run Terrain_Roundtrip Move_Map_Correct
    Recast_Correct Vmap_Extract_Correct Vmap_Mesh_Correct
begin

text \<open>
  A verification development for the Rust port of CMaNGOS TBC: the authentication server
  (\<^verbatim>\<open>crates/realmd\<close>), the library it shares with other servers (\<^verbatim>\<open>crates/shared\<close>) and the tools that
  extract game data for the world server (\<^verbatim>\<open>crates/extractors\<close>).

  \<^bold>\<open>The program.\<close>  A game client connects to the authentication server, proves its password with
  SRP6, optionally gives a time-based token, and asks for the list of realms.  The server
  keeps accounts and realms in a database, limits connections per address, and refreshes its
  realm list.  The extractors read the archives of the game client and write terrain maps,
  collision models and their spatial index, and from these the meshes on which creatures move.

  \<^bold>\<open>Conventions.\<close>  Integers have their width (\<open>u8\<close> to \<open>u64\<close>, \<open>i32\<close>).  A function that can fail
  returns \<open>rust_error + 'a\<close>: \<open>Err\<close> is an error value the program handles, \<open>Panic\<close> a Rust panic
  (index out of range, overflow of checked arithmetic as in a build with overflow checks,
  failed slice).  Strings are byte sequences.  A loop that may not end is a
  \<open>partial_function\<close> into \<open>option\<close>, and its termination is a theorem; no fuel is used anywhere.
  Code of other crates is a parameter: the hashes and the big-integer arithmetic (\<open>Crates\<close>), the
  SQL engine, the byte order conversions (\<open>Byte_Order\<close>), archives (\<open>Mpq\<close>), the WDT and ADT
  parsers (\<open>Map_Dbc\<close>, \<open>Vmap_Extract\<close>), sine, cosine and their inverses (\<open>Vmap_Assemble\<close>, \<open>Vmap_Names\<close>), Recast and Detour (\<open>Recast\<close>).  What is relied on is a locale with
  the documented laws, interpreted on a concrete instance.

  \<^bold>\<open>Foundations.\<close>
  \<^item> \<open>Prelude\<close>: word and list lemmas, results, little-endian numbers.  \<open>Rust_Std\<close>: UTF-8, trimming,
    splitting, decimal and hexadecimal numbers, floats of rows.  \<open>Crates\<close>: the crates' contracts.
  \<^item> \<open>Ordered_Map\<close>: \<^verbatim>\<open>BTreeMap\<close> with the locale \<open>ordered_map\<close>.  \<open>Arrays\<close>: vectors with index
    panics and counted loops, with the locale \<open>safe_state\<close> for steps that never fail.
  \<^item> \<open>Float32\<close>: IEEE single precision on bit patterns; rounding is monotone and exact.
  \<^item> \<open>Byte_Order\<close>: readers and writers of binary files, with the locale \<open>little_endian\<close>.

  \<^bold>\<open>Shared library.\<close>
  \<^item> \<open>Byte_Buffer\<close> (\<^verbatim>\<open>util/byte_buffer.rs\<close>): the packet buffer and its codecs; \<open>Byte_Queue\<close>: it
    refines a byte queue for every sequence of operations.
  \<^item> \<open>Big_Number\<close>, \<open>Crypto_Hash\<close>, \<open>SRP6_Auth\<close> (\<^verbatim>\<open>auth/*.rs\<close>): SRP6, with agreement of the session
    keys, the safeguard against multiples of the prime, and what a proof must be.
  \<^item> \<open>Base32_Token\<close> (\<^verbatim>\<open>auth/base32.rs\<close> and the token of \<^verbatim>\<open>realmd\<close>): decoding and RFC 6238.
  \<^item> \<open>Config\<close>, \<open>Logging\<close>, \<open>Database_Layer\<close>: settings, levels, escaping and connection strings.

  \<^bold>\<open>Authentication server.\<close>
  \<^item> \<open>Auth_Protocol\<close> (\<^verbatim>\<open>protocol.rs\<close>, \<^verbatim>\<open>auth_codes.rs\<close>): codes and packets, with the locale
    \<open>wire_format\<close>.
  \<^item> \<open>Realm_List\<close> (\<^verbatim>\<open>realm_list.rs\<close>) and \<open>Realm_Packet\<close>: the realm list, its refresh and its packets.
  \<^item> \<open>Auth_World\<close>, \<open>Auth_Logic\<close>, \<open>Auth_Socket\<close>, \<open>Auth_Proof\<close>, \<open>Auth_Client\<close> (\<^verbatim>\<open>auth_socket.rs\<close>): the
    session as a state monad over input, output, clock, random numbers and database; the
    handlers and the dispatch loop, with weakest preconditions and frame rules.
  \<^item> \<open>Auth_Safety\<close>: no session is authenticated without a proof, commands come in order, the
    loop ends.  \<open>Auth_Logon\<close>: an honest client logs in.  \<open>Auth_Statements\<close>: what SQL a client
    can cause.
  \<^item> \<open>Server\<close> (\<^verbatim>\<open>main.rs\<close>): connection limits over sequences of events, and start-up.

  \<^bold>\<open>Extractors.\<close>
  \<^item> \<open>Bih\<close>, \<open>Bih_Search\<close>, \<open>Bih_Correct\<close> (\<^verbatim>\<open>vmap_assemble.rs\<close>): the bounding interval hierarchy; it is
    built for ordinary coordinates, lists every primitive once and answers box queries
    completely.
  \<^item> \<open>Vmap_Format\<close>, \<open>Vmap_Assemble\<close>, \<open>Vmap_Correct\<close> (\<^verbatim>\<open>vmap_assemble.rs\<close>): file formats and the assembler;
    spawns round-trip, every map is written, tiles agree with a reference definition.
  \<^item> \<open>Vmap_Names\<close>, \<open>Vmap_Model\<close>, \<open>Vmap_Wmo\<close>, \<open>Vmap_Building\<close>, \<open>Vmap_Extract\<close> (\<^verbatim>\<open>vmap_extract.rs\<close>): the collision
    model extractor, as steps over the archives, the output directory and the identifiers given so
    far: file names and coordinates, models, the chunks of buildings, their collision meshes and
    liquids, and the placements on the maps.  \<open>Vmap_Placements\<close> has the locale \<open>step_order\<close>, which
    carries a relation between states through all compositions of steps: a run only appends whole
    records, and the assembler reads back exactly these.  \<open>Vmap_Model_Correct\<close> and
    \<open>Vmap_Mesh_Correct\<close>: models and collision meshes reach the assembler with the client's geometry.
    \<open>Vmap_Extract_Correct\<close>: placements of one name's number become one spawn.
  \<^item> \<open>Dbc\<close>, \<open>Mpq\<close> (\<^verbatim>\<open>dbc.rs\<close>, \<^verbatim>\<open>mpq.rs\<close>): client tables and archives; fields are readable, patches
    take precedence.
  \<^item> \<open>Map_Grid\<close>, \<open>Map_File\<close>, \<open>Map_Dbc\<close>, \<open>Map_Correct\<close>, \<open>Map_Run\<close> (\<^verbatim>\<open>map_dbc.rs\<close>): terrain conversion and
    its driver; the section table is right and the extraction never panics.

  \<^item> \<open>Terrain\<close>, \<open>Terrain_Mesh\<close>, \<open>Terrain_Correct\<close>, \<open>Terrain_Roundtrip\<close> (\<^verbatim>\<open>movemap_gen.rs\<close>): a map file
    becomes the mesh of a tile; the mesh is in bounds whatever the file holds, and heights, holes
    and liquid are those the map extractor wrote.
  \<^item> \<open>Vmap_Load\<close>, \<open>Mesh_Build\<close>, \<open>Mesh_Correct\<close> (\<^verbatim>\<open>movemap_gen.rs\<close>): placed models, removal of unused
    vertices, bounds, off-mesh connections and the worker of a tile; the geometry is kept and the
    mesh handed on is in bounds.
  \<^item> \<open>Move_Map\<close>, \<open>Move_Map_Correct\<close> (\<^verbatim>\<open>movemap_gen.rs\<close>): configuration, discovery of tiles and the run;
    the tiles found are those the map extractor wrote.
  \<^item> \<open>Recast\<close>, \<open>Recast_Correct\<close> (\<^verbatim>\<open>movemap_gen.rs\<close>, \<^verbatim>\<open>recast_ffi.rs\<close>): the unsafe code that drives the
    C++ library, as a state monad over the heap of the library.  By Hoare triples over the
    objects that are allocated, nothing is used after it is freed or read out of bounds, and all
    is freed at a normal end.

  \<^bold>\<open>Not modelled.\<close>  What Recast and Detour compute is C++ code and a parameter, as are the parsers of
  terrain and tile tables, the archives and the mathematical library.  What the extractors leave on
  the disk when they end with an error is not described.  Logging output, task scheduling, signal
  handling and the command line, apart from the argument that names a tile and the options that are
  arguments of the runs, are left out: they are calls into \<^verbatim>\<open>tracing\<close>, \<^verbatim>\<open>tokio\<close>, \<^verbatim>\<open>rayon\<close> and \<^verbatim>\<open>clap\<close>.
\<close>

end
